(* ===== verification/Prelude.thy ===== *)
theory Prelude
  imports Complex_Main "HOL-Library.State_Monad" "HOL-Library.Char_ord"
    "HOL-Library.List_Lexorder"
begin

text \<open>
  What every component of the development shares: the reasoning rules for code that threads
  the state of the panel (a weakest-precondition predicate over the library's state monad),
  the early-return combinator of Go's \<open>if err != nil\<close>, and the laws of tables that are
  kept as lists in the order of their integer key.
\<close>

named_theorems wp_rule \<open>one rule per effectful operation, applied backwards\<close>
named_theorems wp_step \<open>rewrite rules that push a postcondition through control flow\<close>
named_theorems table_law \<open>laws of keyed tables\<close>

section \<open>Weakest preconditions over the state monad\<close>

definition wp :: "('s, 'a) state \<Rightarrow> ('a \<Rightarrow> 's \<Rightarrow> bool) \<Rightarrow> 's \<Rightarrow> bool" where
  "wp m Q s = (case run_state m s of (a, s') \<Rightarrow> Q a s')"

lemma wp_return [wp_step]: "wp (State_Monad.return a) Q s = Q a s"
  by (simp add: wp_def)

lemma wp_bind [wp_step]: "wp (State_Monad.bind m f) Q s = wp m (\<lambda>a. wp (f a) Q) s"
  by (simp add: wp_def split: prod.splits)

lemma wp_get [wp_step]: "wp State_Monad.get Q s = Q s s"
  by (simp add: wp_def)

lemma wp_set [wp_step]: "wp (State_Monad.set t) Q s = Q () t"
  by (simp add: wp_def)

lemma wp_if [wp_step]:
  "wp (if b then m else n) Q s = ((b \<longrightarrow> wp m Q s) \<and> (\<not> b \<longrightarrow> wp n Q s))"
  by simp

lemma wp_Let [wp_step]: "wp (let x = e in m x) Q s = wp (m e) Q s"
  by simp

lemma wp_case_option [wp_step]:
  "wp (case x of None \<Rightarrow> m | Some y \<Rightarrow> n y) Q s
    = ((x = None \<longrightarrow> wp m Q s) \<and> (\<forall>y. x = Some y \<longrightarrow> wp (n y) Q s))"
  by (cases x) auto

lemma wp_mono: "wp m P s \<Longrightarrow> (\<And>a t. P a t \<Longrightarrow> Q a t) \<Longrightarrow> wp m Q s"
  by (auto simp: wp_def split: prod.splits)

lemma wp_runI: "(\<And>a t. run_state m s = (a, t) \<Longrightarrow> Q a t) \<Longrightarrow> wp m Q s"
  by (auto simp: wp_def)

lemma wp_run: "wp m Q s \<Longrightarrow> run_state m s = (a, t) \<Longrightarrow> Q a t"
  by (auto simp: wp_def)

text \<open>
  \<open>x, err := m; if err != nil { h }; k\<close>: an operation with an error result, its error
  branch and its continuation.
\<close>

definition attempt ::
  "('s, 'e + 'a) state \<Rightarrow> ('e \<Rightarrow> ('s, 'b) state) \<Rightarrow> ('a \<Rightarrow> ('s, 'b) state) \<Rightarrow> ('s, 'b) state" where
  "attempt m h k = do { r \<leftarrow> m; (case r of Inl e \<Rightarrow> h e | Inr a \<Rightarrow> k a) }"

lemma wp_attempt [wp_step]:
  "wp (attempt m h k) Q s
    = wp m (\<lambda>r t. (\<forall>e. r = Inl e \<longrightarrow> wp (h e) Q t) \<and> (\<forall>a. r = Inr a \<longrightarrow> wp (k a) Q t)) s"
  unfolding attempt_def wp_bind by (rule arg_cong [where f = "\<lambda>P. wp m P s"])
    (auto simp: fun_eq_iff split: sum.splits)

text \<open>\<open>if err != nil { return err }\<close>\<close>

definition and_then :: "('s, 'e + 'a) state \<Rightarrow> ('a \<Rightarrow> ('s, 'e + 'b) state) \<Rightarrow> ('s, 'e + 'b) state" where
  "and_then m k = attempt m (\<lambda>e. State_Monad.return (Inl e)) k"

lemma wp_and_then [wp_step]:
  "wp (and_then m k) Q s
    = wp m (\<lambda>r t. (\<forall>e. r = Inl e \<longrightarrow> Q (Inl e) t) \<and> (\<forall>a. r = Inr a \<longrightarrow> wp (k a) Q t)) s"
  by (simp add: and_then_def wp_attempt wp_return)

text \<open>What is known in the error branch and in the continuation of an operation.\<close>

lemma wp_attemptI:
  assumes "wp m R s" "\<And>e t. R (Inl e) t \<Longrightarrow> wp (h e) Q t" "\<And>a t. R (Inr a) t \<Longrightarrow> wp (k a) Q t"
  shows "wp (attempt m h k) Q s"
  unfolding wp_attempt by (rule wp_mono [OF assms(1)]) (use assms(2,3) in auto)

text \<open>A \<open>for\<close> loop that returns on the first error.\<close>

fun for_each :: "('x \<Rightarrow> ('s, 'e + unit) state) \<Rightarrow> 'x list \<Rightarrow> ('s, 'e + unit) state" where
  "for_each f [] = State_Monad.return (Inr ())"
| "for_each f (x # xs) = and_then (f x) (\<lambda>_. for_each f xs)"

text \<open>A \<open>for\<close> loop that appends one result per element.\<close>

fun map_each :: "('x \<Rightarrow> ('s, 'y) state) \<Rightarrow> 'x list \<Rightarrow> ('s, 'y list) state" where
  "map_each f [] = State_Monad.return []"
| "map_each f (x # xs) = do { y \<leftarrow> f x; ys \<leftarrow> map_each f xs; State_Monad.return (y # ys) }"

lemma wp_for_each_inv:
  assumes "I s"
    and "\<And>x t. x \<in> set xs \<Longrightarrow> I t \<Longrightarrow> wp (f x) (\<lambda>r u. case r of Inl e \<Rightarrow> E e u | Inr _ \<Rightarrow> I u) t"
  shows "wp (for_each f xs) (\<lambda>r u. case r of Inl e \<Rightarrow> E e u | Inr _ \<Rightarrow> I u) s"
  using assms
proof (induction xs arbitrary: s)
  case Nil
  then show ?case by (simp add: wp_step)
next
  case (Cons x xs)
  have "wp (f x) (\<lambda>r u. case r of Inl e \<Rightarrow> E e u | Inr _ \<Rightarrow> I u) s"
    using Cons.prems by simp
  then show ?case
    unfolding for_each.simps wp_and_then
  proof (rule wp_mono)
    fix r t
    assume "case r of Inl e \<Rightarrow> E e t | Inr _ \<Rightarrow> I t"
    with Cons.IH [of t] Cons.prems(2)
    show "(\<forall>e. r = Inl e \<longrightarrow> (case Inl e of Inl e \<Rightarrow> E e t | Inr _ \<Rightarrow> I t)) \<and>
      (\<forall>a. r = Inr a \<longrightarrow> wp (for_each f xs) (\<lambda>r u. case r of Inl e \<Rightarrow> E e u | Inr _ \<Rightarrow> I u) t)"
      by (cases r) simp_all
  qed
qed

section \<open>Tables in key order\<close>

text \<open>
  A table is the list of its rows in the order of an integer key, as an SQLite table is
  a tree in \<open>rowid\<close> order: \<open>SELECT\<close> by key, \<open>UPDATE\<close> by key, \<open>DELETE\<close> by
  condition, \<open>INSERT\<close> at the key's place, \<open>SELECT COUNT(*)\<close>.
\<close>

definition sel_row :: "('r \<Rightarrow> int) \<Rightarrow> int \<Rightarrow> 'r list \<Rightarrow> 'r option" where
  "sel_row key i rows = List.find (\<lambda>r. key r = i) rows"

definition upd_row :: "('r \<Rightarrow> int) \<Rightarrow> int \<Rightarrow> ('r \<Rightarrow> 'r) \<Rightarrow> 'r list \<Rightarrow> 'r list" where
  "upd_row key i f rows = map (\<lambda>r. if key r = i then f r else r) rows"

definition del_rows :: "('r \<Rightarrow> bool) \<Rightarrow> 'r list \<Rightarrow> 'r list" where
  "del_rows p rows = filter (\<lambda>r. \<not> p r) rows"

definition ins_row :: "('r \<Rightarrow> int) \<Rightarrow> 'r \<Rightarrow> 'r list \<Rightarrow> 'r list" where
  "ins_row key r rows = insort_key key r rows"

definition count_rows :: "('r \<Rightarrow> bool) \<Rightarrow> 'r list \<Rightarrow> nat" where
  "count_rows p rows = length (filter p rows)"

definition table_ok :: "('r \<Rightarrow> int) \<Rightarrow> 'r list \<Rightarrow> bool" where
  "table_ok key rows \<longleftrightarrow> sorted (map key rows) \<and> distinct (map key rows)"

lemma count_rows_pos [table_law]: "(0 < count_rows p rows) = (\<exists>r \<in> set rows. p r)"
  by (auto simp: count_rows_def filter_empty_conv)

lemma count_rows_zero [table_law]: "(count_rows p rows = 0) = (\<forall>r \<in> set rows. \<not> p r)"
  by (simp add: count_rows_def filter_empty_conv)

lemma sel_row_None [table_law]: "(sel_row key i rows = None) = (i \<notin> key ` set rows)"
  by (auto simp: sel_row_def find_None_iff)

lemma sel_row_SomeD: "sel_row key i rows = Some r \<Longrightarrow> r \<in> set rows \<and> key r = i"
  by (auto simp: sel_row_def find_Some_iff)

lemma sel_row_Some [table_law]:
  "table_ok key rows \<Longrightarrow> (sel_row key i rows = Some r) = (r \<in> set rows \<and> key r = i)"
  using sel_row_SomeD [of key i rows r] sel_row_None [of key i rows]
  by (cases "sel_row key i rows") (auto simp: table_ok_def distinct_map inj_on_def dest: sel_row_SomeD)

lemma sel_row_upd [table_law]:
  assumes "\<And>r. key (f r) = key r"
  shows "sel_row key j (upd_row key i f rows)
    = (if j = i then map_option f (sel_row key j rows) else sel_row key j rows)"
  using assms by (induction rows) (auto simp: sel_row_def upd_row_def)

lemma sel_row_del [table_law]:
  "sel_row key j (del_rows (\<lambda>r. key r = i) rows) = (if j = i then None else sel_row key j rows)"
  by (induction rows) (auto simp: sel_row_def del_rows_def)

lemma set_del_rows [table_law]: "set (del_rows p rows) = {r \<in> set rows. \<not> p r}"
  by (auto simp: del_rows_def)

lemma set_upd_row [table_law]:
  "set (upd_row key i f rows) = (\<lambda>r. if key r = i then f r else r) ` set rows"
  by (simp add: upd_row_def)

lemma ins_row_last: "(\<And>r. r \<in> set rows \<Longrightarrow> key r < key x) \<Longrightarrow> ins_row key x rows = rows @ [x]"
  by (induction rows) (auto simp: ins_row_def not_le [symmetric])

lemma set_ins_row [table_law]: "set (ins_row key r rows) = insert r (set rows)"
  by (simp add: ins_row_def set_insort_key)

lemma keys_upd_row [table_law]:
  assumes "\<And>r. key (f r) = key r"
  shows "map key (upd_row key i f rows) = map key rows"
  using assms by (simp add: upd_row_def)

lemma table_ok_upd [table_law]:
  assumes "\<And>r. key (f r) = key r"
  shows "table_ok key (upd_row key i f rows) = table_ok key rows"
  using assms by (simp add: table_ok_def keys_upd_row)

lemma table_ok_del [table_law]: "table_ok key rows \<Longrightarrow> table_ok key (del_rows p rows)"
  by (auto simp: table_ok_def del_rows_def sorted_filter distinct_map inj_on_def)

lemma table_ok_ins [table_law]:
  assumes "table_ok key rows" and "key r \<notin> key ` set rows"
  shows "table_ok key (ins_row key r rows)"
proof -
  have "sorted (map key (insort_key key r rows))"
    using assms(1) by (simp add: table_ok_def sorted_insort_key)
  moreover have "distinct (map key (insort_key key r rows))"
    using assms by (induction rows) (auto simp: table_ok_def set_insort_key)
  ultimately show ?thesis by (simp add: table_ok_def ins_row_def)
qed

text \<open>A row deleted and put back with its old key lands where it was.\<close>

lemma ins_del_row:
  assumes "table_ok key rows" and "r \<in> set rows"
  shows "ins_row key r (del_rows (\<lambda>x. key x = key r) rows) = rows"
  using assms
proof (induction rows)
  case Nil
  then show ?case by simp
next
  case (Cons a rows)
  show ?case
  proof (cases "key a = key r")
    case True
    then have a: "a = r" and none: "\<forall>x \<in> set rows. key x \<noteq> key r"
      using Cons.prems by (auto simp: table_ok_def image_iff)
    then have "filter (\<lambda>x. key x \<noteq> key r) rows = rows"
      by (simp add: filter_id_conv)
    moreover have "insort_key key r rows = r # rows"
      using Cons.prems a by (cases rows) (auto simp: table_ok_def)
    ultimately show ?thesis using a by (simp add: ins_row_def del_rows_def)
  next
    case False
    then have "r \<in> set rows" and lt: "key a < key r"
      using Cons.prems by (auto simp: table_ok_def order_less_le)
    then have "ins_row key r (del_rows (\<lambda>x. key x = key r) rows) = rows"
      using Cons by (auto simp: table_ok_def)
    then show ?thesis using False lt by (simp add: ins_row_def del_rows_def)
  qed
qed

text \<open>An update by key followed by its inverse restores the table.\<close>

lemma upd_upd_row:
  assumes "\<And>r. key (f r) = key r"
  shows "upd_row key i g (upd_row key i f rows) = upd_row key i (\<lambda>r. g (f r)) rows"
  using assms by (simp add: upd_row_def)

lemma upd_row_id: "(\<And>r. r \<in> set rows \<Longrightarrow> key r = i \<Longrightarrow> f r = r) \<Longrightarrow> upd_row key i f rows = rows"
  by (auto simp: upd_row_def intro: map_idI)

text \<open>Two updates by key that agree on the row of that key.\<close>

lemma upd_row_cong:
  assumes "sel_row key i rows = Some r" "distinct (map key rows)" "f r = g r"
  shows "upd_row key i f rows = upd_row key i g rows"
proof -
  have "x = r" if "x \<in> set rows" "key x = i" for x
    using that assms(2) sel_row_SomeD [OF assms(1)] by (auto simp: distinct_map dest: inj_onD)
  then show ?thesis using assms(3) by (auto simp: upd_row_def)
qed

end
