(* ===== verification/GoStrings.thy ===== *)
theory GoStrings
  imports Prelude
begin

text \<open>
  The functions of Go's \<open>strings\<close> and \<open>strconv\<close> that the panel uses, on byte strings:
  prefixes and suffixes, splitting and joining, decimal rendering (\<open>%d\<close>, \<open>strconv.Itoa\<close>)
  and \<open>strconv.Atoi\<close> with its error result, including the saturated value it returns
  beside a range error.
\<close>

section \<open>Prefixes, substrings, splitting\<close>

definition HasPrefix :: "string \<Rightarrow> string \<Rightarrow> bool" where
  "HasPrefix s p = (take (length p) s = p)"

definition HasSuffix :: "string \<Rightarrow> string \<Rightarrow> bool" where
  "HasSuffix s p = (length p \<le> length s \<and> drop (length s - length p) s = p)"

definition TrimPrefix :: "string \<Rightarrow> string \<Rightarrow> string" where
  "TrimPrefix s p = (if HasPrefix s p then drop (length p) s else s)"

fun Contains :: "string \<Rightarrow> string \<Rightarrow> bool" where
  "Contains [] p = (p = [])"
| "Contains (c # cs) p = (HasPrefix (c # cs) p \<or> Contains cs p)"

text \<open>\<open>strings.Split\<close> with a separator of one byte.\<close>

fun SplitByte :: "char \<Rightarrow> string \<Rightarrow> string list" where
  "SplitByte sep [] = [[]]"
| "SplitByte sep (c # cs) =
    (if c = sep then [] # SplitByte sep cs
     else (case SplitByte sep cs of [] \<Rightarrow> [[c]] | f # fs \<Rightarrow> (c # f) # fs))"

text \<open>\<open>strings.Join\<close>\<close>

fun Join :: "string list \<Rightarrow> string \<Rightarrow> string" where
  "Join [] sep = []"
| "Join [s] sep = s"
| "Join (s # t # ss) sep = s @ sep @ Join (t # ss) sep"

text \<open>\<open>strings.TrimSpace\<close> and \<open>strings.Fields\<close> on bytes below 128.\<close>

definition is_space :: "char \<Rightarrow> bool" where
  "is_space c \<longleftrightarrow> c \<in> {CHR '' '', CHR 0x09, CHR 0x0A, CHR 0x0B, CHR 0x0C, CHR 0x0D}"

definition TrimSpace :: "string \<Rightarrow> string" where
  "TrimSpace s = rev (dropWhile is_space (rev (dropWhile is_space s)))"

fun fields_from :: "string \<Rightarrow> string \<Rightarrow> string list" where
  "fields_from word [] = (if word = [] then [] else [word])"
| "fields_from word (c # cs) =
    (if \<not> is_space c then fields_from (word @ [c]) cs
     else (if word = [] then [] else [word]) @ fields_from [] cs)"

definition Fields :: "string \<Rightarrow> string list" where
  "Fields s = fields_from [] s"

text \<open>The bytes after the last separator, \<open>None\<close> when \<open>strings.LastIndex\<close> finds none.\<close>

definition after_last :: "char \<Rightarrow> string \<Rightarrow> string option" where
  "after_last sep s = (if sep \<in> set s then Some (last (SplitByte sep s)) else None)"

lemma HasPrefix_append [simp]: "HasPrefix (p @ s) p"
  by (simp add: HasPrefix_def)

lemma TrimPrefix_append [simp]: "TrimPrefix (p @ s) p = s"
  by (simp add: TrimPrefix_def)

lemma HasPrefix_iff: "HasPrefix s p \<longleftrightarrow> (\<exists>t. s = p @ t)"
  by (metis HasPrefix_append HasPrefix_def append_take_drop_id)

lemma SplitByte_nonempty [simp]: "SplitByte sep s \<noteq> []"
  by (cases s) (auto split: list.splits)

lemma SplitByte_no_sep: "sep \<notin> set s \<Longrightarrow> SplitByte sep s = [s]"
  by (induction s) auto

lemma SplitByte_append_sep:
  "sep \<notin> set s \<Longrightarrow> SplitByte sep (s @ sep # t) = s # SplitByte sep t"
  by (induction s) auto

lemma hd_SplitByte_takeWhile: "hd (SplitByte sep s) = takeWhile (\<lambda>c. c \<noteq> sep) s"
  by (induction s) (auto split: list.splits)

lemma SplitByte_parts: "p \<in> set (SplitByte sep s) \<Longrightarrow> sep \<notin> set p"
proof (induction s arbitrary: p)
  case Nil
  then show ?case by simp
next
  case (Cons c cs)
  then show ?case by (cases "SplitByte sep cs") (auto split: if_splits)
qed

lemma Join_SplitByte: "Join (SplitByte sep s) [sep] = s"
proof (induction s)
  case Nil
  then show ?case by simp
next
  case (Cons c cs)
  obtain f fs where split: "SplitByte sep cs = f # fs"
    by (cases "SplitByte sep cs") auto
  with Cons show ?case by (cases fs) auto
qed

section \<open>Decimal numbers\<close>

fun show_nat :: "nat \<Rightarrow> string" where
  "show_nat n = (if n < 10 then [char_of (48 + n)] else show_nat (n div 10) @ [char_of (48 + n mod 10)])"

declare show_nat.simps [simp del]

definition Itoa :: "int \<Rightarrow> string" where
  "Itoa i = (if i < 0 then CHR ''-'' # show_nat (nat (- i)) else show_nat (nat i))"

definition is_digit :: "char \<Rightarrow> bool" where
  "is_digit c \<longleftrightarrow> CHR ''0'' \<le> c \<and> c \<le> CHR ''9''"

definition digit_val :: "char \<Rightarrow> nat" where
  "digit_val c = of_char c - 48"

definition read_nat :: "string \<Rightarrow> nat" where
  "read_nat s = foldl (\<lambda>n c. 10 * n + digit_val c) 0 s"

text \<open>
  \<open>strconv.Atoi\<close> on a 64-bit platform: the value and whether \<open>err\<close> is nil. A syntax
  error gives 0, a range error the nearest representable value.
\<close>

definition Atoi :: "string \<Rightarrow> int \<times> bool" where
  "Atoi s = (let neg = HasPrefix s ''-'';
                 ds = (if neg \<or> HasPrefix s ''+'' then tl s else s)
    in if ds = [] \<or> \<not> list_all is_digit ds then (0, False)
       else let n = int (read_nat ds) in
         if neg then (if n > 2 ^ 63 then (- (2 ^ 63), False) else (- n, True))
         else (if n \<ge> 2 ^ 63 then (2 ^ 63 - 1, False) else (n, True)))"

lemma is_digit_char_of: "d < 10 \<Longrightarrow> is_digit (char_of (48 + d :: nat))"
  by (simp add: is_digit_def less_eq_char_def)

lemma digit_val_char_of: "d < 10 \<Longrightarrow> digit_val (char_of (48 + d :: nat)) = d"
  by (simp add: digit_val_def)

lemma show_nat_nonempty [simp]: "show_nat n \<noteq> []"
  by (subst show_nat.simps) simp

lemma show_nat_digits: "list_all is_digit (show_nat n)"
proof (induction n rule: less_induct)
  case (less n)
  then show ?case
    by (subst show_nat.simps) (simp add: is_digit_char_of)
qed

lemma read_nat_snoc: "read_nat (s @ [c]) = 10 * read_nat s + digit_val c"
  by (simp add: read_nat_def)

lemma read_show_nat: "read_nat (show_nat n) = n"
proof (induction n rule: less_induct)
  case (less n)
  show ?case
  proof (cases "n < 10")
    case True
    then show ?thesis
      by (subst show_nat.simps) (simp add: read_nat_def digit_val_char_of)
  next
    case False
    then have "show_nat n = show_nat (n div 10) @ [char_of (48 + n mod 10)]"
      by (subst show_nat.simps) simp
    with less [of "n div 10"] False show ?thesis
      by (simp add: read_nat_snoc digit_val_char_of)
  qed
qed

lemma digit_not_sign: "is_digit c \<Longrightarrow> c \<noteq> CHR ''-'' \<and> c \<noteq> CHR ''+''"
  by (auto simp: is_digit_def less_eq_char_def)

lemma show_nat_no_sign: "\<not> HasPrefix (show_nat n) ''-'' \<and> \<not> HasPrefix (show_nat n) ''+''"
  using show_nat_digits [of n] digit_not_sign
  by (cases "show_nat n") (auto simp: HasPrefix_def)

lemma Atoi_Itoa:
  assumes "- (2 ^ 63) \<le> i" and "i < 2 ^ 63"
  shows "Atoi (Itoa i) = (i, True)"
proof (cases "i < 0")
  case True
  with assms show ?thesis
    by (simp add: Atoi_def Itoa_def HasPrefix_def show_nat_digits read_show_nat)
next
  case False
  with assms show_nat_no_sign [of "nat i"] show ?thesis
    by (simp add: Atoi_def Itoa_def show_nat_digits read_show_nat)
qed

lemma digit_not_slash: "is_digit c \<Longrightarrow> c \<noteq> CHR ''/''"
  by (auto simp: is_digit_def less_eq_char_def)

lemma slash_not_in_Itoa: "CHR ''/'' \<notin> set (Itoa i)"
  using show_nat_digits [of "nat i"] show_nat_digits [of "nat (- i)"] digit_not_slash
  by (auto simp: Itoa_def list_all_iff)

lemma show_nat_inj: "show_nat m = show_nat n \<Longrightarrow> m = n"
  by (metis read_show_nat)

lemma Itoa_neg_head: "Itoa k = CHR ''-'' # s \<Longrightarrow> k < 0"
  using show_nat_no_sign [of "nat k"] by (auto simp: Itoa_def HasPrefix_def split: if_splits)

lemma Itoa_inj:
  assumes "Itoa i = Itoa j"
  shows "i = j"
proof (cases "i < 0")
  case True
  then have eq: "Itoa j = CHR ''-'' # show_nat (nat (- i))"
    using assms by (simp add: Itoa_def)
  then have "j < 0" by (rule Itoa_neg_head)
  with eq have "show_nat (nat (- j)) = show_nat (nat (- i))"
    by (simp add: Itoa_def)
  from show_nat_inj [OF this] True \<open>j < 0\<close> show ?thesis by simp
next
  case False
  then have eq: "Itoa j = show_nat (nat i)"
    using assms by (simp add: Itoa_def)
  have "\<not> j < 0"
  proof
    assume "j < 0"
    then have "HasPrefix (Itoa j) ''-''" by (simp add: Itoa_def HasPrefix_def)
    with eq show False using show_nat_no_sign by simp
  qed
  with eq have "show_nat (nat j) = show_nat (nat i)" by (simp add: Itoa_def)
  from show_nat_inj [OF this] False \<open>\<not> j < 0\<close> show ?thesis by simp
qed

end
