(* ===== verification/Clock.thy ===== *)
theory Clock
  imports GoStrings
begin

text \<open>
  The part of Go's \<open>time\<close> the panel computes with: civil dates in the proleptic Gregorian
  calendar, \<open>AddDate\<close> and second offsets, the two layouts it stores and compares as
  strings (\<open>2006-01-02\<close> and \<open>time.DateTime\<close>), and the law that makes comparing them as
  strings right: on four-digit years the order of the texts is the order of the moments.
\<close>

section \<open>Civil dates and times\<close>

record datetime =
  yr :: int
  mo :: int
  dy :: int
  hh :: int
  mi :: int
  sc :: int

definition mk_time :: "int \<Rightarrow> int \<Rightarrow> int \<Rightarrow> int \<Rightarrow> int \<Rightarrow> int \<Rightarrow> datetime" where
  "mk_time y m d h i s = \<lparr>yr = y, mo = m, dy = d, hh = h, mi = i, sc = s\<rparr>"

definition leap_year :: "int \<Rightarrow> bool" where
  "leap_year y \<longleftrightarrow> y mod 4 = 0 \<and> (y mod 100 \<noteq> 0 \<or> y mod 400 = 0)"

definition days_in_month :: "int \<Rightarrow> int \<Rightarrow> int" where
  "days_in_month y m =
    (if m = 2 then (if leap_year y then 29 else 28)
     else if m \<in> {4, 6, 9, 11} then 30 else 31)"

definition valid_date :: "datetime \<Rightarrow> bool" where
  "valid_date t \<longleftrightarrow> 1 \<le> mo t \<and> mo t \<le> 12 \<and> 1 \<le> dy t \<and> dy t \<le> days_in_month (yr t) (mo t)"

definition valid_clock :: "datetime \<Rightarrow> bool" where
  "valid_clock t \<longleftrightarrow> 0 \<le> hh t \<and> hh t < 24 \<and> 0 \<le> mi t \<and> mi t < 60 \<and> 0 \<le> sc t \<and> sc t < 60"

definition four_digit_year :: "datetime \<Rightarrow> bool" where
  "four_digit_year t \<longleftrightarrow> 0 \<le> yr t \<and> yr t \<le> 9999"

definition next_day :: "datetime \<Rightarrow> datetime" where
  "next_day t =
    (if dy t < days_in_month (yr t) (mo t) then t\<lparr>dy := dy t + 1\<rparr>
     else if mo t < 12 then t\<lparr>mo := mo t + 1, dy := 1\<rparr>
     else t\<lparr>yr := yr t + 1, mo := 1, dy := 1\<rparr>)"

definition prev_day :: "datetime \<Rightarrow> datetime" where
  "prev_day t =
    (if 1 < dy t then t\<lparr>dy := dy t - 1\<rparr>
     else if 1 < mo t then t\<lparr>mo := mo t - 1, dy := days_in_month (yr t) (mo t - 1)\<rparr>
     else t\<lparr>yr := yr t - 1, mo := 12, dy := 31\<rparr>)"

text \<open>\<open>AddDate(0, 0, n)\<close>\<close>

definition add_days :: "int \<Rightarrow> datetime \<Rightarrow> datetime" where
  "add_days n t = (if 0 \<le> n then (next_day ^^ nat n) t else (prev_day ^^ nat (- n)) t)"

text \<open>
  \<open>AddDate(0, n, 0)\<close> for a day that every month has (at most 28): the months are
  carried into the years and the day is kept.
\<close>

definition add_months :: "int \<Rightarrow> datetime \<Rightarrow> datetime" where
  "add_months n t = (let k = 12 * yr t + (mo t - 1) + n in t\<lparr>yr := k div 12, mo := k mod 12 + 1\<rparr>)"

text \<open>Adding a number of seconds, as a zone offset does.\<close>

definition add_seconds :: "int \<Rightarrow> datetime \<Rightarrow> datetime" where
  "add_seconds n t =
    (let s = 3600 * hh t + 60 * mi t + sc t + n; r = s mod 86400
     in (add_days (s div 86400) t)\<lparr>hh := r div 3600, mi := r div 60 mod 60, sc := r mod 60\<rparr>)"

text \<open>\<open>time.Time.Before\<close> on times of one zone.\<close>

definition date_key :: "datetime \<Rightarrow> int" where
  "date_key t = 10000 * yr t + 100 * mo t + dy t"

definition clock_key :: "datetime \<Rightarrow> int" where
  "clock_key t = 10000 * hh t + 100 * mi t + sc t"

definition Before :: "datetime \<Rightarrow> datetime \<Rightarrow> bool" where
  "Before a b \<longleftrightarrow> date_key a < date_key b \<or> date_key a = date_key b \<and> clock_key a < clock_key b"

section \<open>Layouts\<close>

definition digit :: "int \<Rightarrow> char" where
  "digit d = char_of (48 + nat d)"

definition pad2 :: "int \<Rightarrow> string" where
  "pad2 n = [digit (n div 10 mod 10), digit (n mod 10)]"

definition pad4 :: "int \<Rightarrow> string" where
  "pad4 n = pad2 (n div 100) @ pad2 (n mod 100)"

definition FormatDay :: "datetime \<Rightarrow> string" where
  "FormatDay t = pad4 (yr t) @ ''-'' @ pad2 (mo t) @ ''-'' @ pad2 (dy t)"

definition FormatDateTime :: "datetime \<Rightarrow> string" where
  "FormatDateTime t = FormatDay t @ '' '' @ pad2 (hh t) @ '':'' @ pad2 (mi t) @ '':'' @ pad2 (sc t)"

section \<open>The order of the texts\<close>

lemma digit_less: "0 \<le> a \<Longrightarrow> a \<le> 9 \<Longrightarrow> 0 \<le> b \<Longrightarrow> b \<le> 9 \<Longrightarrow> (digit a < digit b) = (a < b)"
  by (auto simp: digit_def less_char_def)

lemma digit_eq: "0 \<le> a \<Longrightarrow> a \<le> 9 \<Longrightarrow> 0 \<le> b \<Longrightarrow> b \<le> 9 \<Longrightarrow> (digit a = digit b) = (a = b)"
proof -
  assume "0 \<le> a" "a \<le> 9" "0 \<le> b" "b \<le> 9"
  then have "(of_char (digit a) :: nat) = 48 + nat a" "(of_char (digit b) :: nat) = 48 + nat b"
    by (simp_all add: digit_def)
  then show ?thesis using \<open>0 \<le> a\<close> \<open>0 \<le> b\<close> by (metis add_left_cancel eq_nat_nat_iff)
qed

lemma append_less_iff:
  fixes a b u v :: "'a :: linorder list"
  shows "length a = length b \<Longrightarrow> (a @ u < b @ v) = (a < b \<or> a = b \<and> u < v)"
  by (induction a b rule: list_induct2) auto

text \<open>Two numbers in the same positional system compare digit by digit.\<close>

lemma lex_digits:
  fixes n q r q' r' :: int
  assumes "0 \<le> r" "r < n" "0 \<le> r'" "r' < n"
  shows "(n * q + r < n * q' + r') = (q < q' \<or> q = q' \<and> r < r')"
proof -
  have step: "n * a + x < n * b + y" if "a < b" "0 \<le> x" "x < n" "0 \<le> y" for a b x y
  proof -
    have "n * (a + 1) \<le> n * b" using that by (intro mult_left_mono) auto
    with that show ?thesis by (simp add: distrib_left)
  qed
  consider "q < q'" | "q = q'" | "q' < q" by linarith
  then show ?thesis
  proof cases
    case 1
    then show ?thesis using step [of q q' r r'] assms by simp
  next
    case 2
    then show ?thesis by simp
  next
    case 3
    then show ?thesis using step [of q' q r' r] assms by simp
  qed
qed

lemma div_mod_less:
  fixes a b n :: int
  assumes "0 < n"
  shows "(a div n < b div n \<or> a div n = b div n \<and> a mod n < b mod n) = (a < b)"
  using lex_digits [of "a mod n" n "b mod n" "a div n" "b div n"] assms by simp

lemma length_pad2 [simp]: "length (pad2 n) = 2"
  by (simp add: pad2_def)

lemma length_pad4 [simp]: "length (pad4 n) = 4"
  by (simp add: pad4_def)

lemma pad2_less: "0 \<le> a \<Longrightarrow> a \<le> 99 \<Longrightarrow> 0 \<le> b \<Longrightarrow> b \<le> 99 \<Longrightarrow> (pad2 a < pad2 b) = (a < b)"
proof -
  assume "0 \<le> a" "a \<le> 99" "0 \<le> b" "b \<le> 99"
  then have "0 \<le> a div 10" "a div 10 \<le> 9" "0 \<le> b div 10" "b div 10 \<le> 9"
    "0 \<le> a mod 10" "a mod 10 \<le> 9" "0 \<le> b mod 10" "b mod 10 \<le> 9"
    by linarith+
  then have "(pad2 a < pad2 b) = (a div 10 < b div 10 \<or> a div 10 = b div 10 \<and> a mod 10 < b mod 10)"
    by (simp add: pad2_def digit_less digit_eq)
  also have "\<dots> = (a < b)" by (rule div_mod_less) simp
  finally show ?thesis .
qed

lemma pad2_eq: "0 \<le> a \<Longrightarrow> a \<le> 99 \<Longrightarrow> 0 \<le> b \<Longrightarrow> b \<le> 99 \<Longrightarrow> (pad2 a = pad2 b) = (a = b)"
  using pad2_less [of a b] pad2_less [of b a] by (metis less_irrefl linorder_neqE)

lemma pad4_less: "0 \<le> a \<Longrightarrow> a \<le> 9999 \<Longrightarrow> 0 \<le> b \<Longrightarrow> b \<le> 9999 \<Longrightarrow> (pad4 a < pad4 b) = (a < b)"
proof -
  assume "0 \<le> a" "a \<le> 9999" "0 \<le> b" "b \<le> 9999"
  then have "0 \<le> a div 100" "a div 100 \<le> 99" "0 \<le> b div 100" "b div 100 \<le> 99"
    "0 \<le> a mod 100" "a mod 100 \<le> 99" "0 \<le> b mod 100" "b mod 100 \<le> 99"
    by linarith+
  then have "(pad4 a < pad4 b)
      = (a div 100 < b div 100 \<or> a div 100 = b div 100 \<and> a mod 100 < b mod 100)"
    by (simp add: pad4_def append_less_iff pad2_less pad2_eq)
  also have "\<dots> = (a < b)" by (rule div_mod_less) simp
  finally show ?thesis .
qed

lemma pad4_eq: "0 \<le> a \<Longrightarrow> a \<le> 9999 \<Longrightarrow> 0 \<le> b \<Longrightarrow> b \<le> 9999 \<Longrightarrow> (pad4 a = pad4 b) = (a = b)"
  using pad4_less [of a b] pad4_less [of b a] by (metis less_irrefl linorder_neqE)

lemma days_in_month_bounds: "28 \<le> days_in_month y m" "days_in_month y m \<le> 31"
  by (auto simp: days_in_month_def)

lemma valid_date_bounds:
  "valid_date t \<Longrightarrow> 1 \<le> mo t \<and> mo t \<le> 12 \<and> 1 \<le> dy t \<and> dy t \<le> 31"
  using days_in_month_bounds(2) [of "yr t" "mo t"] by (auto simp: valid_date_def)

lemma FormatDay_less:
  assumes "valid_date a" "valid_date b" "four_digit_year a" "four_digit_year b"
  shows "(FormatDay a < FormatDay b) = (date_key a < date_key b)"
proof -
  note bounds = valid_date_bounds [OF assms(1)] valid_date_bounds [OF assms(2)]
    assms(3,4) [unfolded four_digit_year_def]
  have "(FormatDay a < FormatDay b)
      = (yr a < yr b \<or> yr a = yr b \<and> (mo a < mo b \<or> mo a = mo b \<and> dy a < dy b))"
    using bounds by (simp add: FormatDay_def append_less_iff pad4_less pad4_eq pad2_less pad2_eq)
  also have "\<dots> = (date_key a < date_key b)"
    using bounds by (simp add: date_key_def) linarith
  finally show ?thesis .
qed

lemma FormatDay_eq:
  assumes "valid_date a" "valid_date b" "four_digit_year a" "four_digit_year b"
  shows "(FormatDay a = FormatDay b) = (date_key a = date_key b)"
  using FormatDay_less [OF assms] FormatDay_less [OF assms(2,1,4,3)]
  by (metis less_irrefl linorder_neqE)

lemma length_FormatDay [simp]: "length (FormatDay t) = 10"
  by (simp add: FormatDay_def)

lemma FormatDateTime_less:
  assumes "valid_date a" "valid_date b" "four_digit_year a" "four_digit_year b"
    and "valid_clock a" "valid_clock b"
  shows "(FormatDateTime a < FormatDateTime b) = Before a b"
proof -
  note clocks = assms(5,6) [unfolded valid_clock_def]
  have "(pad2 (hh a) @ '':'' @ pad2 (mi a) @ '':'' @ pad2 (sc a)
      < pad2 (hh b) @ '':'' @ pad2 (mi b) @ '':'' @ pad2 (sc b))
    = (hh a < hh b \<or> hh a = hh b \<and> (mi a < mi b \<or> mi a = mi b \<and> sc a < sc b))"
    using clocks by (simp add: append_less_iff pad2_less pad2_eq)
  also have "\<dots> = (clock_key a < clock_key b)"
    using clocks by (simp add: clock_key_def) linarith
  finally show ?thesis
    using FormatDay_less [OF assms(1-4)] FormatDay_eq [OF assms(1-4)]
    by (simp add: FormatDateTime_def append_less_iff Before_def)
qed

section \<open>Laws of the calendar\<close>

lemma valid_next_day: "valid_date t \<Longrightarrow> valid_date (next_day t)"
  using days_in_month_bounds(1) [of "yr t" "mo t + 1"] days_in_month_bounds(1) [of "yr t + 1" 1]
  by (auto simp: valid_date_def next_day_def)

lemma valid_prev_day: "valid_date t \<Longrightarrow> valid_date (prev_day t)"
  using days_in_month_bounds(1) [of "yr t" "mo t - 1"]
  by (auto simp: valid_date_def prev_day_def) (simp_all add: days_in_month_def)

lemma prev_next_day: "valid_date t \<Longrightarrow> prev_day (next_day t) = t"
  by (cases t) (auto simp: valid_date_def next_day_def prev_day_def days_in_month_def)

lemma prev_day_earlier: "valid_date t \<Longrightarrow> date_key (prev_day t) < date_key t"
  using days_in_month_bounds [of "yr t" "mo t - 1"]
  by (auto simp: valid_date_def prev_day_def date_key_def)

lemma prev_days_earlier:
  "valid_date t \<Longrightarrow> valid_date ((prev_day ^^ n) t) \<and> date_key ((prev_day ^^ n) t) \<le> date_key t"
proof (induction n)
  case (Suc n)
  then show ?case
    using valid_prev_day [of "(prev_day ^^ n) t"] prev_day_earlier [of "(prev_day ^^ n) t"] by simp
qed simp

lemma add_days_earlier:
  "valid_date t \<Longrightarrow> n \<le> 0 \<Longrightarrow> valid_date (add_days n t) \<and> date_key (add_days n t) \<le> date_key t"
  using prev_days_earlier [of t "nat (- n)"] by (cases "n = 0") (auto simp: add_days_def)

lemma add_months_back:
  assumes "valid_date t" "dy t \<le> 28" "n < 0"
  shows "valid_date (add_months n t)" and "date_key (add_months n t) < date_key t"
    and "dy (add_months n t) = dy t"
proof -
  let ?k = "12 * yr t + (mo t - 1) + n"
  have y: "yr (add_months n t) = ?k div 12" "mo (add_months n t) = ?k mod 12 + 1"
    "dy (add_months n t) = dy t"
    by (simp_all add: add_months_def Let_def)
  then show "dy (add_months n t) = dy t" by simp
  show "valid_date (add_months n t)"
    using assms days_in_month_bounds(1) [of "?k div 12" "?k mod 12 + 1"]
    by (simp add: valid_date_def y)
  define q r where "q = ?k div 12" and "r = ?k mod 12"
  have "12 * q + r < 12 * yr t + (mo t - 1)"
    using assms(3) by (simp add: q_def r_def)
  moreover have "0 \<le> r" "r < 12" by (simp_all add: r_def)
  moreover have "1 \<le> mo t" "mo t \<le> 12" using assms(1) by (simp_all add: valid_date_def)
  ultimately have "10000 * q + 100 * (r + 1) < 10000 * yr t + 100 * mo t"
    using linorder_less_linear [of q "yr t"] by (elim disjE) simp_all
  then show "date_key (add_months n t) < date_key t"
    by (simp only: date_key_def y flip: q_def r_def)
qed

end
