(* ===== verification/IdSets.thy ===== *)
theory IdSets
  imports Prelude
begin

text \<open>
  The four routines that normalise lists of identifiers: \<open>uniqueSortedIDs\<close>
  (\<open>model/access.go\<close>), \<open>uniqueNodeIDs\<close> (\<open>handler/config.go\<close>), \<open>unionIDs\<close> and
  \<open>changedIDs\<close> (\<open>handler/sync.go\<close>). Go's maps are the lists of their keys; every routine
  sorts what it collects, so the order in which a map is ranged over does not show.
\<close>

named_theorems id_law \<open>membership, order and distinctness of identifier lists\<close>

section \<open>Definitions\<close>

text \<open>The loop with its \<open>seen\<close> set, which keeps the first positive occurrence.\<close>

fun dedup_positive :: "int list \<Rightarrow> int list \<Rightarrow> int list \<Rightarrow> int list" where
  "dedup_positive seen result [] = result"
| "dedup_positive seen result (i # ids) =
    (if i \<le> 0 then dedup_positive seen result ids
     else if i \<in> set seen then dedup_positive seen result ids
     else dedup_positive (i # seen) (result @ [i]) ids)"

definition uniqueSortedIDs :: "int list \<Rightarrow> int list" where
  "uniqueSortedIDs ids = sort (dedup_positive [] [] ids)"

definition uniqueNodeIDs :: "int list \<Rightarrow> int list" where
  "uniqueNodeIDs ids = sort (dedup_positive [] [] ids)"

text \<open>\<open>map[int]struct{}\<close> keyed by the positive identifiers of every group.\<close>

fun collect_positive :: "int list \<Rightarrow> int list \<Rightarrow> int list" where
  "collect_positive seen [] = seen"
| "collect_positive seen (i # ids) =
    collect_positive (if i > 0 then List.insert i seen else seen) ids"

definition unionIDs :: "int list list \<Rightarrow> int list" where
  "unionIDs groups = sort (foldl collect_positive [] groups)"

definition changedIDs :: "int list \<Rightarrow> int list \<Rightarrow> int list" where
  "changedIDs before after =
    (let beforeSet = remdups before; afterSet = remdups after
     in sort (filter (\<lambda>i. i \<notin> set afterSet) beforeSet @ filter (\<lambda>i. i \<notin> set beforeSet) afterSet))"

section \<open>Laws\<close>

lemma mem_dedup_positive:
  "x \<in> set (dedup_positive seen result ids)
    \<longleftrightarrow> x \<in> set result \<or> x \<in> set ids \<and> 0 < x \<and> x \<notin> set seen"
proof (induction ids arbitrary: seen result)
  case Nil
  then show ?case by simp
next
  case (Cons i ids)
  consider "i \<le> 0" | "0 < i" "i \<in> set seen" | "0 < i" "i \<notin> set seen" by linarith
  then show ?case
  proof cases
    case 1
    then show ?thesis using Cons by (cases "x = i") simp_all
  next
    case 2
    then show ?thesis using Cons by (cases "x = i") simp_all
  next
    case 3
    then show ?thesis using Cons by (cases "x = i") simp_all
  qed
qed

lemma set_dedup_positive:
  "set (dedup_positive seen result ids) = set result \<union> {i \<in> set ids. 0 < i \<and> i \<notin> set seen}"
  by (rule set_eqI) (simp only: mem_dedup_positive Un_iff mem_Collect_eq)

lemma distinct_dedup_positive:
  "set result \<subseteq> set seen \<Longrightarrow> distinct result \<Longrightarrow> distinct (dedup_positive seen result ids)"
  by (induction seen result ids rule: dedup_positive.induct) auto

lemma uniqueNodeIDs_eq [id_law]: "uniqueNodeIDs ids = uniqueSortedIDs ids"
  by (simp add: uniqueNodeIDs_def uniqueSortedIDs_def)

lemma set_uniqueSortedIDs [id_law]: "set (uniqueSortedIDs ids) = {i \<in> set ids. 0 < i}"
  by (simp add: uniqueSortedIDs_def set_dedup_positive)

lemma sorted_uniqueSortedIDs [id_law]: "sorted (uniqueSortedIDs ids)"
  by (simp add: uniqueSortedIDs_def)

lemma distinct_uniqueSortedIDs [id_law]: "distinct (uniqueSortedIDs ids)"
  by (simp add: uniqueSortedIDs_def distinct_dedup_positive)

lemma uniqueSortedIDs_eq: "uniqueSortedIDs ids = sorted_list_of_set {i \<in> set ids. 0 < i}"
  by (rule sorted_distinct_set_unique)
    (simp_all add: id_law)

text \<open>A list that is already sorted, distinct and positive is left as it is.\<close>

lemma uniqueSortedIDs_id [id_law]:
  assumes "sorted ids" "distinct ids" "\<forall>i \<in> set ids. 0 < i"
  shows "uniqueSortedIDs ids = ids"
  by (rule sorted_distinct_set_unique) (use assms in \<open>auto simp: id_law\<close>)

lemma set_collect_positive: "set (collect_positive seen ids) = set seen \<union> {i \<in> set ids. 0 < i}"
  by (induction seen ids rule: collect_positive.induct) auto

lemma distinct_collect_positive: "distinct seen \<Longrightarrow> distinct (collect_positive seen ids)"
  by (induction seen ids rule: collect_positive.induct) auto

lemma set_foldl_collect: "set (foldl collect_positive seen groups)
    = set seen \<union> {i. 0 < i \<and> (\<exists>g \<in> set groups. i \<in> set g)}"
  by (induction groups arbitrary: seen) (auto simp: set_collect_positive)

lemma distinct_foldl_collect: "distinct seen \<Longrightarrow> distinct (foldl collect_positive seen groups)"
  by (induction groups arbitrary: seen) (auto simp: distinct_collect_positive)

lemma set_unionIDs [id_law]: "set (unionIDs groups) = {i. 0 < i \<and> (\<exists>g \<in> set groups. i \<in> set g)}"
  by (simp add: unionIDs_def set_foldl_collect)

lemma sorted_unionIDs [id_law]: "sorted (unionIDs groups)"
  by (simp add: unionIDs_def)

lemma distinct_unionIDs [id_law]: "distinct (unionIDs groups)"
  by (simp add: unionIDs_def distinct_foldl_collect)

lemma set_changedIDs [id_law]:
  "set (changedIDs before after) = (set before - set after) \<union> (set after - set before)"
  by (auto simp: changedIDs_def Let_def)

lemma sorted_changedIDs [id_law]: "sorted (changedIDs before after)"
  by (simp add: changedIDs_def Let_def)

lemma distinct_changedIDs [id_law]: "distinct (changedIDs before after)"
  by (auto simp: changedIDs_def Let_def)

lemma changedIDs_empty [id_law]: "(changedIDs before after = []) = (set before = set after)"
  using set_changedIDs [of before after] by (auto simp flip: set_empty)

end
