(* ===== verification/Database.thy ===== *)
theory Database
  imports Clock IdSets
begin

text \<open>
  The panel's SQLite database (\<open>db/db.go\<close>) and the world every handler runs in.

  Rows: a \<open>users\<close>, \<open>nodes\<close> or \<open>node_inbounds\<close> row is the record of the Go struct it is
  scanned into (the struct tags of \<open>model/user.go\<close>, \<open>model/node.go\<close>); \<open>user_access\<close> is the
  list of its (user, node) pairs and \<open>traffic_logs\<close> of its samples, both in \<open>rowid\<close>
  order (their own ids are never read). The sequence fields are \<open>AUTOINCREMENT\<close>'s.
  Foreign keys are declared but not enforced: the connection does not set SQLite's
  \<open>foreign_keys\<close> pragma.

  Environment: every statement may fail with an I/O error, decided by \<open>db_fault\<close> at the
  world's tick, so all error branches of the callers are reachable; random bytes, UUIDs,
  the answers of DNS and the output and success of other remote commands come from the
  environment as well. The clock \<open>w_now\<close> is the current UTC time:
  \<open>time.Now().UTC().Format(time.DateTime)\<close> and SQLite's \<open>datetime('now')\<close> render it alike;
  it does not advance inside one operation.
\<close>

section \<open>JSON documents\<close>

text \<open>
  A \<open>json.RawMessage\<close>: empty, a text that is a JSON value, or a text that is not JSON.
  Concrete JSON syntax is left to \<open>encoding/json\<close>.
\<close>

datatype json = JNull | JBool bool | JNum rat | JStr string
  | JArr "json list" | JObj "(string \<times> json) list"

datatype raw_message = RawEmpty | RawJson json | RawInvalid string

section \<open>Rows\<close>

record user =
  u_id :: int
  u_name :: string
  u_uuid :: string
  u_sub_token :: string
  u_password :: string
  u_enabled :: bool
  u_limit :: int
  u_used :: int
  u_up :: int
  u_down :: int
  u_reset_day :: int
  u_last_reset :: string
  u_note :: string
  u_expire :: string
  u_created :: string
  u_updated :: string

record node =
  n_id :: int
  n_name :: string
  n_host :: string
  n_port :: int
  n_domain :: string
  n_ssh_user :: string
  n_ssh_password :: string
  n_proxy_type :: string
  n_config_path :: string
  n_singbox_bin :: string
  n_agent_token :: string
  n_enabled :: bool
  n_sort_order :: int
  n_created :: string

record inbound =
  ib_id :: int
  ib_node :: int
  ib_tag :: string
  ib_protocol :: string
  ib_port :: int
  ib_settings :: raw_message
  ib_enabled :: bool
  ib_sort_order :: int

record sample =
  t_user :: int
  t_node :: int
  t_up :: int
  t_down :: int
  t_at :: string

record db =
  d_users :: "user list"
  d_nodes :: "node list"
  d_inbounds :: "inbound list"
  d_access :: "(int \<times> int) list"
  d_logs :: "sample list"
  d_user_seq :: int
  d_node_seq :: int
  d_inbound_seq :: int

definition empty_db :: db where
  "empty_db = \<lparr>d_users = [], d_nodes = [], d_inbounds = [], d_access = [], d_logs = [],
    d_user_seq = 0, d_node_seq = 0, d_inbound_seq = 0\<rparr>"

section \<open>Errors\<close>

datatype db_error = ErrNoRows | ErrUnique string | ErrIO | ErrMsg string

text \<open>
  \<open>err.Error()\<close>. The text of a violated constraint and of an I/O error is the driver's;
  the panel only relies on the former containing \<open>UNIQUE\<close>.
\<close>

fun err_text :: "db_error \<Rightarrow> string" where
  "err_text ErrNoRows = ''sql: no rows in result set''"
| "err_text (ErrUnique column) = ''UNIQUE constraint failed: '' @ column"
| "err_text ErrIO = ''disk I/O error''"
| "err_text (ErrMsg m) = m"

section \<open>The world\<close>

text \<open>
  The outcome of the remote steps of one push over SSH, in the order
  \<open>pushViaSSHUnlocked\<close> runs them, the commands of the deploy script included.
  \<open>rs_torn\<close> is what a copy that fails half-way leaves in the target,
  \<open>rs_cat\<close> whether a file can be read back.
\<close>

record remote_script =
  rs_key_usable :: bool
  rs_dial :: bool
  rs_write :: bool
  rs_check :: bool
  rs_mkdir :: bool
  rs_backup :: bool
  rs_copy :: bool
  rs_rm_tmp :: bool
  rs_restart :: bool
  rs_rm_backup :: bool
  rs_restore :: bool
  rs_restart_again :: bool
  rs_cat :: bool
  rs_torn :: "raw_message option"

record env =
  db_fault :: "nat \<Rightarrow> bool"
  rand_byte :: "nat \<Rightarrow> nat \<Rightarrow> nat"
  new_uuid :: "nat \<Rightarrow> string"
  remote :: "nat \<Rightarrow> remote_script"
  ssh_run :: "nat \<Rightarrow> string \<Rightarrow> string \<times> bool"
  ssh_reload :: "nat \<Rightarrow> bool"
  lookup_host :: "nat \<Rightarrow> string \<Rightarrow> string list option"

text \<open>
  A node's machine: its files, the path its systemd unit runs sing-box with, and the
  configuration the running service has loaded.
\<close>

record machine =
  m_files :: "string \<Rightarrow> raw_message option"
  m_unit_path :: string
  m_loaded :: "raw_message option"

record world =
  w_db :: db
  w_fleet :: "string \<Rightarrow> machine"
  w_now :: datetime
  w_env :: env
  w_tick :: nat

type_synonym 'a io = "(world, 'a) state"
type_synonym 'a res = "(world, db_error + 'a) state"

definition next_tick :: "world \<Rightarrow> world" where
  "next_tick w = w\<lparr>w_tick := Suc (w_tick w)\<rparr>"

text \<open>A \<open>SELECT\<close>, and a statement that changes the database.\<close>

definition db_query :: "(db \<Rightarrow> db_error + 'a) \<Rightarrow> 'a res" where
  "db_query q = do { w \<leftarrow> State_Monad.get; State_Monad.set (next_tick w);
     State_Monad.return (if db_fault (w_env w) (w_tick w) then Inl ErrIO else q (w_db w)) }"

definition db_exec :: "(db \<Rightarrow> db_error + 'a \<times> db) \<Rightarrow> 'a res" where
  "db_exec f = do { w \<leftarrow> State_Monad.get; State_Monad.set (next_tick w);
     (if db_fault (w_env w) (w_tick w) then State_Monad.return (Inl ErrIO)
      else (case f (w_db w) of
          Inl e \<Rightarrow> State_Monad.return (Inl e)
        | Inr (a, d) \<Rightarrow> do { State_Monad.set ((next_tick w)\<lparr>w_db := d\<rparr>); State_Monad.return (Inr a) })) }"

text \<open>
  \<open>tx, err := DB.Begin(); defer tx.Rollback(); body; return tx.Commit()\<close>: \<open>Begin\<close> and
  \<open>Commit\<close> may fail like any statement, and unless the commit succeeds the database is
  what it was at \<open>Begin\<close>.
\<close>

definition rollback_to :: "db \<Rightarrow> unit io" where
  "rollback_to d = do { w \<leftarrow> State_Monad.get; State_Monad.set (w\<lparr>w_db := d\<rparr>) }"

definition transaction :: "'a res \<Rightarrow> 'a res" where
  "transaction body = and_then (db_query (\<lambda>d. Inr d)) (\<lambda>d0.
     attempt body
       (\<lambda>e. do { rollback_to d0; State_Monad.return (Inl e) })
       (\<lambda>a. attempt (db_query (\<lambda>_. Inr ()))
          (\<lambda>e. do { rollback_to d0; State_Monad.return (Inl e) })
          (\<lambda>_. State_Monad.return (Inr a))))"

text \<open>\<open>time.Now().UTC()\<close>, and its text.\<close>

definition get_now :: "datetime io" where
  "get_now = do { w \<leftarrow> State_Monad.get; State_Monad.return (w_now w) }"

definition get_now_text :: "string io" where
  "get_now_text = do { t \<leftarrow> get_now; State_Monad.return (FormatDateTime t) }"

section \<open>Random tokens\<close>

definition hex_digit :: "nat \<Rightarrow> char" where
  "hex_digit d = (if d < 10 then char_of (48 + d) else char_of (87 + d))"

definition hex_byte :: "nat \<Rightarrow> string" where
  "hex_byte b = [hex_digit (b div 16 mod 16), hex_digit (b mod 16)]"

definition EncodeToString :: "nat list \<Rightarrow> string" where
  "EncodeToString bs = concat (map hex_byte bs)"

text \<open>\<open>crypto/rand\<close> fills \<open>n\<close> bytes.\<close>

definition random_hex :: "nat \<Rightarrow> string io" where
  "random_hex n = do { w \<leftarrow> State_Monad.get; State_Monad.set (next_tick w);
     State_Monad.return (EncodeToString (map (\<lambda>i. rand_byte (w_env w) (w_tick w) i mod 256) [0..<n])) }"

definition generateToken :: "string io" where
  "generateToken = random_hex 16"

text \<open>\<open>uuid.NewString()\<close>\<close>

definition NewString :: "string io" where
  "NewString = do { w \<leftarrow> State_Monad.get; State_Monad.set (next_tick w);
     State_Monad.return (new_uuid (w_env w) (w_tick w)) }"

section \<open>Reasoning about statements\<close>

text \<open>
  \<open>becomes w d w'\<close>: from \<open>w\<close>, only the tick has advanced and the database is now \<open>d\<close>.
\<close>

definition becomes :: "world \<Rightarrow> db \<Rightarrow> world \<Rightarrow> bool" where
  "becomes w d w' \<longleftrightarrow> w_db w' = d \<and> w_fleet w' = w_fleet w \<and> w_now w' = w_now w \<and> w_env w' = w_env w"

text \<open>\<open>same_db w w'\<close>: the database, the clock and the environment are as before.\<close>

definition same_db :: "world \<Rightarrow> world \<Rightarrow> bool" where
  "same_db w w' \<longleftrightarrow> w_db w' = w_db w \<and> w_now w' = w_now w \<and> w_env w' = w_env w"

lemma wp_db_query:
  assumes "\<And>w'. becomes w (w_db w) w' \<Longrightarrow> Q (Inl ErrIO) w'"
    and "\<And>w'. becomes w (w_db w) w' \<Longrightarrow> Q (q (w_db w)) w'"
  shows "wp (db_query q) Q w"
  using assms by (simp add: db_query_def wp_step becomes_def next_tick_def)

lemma wp_db_exec:
  assumes "\<And>w'. becomes w (w_db w) w' \<Longrightarrow> Q (Inl ErrIO) w'"
    and "\<And>w' e. f (w_db w) = Inl e \<Longrightarrow> becomes w (w_db w) w' \<Longrightarrow> Q (Inl e) w'"
    and "\<And>w' a d. f (w_db w) = Inr (a, d) \<Longrightarrow> becomes w d w' \<Longrightarrow> Q (Inr a) w'"
  shows "wp (db_exec f) Q w"
  using assms
  by (cases "f (w_db w)") (auto simp: db_exec_def wp_step becomes_def next_tick_def)

text \<open>A transaction fails with the database unchanged, or its body's effect is kept.\<close>

lemma wp_transaction:
  assumes fail: "\<And>e w'. becomes w (w_db w) w' \<Longrightarrow> Q (Inl e) w'"
    and body: "\<And>w0. becomes w (w_db w) w0 \<Longrightarrow>
      wp body (\<lambda>r w1. (\<exists>d. becomes w d w1) \<and>
        (\<forall>a w'. r = Inr a \<longrightarrow> becomes w (w_db w1) w' \<longrightarrow> Q (Inr a) w')) w0"
  shows "wp (transaction body) Q w"
proof -
  have q: "wp (db_query (\<lambda>_. Inr ())) P w1"
    if "\<And>w'. becomes w1 (w_db w1) w' \<Longrightarrow> P (Inl ErrIO) w'"
      "\<And>w'. becomes w1 (w_db w1) w' \<Longrightarrow> P (Inr ()) w'" for P w1
    using that by (rule wp_db_query)
  show ?thesis
    unfolding transaction_def wp_and_then
  proof (rule wp_db_query; clarsimp)
    fix w0 assume "becomes w (w_db w) w0"
    then show "Q (Inl ErrIO) w0" by (rule fail)
  next
    fix w0 assume "becomes w (w_db w) w0"
    from body [OF this]
    show "wp (attempt body (\<lambda>e. do { rollback_to (w_db w); State_Monad.return (Inl e) })
       (\<lambda>a. attempt (db_query (\<lambda>_. Inr ()))
          (\<lambda>e. do { rollback_to (w_db w); State_Monad.return (Inl e) })
          (\<lambda>_. State_Monad.return (Inr a)))) Q w0"
      unfolding wp_attempt
      by (rule wp_mono)
        (auto simp: wp_step rollback_to_def becomes_def intro!: fail q)
  qed
qed

lemma wp_get_now [wp_step]: "wp get_now Q w = Q (w_now w) w"
  by (simp add: get_now_def wp_step)

lemma wp_get_now_text [wp_step]: "wp get_now_text Q w = Q (FormatDateTime (w_now w)) w"
  by (simp add: get_now_text_def wp_step)

lemma wp_random_hex:
  "(\<And>s w'. becomes w (w_db w) w' \<Longrightarrow> length s = 2 * n \<Longrightarrow> Q s w') \<Longrightarrow> wp (random_hex n) Q w"
proof -
  have len: "length (EncodeToString bs) = 2 * length bs" for bs
    by (induction bs) (auto simp: EncodeToString_def hex_byte_def)
  show "(\<And>s w'. becomes w (w_db w) w' \<Longrightarrow> length s = 2 * n \<Longrightarrow> Q s w') \<Longrightarrow> wp (random_hex n) Q w"
    by (simp add: random_hex_def wp_step becomes_def next_tick_def len)
qed

lemma wp_generateToken [wp_rule]:
  "(\<And>s w'. becomes w (w_db w) w' \<Longrightarrow> length s = 32 \<Longrightarrow> Q s w') \<Longrightarrow> wp generateToken Q w"
  unfolding generateToken_def by (rule wp_random_hex) simp

lemma wp_NewString [wp_rule]:
  "(\<And>s w'. becomes w (w_db w) w' \<Longrightarrow> Q s w') \<Longrightarrow> wp NewString Q w"
  by (simp add: NewString_def wp_step becomes_def next_tick_def)

end
