(* ===== verification/UserStore.thy ===== *)
theory UserStore
  imports Database
begin

text \<open>
  \<open>model/user.go\<close>: the \<open>users\<close> table's operations, statement by statement.
\<close>

section \<open>Queries\<close>

text \<open>
  Every query but the login's leaves the password column out, so the scanned struct has an
  empty \<open>Password\<close>.
\<close>

definition scan_user :: "user \<Rightarrow> user" where
  "scan_user u = u\<lparr>u_password := ''''\<rparr>"

fun row_or_none :: "'r option \<Rightarrow> db_error + 'r" where
  "row_or_none None = Inl ErrNoRows"
| "row_or_none (Some r) = Inr r"

definition UserStore_List :: "user list res" where
  "UserStore_List = db_query (\<lambda>d. Inr (map scan_user (d_users d)))"

definition UserStore_Get :: "int \<Rightarrow> user res" where
  "UserStore_Get i = db_query (\<lambda>d. row_or_none (map_option scan_user (sel_row u_id i (d_users d))))"

definition UserStore_GetBySubToken :: "string \<Rightarrow> user res" where
  "UserStore_GetBySubToken token = db_query (\<lambda>d. row_or_none
     (map_option scan_user (List.find (\<lambda>u. u_sub_token u = token) (d_users d))))"

definition UserStore_GetByUsername :: "string \<Rightarrow> user res" where
  "UserStore_GetByUsername username = db_query (\<lambda>d. row_or_none
     (List.find (\<lambda>u. u_name u = username) (d_users d)))"

text \<open>\<open>enabled = 1 AND (expire_at = '' OR expire_at > datetime('now'))\<close>\<close>

definition enabled_unexpired :: "datetime \<Rightarrow> user \<Rightarrow> bool" where
  "enabled_unexpired now u \<longleftrightarrow> u_enabled u \<and> (u_expire u = '''' \<or> u_expire u > FormatDateTime now)"

definition UserStore_ListEnabled :: "user list res" where
  "UserStore_ListEnabled = do { now \<leftarrow> get_now;
     db_query (\<lambda>d. Inr (map scan_user (filter (enabled_unexpired now) (d_users d)))) }"

section \<open>Inserts\<close>

record create_user_req =
  cu_name :: string
  cu_uuid :: string
  cu_limit :: int
  cu_expire :: string
  cu_note :: string

text \<open>\<open>INSERT INTO users\<close>: the unique columns are checked, then the row gets the next id.\<close>

definition insert_user :: "user \<Rightarrow> db \<Rightarrow> db_error + int \<times> db" where
  "insert_user u d =
    (if list_ex (\<lambda>x. u_name x = u_name u) (d_users d) then Inl (ErrUnique ''users.name'')
     else if list_ex (\<lambda>x. u_uuid x = u_uuid u) (d_users d) then Inl (ErrUnique ''users.uuid'')
     else if list_ex (\<lambda>x. u_sub_token x = u_sub_token u) (d_users d)
     then Inl (ErrUnique ''users.sub_token'')
     else let i = d_user_seq d + 1
       in Inr (i, d\<lparr>d_users := ins_row u_id (u\<lparr>u_id := i\<rparr>) (d_users d), d_user_seq := i\<rparr>))"

text \<open>The row the two inserts share; the other columns take the defaults of the schema.\<close>

definition new_user_row :: "string \<Rightarrow> string \<Rightarrow> string \<Rightarrow> string \<Rightarrow> user" where
  "new_user_row name uid token now =
    \<lparr>u_id = 0, u_name = name, u_uuid = uid, u_sub_token = token, u_password = '''',
     u_enabled = True, u_limit = 0, u_used = 0, u_up = 0, u_down = 0, u_reset_day = 1,
     u_last_reset = '''', u_note = '''', u_expire = '''', u_created = now, u_updated = now\<rparr>"

definition UserStore_Create :: "create_user_req \<Rightarrow> user res" where
  "UserStore_Create req = do {
     uid \<leftarrow> (if cu_uuid req = '''' then NewString else State_Monad.return (cu_uuid req));
     subToken \<leftarrow> generateToken;
     now \<leftarrow> get_now_text;
     and_then (db_exec (insert_user ((new_user_row (cu_name req) uid subToken now)
         \<lparr>u_note := cu_note req, u_limit := cu_limit req, u_expire := cu_expire req\<rparr>)))
       (\<lambda>i. UserStore_Get i) }"

definition UserStore_CreateWithPassword :: "string \<Rightarrow> string \<Rightarrow> user res" where
  "UserStore_CreateWithPassword username passwordHash = do {
     uid \<leftarrow> NewString;
     subToken \<leftarrow> generateToken;
     now \<leftarrow> get_now_text;
     and_then (db_exec (insert_user ((new_user_row username uid subToken now)
         \<lparr>u_password := passwordHash, u_enabled := False\<rparr>)))
       (\<lambda>i. UserStore_Get i) }"

section \<open>Updates\<close>

record update_user_req =
  uu_name :: "string option"
  uu_enabled :: "bool option"
  uu_limit :: "int option"
  uu_reset_day :: "int option"
  uu_expire :: "string option"
  uu_note :: "string option"

text \<open>\<open>UPDATE users SET ... WHERE id = ?\<close>; a missing row is no error.\<close>

definition set_user :: "int \<Rightarrow> (user \<Rightarrow> user) \<Rightarrow> db \<Rightarrow> db_error + unit \<times> db" where
  "set_user i f d = Inr ((), d\<lparr>d_users := upd_row u_id i f (d_users d)\<rparr>)"

definition set_user_name :: "int \<Rightarrow> string \<Rightarrow> string \<Rightarrow> db \<Rightarrow> db_error + unit \<times> db" where
  "set_user_name i name now d =
    (if list_ex (\<lambda>u. u_id u = i) (d_users d) \<and> list_ex (\<lambda>u. u_id u \<noteq> i \<and> u_name u = name) (d_users d)
     then Inl (ErrUnique ''users.name'')
     else set_user i (\<lambda>u. u\<lparr>u_name := name, u_updated := now\<rparr>) d)"

text \<open>\<open>if req.X != nil { exec }\<close>\<close>

definition when_given :: "'x option \<Rightarrow> ('x \<Rightarrow> unit res) \<Rightarrow> unit res" where
  "when_given x f = (case x of None \<Rightarrow> State_Monad.return (Inr ()) | Some v \<Rightarrow> f v)"

definition applyUserUpdate :: "int \<Rightarrow> update_user_req \<Rightarrow> unit res" where
  "applyUserUpdate i req = do { now \<leftarrow> get_now_text;
     and_then (when_given (uu_name req) (\<lambda>v. db_exec (set_user_name i v now))) (\<lambda>_.
     and_then (when_given (uu_enabled req)
       (\<lambda>v. db_exec (set_user i (\<lambda>u. u\<lparr>u_enabled := v, u_updated := now\<rparr>)))) (\<lambda>_.
     and_then (when_given (uu_limit req)
       (\<lambda>v. db_exec (set_user i (\<lambda>u. u\<lparr>u_limit := v, u_updated := now\<rparr>)))) (\<lambda>_.
     and_then (when_given (uu_reset_day req)
       (\<lambda>v. db_exec (set_user i (\<lambda>u. u\<lparr>u_reset_day := v, u_updated := now\<rparr>)))) (\<lambda>_.
     and_then (when_given (uu_expire req)
       (\<lambda>v. db_exec (set_user i (\<lambda>u. u\<lparr>u_expire := v, u_updated := now\<rparr>)))) (\<lambda>_.
     when_given (uu_note req)
       (\<lambda>v. db_exec (set_user i (\<lambda>u. u\<lparr>u_note := v, u_updated := now\<rparr>)))))))) }"

text \<open>\<open>SELECT COUNT(*) FROM users WHERE id = ?\<close>, and for nodes.\<close>

definition count_users :: "int \<Rightarrow> nat res" where
  "count_users i = db_query (\<lambda>d. Inr (count_rows (\<lambda>u. u_id u = i) (d_users d)))"

definition count_nodes :: "int \<Rightarrow> nat res" where
  "count_nodes i = db_query (\<lambda>d. Inr (count_rows (\<lambda>n. n_id n = i) (d_nodes d)))"

definition fail :: "db_error \<Rightarrow> 'a res" where
  "fail e = State_Monad.return (Inl e)"

definition ok :: "'a \<Rightarrow> 'a res" where
  "ok a = State_Monad.return (Inr a)"

definition UserStore_Update :: "int \<Rightarrow> update_user_req \<Rightarrow> user res" where
  "UserStore_Update i req =
     and_then (transaction (
       and_then (applyUserUpdate i req) (\<lambda>_.
       and_then (count_users i) (\<lambda>exists.
       if exists = 0 then fail ErrNoRows else ok ()))))
     (\<lambda>_. UserStore_Get i)"

text \<open>\<open>fmt.Errorf("node %d not found", nodeID)\<close> unless the node exists.\<close>

definition require_node :: "int \<Rightarrow> unit res" where
  "require_node nodeID = and_then (count_nodes nodeID) (\<lambda>exists.
     if exists = 0 then fail (ErrMsg (''node '' @ Itoa nodeID @ '' not found'')) else ok ())"

definition delete_access_of_user :: "int \<Rightarrow> unit res" where
  "delete_access_of_user i = db_exec (\<lambda>d. Inr ((), d\<lparr>d_access := del_rows (\<lambda>a. fst a = i) (d_access d)\<rparr>))"

text \<open>\<open>INSERT INTO user_access\<close> with its uniqueness constraint.\<close>

definition insert_access :: "int \<Rightarrow> int \<Rightarrow> unit res" where
  "insert_access i nodeID = db_exec (\<lambda>d.
     if (i, nodeID) \<in> set (d_access d) then Inl (ErrUnique ''user_access.user_id, user_access.node_id'')
     else Inr ((), d\<lparr>d_access := d_access d @ [(i, nodeID)]\<rparr>))"

definition UserStore_UpdateWithAccess :: "int \<Rightarrow> update_user_req \<Rightarrow> int list \<Rightarrow> user res" where
  "UserStore_UpdateWithAccess i req nodeIDs =
     and_then (transaction (
       and_then (count_users i) (\<lambda>exists.
       if exists = 0 then fail ErrNoRows
       else let nodeIDs = uniqueSortedIDs nodeIDs in
         and_then (for_each require_node nodeIDs) (\<lambda>_.
         and_then (applyUserUpdate i req) (\<lambda>_.
         and_then (delete_access_of_user i) (\<lambda>_.
         for_each (insert_access i) nodeIDs))))))
     (\<lambda>_. UserStore_Get i)"

section \<open>Deletion\<close>

definition UserStore_Delete :: "int \<Rightarrow> unit res" where
  "UserStore_Delete i = db_exec (\<lambda>d. Inr ((), d\<lparr>d_users := del_rows (\<lambda>u. u_id u = i) (d_users d)\<rparr>))"

definition UserStore_DeleteWithRelatedData :: "int \<Rightarrow> unit res" where
  "UserStore_DeleteWithRelatedData i = transaction (
     and_then (delete_access_of_user i) (\<lambda>_.
     and_then (db_exec (\<lambda>d. Inr ((), d\<lparr>d_logs := del_rows (\<lambda>t. t_user t = i) (d_logs d)\<rparr>))) (\<lambda>_.
     and_then (db_exec (\<lambda>d. Inr (count_rows (\<lambda>u. u_id u = i) (d_users d),
         d\<lparr>d_users := del_rows (\<lambda>u. u_id u = i) (d_users d)\<rparr>))) (\<lambda>deleted.
     if deleted \<noteq> 1 then fail ErrNoRows else ok ()))))"

section \<open>Traffic counters\<close>

text \<open>Go's \<open>int64\<close> addition.\<close>

definition wrap64 :: "int \<Rightarrow> int" where
  "wrap64 i = (i + 2 ^ 63) mod 2 ^ 64 - 2 ^ 63"

definition add_user_traffic :: "int \<Rightarrow> int \<Rightarrow> string \<Rightarrow> user \<Rightarrow> user" where
  "add_user_traffic up down now u = u\<lparr>u_used := u_used u + wrap64 (up + down), u_up := u_up u + up,
     u_down := u_down u + down, u_updated := now\<rparr>"

text \<open>The error of the statement is dropped.\<close>

definition UserStore_AddTraffic :: "int \<Rightarrow> int \<Rightarrow> int \<Rightarrow> unit io" where
  "UserStore_AddTraffic userID up down = do { now \<leftarrow> get_now_text;
     _ \<leftarrow> db_exec (set_user userID (add_user_traffic up down now));
     State_Monad.return () }"

definition UserStore_ResetTraffic :: "int \<Rightarrow> unit res" where
  "UserStore_ResetTraffic userID = do { now \<leftarrow> get_now_text;
     db_exec (set_user userID (\<lambda>u. u\<lparr>u_used := 0, u_up := 0, u_down := 0, u_updated := now\<rparr>)) }"

definition UserStore_RestoreTraffic :: "user \<Rightarrow> unit res" where
  "UserStore_RestoreTraffic user = do { now \<leftarrow> get_now_text;
     db_exec (set_user (u_id user) (\<lambda>u. u\<lparr>u_used := u_used user, u_up := u_up user,
       u_down := u_down user, u_last_reset := u_last_reset user, u_updated := now\<rparr>)) }"

definition UserStore_ResetSubToken :: "int \<Rightarrow> string res" where
  "UserStore_ResetSubToken userID = do { token \<leftarrow> generateToken; now \<leftarrow> get_now_text;
     and_then (db_exec (\<lambda>d.
       if list_ex (\<lambda>u. u_id u = userID) (d_users d)
         \<and> list_ex (\<lambda>u. u_id u \<noteq> userID \<and> u_sub_token u = token) (d_users d)
       then Inl (ErrUnique ''users.sub_token'')
       else set_user userID (\<lambda>u. u\<lparr>u_sub_token := token, u_updated := now\<rparr>) d))
     (\<lambda>_. ok token) }"

section \<open>Lazy monthly reset and activity\<close>

text \<open>The start of the user's current period: this month's reset day, or last month's.\<close>

definition reset_date :: "int \<Rightarrow> datetime \<Rightarrow> datetime" where
  "reset_date day now = (let resetDate = mk_time (yr now) (mo now) day 0 0 0
     in if Before now resetDate then add_months (- 1) resetDate else resetDate)"

definition UserStore_CheckTrafficReset :: "user \<Rightarrow> user io" where
  "UserStore_CheckTrafficReset u =
    (if u_reset_day u \<le> 0 \<or> u_reset_day u > 28 then State_Monad.return u
     else do { now \<leftarrow> get_now;
       let expected = FormatDay (reset_date (u_reset_day u) now);
       (if u_last_reset u \<ge> expected then State_Monad.return u
        else do {
          _ \<leftarrow> db_exec (set_user (u_id u) (\<lambda>r. r\<lparr>u_used := 0, u_up := 0, u_down := 0,
             u_last_reset := expected, u_updated := FormatDateTime now\<rparr>));
          State_Monad.return (u\<lparr>u_used := 0, u_up := 0, u_down := 0, u_last_reset := expected\<rparr>) }) })"

definition IsActive :: "datetime \<Rightarrow> user \<Rightarrow> bool" where
  "IsActive now u =
    (if \<not> u_enabled u then False
     else if u_expire u \<noteq> '''' \<and> u_expire u < FormatDateTime now then False
     else if u_limit u > 0 \<and> u_used u \<ge> u_limit u then False
     else True)"

end
