(* ===== verification/NodeStore.thy ===== *)
theory NodeStore
  imports UserStore
begin

text \<open>
  \<open>model/node.go\<close>: the \<open>nodes\<close> and \<open>node_inbounds\<close> tables. \<open>ORDER BY sort_order, id\<close> is a
  stable sort of rows that are kept in the order of their id.
\<close>

section \<open>Nodes\<close>

definition DefaultSingboxBin :: string where
  "DefaultSingboxBin = ''/usr/local/bin/sing-box''"

definition DefaultConfigPath :: string where
  "DefaultConfigPath = ''/etc/sing-box/config.json''"

definition NodeStore_List :: "node list res" where
  "NodeStore_List = db_query (\<lambda>d. Inr (sort_key n_sort_order (d_nodes d)))"

definition NodeStore_ListEnabled :: "node list res" where
  "NodeStore_ListEnabled = db_query (\<lambda>d. Inr (sort_key n_sort_order (filter n_enabled (d_nodes d))))"

definition NodeStore_Get :: "int \<Rightarrow> node res" where
  "NodeStore_Get i = db_query (\<lambda>d. row_or_none (sel_row n_id i (d_nodes d)))"

definition NodeStore_GetByToken :: "string \<Rightarrow> node res" where
  "NodeStore_GetByToken token =
    (if token = '''' then fail ErrNoRows
     else db_query (\<lambda>d. row_or_none (List.find (\<lambda>n. n_agent_token n = token) (d_nodes d))))"

record create_node_req =
  cn_name :: string
  cn_host :: string
  cn_port :: int
  cn_domain :: string
  cn_ssh_user :: string
  cn_proxy_type :: string
  cn_config_path :: string
  cn_singbox_bin :: string

definition insert_node :: "node \<Rightarrow> db \<Rightarrow> db_error + int \<times> db" where
  "insert_node n d =
    (if list_ex (\<lambda>x. n_name x = n_name n) (d_nodes d) then Inl (ErrUnique ''nodes.name'')
     else let i = d_node_seq d + 1
       in Inr (i, d\<lparr>d_nodes := ins_row n_id (n\<lparr>n_id := i\<rparr>) (d_nodes d), d_node_seq := i\<rparr>))"

definition NodeStore_Create :: "create_node_req \<Rightarrow> node res" where
  "NodeStore_Create req = do {
     let port = (if cn_port req = 0 then 22 else cn_port req);
     let ssh_user = (if cn_ssh_user req = '''' then ''root'' else cn_ssh_user req);
     let proxy_type = (if cn_proxy_type req = '''' then ''singbox'' else cn_proxy_type req);
     let config_path = (if cn_config_path req = '''' then DefaultConfigPath else cn_config_path req);
     let bin = (if cn_singbox_bin req = '''' then DefaultSingboxBin else cn_singbox_bin req);
     token \<leftarrow> generateToken;
     now \<leftarrow> get_now_text;
     and_then (db_exec (insert_node
         \<lparr>n_id = 0, n_name = cn_name req, n_host = cn_host req, n_port = port,
          n_domain = cn_domain req, n_ssh_user = ssh_user, n_ssh_password = '''',
          n_proxy_type = proxy_type, n_config_path = config_path, n_singbox_bin = bin,
          n_agent_token = token, n_enabled = True, n_sort_order = 0, n_created = now\<rparr>))
       (\<lambda>i. NodeStore_Get i) }"

record update_node_req =
  un_name :: "string option"
  un_host :: "string option"
  un_port :: "int option"
  un_domain :: "string option"
  un_ssh_password :: "string option"
  un_ssh_user :: "string option"
  un_proxy_type :: "string option"
  un_enabled :: "bool option"
  un_config_path :: "string option"
  un_singbox_bin :: "string option"
  un_sort_order :: "int option"

definition set_node :: "int \<Rightarrow> (node \<Rightarrow> node) \<Rightarrow> db \<Rightarrow> db_error + unit \<times> db" where
  "set_node i f d = Inr ((), d\<lparr>d_nodes := upd_row n_id i f (d_nodes d)\<rparr>)"

definition set_node_name :: "int \<Rightarrow> string \<Rightarrow> db \<Rightarrow> db_error + unit \<times> db" where
  "set_node_name i name d =
    (if list_ex (\<lambda>n. n_id n = i) (d_nodes d) \<and> list_ex (\<lambda>n. n_id n \<noteq> i \<and> n_name n = name) (d_nodes d)
     then Inl (ErrUnique ''nodes.name'')
     else set_node i (\<lambda>n. n\<lparr>n_name := name\<rparr>) d)"

definition NodeStore_Update :: "int \<Rightarrow> update_node_req \<Rightarrow> node res" where
  "NodeStore_Update i req =
     and_then (transaction (
       and_then (when_given (un_name req) (\<lambda>v. db_exec (set_node_name i v))) (\<lambda>_.
       and_then (when_given (un_host req) (\<lambda>v. db_exec (set_node i (\<lambda>n. n\<lparr>n_host := v\<rparr>)))) (\<lambda>_.
       and_then (when_given (un_port req) (\<lambda>v. db_exec (set_node i (\<lambda>n. n\<lparr>n_port := v\<rparr>)))) (\<lambda>_.
       and_then (when_given (un_domain req) (\<lambda>v. db_exec (set_node i (\<lambda>n. n\<lparr>n_domain := v\<rparr>)))) (\<lambda>_.
       and_then (when_given (un_ssh_password req)
         (\<lambda>v. db_exec (set_node i (\<lambda>n. n\<lparr>n_ssh_password := v\<rparr>)))) (\<lambda>_.
       and_then (when_given (un_ssh_user req)
         (\<lambda>v. db_exec (set_node i (\<lambda>n. n\<lparr>n_ssh_user := v\<rparr>)))) (\<lambda>_.
       and_then (when_given (un_proxy_type req)
         (\<lambda>v. db_exec (set_node i (\<lambda>n. n\<lparr>n_proxy_type := v\<rparr>)))) (\<lambda>_.
       and_then (when_given (un_enabled req)
         (\<lambda>v. db_exec (set_node i (\<lambda>n. n\<lparr>n_enabled := v\<rparr>)))) (\<lambda>_.
       and_then (when_given (un_config_path req)
         (\<lambda>v. db_exec (set_node i (\<lambda>n. n\<lparr>n_config_path := v\<rparr>)))) (\<lambda>_.
       and_then (when_given (un_singbox_bin req)
         (\<lambda>v. db_exec (set_node i (\<lambda>n. n\<lparr>n_singbox_bin := v\<rparr>)))) (\<lambda>_.
       and_then (when_given (un_sort_order req)
         (\<lambda>v. db_exec (set_node i (\<lambda>n. n\<lparr>n_sort_order := v\<rparr>)))) (\<lambda>_.
       and_then (count_nodes i) (\<lambda>exists.
       if exists = 0 then fail ErrNoRows else ok ()))))))))))))))
     (\<lambda>_. NodeStore_Get i)"

definition NodeStore_Delete :: "int \<Rightarrow> unit res" where
  "NodeStore_Delete i = transaction (
     and_then (db_exec (\<lambda>d. Inr ((), d\<lparr>d_inbounds := del_rows (\<lambda>b. ib_node b = i) (d_inbounds d)\<rparr>))) (\<lambda>_.
     and_then (db_exec (\<lambda>d. Inr ((), d\<lparr>d_access := del_rows (\<lambda>a. snd a = i) (d_access d)\<rparr>))) (\<lambda>_.
     and_then (db_exec (\<lambda>d. Inr ((), d\<lparr>d_logs := del_rows (\<lambda>t. t_node t = i) (d_logs d)\<rparr>))) (\<lambda>_.
     db_exec (\<lambda>d. Inr ((), d\<lparr>d_nodes := del_rows (\<lambda>n. n_id n = i) (d_nodes d)\<rparr>))))))"

section \<open>Inbounds\<close>

text \<open>An empty or malformed settings column scans into the same raw message.\<close>

definition NodeStore_ListInbounds :: "int \<Rightarrow> inbound list res" where
  "NodeStore_ListInbounds nodeID = db_query (\<lambda>d.
     Inr (sort_key ib_sort_order (filter (\<lambda>b. ib_node b = nodeID) (d_inbounds d))))"

definition NodeStore_GetWithInbounds :: "int \<Rightarrow> (node \<times> inbound list) res" where
  "NodeStore_GetWithInbounds i =
     and_then (NodeStore_Get i) (\<lambda>n.
     and_then (NodeStore_ListInbounds i) (\<lambda>inbounds.
     ok (n, inbounds)))"

record create_inbound_req =
  ci_tag :: string
  ci_protocol :: string
  ci_port :: int
  ci_settings :: raw_message

definition NodeStore_GetInbound :: "int \<Rightarrow> inbound res" where
  "NodeStore_GetInbound i = db_query (\<lambda>d. row_or_none (sel_row ib_id i (d_inbounds d)))"

fun settings_or_empty :: "raw_message \<Rightarrow> raw_message" where
  "settings_or_empty RawEmpty = RawJson (JObj [])"
| "settings_or_empty s = s"

text \<open>
  \<open>INSERT INTO node_inbounds\<close>, with the next id or with a given one; \<open>sqlite_sequence\<close>
  keeps the largest id ever used.
\<close>

definition insert_inbound :: "inbound \<Rightarrow> db \<Rightarrow> db_error + int \<times> db" where
  "insert_inbound b d =
    (if list_ex (\<lambda>x. ib_id x = ib_id b) (d_inbounds d) then Inl (ErrUnique ''node_inbounds.id'')
     else Inr (ib_id b, d\<lparr>d_inbounds := ins_row ib_id b (d_inbounds d),
                          d_inbound_seq := max (d_inbound_seq d) (ib_id b)\<rparr>))"

definition insert_next_inbound :: "inbound \<Rightarrow> db \<Rightarrow> db_error + int \<times> db" where
  "insert_next_inbound b d = insert_inbound (b\<lparr>ib_id := d_inbound_seq d + 1\<rparr>) d"

definition NodeStore_CreateInbound :: "int \<Rightarrow> create_inbound_req \<Rightarrow> inbound res" where
  "NodeStore_CreateInbound nodeID req =
     and_then (db_exec (insert_next_inbound
       \<lparr>ib_id = 0, ib_node = nodeID, ib_tag = ci_tag req, ib_protocol = ci_protocol req,
        ib_port = ci_port req, ib_settings = settings_or_empty (ci_settings req),
        ib_enabled = True, ib_sort_order = 0\<rparr>))
     (\<lambda>i. NodeStore_GetInbound i)"

text \<open>An \<open>UPDATE\<close> by key that reports how many rows it changed.\<close>

definition exec_inbounds :: "(inbound \<Rightarrow> bool) \<Rightarrow> (inbound \<Rightarrow> inbound) \<Rightarrow> nat res" where
  "exec_inbounds p f = db_exec (\<lambda>d. Inr (count_rows p (d_inbounds d),
     d\<lparr>d_inbounds := map (\<lambda>b. if p b then f b else b) (d_inbounds d)\<rparr>))"

definition NodeStore_UpdateInbound :: "int \<Rightarrow> create_inbound_req \<Rightarrow> inbound res" where
  "NodeStore_UpdateInbound i req =
     and_then (exec_inbounds (\<lambda>b. ib_id b = i) (\<lambda>b. b\<lparr>ib_tag := ci_tag req,
       ib_protocol := ci_protocol req, ib_port := ci_port req,
       ib_settings := settings_or_empty (ci_settings req)\<rparr>)) (\<lambda>updated.
     if updated \<noteq> 1 then fail ErrNoRows else NodeStore_GetInbound i)"

definition NodeStore_RestoreInbound :: "inbound \<Rightarrow> inbound res" where
  "NodeStore_RestoreInbound b =
     and_then (db_exec (insert_inbound b)) (\<lambda>_. NodeStore_GetInbound (ib_id b))"

definition NodeStore_DeleteInbound :: "int \<Rightarrow> unit res" where
  "NodeStore_DeleteInbound i =
     and_then (db_exec (\<lambda>d. Inr (count_rows (\<lambda>b. ib_id b = i) (d_inbounds d),
       d\<lparr>d_inbounds := del_rows (\<lambda>b. ib_id b = i) (d_inbounds d)\<rparr>))) (\<lambda>deleted.
     if deleted \<noteq> 1 then fail ErrNoRows else ok ())"

section \<open>Reordering\<close>

record reorder_item =
  ri_id :: int
  ri_sort_order :: int

definition reorder_node :: "reorder_item \<Rightarrow> unit res" where
  "reorder_node item =
     and_then (db_exec (\<lambda>d. Inr (count_rows (\<lambda>n. n_id n = ri_id item) (d_nodes d),
       d\<lparr>d_nodes := upd_row n_id (ri_id item) (\<lambda>n. n\<lparr>n_sort_order := ri_sort_order item\<rparr>) (d_nodes d)\<rparr>)))
     (\<lambda>updated. if updated \<noteq> 1 then fail ErrNoRows else ok ())"

definition NodeStore_ReorderNodes :: "reorder_item list \<Rightarrow> unit res" where
  "NodeStore_ReorderNodes items = transaction (for_each reorder_node items)"

definition reorder_inbound :: "int \<Rightarrow> reorder_item \<Rightarrow> unit res" where
  "reorder_inbound nodeID item =
     and_then (exec_inbounds (\<lambda>b. ib_id b = ri_id item \<and> ib_node b = nodeID)
       (\<lambda>b. b\<lparr>ib_sort_order := ri_sort_order item\<rparr>))
     (\<lambda>updated. if updated \<noteq> 1 then fail ErrNoRows else ok ())"

definition NodeStore_ReorderInbounds :: "int \<Rightarrow> reorder_item list \<Rightarrow> unit res" where
  "NodeStore_ReorderInbounds nodeID items = transaction (for_each (reorder_inbound nodeID) items)"

end
