(* ===== verification/AccessStore.thy ===== *)
theory AccessStore
  imports NodeStore
begin

text \<open>
  \<open>model/access.go\<close>: the \<open>user_access\<close> table, and the query that decides which users a
  node serves.
\<close>

definition validateUser :: "int \<Rightarrow> unit res" where
  "validateUser userID = and_then (count_users userID) (\<lambda>exists.
     if exists = 0 then fail (ErrMsg (''user '' @ Itoa userID @ '' not found'')) else ok ())"

definition validateUserAndNode :: "int \<Rightarrow> int \<Rightarrow> unit res" where
  "validateUserAndNode userID nodeID = and_then (validateUser userID) (\<lambda>_. require_node nodeID)"

text \<open>\<open>INSERT OR IGNORE\<close>\<close>

definition add_access :: "int \<times> int \<Rightarrow> (int \<times> int) list \<Rightarrow> (int \<times> int) list" where
  "add_access p rows = (if p \<in> set rows then rows else rows @ [p])"

definition AccessStore_Grant :: "int \<Rightarrow> int \<Rightarrow> unit res" where
  "AccessStore_Grant userID nodeID =
     and_then (validateUserAndNode userID nodeID) (\<lambda>_.
     db_exec (\<lambda>d. Inr ((), d\<lparr>d_access := add_access (userID, nodeID) (d_access d)\<rparr>)))"

definition AccessStore_GrantAll :: "int \<Rightarrow> unit res" where
  "AccessStore_GrantAll userID =
     and_then (validateUser userID) (\<lambda>_.
     db_exec (\<lambda>d. Inr ((), d\<lparr>d_access :=
       fold add_access (map (\<lambda>n. (userID, n_id n)) (d_nodes d)) (d_access d)\<rparr>)))"

definition AccessStore_Revoke :: "int \<Rightarrow> int \<Rightarrow> unit res" where
  "AccessStore_Revoke userID nodeID =
     db_exec (\<lambda>d. Inr ((), d\<lparr>d_access := del_rows (\<lambda>a. a = (userID, nodeID)) (d_access d)\<rparr>))"

definition AccessStore_RevokeAll :: "int \<Rightarrow> unit res" where
  "AccessStore_RevokeAll userID = delete_access_of_user userID"

definition AccessStore_Replace :: "int \<Rightarrow> int list \<Rightarrow> unit res" where
  "AccessStore_Replace userID nodeIDs =
     and_then (validateUser userID) (\<lambda>_.
     let nodeIDs = uniqueSortedIDs nodeIDs in
     transaction (
       and_then (for_each require_node nodeIDs) (\<lambda>_.
       and_then (delete_access_of_user userID) (\<lambda>_.
       for_each (insert_access userID) nodeIDs))))"

text \<open>The nodes a user may use, ascending.\<close>

definition nodes_of_user :: "int \<Rightarrow> db \<Rightarrow> int list" where
  "nodes_of_user userID d = sort (map snd (filter (\<lambda>a. fst a = userID) (d_access d)))"

definition AccessStore_ListNodeIDs :: "int \<Rightarrow> int list res" where
  "AccessStore_ListNodeIDs userID = db_query (\<lambda>d. Inr (nodes_of_user userID d))"

text \<open>The error of the query is dropped and leaves the count at 0.\<close>

definition AccessStore_HasAccess :: "int \<Rightarrow> int \<Rightarrow> bool io" where
  "AccessStore_HasAccess userID nodeID =
     attempt (db_query (\<lambda>d. Inr (count_rows (\<lambda>a. a = (userID, nodeID)) (d_access d))))
       (\<lambda>_. State_Monad.return False)
       (\<lambda>count. State_Monad.return (count > 0))"

text \<open>
  The \<open>WHERE\<close> clause on the joined user row. The query does not order its result and its
  callers use it as a set; the model keeps the order of \<open>user_access\<close>.
\<close>

definition may_use :: "datetime \<Rightarrow> user \<Rightarrow> bool" where
  "may_use now u \<longleftrightarrow> u_enabled u \<and> (u_expire u = '''' \<or> u_expire u > FormatDateTime now)
     \<and> (u_limit u = 0 \<or> u_used u < u_limit u)"

definition users_for_node :: "datetime \<Rightarrow> int \<Rightarrow> db \<Rightarrow> int list" where
  "users_for_node now nodeID d =
     concat (map (\<lambda>a. if snd a = nodeID
         then map u_id (filter (\<lambda>u. u_id u = fst a \<and> may_use now u) (d_users d)) else [])
       (d_access d))"

definition AccessStore_UsersForNode :: "int \<Rightarrow> int list res" where
  "AccessStore_UsersForNode nodeID = do { now \<leftarrow> get_now;
     db_query (\<lambda>d. Inr (users_for_node now nodeID d)) }"

definition AccessStore_CountForNode :: "int \<Rightarrow> nat res" where
  "AccessStore_CountForNode nodeID =
     db_query (\<lambda>d. Inr (count_rows (\<lambda>a. snd a = nodeID) (d_access d)))"

end
