(* ===== verification/TrafficStore.thy ===== *)
theory TrafficStore
  imports AccessStore
begin

text \<open>
  \<open>model/traffic.go\<close>: the \<open>traffic_logs\<close> table. Samples carry a UTC text; the panel's time
  zone, a table of offsets that belongs to the host's zone database, is an argument.
\<close>

section \<open>Time zones\<close>

text \<open>\<open>*time.Location\<close>: nil, or a name and the offset in force at a UTC moment.\<close>

record location =
  loc_name :: string
  loc_offset :: "datetime \<Rightarrow> int"

definition UTC :: location where
  "UTC = \<lparr>loc_name = ''UTC'', loc_offset = (\<lambda>_. 0)\<rparr>"

fun store_location :: "location option \<Rightarrow> location" where
  "store_location None = UTC"
| "store_location (Some l) = l"

definition In_location :: "location \<Rightarrow> datetime \<Rightarrow> datetime" where
  "In_location l t = add_seconds (loc_offset l t) t"

text \<open>
  The moment of a local time, as \<open>time.Date\<close> finds it: the offset in force when the local
  reading is taken for UTC, corrected once by the offset in force at the result.
\<close>

definition local_to_utc :: "location \<Rightarrow> datetime \<Rightarrow> datetime" where
  "local_to_utc l t = (let offset = loc_offset l t in
     if offset = 0 then t else add_seconds (- loc_offset l (add_seconds (- offset) t)) t)"

section \<open>Recording and retention\<close>

definition RetentionMonths :: int where
  "RetentionMonths = 3"

definition TrafficStore_Record :: "int \<Rightarrow> int \<Rightarrow> int \<Rightarrow> int \<Rightarrow> unit io" where
  "TrafficStore_Record nodeID userID up down = do { now \<leftarrow> get_now_text;
     _ \<leftarrow> db_exec (\<lambda>d. Inr ((), d\<lparr>d_logs := d_logs d @
       [\<lparr>t_user = userID, t_node = nodeID, t_up = up, t_down = down, t_at = now\<rparr>]\<rparr>));
     State_Monad.return () }"

definition Today :: "location option \<Rightarrow> datetime \<Rightarrow> string" where
  "Today loc now = FormatDay (In_location (store_location loc) now)"

definition retention_first :: "location option \<Rightarrow> datetime \<Rightarrow> datetime" where
  "retention_first loc now = (let t = In_location (store_location loc) now
     in add_months (- (RetentionMonths - 1)) (mk_time (yr t) (mo t) 1 0 0 0))"

definition RetentionStart :: "location option \<Rightarrow> datetime \<Rightarrow> string" where
  "RetentionStart loc now = FormatDay (retention_first loc now)"

text \<open>
  \<open>Prune\<close> parses the day it has just formatted, so the parse cannot fail and its value is
  the midnight the text was made from.
\<close>

definition TrafficStore_Prune :: "location option \<Rightarrow> nat res" where
  "TrafficStore_Prune loc = do { now \<leftarrow> get_now;
     let cutoff = local_to_utc (store_location loc) (retention_first loc now);
     db_exec (\<lambda>d. Inr (count_rows (\<lambda>t. t_at t < FormatDateTime cutoff) (d_logs d),
       d\<lparr>d_logs := del_rows (\<lambda>t. t_at t < FormatDateTime cutoff) (d_logs d)\<rparr>)) }"

section \<open>Totals per node\<close>

definition sum_up :: "sample list \<Rightarrow> int" where
  "sum_up ts = sum_list (map t_up ts)"

definition sum_down :: "sample list \<Rightarrow> int" where
  "sum_down ts = sum_list (map t_down ts)"

definition node_totals :: "sample list \<Rightarrow> int \<Rightarrow> (int \<times> int) option" where
  "node_totals ts i = (let mine = filter (\<lambda>t. t_node t = i) ts
     in if mine = [] then None else Some (sum_up mine, sum_down mine))"

definition TrafficStore_NodeTotals :: "(int \<Rightarrow> (int \<times> int) option) res" where
  "TrafficStore_NodeTotals = db_query (\<lambda>d. Inr (node_totals (d_logs d)))"

section \<open>Usage\<close>

text \<open>\<open>date(recorded_at, '+n seconds')\<close> on the texts the table holds; NULL on any other text.\<close>

definition two_digits :: "string \<Rightarrow> int" where
  "two_digits s = int (read_nat s)"

definition ParseDateTime :: "string \<Rightarrow> datetime option" where
  "ParseDateTime s =
    (let f = \<lambda>i n. take n (drop i s);
         t = mk_time (two_digits (f 0 4)) (two_digits (f 5 2)) (two_digits (f 8 2))
               (two_digits (f 11 2)) (two_digits (f 14 2)) (two_digits (f 17 2))
     in if length s = 19 \<and> list_all is_digit (f 0 4 @ f 5 2 @ f 8 2 @ f 11 2 @ f 14 2 @ f 17 2)
          \<and> f 4 1 = ''-'' \<and> f 7 1 = ''-'' \<and> f 10 1 = '' '' \<and> f 13 1 = '':'' \<and> f 16 1 = '':''
          \<and> valid_date t \<and> valid_clock t
        then Some t else None)"

definition sql_date :: "int \<Rightarrow> string \<Rightarrow> string option" where
  "sql_date offset recorded = map_option (\<lambda>t. FormatDay (add_seconds offset t)) (ParseDateTime recorded)"

record usage_query =
  q_from :: string
  q_to :: string
  q_user :: int
  q_node :: int
  q_by_day :: bool
  q_by_user :: bool
  q_by_node :: bool
  q_max_rows :: int

record usage_row =
  ur_day :: string
  ur_user_id :: int
  ur_user :: string
  ur_node_id :: int
  ur_node :: string
  ur_up :: int
  ur_down :: int

definition selected :: "usage_query \<Rightarrow> int \<Rightarrow> sample \<Rightarrow> bool" where
  "selected q offset t = ((case sql_date offset (t_at t) of None \<Rightarrow> False
       | Some day \<Rightarrow> q_from q \<le> day \<and> day \<le> q_to q)
     \<and> (q_user q > 0 \<longrightarrow> t_user t = q_user q) \<and> (q_node q > 0 \<longrightarrow> t_node t = q_node q))"

text \<open>The grouped columns of a sample; a column that is not grouped is left zero.\<close>

definition group_key :: "usage_query \<Rightarrow> int \<Rightarrow> sample \<Rightarrow> string \<times> int \<times> int" where
  "group_key q offset t =
    ((if q_by_day q then (case sql_date offset (t_at t) of None \<Rightarrow> '''' | Some day \<Rightarrow> day) else ''''),
     (if q_by_user q then t_user t else 0), (if q_by_node q then t_node t else 0))"

text \<open>\<open>COALESCE(name, '')\<close> of the left join, and the fallback for a deleted row.\<close>

definition joined_name :: "string option \<Rightarrow> int \<Rightarrow> string" where
  "joined_name name i = (case name of None \<Rightarrow> ''#'' @ Itoa i
     | Some s \<Rightarrow> if s = '''' then ''#'' @ Itoa i else s)"

definition usage_row_of :: "usage_query \<Rightarrow> int \<Rightarrow> db \<Rightarrow> string \<times> int \<times> int \<Rightarrow> usage_row" where
  "usage_row_of q offset d k =
    (let ts = filter (\<lambda>t. selected q offset t \<and> group_key q offset t = k) (d_logs d)
     in \<lparr>ur_day = fst k, ur_user_id = fst (snd k),
         ur_user = (if q_by_user q then joined_name
             (map_option u_name (sel_row u_id (fst (snd k)) (d_users d))) (fst (snd k)) else ''''),
         ur_node_id = snd (snd k),
         ur_node = (if q_by_node q then joined_name
             (map_option n_name (sel_row n_id (snd (snd k)) (d_nodes d))) (snd (snd k)) else ''''),
         ur_up = sum_up ts, ur_down = sum_down ts\<rparr>)"

text \<open>
  Without a dimension there is one row, the total; otherwise one per group, ordered by day
  and by descending volume. SQLite leaves the order of equal rows open; the model keeps the
  order of first appearance.
\<close>

definition usage_rows :: "usage_query \<Rightarrow> int \<Rightarrow> db \<Rightarrow> usage_row list" where
  "usage_rows q offset d =
    (let grouped = q_by_day q \<or> q_by_user q \<or> q_by_node q;
         keys = (if grouped
           then remdups (map (group_key q offset) (filter (selected q offset) (d_logs d)))
           else [('''', 0, 0)]);
         rows = map (usage_row_of q offset d) keys;
         by_volume = sort_key (\<lambda>r. - (ur_up r + ur_down r)) rows;
         ordered = (if q_by_day q then sort_key ur_day by_volume else if grouped then by_volume else rows)
     in if q_max_rows q > 0 then take (nat (q_max_rows q)) ordered else ordered)"

definition TrafficStore_Usage :: "location option \<Rightarrow> usage_query \<Rightarrow> usage_row list res" where
  "TrafficStore_Usage loc q = do { now \<leftarrow> get_now;
     db_query (\<lambda>d. Inr (usage_rows q (loc_offset (store_location loc) now) d)) }"

end
