(* ===== verification/Generator.thy ===== *)
theory Generator
  imports Database
begin

text \<open>
  \<open>singbox/generator.go\<close>, \<open>singbox/hysteria.go\<close>: the sing-box configuration of a node.
  A Go map that is marshalled is an object here with its entries in the order of the
  source (\<open>encoding/json\<close> sorts them, which does not change the value); a nil slice is
  \<open>null\<close>.
\<close>

section \<open>Settings\<close>

text \<open>
  \<open>json.Unmarshal\<close> into \<open>map[string]any\<close>, whose error the generators drop: anything but an
  object leaves the map nil. Of duplicate keys the last one counts.
\<close>

type_synonym settings = "(string \<times> json) list"

fun settings_map :: "raw_message \<Rightarrow> settings" where
  "settings_map (RawJson (JObj m)) = m"
| "settings_map _ = []"

definition field :: "settings \<Rightarrow> string \<Rightarrow> json option" where
  "field m k = map_of (rev m) k"

text \<open>\<open>v, _ := s[k].(string)\<close>\<close>

definition str_field :: "settings \<Rightarrow> string \<Rightarrow> string" where
  "str_field m k = (case field m k of Some (JStr v) \<Rightarrow> v | _ \<Rightarrow> '''')"

text \<open>\<open>int(f)\<close> of a float: towards zero.\<close>

definition int_of_float :: "rat \<Rightarrow> int" where
  "int_of_float f = (if f < 0 then - \<lfloor>- f\<rfloor> else \<lfloor>f\<rfloor>)"

definition jint :: "int \<Rightarrow> json" where
  "jint i = JNum (of_int i)"

definition jarr :: "json list \<Rightarrow> json" where
  "jarr xs = (if xs = [] then JNull else JArr xs)"

section \<open>Hysteria 2 profiles\<close>

definition siteHTML :: string where
  "siteHTML = concat (map (\<lambda>l. l @ [CHR 0x0A])
    [''<!doctype html>'',
     ''<html lang=\"en\">'',
     ''<meta charset=\"utf-8\">'',
     ''<meta name=\"viewport\" content=\"width=device-width, initial-scale=1\">'',
     ''<title>Welcome</title>'',
     ''<style>'',
     ''body{margin:10vh auto;padding:24px;max-width:680px;font:17px/1.7 system-ui,sans-serif;color:#283343;background:#f7f9fc}'',
     ''main{background:white;padding:32px;border:1px solid #e4e8ef;border-radius:12px}'',
     ''h1{font-size:28px}footer{margin-top:32px;color:#657085;font-size:14px}'',
     ''</style>'',
     ''<main><h1>Welcome</h1><p>This website is online.</p><p>More information will be available here soon.</p></main>'',
     ''<footer>Thank you for visiting.</footer>'',
     ''</html>''])"

definition HysteriaProfile :: "settings \<Rightarrow> string" where
  "HysteriaProfile s =
    (if str_field s ''profile'' \<noteq> '''' then str_field s ''profile''
     else if str_field s ''obfs_password'' \<noteq> '''' then ''salamander''
     else ''quic'')"

definition hysteriaObfsPassword :: "settings \<Rightarrow> string" where
  "hysteriaObfsPassword s =
    (if HysteriaProfile s \<noteq> ''salamander'' then '''' else str_field s ''obfs_password'')"

definition builtinMasquerade :: json where
  "builtinMasquerade = JObj
    [(''type'', JStr ''string''), (''status_code'', jint 200),
     (''headers'', JObj [(''Content-Type'', JArr [JStr ''text/html; charset=utf-8''])]),
     (''content'', JStr siteHTML)]"

definition realityServer :: "string \<Rightarrow> settings \<Rightarrow> string" where
  "realityServer nodeHost s = (if str_field s ''server'' \<noteq> '''' then str_field s ''server'' else nodeHost)"

section \<open>Inbounds\<close>

text \<open>The tag given to an inbound and the set of used tags after it.\<close>

definition uniqueTag :: "string \<Rightarrow> string \<Rightarrow> int \<Rightarrow> string list \<Rightarrow> string \<times> string list" where
  "uniqueTag tag protocol port used =
    (let base = (if tag = '''' then protocol else tag)
     in if base \<notin> set used then (base, base # used)
        else let unique = base @ ''-'' @ Itoa port in (unique, unique # used))"

definition buildHysteria2Inbound :: "user list \<Rightarrow> inbound \<Rightarrow> settings \<Rightarrow> string \<Rightarrow> json" where
  "buildHysteria2Inbound users ib s tag =
    (let obfsPassword = hysteriaObfsPassword s in JObj
      ([(''type'', JStr ''hysteria2''), (''tag'', JStr tag),
        (''listen'', JStr ''::''), (''listen_port'', jint (ib_port ib)),
        (''users'', JArr (map (\<lambda>u. JObj [(''name'', JStr (u_name u)), (''password'', JStr (u_uuid u))]) users)),
        (''ignore_client_bandwidth'', JBool True),
        (''tls'', JObj
          [(''enabled'', JBool True), (''server_name'', JStr (str_field s ''domain'')),
           (''alpn'', JArr [JStr ''h3'']),
           (''certificate_path'', JStr (str_field s ''cert_path'')),
           (''key_path'', JStr (str_field s ''key_path''))])]
       @ (if obfsPassword \<noteq> ''''
          then [(''obfs'', JObj [(''type'', JStr ''salamander''), (''password'', JStr obfsPassword)])]
          else [(''masquerade'', builtinMasquerade)])))"

definition buildRealityInbound :: "user list \<Rightarrow> inbound \<Rightarrow> settings \<Rightarrow> string \<Rightarrow> json" where
  "buildRealityInbound users ib s tag =
    (let sni = str_field s ''sni'';
         handshakePort = (case field s ''handshake_port'' of Some (JNum hp) \<Rightarrow> int_of_float hp | _ \<Rightarrow> 443);
         handshakeDest = (if str_field s ''handshake_server'' = '''' then sni
                          else str_field s ''handshake_server'')
     in JObj
      [(''type'', JStr ''vless''), (''tag'', JStr tag),
       (''listen'', JStr ''::''), (''listen_port'', jint (ib_port ib)),
       (''users'', JArr (map (\<lambda>u. JObj [(''name'', JStr (u_name u)), (''uuid'', JStr (u_uuid u)),
          (''flow'', JStr ''xtls-rprx-vision'')]) users)),
       (''tls'', JObj
         [(''enabled'', JBool True), (''server_name'', JStr sni),
          (''reality'', JObj
            [(''enabled'', JBool True), (''private_key'', JStr (str_field s ''private_key'')),
             (''short_id'', JArr [JStr (str_field s ''short_id'')]),
             (''handshake'', JObj
               [(''server'', JStr handshakeDest), (''server_port'', jint handshakePort)])])])])"

definition buildHTTPUpgradeInbound :: "user list \<Rightarrow> inbound \<Rightarrow> settings \<Rightarrow> string \<Rightarrow> json" where
  "buildHTTPUpgradeInbound users ib s tag =
    (let domain = str_field s ''domain''; certPath = str_field s ''cert_path'';
         keyPath = str_field s ''key_path'';
         path = (if str_field s ''path'' = '''' then ''/upgrade'' else str_field s ''path'')
     in JObj
      ([(''type'', JStr ''vless''), (''tag'', JStr tag),
        (''listen'', JStr ''::''), (''listen_port'', jint (ib_port ib)),
        (''users'', JArr (map (\<lambda>u. JObj [(''name'', JStr (u_name u)), (''uuid'', JStr (u_uuid u))]) users)),
        (''transport'', JObj
          [(''type'', JStr ''httpupgrade''), (''host'', JStr domain), (''path'', JStr path)])]
       @ (if certPath \<noteq> '''' \<and> keyPath \<noteq> ''''
          then [(''tls'', JObj
            [(''enabled'', JBool True), (''server_name'', JStr domain),
             (''certificate_path'', JStr certPath), (''key_path'', JStr keyPath)])]
          else [])))"

text \<open>
  The loop over the inbounds: a disabled one is skipped before it takes a tag, one of an
  unknown protocol after.
\<close>

definition build_inbound :: "user list \<Rightarrow> inbound \<Rightarrow> string \<Rightarrow> json list" where
  "build_inbound users ib tag =
    (let s = settings_map (ib_settings ib) in
     if ib_protocol ib = ''hysteria2'' then [buildHysteria2Inbound users ib s tag]
     else if ib_protocol ib = ''vless-reality'' then [buildRealityInbound users ib s tag]
     else if ib_protocol ib = ''vless-httpupgrade'' then [buildHTTPUpgradeInbound users ib s tag]
     else [])"

fun build_inbounds :: "user list \<Rightarrow> string list \<Rightarrow> inbound list \<Rightarrow> json list" where
  "build_inbounds users usedTags [] = []"
| "build_inbounds users usedTags (ib # ibs) =
    (if \<not> ib_enabled ib then build_inbounds users usedTags ibs
     else case uniqueTag (ib_tag ib) (ib_protocol ib) (ib_port ib) usedTags of
       (tag, usedTags') \<Rightarrow> build_inbound users ib tag @ build_inbounds users usedTags' ibs)"

definition buildInbounds :: "user list \<Rightarrow> inbound list \<Rightarrow> json list" where
  "buildInbounds users inbounds = build_inbounds users [] inbounds"

section \<open>The configuration\<close>

fun tag_of :: "json \<Rightarrow> string" where
  "tag_of (JObj m) = str_field m ''tag''"
| "tag_of _ = ''''"

definition inboundTags :: "json list \<Rightarrow> string list" where
  "inboundTags ibList = filter (\<lambda>t. t \<noteq> '''') (map tag_of ibList)"

definition V2RayAPIListen :: string where
  "V2RayAPIListen = ''127.0.0.1:10085''"

definition GenerateConfig :: "user list \<Rightarrow> inbound list \<Rightarrow> json" where
  "GenerateConfig users inbounds =
    (let ibList = buildInbounds users inbounds; tags = inboundTags ibList;
         experimental = JObj
           ([(''clash_api'', JObj [(''external_controller'', JStr ''127.0.0.1:9090'')])]
            @ (if length tags > 0 \<and> length users > 0
               then [(''v2ray_api'', JObj
                 [(''listen'', JStr V2RayAPIListen),
                  (''stats'', JObj
                    [(''enabled'', JBool True),
                     (''inbounds'', JArr (map JStr tags)),
                     (''users'', JArr (map (\<lambda>u. JStr (u_name u)) users))])])]
               else []))
     in JObj
      [(''log'', JObj [(''level'', JStr ''info''), (''timestamp'', JBool True)]),
       (''experimental'', experimental),
       (''inbounds'', jarr ibList),
       (''outbounds'', JArr [JObj [(''type'', JStr ''direct''), (''tag'', JStr ''direct'')]])])"

section \<open>Laws\<close>

text \<open>Only the names and the UUIDs of the users enter the configuration.\<close>

definition same_account :: "user \<Rightarrow> user \<Rightarrow> bool" where
  "same_account u v \<longleftrightarrow> u_name u = u_name v \<and> u_uuid u = u_uuid v"

lemma map_same_account:
  assumes "list_all2 same_account us vs"
  shows "map (\<lambda>u. f (u_name u) (u_uuid u)) us = map (\<lambda>u. f (u_name u) (u_uuid u)) vs"
  using assms by (induction rule: list_all2_induct) (auto simp: same_account_def)

lemma build_inbound_cong:
  assumes "list_all2 same_account us vs"
  shows "build_inbound us ib tag = build_inbound vs ib tag"
  by (simp only: build_inbound_def buildHysteria2Inbound_def buildRealityInbound_def
    buildHTTPUpgradeInbound_def
    map_same_account [OF assms, of "\<lambda>n i. JObj [(''name'', JStr n), (''password'', JStr i)]"]
    map_same_account [OF assms, of "\<lambda>n i. JObj [(''name'', JStr n), (''uuid'', JStr i)]"]
    map_same_account [OF assms, of "\<lambda>n i. JObj [(''name'', JStr n), (''uuid'', JStr i),
      (''flow'', JStr ''xtls-rprx-vision'')]"])

lemma build_inbounds_cong:
  "list_all2 same_account us vs \<Longrightarrow> build_inbounds us used ibs = build_inbounds vs used ibs"
  by (induction us used ibs rule: build_inbounds.induct)
    (auto simp: build_inbound_cong [of us vs for us vs] split: prod.splits)

lemma GenerateConfig_cong:
  assumes "list_all2 same_account us vs"
  shows "GenerateConfig us ibs = GenerateConfig vs ibs"
proof -
  have names: "map (\<lambda>u. JStr (u_name u)) us = map (\<lambda>u. JStr (u_name u)) vs"
    using map_same_account [OF assms, of "\<lambda>n i. JStr n"] .
  moreover have "length us = length vs"
    using assms by (rule list_all2_lengthD)
  ultimately show ?thesis
    by (simp only: GenerateConfig_def buildInbounds_def build_inbounds_cong [OF assms])
qed

end
