(* ===== verification/Enforcement.thy ===== *)
theory Enforcement
  imports TrafficStore Generator
begin

text \<open>
  What a node has to run, as a function of the database and the clock: the specification
  the panel's synchronisation is measured against. \<open>served\<close> states the access rule
  (assigned, enabled, not expired, below the traffic limit) directly on the rows,
  \<open>gen_doc\<close> is the configuration for exactly these users, and \<open>in_sync\<close> says that a
  node's machine has it on disk and, when its unit reads that path, has it loaded.
\<close>

section \<open>The specification\<close>

definition served :: "datetime \<Rightarrow> int \<Rightarrow> db \<Rightarrow> user list" where
  "served now i d = filter (\<lambda>u. (u_id u, i) \<in> set (d_access d) \<and> may_use now u) (d_users d)"

definition inbounds_of :: "int \<Rightarrow> db \<Rightarrow> inbound list" where
  "inbounds_of i d = sort_key ib_sort_order (filter (\<lambda>b. ib_node b = i) (d_inbounds d))"

definition gen_doc :: "datetime \<Rightarrow> int \<Rightarrow> db \<Rightarrow> json" where
  "gen_doc now i d = GenerateConfig (served now i d) (inbounds_of i d)"

definition sshDialAddr :: "node \<Rightarrow> string" where
  "sshDialAddr node =
    (let host = (if Contains (n_host node) '':'' \<and> \<not> HasPrefix (n_host node) ''[''
                 then ''['' @ n_host node @ '']'' else n_host node)
     in host @ '':'' @ Itoa (n_port node))"

definition runs :: "machine \<Rightarrow> string \<Rightarrow> json \<Rightarrow> bool" where
  "runs m path doc \<longleftrightarrow> m_files m path = Some (RawJson doc)
     \<and> (m_unit_path m = path \<longrightarrow> m_loaded m = Some (RawJson doc))"

definition in_sync :: "world \<Rightarrow> int \<Rightarrow> bool" where
  "in_sync w i \<longleftrightarrow> (\<forall>n. sel_row n_id i (d_nodes (w_db w)) = Some n \<and> n_proxy_type n = ''singbox''
     \<longrightarrow> runs (w_fleet w (sshDialAddr n)) (n_config_path n) (gen_doc (w_now w) i (w_db w)))"

section \<open>The files of a push\<close>

definition tmpPath :: string where
  "tmpPath = ''/tmp/singbox-panel-config.json''"

definition backupPath :: string where
  "backupPath = tmpPath @ ''.backup''"

text \<open>
  What the panel relies on: ids are keys, every node is a machine of its own, and no
  configuration is kept at the paths a push uses. It checks none but the first.
\<close>

definition fleet_ok :: "db \<Rightarrow> bool" where
  "fleet_ok d \<longleftrightarrow> distinct (map u_id (d_users d)) \<and> distinct (map n_id (d_nodes d))
     \<and> distinct (map sshDialAddr (d_nodes d))
     \<and> (\<forall>n \<in> set (d_nodes d). 0 < n_id n \<and> n_config_path n \<noteq> tmpPath \<and> n_config_path n \<noteq> backupPath)"

section \<open>When a change of the database leaves a node's document alone\<close>

lemma gen_doc_cong:
  assumes "list_all2 same_account (served now i d) (served now i d')"
    and "inbounds_of i d = inbounds_of i d'"
  shows "gen_doc now i d = gen_doc now i d'"
  using GenerateConfig_cong [OF assms(1)] assms(2) by (simp add: gen_doc_def)

lemma same_account_refl [simp]: "same_account u u"
  by (simp add: same_account_def)

lemma list_all2_same_account_refl [simp]: "list_all2 same_account us us"
  by (simp add: list_all2_same)

text \<open>A user that is not assigned to the node may change in any way.\<close>

lemma served_upd_other:
  assumes "(k, i) \<notin> set acc" "\<And>u. u_id (f u) = u_id u"
  shows "served now i (d\<lparr>d_users := upd_row u_id k f us, d_access := acc\<rparr>)
    = served now i (d\<lparr>d_users := us, d_access := acc\<rparr>)"
  using assms by (induction us) (auto simp: served_def upd_row_def)

text \<open>The columns outside the access rule and the account do not enter any document.\<close>

definition same_rights :: "user \<Rightarrow> user \<Rightarrow> bool" where
  "same_rights u v \<longleftrightarrow> u_id u = u_id v \<and> u_name u = u_name v \<and> u_uuid u = u_uuid v
     \<and> u_enabled u = u_enabled v \<and> u_expire u = u_expire v \<and> u_limit u = u_limit v
     \<and> u_used u = u_used v"

lemma same_rights_may_use: "same_rights u v \<Longrightarrow> may_use now u = may_use now v"
  by (simp add: same_rights_def may_use_def)

lemma served_same_rights:
  assumes "list_all2 same_rights (d_users d) (d_users d')"
    and "\<And>k. (k, i) \<in> set (d_access d) \<longleftrightarrow> (k, i) \<in> set (d_access d')"
  shows "list_all2 same_account (served now i d) (served now i d')"
proof -
  have "list_all2 same_account
      (filter (\<lambda>u. (u_id u, i) \<in> set (d_access d) \<and> may_use now u) us)
      (filter (\<lambda>u. (u_id u, i) \<in> set (d_access d) \<and> may_use now u) vs)"
    if "list_all2 same_rights us vs" for us vs
    using that
    by (induction rule: list_all2_induct)
      (auto simp: same_account_def same_rights_may_use, auto simp: same_rights_def)
  from this [OF assms(1)] assms(2) show ?thesis by (simp add: served_def)
qed

text \<open>
  \<open>same_for i d d'\<close>: to node \<open>i\<close> the two databases are alike. Every user assigned to it has
  the same rights in both, and its row and its inbounds are the same.
\<close>

definition same_for :: "int \<Rightarrow> db \<Rightarrow> db \<Rightarrow> bool" where
  "same_for i d d' \<longleftrightarrow>
     list_all2 (\<lambda>u v. u_id u = u_id v \<and>
        ((u_id u, i) \<in> set (d_access d) \<longleftrightarrow> (u_id u, i) \<in> set (d_access d')) \<and>
        ((u_id u, i) \<in> set (d_access d) \<longrightarrow> same_rights u v)) (d_users d) (d_users d')
     \<and> inbounds_of i d = inbounds_of i d'
     \<and> sel_row n_id i (d_nodes d) = sel_row n_id i (d_nodes d')"

lemma same_for_gen_doc:
  assumes "same_for i d d'"
  shows "gen_doc now i d = gen_doc now i d'"
proof (rule gen_doc_cong)
  have "list_all2 same_account
      (filter (\<lambda>u. (u_id u, i) \<in> set (d_access d) \<and> may_use now u) us)
      (filter (\<lambda>u. (u_id u, i) \<in> set (d_access d') \<and> may_use now u) vs)"
    if "list_all2 (\<lambda>u v. u_id u = u_id v \<and>
        ((u_id u, i) \<in> set (d_access d) \<longleftrightarrow> (u_id u, i) \<in> set (d_access d')) \<and>
        ((u_id u, i) \<in> set (d_access d) \<longrightarrow> same_rights u v)) us vs" for us vs
    using that
    by (induction rule: list_all2_induct)
      (auto simp: same_account_def dest: same_rights_may_use, auto simp: same_rights_def)
  with assms show "list_all2 same_account (served now i d) (served now i d')"
    by (simp add: served_def same_for_def)
  show "inbounds_of i d = inbounds_of i d'"
    using assms by (simp add: same_for_def)
qed

lemma in_sync_cong:
  assumes "in_sync w i" "gen_doc (w_now w) i (w_db w) = gen_doc (w_now w) i (w_db w')"
    and "sel_row n_id i (d_nodes (w_db w)) = sel_row n_id i (d_nodes (w_db w'))"
    and "w_fleet w' = w_fleet w" "w_now w' = w_now w"
  shows "in_sync w' i"
  using assms by (simp add: in_sync_def)

lemma in_sync_same_for:
  assumes "in_sync w i" "same_for i (w_db w) (w_db w')"
    and "w_fleet w' = w_fleet w" "w_now w' = w_now w"
  shows "in_sync w' i"
  using assms same_for_gen_doc [OF assms(2)] by (simp add: in_sync_def same_for_def)

lemma same_for_refl [simp]: "same_for i d d"
  by (auto simp: same_for_def same_rights_def intro: list_all2_refl)

lemma same_rights_refl [simp]: "same_rights u u"
  by (simp add: same_rights_def)

lemma same_rights_trans: "same_rights u v \<Longrightarrow> same_rights v x \<Longrightarrow> same_rights u x"
  by (simp add: same_rights_def)

lemma same_rights_sym: "same_rights u v \<Longrightarrow> same_rights v u"
  by (simp add: same_rights_def)

text \<open>The relation between two rows of one user in \<open>same_for\<close>.\<close>

definition row_alike :: "int \<Rightarrow> db \<Rightarrow> db \<Rightarrow> user \<Rightarrow> user \<Rightarrow> bool" where
  "row_alike i d d' u v \<longleftrightarrow> u_id u = u_id v \<and>
     ((u_id u, i) \<in> set (d_access d) \<longleftrightarrow> (u_id u, i) \<in> set (d_access d')) \<and>
     ((u_id u, i) \<in> set (d_access d) \<longrightarrow> same_rights u v)"

lemma same_for_alike: "same_for i d d' \<longleftrightarrow> list_all2 (row_alike i d d') (d_users d) (d_users d')
    \<and> inbounds_of i d = inbounds_of i d' \<and> sel_row n_id i (d_nodes d) = sel_row n_id i (d_nodes d')"
  by (simp add: same_for_def row_alike_def [abs_def])

lemma row_alike_trans: "row_alike i a b u v \<Longrightarrow> row_alike i b c v x \<Longrightarrow> row_alike i a c u x"
  unfolding row_alike_def by (metis same_rights_trans)

lemma row_alike_sym: "row_alike i a b u v \<Longrightarrow> row_alike i b a v u"
  unfolding row_alike_def by (metis same_rights_sym)

lemma same_for_trans: "same_for i a b \<Longrightarrow> same_for i b c \<Longrightarrow> same_for i a c"
  unfolding same_for_alike by (auto intro: list_all2_trans [OF row_alike_trans])

lemma same_for_sym: "same_for i a b \<Longrightarrow> same_for i b a"
  unfolding same_for_alike by (auto simp: list_all2_conv_all_nth intro: row_alike_sym)

text \<open>A row with an id that is not positive does not exist, so there is nothing to run.\<close>

lemma in_sync_nonpos: "fleet_ok (w_db w) \<Longrightarrow> i \<le> 0 \<Longrightarrow> in_sync w i"
  by (auto simp: in_sync_def fleet_ok_def dest!: sel_row_SomeD)

text \<open>
  The databases of an edit: every user row keeps its id, and where a user's assignment to
  node \<open>i\<close> stands its rights stand as well.
\<close>

lemma same_for_edit:
  assumes "d_users d' = map f (d_users d)" "\<And>u. u_id (f u) = u_id u"
    and "\<And>u. u \<in> set (d_users d) \<Longrightarrow> ((u_id u, i) \<in> set (d_access d) \<longleftrightarrow> (u_id u, i) \<in> set (d_access d'))"
    and "\<And>u. u \<in> set (d_users d) \<Longrightarrow> (u_id u, i) \<in> set (d_access d) \<Longrightarrow> same_rights u (f u)"
    and "d_inbounds d' = d_inbounds d" "d_nodes d' = d_nodes d"
  shows "same_for i d d'"
  using assms by (auto simp: same_for_def inbounds_of_def list_all2_conv_all_nth)

end
