(* ===== verification/Sync.thy ===== *)
theory Sync
  imports Enforcement
begin

text \<open>
  \<open>handler/sync.go\<close>: the interface \<open>NodeSynchronizer\<close> through which the handlers push
  configurations, the two functions they use it by, and the contract of the interface as a
  locale. What a client may conclude from \<open>syncFailure\<close> is proved once, inside it.
\<close>

section \<open>Results\<close>

record sync_result =
  sr_node_id :: int
  sr_node :: string
  sr_status :: string
  sr_error :: string

text \<open>A value of the interface type: nil, or the method \<open>SyncNodes\<close>.\<close>

type_synonym syncer = "(int list \<Rightarrow> sync_result list io) option"

definition not_configured :: "int \<Rightarrow> sync_result" where
  "not_configured nodeID = \<lparr>sr_node_id = nodeID, sr_node = '''', sr_status = ''error'',
     sr_error = ''node synchronizer is not configured''\<rparr>"

definition syncNodes :: "syncer \<Rightarrow> int list \<Rightarrow> sync_result list io" where
  "syncNodes syncer nodeIDs =
    (if length nodeIDs = 0 then State_Monad.return []
     else case syncer of
       None \<Rightarrow> State_Monad.return (map not_configured (uniqueNodeIDs nodeIDs))
     | Some SyncNodes \<Rightarrow> SyncNodes nodeIDs)"

definition failure_of :: "sync_result \<Rightarrow> string" where
  "failure_of r =
    (let node = (if sr_node r = '''' then ''#'' @ Itoa (sr_node_id r) else sr_node r);
         detail = (if sr_error r = '''' then ''unexpected sync status: '' @ sr_status r else sr_error r)
     in node @ '': '' @ detail)"

definition syncFailure :: "sync_result list \<Rightarrow> string option" where
  "syncFailure results =
    (let failures = map failure_of (filter (\<lambda>r. sr_status r \<noteq> ''pushed'') results)
     in if length failures = 0 then None
        else Some (''node sync failed: '' @ Join failures ''; ''))"

lemma syncFailure_None: "syncFailure results = None \<longleftrightarrow> (\<forall>r \<in> set results. sr_status r = ''pushed'')"
  by (auto simp: syncFailure_def filter_empty_conv)

lemma syncFailure_Some: "syncFailure results = Some e \<Longrightarrow> \<exists>r \<in> set results. sr_status r \<noteq> ''pushed''"
  using syncFailure_None [of results] by auto

section \<open>The contract of the interface\<close>

text \<open>What a client knows after a call: the state of the nodes it asked for, and of the others.\<close>

definition synced :: "int list \<Rightarrow> world \<Rightarrow> sync_result list \<Rightarrow> world \<Rightarrow> bool" where
  "synced ids w rs w' \<longleftrightarrow> same_db w w' \<and> map sr_node_id rs = uniqueSortedIDs ids \<and>
     (fleet_ok (w_db w) \<longrightarrow> (\<forall>i. in_sync w i \<and> i \<notin> set ids \<longrightarrow> in_sync w' i) \<and>
        (syncFailure rs = None \<longrightarrow> (\<forall>i \<in> set ids. 0 < i \<longrightarrow> in_sync w' i)))"

text \<open>
  One result per requested node, ascending; nothing but machines changes; a node reported
  as pushed runs what the database says, and the nodes that were not asked for still do if
  they did before.
\<close>

locale node_synchronizer =
  fixes SyncNodes :: "int list \<Rightarrow> sync_result list io"
  assumes frame: "wp (SyncNodes ids) (\<lambda>rs w'. same_db w w') w"
    and results: "wp (SyncNodes ids) (\<lambda>rs w'. map sr_node_id rs = uniqueSortedIDs ids) w"
    and pushed: "fleet_ok (w_db w) \<Longrightarrow> wp (SyncNodes ids)
      (\<lambda>rs w'. \<forall>r \<in> set rs. sr_status r = ''pushed'' \<longrightarrow> in_sync w' (sr_node_id r)) w"
    and kept: "fleet_ok (w_db w) \<Longrightarrow> in_sync w i \<Longrightarrow> i \<notin> set ids \<Longrightarrow>
      wp (SyncNodes ids) (\<lambda>rs w'. in_sync w' i) w"
begin

lemma run_synced:
  assumes "run_state (SyncNodes ids) w = (rs, w')"
  shows "synced ids w rs w'"
proof -
  have same: "same_db w w'" by (rule wp_run [OF frame assms])
  have ids: "map sr_node_id rs = uniqueSortedIDs ids" by (rule wp_run [OF results assms])
  have "in_sync w' i" if "fleet_ok (w_db w)" "in_sync w i" "i \<notin> set ids" for i
    by (rule wp_run [OF kept assms]) (use that in auto)
  moreover have "in_sync w' i" if "fleet_ok (w_db w)" "syncFailure rs = None" "i \<in> set ids" "0 < i" for i
  proof -
    have "i \<in> set (map sr_node_id rs)" using that ids by (simp add: set_uniqueSortedIDs)
    then obtain r where r: "r \<in> set rs" "sr_node_id r = i" by auto
    moreover have "\<forall>r \<in> set rs. sr_status r = ''pushed'' \<longrightarrow> in_sync w' (sr_node_id r)"
      by (rule wp_run [OF pushed assms]) (rule that)
    ultimately show ?thesis using that(2) syncFailure_None by blast
  qed
  ultimately show ?thesis using same ids by (simp add: synced_def)
qed

lemma wp_syncNodes:
  assumes "\<And>rs w'. synced ids w rs w' \<Longrightarrow> Q rs w'"
  shows "wp (syncNodes (Some SyncNodes) ids) Q w"
proof (cases "ids = []")
  case True
  have "synced [] w [] w"
    by (simp add: synced_def same_db_def uniqueSortedIDs_def)
  with True assms show ?thesis by (simp add: syncNodes_def wp_step)
next
  case False
  then have "syncNodes (Some SyncNodes) ids = SyncNodes ids" by (simp add: syncNodes_def)
  moreover have "wp (SyncNodes ids) Q w" by (rule wp_runI) (rule assms, rule run_synced)
  ultimately show ?thesis by simp
qed

lemma synced_world:
  "synced ids w rs w' \<Longrightarrow> w_db w' = w_db w \<and> w_now w' = w_now w \<and> w_env w' = w_env w"
  by (simp add: synced_def same_db_def)

lemma synced_all:
  assumes "synced ids w rs w'" "syncFailure rs = None" "fleet_ok (w_db w)"
    and "\<And>i. i \<notin> set ids \<Longrightarrow> 0 < i \<Longrightarrow> in_sync w i" "0 < i"
  shows "in_sync w' i"
  using assms by (auto simp: synced_def)

end

end
