(* ===== verification/Validate.thy ===== *)
theory Validate
  imports GoStrings
begin

text \<open>
  \<open>validDomainName\<close> of \<open>handler/validate.go\<close>, the gate every domain passes that later
  stands in a configuration or on a remote command line.
\<close>

text \<open>
  \<open>net.ParseIP(s) != nil\<close> on an IPv4 text: four decimal octets without leading zeros. An
  IPv6 text has a colon, which the label check refuses anyway.
\<close>

definition ipv4_octet :: "string \<Rightarrow> bool" where
  "ipv4_octet s \<longleftrightarrow> s \<noteq> [] \<and> length s \<le> 3 \<and> list_all is_digit s
     \<and> (length s > 1 \<longrightarrow> hd s \<noteq> CHR ''0'') \<and> read_nat s \<le> 255"

definition is_ipv4 :: "string \<Rightarrow> bool" where
  "is_ipv4 s \<longleftrightarrow> length (SplitByte (CHR ''.'') s) = 4 \<and> list_all ipv4_octet (SplitByte (CHR ''.'') s)"

definition letter_or_digit :: "char \<Rightarrow> bool" where
  "letter_or_digit c \<longleftrightarrow> (CHR ''a'' \<le> c \<and> c \<le> CHR ''z'') \<or> (CHR ''A'' \<le> c \<and> c \<le> CHR ''Z'') \<or> is_digit c"

definition valid_label :: "string \<Rightarrow> bool" where
  "valid_label label \<longleftrightarrow> \<not> (label = [] \<or> length label > 63 \<or> hd label = CHR ''-'' \<or> last label = CHR ''-'')
     \<and> list_all (\<lambda>c. letter_or_digit c \<or> c = CHR ''-'') label"

definition validDomainName :: "string \<Rightarrow> bool" where
  "validDomainName domain =
    (if is_ipv4 domain \<or> domain = [] \<or> length domain > 253 \<or> HasPrefix domain ''.'' \<or> HasSuffix domain ''.''
     then False
     else let labels = SplitByte (CHR ''.'') domain in
       if length labels < 2 then False else list_all valid_label labels)"

lemma SplitByte_chars: "c \<in> set s \<Longrightarrow> c = sep \<or> (\<exists>p \<in> set (SplitByte sep s). c \<in> set p)"
proof (induction s)
  case Nil
  then show ?case by simp
next
  case (Cons x s)
  then show ?case by (cases "SplitByte sep s") auto
qed

lemma validDomainName_labels:
  assumes "validDomainName d"
  shows "2 \<le> length (SplitByte (CHR ''.'') d)" "\<forall>l \<in> set (SplitByte (CHR ''.'') d). valid_label l"
    "length d \<le> 253"
  using assms by (auto simp: validDomainName_def Let_def list_all_iff split: if_splits)

text \<open>No byte of an accepted domain means anything to a shell or to JSON.\<close>

lemma validDomainName_chars:
  assumes "validDomainName d" "c \<in> set d"
  shows "letter_or_digit c \<or> c = CHR ''-'' \<or> c = CHR ''.''"
  using SplitByte_chars [OF assms(2), of "CHR ''.''"] validDomainName_labels(2) [OF assms(1)]
  by (auto simp: valid_label_def list_all_iff)

lemma validDomainName_head:
  assumes "validDomainName d"
  shows "d \<noteq> []" "hd d \<noteq> CHR ''-''" "hd d \<noteq> CHR ''.''"
proof -
  obtain l ls where split: "SplitByte (CHR ''.'') d = l # ls"
    by (cases "SplitByte (CHR ''.'') d") auto
  then have l: "valid_label l" using validDomainName_labels(2) [OF assms] by simp
  show ne: "d \<noteq> []" using assms by (auto simp: validDomainName_def)
  show "hd d \<noteq> CHR ''.''"
    using assms ne by (cases d) (auto simp: validDomainName_def HasPrefix_def)
  then obtain c cs where d: "d = c # cs" "c \<noteq> CHR ''.''" using ne by (cases d) auto
  have "hd l = c"
    using split d by (cases "SplitByte (CHR ''.'') cs") auto
  then show "hd d \<noteq> CHR ''-''" using l d by (simp add: valid_label_def)
qed

end
