(* ===== verification/SetupProfile.thy ===== *)
theory SetupProfile
  imports Database Validate
begin

text \<open>
  \<open>handler/setup_profile.go\<close>: which protocols a node is suggested, from the deployment mode
  and from where the domain's DNS records point, with \<open>net.ParseIP\<close> on the texts of addresses.
  A lookup is a function of the host name (\<open>None\<close> is an error); the handlers take it from
  the environment. An error of \<open>fmt.Errorf\<close> is its text, without the quoted argument where
  the format quotes one.
\<close>

section \<open>Addresses\<close>

text \<open>
  \<open>net.ParseIP\<close>: the sixteen bytes of the address; an IPv4 address and its IPv6-mapped form
  are equal, as for \<open>IP.Equal\<close>. A text is read as IPv4 or IPv6 by the first of its dots and
  colons; zones are refused.
\<close>

definition parse_ipv4 :: "string \<Rightarrow> nat list option" where
  "parse_ipv4 s = (if is_ipv4 s then Some (map read_nat (SplitByte (CHR ''.'') s)) else None)"

definition hex_val :: "char \<Rightarrow> nat option" where
  "hex_val c = (if is_digit c then Some (digit_val c)
     else if CHR ''a'' \<le> c \<and> c \<le> CHR ''f'' then Some (of_char c - 87)
     else if CHR ''A'' \<le> c \<and> c \<le> CHR ''F'' then Some (of_char c - 55)
     else None)"

definition is_hex :: "char \<Rightarrow> bool" where
  "is_hex c \<longleftrightarrow> hex_val c \<noteq> None"

definition read_hex :: "string \<Rightarrow> nat" where
  "read_hex s = foldl (\<lambda>n c. 16 * n + (case hex_val c of None \<Rightarrow> 0 | Some v \<Rightarrow> v)) 0 s"

text \<open>The bytes read so far and, once seen, where the ellipsis stands among them.\<close>

definition expand :: "nat list \<Rightarrow> nat option \<Rightarrow> nat list option" where
  "expand ip ellipsis = (case ellipsis of
     None \<Rightarrow> if length ip < 16 then None else Some ip
   | Some e \<Rightarrow> if length ip < 16 then Some (take e ip @ replicate (16 - length ip) 0 @ drop e ip) else None)"

text \<open>One turn of the loop per group, at most eight.\<close>

fun parse_groups :: "nat \<Rightarrow> nat list \<Rightarrow> nat option \<Rightarrow> string \<Rightarrow> nat list option" where
  "parse_groups 0 ip ellipsis s = (if s = '''' then expand ip ellipsis else None)"
| "parse_groups (Suc n) ip ellipsis s =
    (let group = takeWhile is_hex s; rest = dropWhile is_hex s in
     if group = '''' \<or> length group > 4 then None
     else if HasPrefix rest ''.'' then
       (if ellipsis = None \<and> length ip \<noteq> 12 \<or> length ip + 4 > 16 then None
        else case parse_ipv4 s of None \<Rightarrow> None | Some v4 \<Rightarrow> expand (ip @ v4) ellipsis)
     else let ip = ip @ [read_hex group div 256, read_hex group mod 256] in
       if rest = '''' then expand ip ellipsis
       else if hd rest \<noteq> CHR '':'' \<or> length rest = 1 then None
       else if HasPrefix (tl rest) '':'' then
         (if ellipsis \<noteq> None then None
          else if tl (tl rest) = '''' then expand ip (Some (length ip))
          else parse_groups n ip (Some (length ip)) (tl (tl rest)))
       else parse_groups n ip ellipsis (tl rest))"

definition parse_ipv6 :: "string \<Rightarrow> nat list option" where
  "parse_ipv6 s =
    (if CHR ''%'' \<in> set s then None
     else if HasPrefix s ''::'' then
       (if drop 2 s = '''' then Some (replicate 16 0) else parse_groups 8 [] (Some 0) (drop 2 s))
     else parse_groups 8 [] None s)"

definition ParseIP :: "string \<Rightarrow> nat list option" where
  "ParseIP s = (case dropWhile (\<lambda>c. c \<notin> {CHR ''.'', CHR '':'', CHR ''%''}) s of
     [] \<Rightarrow> None
   | c # _ \<Rightarrow> if c = CHR ''.'' then map_option (\<lambda>v4. replicate 10 0 @ [255, 255] @ v4) (parse_ipv4 s)
              else if c = CHR '':'' then parse_ipv6 s
              else None)"

section \<open>Where the records point\<close>

type_synonym host_lookup = "string \<Rightarrow> string list option"

definition node_addresses :: "string \<Rightarrow> host_lookup \<Rightarrow> string list" where
  "node_addresses nodeHost lookup =
    (if ParseIP nodeHost = None then (case lookup nodeHost of Some resolved \<Rightarrow> resolved | None \<Rightarrow> [nodeHost])
     else [nodeHost])"

definition recordsPointToNode :: "string list \<Rightarrow> string \<Rightarrow> host_lookup \<Rightarrow> bool" where
  "recordsPointToNode records nodeHost lookup =
    (let nodeAddresses = node_addresses nodeHost lookup in
     if length records = 0 then False
     else list_all (\<lambda>record. case ParseIP record of
         None \<Rightarrow> False
       | Some recordIP \<Rightarrow> list_ex (\<lambda>address. ParseIP address = Some recordIP) nodeAddresses) records)"

fun unique_from :: "string list \<Rightarrow> string list \<Rightarrow> string list" where
  "unique_from seen [] = []"
| "unique_from seen (v # vs) =
    (if v \<in> set seen then unique_from seen vs else v # unique_from (v # seen) vs)"

definition uniqueStrings :: "string list \<Rightarrow> string list" where
  "uniqueStrings values = unique_from [] values"

section \<open>Assessment\<close>

definition normalizeSetupMode :: "string \<Rightarrow> string + string" where
  "normalizeSetupMode mode =
    (if mode = '''' then Inr ''auto''
     else if mode \<in> {''auto'', ''direct'', ''cdn'', ''reality''} then Inr mode
     else Inl ''invalid setup mode '')"

record assessment =
  sa_mode :: string
  sa_effective_mode :: string
  sa_domain :: string
  sa_dns_status :: string
  sa_dns_records :: "string list"
  sa_direct_to_node :: bool
  sa_suggested :: "string list"
  sa_requires_confirmation :: bool
  sa_warnings :: "string list"

definition udp_warning :: string where
  "udp_warning = ''Hysteria2 requires client-side UDP connectivity; Reality is kept as the TCP fallback''"

text \<open>The assessment and the error returned beside it.\<close>

definition assess_resolved :: "string \<Rightarrow> assessment \<Rightarrow> assessment \<times> string option" where
  "assess_resolved mode a =
    (if mode = ''direct'' then
       (if \<not> sa_direct_to_node a then (a, Some ''direct mode requires the domain to resolve to the node host'')
        else (a\<lparr>sa_effective_mode := ''direct'', sa_suggested := [''hysteria2'', ''vless-reality''],
                sa_warnings := sa_warnings a @ [udp_warning]\<rparr>, None))
     else if mode = ''cdn'' then
       (let a = a\<lparr>sa_effective_mode := ''cdn'', sa_suggested := [''vless-httpupgrade'', ''vless-reality'']\<rparr> in
        (if sa_direct_to_node a
         then a\<lparr>sa_warnings := sa_warnings a
           @ [''domain currently resolves directly to the node; confirm that CDN mode is intentional'']\<rparr>
         else a, None))
     else if mode = ''auto'' then
       (if sa_direct_to_node a
        then (a\<lparr>sa_effective_mode := ''direct'', sa_suggested := [''hysteria2'', ''vless-reality''],
                sa_warnings := sa_warnings a @ [udp_warning]\<rparr>, None)
        else (a\<lparr>sa_suggested := [''vless-httpupgrade'', ''vless-reality''], sa_requires_confirmation := True,
                sa_warnings := sa_warnings a @ [''DNS does not point directly to the node, but this alone cannot prove that the domain uses a supported CDN; select CDN mode explicitly'']\<rparr>, None))
     else (a, Some ''invalid setup mode ''))"

definition assessSetup :: "string \<Rightarrow> string \<Rightarrow> string \<Rightarrow> host_lookup \<Rightarrow> assessment \<times> string option" where
  "assessSetup mode domain nodeHost lookup =
    (let a = \<lparr>sa_mode = mode, sa_effective_mode = '''', sa_domain = domain, sa_dns_status = ''not_required'',
           sa_dns_records = [], sa_direct_to_node = False, sa_suggested = [], sa_requires_confirmation = False,
           sa_warnings = []\<rparr> in
     if mode = ''reality'' \<or> domain = '''' then
       (if domain = '''' \<and> (mode = ''direct'' \<or> mode = ''cdn'') then (a, Some (mode @ '' mode requires a domain''))
        else (a\<lparr>sa_effective_mode := ''reality'', sa_suggested := [''vless-reality'']\<rparr>, None))
     else if \<not> validDomainName domain then (a, Some ''invalid domain'')
     else case lookup domain of
       None \<Rightarrow> (a\<lparr>sa_dns_status := ''error'', sa_requires_confirmation := True,
          sa_warnings := [''domain DNS lookup failed; no deployment mode was inferred'']\<rparr>,
          Some (''DNS lookup failed for '' @ domain))
     | Some records \<Rightarrow>
         if length records = 0
         then (a\<lparr>sa_dns_status := ''error'', sa_requires_confirmation := True,
            sa_warnings := [''domain DNS lookup failed; no deployment mode was inferred'']\<rparr>,
            Some (''DNS lookup failed for '' @ domain))
         else assess_resolved mode (a\<lparr>sa_dns_status := ''resolved'', sa_dns_records := uniqueStrings records,
            sa_direct_to_node := recordsPointToNode records nodeHost lookup\<rparr>))"

section \<open>Suggested protocols\<close>

record setup_req =
  aq_domain :: string
  aq_mode :: string
  aq_protocols :: "string list"
  aq_hysteria2_profile :: string
  aq_reality_sni :: string
  aq_port_hysteria2 :: int
  aq_port_reality :: int
  aq_port_httpupgrade :: int

text \<open>The protocols, the assessment when one was made, and the error.\<close>

definition suggestedProtocolsForRequest ::
  "setup_req \<Rightarrow> node \<Rightarrow> host_lookup \<Rightarrow> string list \<times> assessment option \<times> string option" where
  "suggestedProtocolsForRequest req node lookup =
    (case normalizeSetupMode (aq_mode req) of
       Inl e \<Rightarrow> ([], None, Some e)
     | Inr mode \<Rightarrow>
       let domain = (if TrimSpace (aq_domain req) = '''' then n_domain node else TrimSpace (aq_domain req)) in
       if length (aq_protocols req) > 0 then
         (if mode = ''auto'' then (aq_protocols req, None, None)
          else (case assessSetup mode domain (n_host node) lookup of (a, e) \<Rightarrow> (aq_protocols req, Some a, e)))
       else (case assessSetup mode domain (n_host node) lookup of
           (a, Some e) \<Rightarrow> ([], Some a, Some e)
         | (a, None) \<Rightarrow>
             if sa_requires_confirmation a
             then ([], Some a, Some ''automatic setup needs an explicit deployment mode'')
             else (sa_suggested a, Some a, None)))"

section \<open>What is suggested\<close>

lemma parse_ipv4_length: "parse_ipv4 s = Some v \<Longrightarrow> length v = 4"
  by (auto simp: parse_ipv4_def is_ipv4_def split: if_splits)

lemma set_unique_from: "set (unique_from seen vs) = set vs - set seen"
  by (induction seen vs rule: unique_from.induct) auto

lemma distinct_unique_from: "distinct (unique_from seen vs)"
  by (induction seen vs rule: unique_from.induct) (auto simp: set_unique_from)

text \<open>Every record is an address, and one of the node's.\<close>

lemma recordsPointToNode_iff: "recordsPointToNode records nodeHost lookup \<longleftrightarrow> records \<noteq> [] \<and>
    (\<forall>r \<in> set records. \<exists>a \<in> set (node_addresses nodeHost lookup). ParseIP r \<noteq> None \<and> ParseIP a = ParseIP r)"
  by (auto simp: recordsPointToNode_def Let_def list_all_iff list_ex_iff split: option.splits) metis+

text \<open>The two ways an assessment succeeds.\<close>

lemma assessSetup_cases:
  assumes "assessSetup mode domain host lookup = (a, None)"
  obtains "sa_suggested a = [''vless-reality'']"
  | records b where "domain \<noteq> ''''" "validDomainName domain" "lookup domain = Some records"
    "assess_resolved mode b = (a, None)" "sa_suggested b = []"
    "sa_direct_to_node b = recordsPointToNode records host lookup"
proof (cases "mode = ''reality'' \<or> domain = ''''")
  case True
  with assms show ?thesis
    unfolding assessSetup_def Let_def if_P [OF True] by (intro that(1)) (auto split: if_splits)
next
  case False
  note open_mode = assms [unfolded assessSetup_def Let_def if_not_P [OF False]]
  then have valid: "validDomainName domain" by (cases "validDomainName domain") simp_all
  obtain records where "lookup domain = Some records" "records \<noteq> []"
    using open_mode valid by (cases "lookup domain"; cases "the (lookup domain)") simp_all
  with open_mode valid have resolved: "assess_resolved mode \<lparr>sa_mode = mode, sa_effective_mode = '''', sa_domain = domain,
      sa_dns_status = ''resolved'', sa_dns_records = uniqueStrings records,
      sa_direct_to_node = recordsPointToNode records host lookup, sa_suggested = [],
      sa_requires_confirmation = False, sa_warnings = []\<rparr> = (a, None)" by simp
  show ?thesis
    by (rule that(2) [OF _ valid \<open>lookup domain = Some records\<close> resolved]) (use False in simp_all)
qed

lemma assess_resolved_direct:
  assumes "assess_resolved mode b = (a, None)" "sa_suggested b = []"
  shows "sa_suggested a = [''hysteria2'', ''vless-reality''] \<and> sa_direct_to_node b
    \<or> sa_suggested a = [''vless-httpupgrade'', ''vless-reality''] \<and> (sa_requires_confirmation a \<or> mode = ''cdn'')"
proof -
  note res = assms(1) [unfolded assess_resolved_def Let_def]
  show ?thesis
  proof (cases "mode = ''direct''")
    case True
    note res = res [unfolded if_P [OF True]]
    then show ?thesis by (cases "sa_direct_to_node b") auto
  next
    case direct: False
    note res = res [unfolded if_not_P [OF direct]]
    show ?thesis
    proof (cases "mode = ''cdn''")
      case True
      note res = res [unfolded if_P [OF True]]
      with True show ?thesis by (cases "sa_direct_to_node b") auto
    next
      case cdn: False
      note res = res [unfolded if_not_P [OF cdn]]
      show ?thesis
      proof (cases "mode = ''auto''")
        case True
        note res = res [unfolded if_P [OF True]]
        then show ?thesis by (cases "sa_direct_to_node b") auto
      next
        case False
        then show ?thesis using res [unfolded if_not_P [OF False]] by simp
      qed
    qed
  qed
qed

text \<open>
  Hysteria 2 is only suggested where every record of the domain is an address of the node,
  and HTTPUpgrade only in CDN mode or with a confirmation pending.
\<close>

lemma assess_suggested:
  assumes "assessSetup mode domain host lookup = (a, None)"
  shows "sa_suggested a = [''vless-reality'']
    \<or> validDomainName domain \<and> (\<exists>records. lookup domain = Some records \<and>
        (sa_suggested a = [''hysteria2'', ''vless-reality''] \<and> recordsPointToNode records host lookup
         \<or> sa_suggested a = [''vless-httpupgrade'', ''vless-reality''] \<and> (sa_requires_confirmation a \<or> mode = ''cdn'')))"
  using assms
proof (cases rule: assessSetup_cases)
  case (2 records b)
  then show ?thesis using assess_resolved_direct [OF 2(4,5)] by metis
qed simp

end
