(* ===== verification/RealityProbe.thy ===== *)
theory RealityProbe
  imports Validate "HOL-Library.Word"
begin

text \<open>
  How a Reality handshake target is judged (\<open>handler/setup.go\<close>, \<open>handler/reality.go\<close>): the
  script that measures candidates from the node, reading its output against an allow-list,
  and the choice among the candidates that qualify.
\<close>

section \<open>Numbers\<close>

text \<open>
  \<open>strconv.ParseFloat\<close> on decimal notation, which is what \<open>curl\<close> prints: a sign, digits with
  at most one point, an exponent. Values are exact, not rounded to binary64, and the spellings
  of infinity, NaN and hexadecimal numbers, which \<open>curl\<close> does not print, count as errors, as
  an exponent beyond the range does in Go and does not here.
\<close>

definition unsigned_decimal :: "string \<Rightarrow> rat option" where
  "unsigned_decimal s =
    (let whole = takeWhile (\<lambda>c. c \<noteq> CHR ''.'') s; rest = dropWhile (\<lambda>c. c \<noteq> CHR ''.'') s;
         frac = tl rest in
     if list_all is_digit (whole @ frac) \<and> whole @ frac \<noteq> ''''
     then Some (of_nat (read_nat (whole @ frac)) / 10 ^ length frac) else None)"

definition sign_split :: "string \<Rightarrow> bool \<times> string" where
  "sign_split s = (if HasPrefix s ''-'' then (True, tl s) else if HasPrefix s ''+'' then (False, tl s) else (False, s))"

definition exponent_part :: "string \<Rightarrow> rat option" where
  "exponent_part e = (if e = '''' then Some 1 else case sign_split (tl e) of (neg, ds) \<Rightarrow>
     if ds = '''' \<or> \<not> list_all is_digit ds then None
     else Some (if neg then 1 / 10 ^ read_nat ds else 10 ^ read_nat ds))"

definition ParseFloat :: "string \<Rightarrow> rat option" where
  "ParseFloat s = (case sign_split s of (neg, t) \<Rightarrow>
     let mantissa = takeWhile (\<lambda>c. c \<noteq> CHR ''e'' \<and> c \<noteq> CHR ''E'') t;
         expo = dropWhile (\<lambda>c. c \<noteq> CHR ''e'' \<and> c \<noteq> CHR ''E'') t in
     (case unsigned_decimal mantissa of None \<Rightarrow> None
      | Some m \<Rightarrow> (case exponent_part expo of None \<Rightarrow> None | Some e \<Rightarrow> Some (if neg then - (m * e) else m * e))))"

section \<open>The probe\<close>

definition realitySNIs :: "string list" where
  "realitySNIs = [''www.apple.com'', ''www.icloud.com'', ''www.microsoft.com'', ''www.bing.com'',
     ''www.office.com'', ''www.amazon.com'', ''www.cloudflare.com'', ''www.kimi.com'', ''www.deepseek.com'']"

text \<open>The quote and the backslash of the shell.\<close>

definition sq :: string where
  "sq = [CHR 0x27]"

definition probe_line :: "string \<Rightarrow> string" where
  "probe_line host =
    ''(metric=$(curl -sS -o /dev/null --connect-timeout 3 --max-time 5 --tlsv1.3 --tls-max 1.3 -w ''
    @ sq @ ''%{http_version} %{http_code} %{time_appconnect}'' @ sq @ '' '' @ sq @ ''https://'' @ host @ ''/'' @ sq
    @ '' 2>/dev/null) && printf '' @ sq @ host @ '' %s'' @ [CHR 0x5C] @ ''n'' @ sq @ '' \"$metric\") &'' @ [CHR 0x0A]"

definition realityProbeScriptFor :: "string list \<Rightarrow> string" where
  "realityProbeScriptFor hosts = concat (map probe_line hosts) @ ''wait'' @ [CHR 0x0A]"

definition realityProbeScript :: string where
  "realityProbeScript = realityProbeScriptFor realitySNIs"

definition realityDestQualifies :: "string \<Rightarrow> int \<Rightarrow> bool" where
  "realityDestQualifies httpVersion statusCode =
    (if httpVersion \<noteq> ''2'' \<and> httpVersion \<noteq> ''3'' then False else 200 \<le> statusCode \<and> statusCode < 400)"

text \<open>One line of the output: the host and its latency when it names an allowed host that qualifies.\<close>

definition qualified_line :: "string list \<Rightarrow> string \<Rightarrow> (string \<times> rat) option" where
  "qualified_line allowed line = (case Fields line of
     [host, version, code, delay] \<Rightarrow>
       if host \<notin> set allowed then None
       else (case Atoi code of (statusCode, no_error) \<Rightarrow>
         if \<not> no_error \<or> \<not> realityDestQualifies version statusCode then None
         else (case ParseFloat delay of None \<Rightarrow> None
           | Some latency \<Rightarrow> if latency \<le> 0 then None else Some (host, latency)))
   | _ \<Rightarrow> None)"

definition qualified_lines :: "string list \<Rightarrow> string \<Rightarrow> (string \<times> rat) list" where
  "qualified_lines allowed output = List.map_filter (qualified_line allowed) (SplitByte (CHR 0x0A) output)"

definition parseQualifiedRealityProbes :: "string \<Rightarrow> (string \<times> rat) list" where
  "parseQualifiedRealityProbes output = sort_key snd (qualified_lines realitySNIs output)"

definition qualifiedRealityProbes :: "string \<Rightarrow> string list" where
  "qualifiedRealityProbes output = map fst (parseQualifiedRealityProbes output)"

definition parseFastestRealityProbe :: "string \<Rightarrow> string \<times> rat" where
  "parseFastestRealityProbe output = (case parseQualifiedRealityProbes output of [] \<Rightarrow> ('''', 0) | p # _ \<Rightarrow> p)"

text \<open>The running best of the loop, empty at first.\<close>

definition better :: "string \<times> rat \<Rightarrow> string \<times> rat \<Rightarrow> string \<times> rat" where
  "better best probe = (if fst best = '''' \<or> snd probe < snd best then probe else best)"

definition parseRealityProbe :: "string \<Rightarrow> string list \<Rightarrow> string \<times> rat" where
  "parseRealityProbe output allowed = foldl better ('''', 0) (qualified_lines allowed output)"

section \<open>Spreading a fleet\<close>

text \<open>FNV-1a on 32 bits.\<close>

definition fnv32a :: "string \<Rightarrow> 32 word" where
  "fnv32a s = foldl (\<lambda>h c. xor h (of_nat (of_char c)) * 16777619) 2166136261 s"

definition pickRealityDest :: "string list \<Rightarrow> string \<Rightarrow> string" where
  "pickRealityDest candidates seed =
    (let candidates = (if length candidates > 3 then take 3 candidates else candidates)
     in candidates ! (unat (fnv32a seed) mod length candidates))"

section \<open>Reports\<close>

record realityTargetProbe =
  rt_host :: string
  rt_http :: string
  rt_status :: int
  rt_latency_ms :: rat
  rt_qualifies :: bool
  rt_current :: bool
  rt_note :: string

definition roundMilliseconds :: "rat \<Rightarrow> rat" where
  "roundMilliseconds seconds = (let x = seconds * 10000 in
     of_int (if x < 0 then - \<lfloor>- x\<rfloor> else \<lfloor>x\<rfloor>) / 10)"

definition describeProbeFailure :: "string \<Rightarrow> int \<Rightarrow> string" where
  "describeProbeFailure version status =
    (if version \<noteq> ''2'' \<and> version \<noteq> ''3'' then ''answered HTTP/'' @ version @ ''; REALITY needs HTTP/2 or /3''
     else ''root path returned '' @ Itoa status @ ''; a real site would not'')"

definition probe_row :: "string \<Rightarrow> string \<Rightarrow> string \<Rightarrow> string \<Rightarrow> realityTargetProbe" where
  "probe_row host version code delay =
    (let status = (case Atoi code of (c, True) \<Rightarrow> c | (_, False) \<Rightarrow> 0);
         qualifies = (status \<noteq> 0 \<and> realityDestQualifies version status) in
     \<lparr>rt_host = host, rt_http = version, rt_status = status,
      rt_latency_ms = (case ParseFloat delay of None \<Rightarrow> 0 | Some latency \<Rightarrow> roundMilliseconds latency),
      rt_qualifies = qualifies, rt_current = False,
      rt_note = (if qualifies then '''' else describeProbeFailure version status)\<rparr>)"

fun probe_rows :: "string list \<Rightarrow> string list \<Rightarrow> string list \<Rightarrow> realityTargetProbe list \<times> string list" where
  "probe_rows allowed seen [] = ([], seen)"
| "probe_rows allowed seen (line # lines) =
    (case Fields line of
       [host, version, code, delay] \<Rightarrow>
         if host \<notin> set allowed \<or> host \<in> set seen then probe_rows allowed seen lines
         else (case probe_rows allowed (host # seen) lines of (rows, seen') \<Rightarrow>
           (probe_row host version code delay # rows, seen'))
     | _ \<Rightarrow> probe_rows allowed seen lines)"

definition unanswered :: "string \<Rightarrow> realityTargetProbe" where
  "unanswered host = \<lparr>rt_host = host, rt_http = '''', rt_status = 0, rt_latency_ms = 0, rt_qualifies = False,
     rt_current = False, rt_note = ''no response: connect failed or timed out from this node''\<rparr>"

definition probeAllRealityTargetsFor :: "string \<Rightarrow> string list \<Rightarrow> realityTargetProbe list" where
  "probeAllRealityTargetsFor output candidates =
    (case probe_rows candidates [] (SplitByte (CHR 0x0A) output) of (rows, seen) \<Rightarrow>
       rows @ map unanswered (filter (\<lambda>host. host \<notin> set seen) candidates))"

section \<open>What the choice guarantees\<close>

lemma set_map_filter: "set (List.map_filter f xs) = {y. \<exists>x \<in> set xs. f x = Some y}"
  by (force simp: map_filter_def)

lemma qualified_line_Some: "qualified_line allowed line = Some (host, latency) \<Longrightarrow> host \<in> set allowed \<and> 0 < latency \<and>
    (\<exists>version code delay status. Fields line = [host, version, code, delay] \<and> Atoi code = (status, True) \<and>
       realityDestQualifies version status)"
  by (auto simp: qualified_line_def split: list.splits if_splits prod.splits option.splits)

definition measured :: "string list \<Rightarrow> string \<Rightarrow> string \<Rightarrow> bool" where
  "measured allowed output host \<longleftrightarrow> host \<in> set allowed \<and> (\<exists>line \<in> set (SplitByte (CHR 0x0A) output).
     \<exists>version code delay status. Fields line = [host, version, code, delay] \<and> Atoi code = (status, True) \<and>
       (version = ''2'' \<or> version = ''3'') \<and> 200 \<le> status \<and> status < 400)"

lemma qualified_lines_measured: "(host, latency) \<in> set (qualified_lines allowed output) \<Longrightarrow> measured allowed output host"
  unfolding qualified_lines_def set_map_filter measured_def
  by (auto dest!: qualified_line_Some simp: realityDestQualifies_def split: if_splits) blast+

lemma foldl_better: "foldl better b ps = b \<or> foldl better b ps \<in> set ps"
  by (induction ps arbitrary: b) (auto simp: better_def)

lemma parseRealityProbe_measured:
  "fst (parseRealityProbe output allowed) = '''' \<or> measured allowed output (fst (parseRealityProbe output allowed))"
  using foldl_better [of "('''', 0)" "qualified_lines allowed output"]
    qualified_lines_measured [of "fst (parseRealityProbe output allowed)" "snd (parseRealityProbe output allowed)"]
  by (auto simp: parseRealityProbe_def)

lemma qualified_measured: "host \<in> set (qualifiedRealityProbes output) \<Longrightarrow> measured realitySNIs output host"
  using qualified_lines_measured by (auto simp: qualifiedRealityProbes_def parseQualifiedRealityProbes_def)

lemma pick_in:
  assumes "candidates \<noteq> []"
  shows "pickRealityDest candidates seed \<in> set (take 3 candidates)"
proof -
  let ?c = "take 3 candidates"
  have "unat (fnv32a seed) mod length ?c < length ?c" using assms by (intro mod_less_divisor) simp
  then have "?c ! (unat (fnv32a seed) mod length ?c) \<in> set ?c" by (rule nth_mem)
  moreover have "(if length candidates > 3 then ?c else candidates) = ?c" by simp
  ultimately show ?thesis unfolding pickRealityDest_def Let_def by presburger
qed

end
