(* ===== verification/SetupData.thy ===== *)
theory SetupData
  imports SetupProfile RealityProbe
begin

text \<open>
  The bodies and results of the remote operations: auto-setup (\<open>AutoSetupReq\<close>,
  \<open>inboundResult\<close> in \<open>handler/setup.go\<close>), reprovisioning (\<open>handler/reprovision.go\<close>) and the
  kernel baseline (\<open>handler/nodetune.go\<close>).
\<close>

datatype details = NoDetails | DetailText string | DetailMap "(string \<times> string) list"

record setup_result =
  si_protocol :: string
  si_port :: int
  si_status :: string
  si_details :: details

record reprovision_req =
  rv_mode :: string
  rv_node_ids :: "int list"
  rv_dry_run :: bool
  rv_upgrade :: bool
  rv_version :: string
  rv_hysteria2_profile :: string
  rv_reality_sni :: string

text \<open>The map of ineffective keys is the list of its entries in the order of the sorted keys.\<close>

record tune_result =
  kt_applied :: "string list"
  kt_ineffective :: "(string \<times> string) list"
  kt_note :: string

text \<open>
  \<open>CertStatus\<close>, \<open>certRenewResult\<close> (\<open>handler/cert.go\<close>) and the answers of
  \<open>handler/nodeops.go\<close>. An empty text is an omitted field.
\<close>

record cert_status =
  cs_domain :: string
  cs_path :: string
  cs_not_after :: string
  cs_days_left :: int
  cs_expired :: bool
  cs_error :: string

record cert_renew_result =
  cr_domain :: string
  cr_protocol :: string
  cr_status :: string
  cr_before :: "cert_status option"
  cr_after :: "cert_status option"
  cr_details :: string
  cr_acme_output :: string

record inbound_status =
  is_id :: int
  is_protocol :: string
  is_port :: int
  is_network :: string
  is_listening :: "bool option"
  is_cert :: "cert_status option"

record node_status =
  ns_node :: string
  ns_installed :: bool
  ns_version :: string
  ns_running :: bool
  ns_inbounds :: "inbound_status list"
  ns_listener_check_error :: bool
  ns_cert_days_left :: "int option"
  ns_system :: "(string \<times> int) list option"

end
