(* ===== verification/Http.thy ===== *)
theory Http
  imports Sync SetupData
begin

text \<open>
  Requests, responses and the small functions the handlers share (\<open>handler/user.go\<close>,
  \<open>handler/auth.go\<close>, \<open>handler/config.go\<close>). A request body is what decoding it into each of
  the request structs gives, \<open>None\<close> when \<open>json.Decode\<close> reports an error; where the handler
  drops that error, what decoding leaves. Concrete JSON is \<open>encoding/json\<close>'s. A response is its status and its JSON value or text.
\<close>

section \<open>Requests and responses\<close>

record access_req =
  ar_node :: int
  ar_all :: bool

record credentials =
  lr_username :: string
  lr_password :: string

record body =
  as_create_user :: "create_user_req option"
  as_update_user :: "(update_user_req \<times> int list option) option"
  as_create_node :: "create_node_req option"
  as_update_node :: "update_node_req option"
  as_create_inbound :: "create_inbound_req option"
  as_reorder :: "reorder_item list option"
  as_access :: "access_req option"
  as_node_ids :: "int list option"
  as_credentials :: "credentials option"
  as_traffic :: "(string \<times> int \<times> int) list option"
  as_auto_setup :: "setup_req option"
  as_reality_target :: "string option"
  as_reprovision :: "reprovision_req option"
  as_cert_renew :: "string \<times> bool"
  as_install :: "string option"
  as_setup_ssh :: string
  as_upload_cert :: "(string \<times> string \<times> string) option"

record request =
  r_method :: string
  r_path :: string
  r_query :: "string \<Rightarrow> string"
  r_values :: "string \<Rightarrow> string list"
  r_header :: "string \<Rightarrow> string"
  r_body :: body
  r_has_body :: bool
  r_role :: string
  r_user :: int

text \<open>
  The payloads of the handlers: one constructor per shape that is encoded.
\<close>

datatype payload =
    PError string
  | PUser user
  | PUsers "user list"
  | PUserSync user "sync_result list"
  | PUserDeleted "sync_result list"
  | PToken string
  | PNode node
  | PNodes "node list"
  | PNodeInbounds node "inbound list"
  | PNodeDeleted string "sync_result list"
  | PInboundSync inbound "sync_result list"
  | PInboundDeleted inbound "sync_result list"
  | PReordered "sync_result list"
  | PAccess int "int list" "sync_result list"
  | PSync "sync_result list"
  | PSyncOne sync_result
  | PConfig json
  | PRaw raw_message
  | PText "(string \<times> string) list" string
  | PLogin string string string int
  | PRegistered int string string
  | PMe user
  | PAdmin
  | PMyNodes "(int \<times> string \<times> string) list"
  | PStatus string
  | PUsage "usage_row list"
  | PUserStats "(int \<times> string \<times> bool \<times> int \<times> int \<times> int \<times> int \<times> string) list"
  | PNodeStats "(int \<times> string \<times> bool \<times> int \<times> int) list"
  | PMeta string string string int
  | PRealityTargets string string datetime "realityTargetProbe list"
  | PRealityTarget string string string string "sync_result option"
  | PAssessment "string option" assessment
  | PSetupRefused string "assessment option"
  | PSetupFailed string "setup_result list"
  | PSetup "setup_result list" "sync_result list" string "assessment option" tune_result
  | PReprovisionPlan "(int \<times> string \<times> string) list" reprovision_req
  | PReprovision "(int \<times> string \<times> string \<times> int \<times> payload option \<times> payload option \<times> string) list" int int
  | PTune string tune_result
  | PCertRenew string int "cert_renew_result list"
  | PNotInstalled string
  | PVersion string string string
  | PUnreachable string string
  | PNodeStatus node_status
  | PInstalled string string string string
  | PSSH string string string
  | PCertUploaded string string string string cert_status
  | PReady string string
  | PBuild string string string bool
  | PNotFound
  | PPanic

record response =
  rp_status :: int
  rp_payload :: payload

definition writeJSON :: "int \<Rightarrow> payload \<Rightarrow> response io" where
  "writeJSON status data = State_Monad.return \<lparr>rp_status = status, rp_payload = data\<rparr>"

definition writeError :: "int \<Rightarrow> string \<Rightarrow> response io" where
  "writeError status msg = writeJSON status (PError msg)"

text \<open>\<open>http.NotFound\<close> writes a plain text.\<close>

definition NotFound :: "response io" where
  "NotFound = writeJSON 404 PNotFound"

text \<open>
  A handler that panics: \<open>net/http\<close> recovers and drops the connection, no status is sent.
\<close>

definition panicked :: "response io" where
  "panicked = writeJSON 0 PPanic"

lemma wp_writeJSON [wp_step]: "wp (writeJSON st data) Q w = Q \<lparr>rp_status = st, rp_payload = data\<rparr> w"
  by (simp add: writeJSON_def wp_return)

lemma wp_writeError [wp_step]: "wp (writeError st msg) Q w = Q \<lparr>rp_status = st, rp_payload = PError msg\<rparr> w"
  by (simp add: writeError_def wp_step)

lemma wp_NotFound [wp_step]: "wp NotFound Q w = Q \<lparr>rp_status = 404, rp_payload = PNotFound\<rparr> w"
  by (simp add: NotFound_def wp_step)

lemma wp_panicked [wp_step]: "wp panicked Q w = Q \<lparr>rp_status = 0, rp_payload = PPanic\<rparr> w"
  by (simp add: panicked_def wp_step)

section \<open>Identifiers in paths\<close>

text \<open>The error of \<open>Atoi\<close> is dropped, its value kept.\<close>

definition parseID :: "string \<Rightarrow> string \<Rightarrow> int" where
  "parseID path prefix = fst (Atoi (hd (SplitByte (CHR ''/'') (TrimPrefix path prefix))))"

definition extractUserID :: "string \<Rightarrow> int" where
  "extractUserID path = (let parts = SplitByte (CHR ''/'') (TrimPrefix path ''/api/users/'')
     in if length parts < 1 then 0 else fst (Atoi (parts ! 0)))"

definition parseNodeIDFromConfigPath :: "string \<Rightarrow> int" where
  "parseNodeIDFromConfigPath path =
    (let parts = SplitByte (CHR ''/'') (TrimPrefix path ''/api/nodes/'')
     in if length parts < 2 then 0 else parseID (''/api/nodes/'' @ parts ! 0) ''/api/nodes/'')"

lemma extractUserID_parseID: "extractUserID path = parseID path ''/api/users/''"
  by (simp add: extractUserID_def parseID_def hd_conv_nth)

lemma parseID_path:
  assumes "- (2 ^ 63) \<le> i" "i < 2 ^ 63"
  shows "parseID (prefix @ Itoa i) prefix = i"
    and "parseID (prefix @ Itoa i @ CHR ''/'' # rest) prefix = i"
  using Atoi_Itoa [OF assms]
  by (simp_all add: parseID_def SplitByte_no_sep SplitByte_append_sep slash_not_in_Itoa)

end
