(* ===== verification/ConfigHandler.thy ===== *)
theory ConfigHandler
  imports Http
begin

text \<open>
  \<open>handler/config.go\<close>: generating a node's configuration, pushing it over SSH with the
  shell script that keeps a backup, and the handlers on top. The SSH session and what the
  machine answers are the environment's (\<open>remote_script\<close>); what the script makes of it is
  the code's, step by step.
\<close>

section \<open>Generating\<close>

text \<open>The map of allowed ids is the list of its keys.\<close>

definition generateConfig :: "int \<Rightarrow> json res" where
  "generateConfig nodeID =
     and_then (AccessStore_UsersForNode nodeID) (\<lambda>allowed.
     and_then UserStore_ListEnabled (\<lambda>allUsers.
     let users = filter (\<lambda>u. u_id u \<in> set allowed) allUsers in
     and_then (NodeStore_ListInbounds nodeID) (\<lambda>inbounds.
     ok (GenerateConfig users inbounds))))"

section \<open>SSH\<close>

definition next_remote :: "remote_script io" where
  "next_remote = do { w \<leftarrow> State_Monad.get; State_Monad.set (next_tick w);
     State_Monad.return (remote (w_env w) (w_tick w)) }"

definition on_machine :: "string \<Rightarrow> (machine \<Rightarrow> machine \<times> 'a) \<Rightarrow> 'a io" where
  "on_machine addr f = do { w \<leftarrow> State_Monad.get;
     case f (w_fleet w addr) of (m, a) \<Rightarrow>
       do { State_Monad.set (w\<lparr>w_fleet := (w_fleet w)(addr := m)\<rparr>); State_Monad.return a } }"

text \<open>
  Key authentication when the panel's key file is readable and parses, password as a
  fallback; without either the dial is not tried.
\<close>

definition sshConnect :: "remote_script \<Rightarrow> node \<Rightarrow> unit res" where
  "sshConnect rs node =
    (if \<not> rs_key_usable rs \<and> n_ssh_password node = ''''
     then fail (ErrMsg ''no auth method available (no key and no password)'')
     else if rs_dial rs then ok () else fail (ErrMsg ''dial''))"

definition write_file :: "string \<Rightarrow> raw_message option \<Rightarrow> machine \<Rightarrow> machine" where
  "write_file path c m = m\<lparr>m_files := (m_files m)(path := c)\<rparr>"

text \<open>\<open>cat > path\<close>: a session that breaks leaves a torn file.\<close>

definition sshWriteFile :: "remote_script \<Rightarrow> string \<Rightarrow> json \<Rightarrow> machine \<Rightarrow> machine \<times> bool" where
  "sshWriteFile rs path data m =
    (if rs_write rs then (write_file path (Some (RawJson data)) m, True)
     else (write_file path (rs_torn rs) m, False))"

text \<open>\<open>cp from to\<close>, which fails on a missing source and may break half-way.\<close>

definition cp :: "bool \<Rightarrow> raw_message option \<Rightarrow> string \<Rightarrow> string \<Rightarrow> machine \<Rightarrow> machine \<times> bool" where
  "cp works torn from to m =
    (case m_files m from of
       None \<Rightarrow> (m, False)
     | Some c \<Rightarrow> if works then (write_file to (Some c) m, True) else (write_file to torn m, False))"

definition rm_f :: "bool \<Rightarrow> string \<Rightarrow> machine \<Rightarrow> machine \<times> bool" where
  "rm_f works path m = (if works then (write_file path None m, True) else (m, False))"

text \<open>\<open>systemctl restart sing-box\<close>: the unit loads the file of its own command line, or is down.\<close>

definition systemctl_restart :: "bool \<Rightarrow> machine \<Rightarrow> machine \<times> bool" where
  "systemctl_restart works m =
    (if works then (m\<lparr>m_loaded := m_files m (m_unit_path m)\<rparr>, True)
     else (m\<lparr>m_loaded := None\<rparr>, False))"

text \<open>One command after another under \<open>set -e\<close>: the first failure ends the script.\<close>

definition sh_then :: "machine \<times> bool \<Rightarrow> (machine \<Rightarrow> machine \<times> bool) \<Rightarrow> machine \<times> bool" where
  "sh_then r k = (case r of (m, True) \<Rightarrow> k m | (m, False) \<Rightarrow> (m, False))"

text \<open>
  The script of \<open>buildAtomicDeployCommand\<close>, run on a machine: the machine afterwards and
  whether it exits with status 0.
\<close>

definition deploy_restart :: "remote_script \<Rightarrow> string \<Rightarrow> bool \<Rightarrow> machine \<Rightarrow> machine \<times> bool" where
  "deploy_restart rs configPath had_previous m =
    (case systemctl_restart (rs_restart rs) m of
       (m, True) \<Rightarrow> rm_f (rs_rm_backup rs) backupPath m
     | (m, False) \<Rightarrow>
         sh_then (if had_previous then cp (rs_restore rs) (rs_torn rs) backupPath configPath m
                  else rm_f (rs_restore rs) configPath m) (\<lambda>m.
         case systemctl_restart (rs_restart_again rs) m of (m, _) \<Rightarrow>
         case rm_f (rs_rm_backup rs) backupPath m of (m, _) \<Rightarrow> (m, False)))"

definition deploy_script :: "remote_script \<Rightarrow> string \<Rightarrow> machine \<Rightarrow> machine \<times> bool" where
  "deploy_script rs configPath m =
     sh_then (m, rs_mkdir rs) (\<lambda>m.
     let had_previous = m_files m configPath \<noteq> None in
     sh_then (if had_previous then cp (rs_backup rs) (rs_torn rs) configPath backupPath m
              else (m, True)) (\<lambda>m.
     sh_then (cp (rs_copy rs) (rs_torn rs) tmpPath configPath m) (\<lambda>m.
     sh_then (rm_f (rs_rm_tmp rs) tmpPath m) (\<lambda>m.
     deploy_restart rs configPath had_previous m))))"

definition pushViaSSHUnlocked :: "node \<Rightarrow> json \<Rightarrow> unit res" where
  "pushViaSSHUnlocked node config = do {
     rs \<leftarrow> next_remote;
     and_then (sshConnect rs node) (\<lambda>_. do {
       written \<leftarrow> on_machine (sshDialAddr node) (sshWriteFile rs tmpPath config);
       (if \<not> written then fail (ErrMsg ''write temp config: '')
        else if \<not> rs_check rs then fail (ErrMsg ''config check failed: '')
        else do {
          deployed \<leftarrow> on_machine (sshDialAddr node) (deploy_script rs (n_config_path node));
          (if \<not> deployed then fail (ErrMsg ''deploy config (previous config restored when available): '')
           else ok ()) }) }) }"

section \<open>Synchronising\<close>

text \<open>
  The per-node lock is held over the whole step, so one node's pushes do not interleave.
\<close>

definition sync_error :: "int \<Rightarrow> string \<Rightarrow> string \<Rightarrow> string \<Rightarrow> sync_result io" where
  "sync_error nodeID name status e = State_Monad.return
     \<lparr>sr_node_id = nodeID, sr_node = name, sr_status = status, sr_error = e\<rparr>"

definition syncNode :: "int \<Rightarrow> sync_result io" where
  "syncNode nodeID = attempt (NodeStore_Get nodeID)
     (\<lambda>_. sync_error nodeID '''' ''error'' ''node not found'')
     (\<lambda>node. if n_proxy_type node \<noteq> ''singbox''
        then sync_error nodeID (n_name node) ''skipped'' ''not singbox''
        else attempt (generateConfig nodeID)
          (\<lambda>e. sync_error nodeID (n_name node) ''error'' (''generate: '' @ err_text e))
          (\<lambda>config. attempt (pushViaSSHUnlocked node config)
             (\<lambda>e. sync_error nodeID (n_name node) ''error'' (''push: '' @ err_text e))
             (\<lambda>_. sync_error nodeID (n_name node) ''pushed'' '''')))"

definition SyncNodes :: "int list \<Rightarrow> sync_result list io" where
  "SyncNodes nodeIDs = map_each syncNode (uniqueNodeIDs nodeIDs)"

section \<open>Handlers\<close>

definition ConfigHandler_generate :: "request \<Rightarrow> response io" where
  "ConfigHandler_generate r =
    (let nodeID = parseNodeIDFromConfigPath (r_path r) in
     if nodeID = 0 then writeError 400 ''invalid node id''
     else attempt (generateConfig nodeID) (\<lambda>e. writeError 500 (err_text e))
       (\<lambda>config. writeJSON 200 (PConfig config)))"

text \<open>\<open>results[0]\<close> of an empty slice panics.\<close>

definition ConfigHandler_push :: "request \<Rightarrow> response io" where
  "ConfigHandler_push r =
    (let nodeID = parseNodeIDFromConfigPath (r_path r) in
     if nodeID = 0 then writeError 400 ''invalid node id''
     else do { results \<leftarrow> SyncNodes [nodeID];
       (case syncFailure results of
          Some e \<Rightarrow> writeError 502 e
        | None \<Rightarrow> (case results of
            [] \<Rightarrow> panicked
          | result # _ \<Rightarrow> writeJSON 200 (PSyncOne result))) })"

definition ConfigHandler_getRawConfig :: "request \<Rightarrow> response io" where
  "ConfigHandler_getRawConfig r =
    (let nodeID = parseNodeIDFromConfigPath (r_path r) in
     if nodeID = 0 then writeError 400 ''invalid node id''
     else attempt (NodeStore_Get nodeID) (\<lambda>_. writeError 404 ''node not found'') (\<lambda>node. do {
       rs \<leftarrow> next_remote;
       attempt (sshConnect rs node) (\<lambda>e. writeError 500 (''ssh connect: '' @ err_text e)) (\<lambda>_. do {
         out \<leftarrow> on_machine (sshDialAddr node) (\<lambda>m. (m, m_files m (n_config_path node)));
         (case out of
            None \<Rightarrow> writeError 500 ''read config: ''
          | Some c \<Rightarrow> if rs_cat rs then writeJSON 200 (PRaw c) else writeError 500 ''read config: '') }) }))"

definition ConfigHandler_ServeHTTP :: "request \<Rightarrow> response io" where
  "ConfigHandler_ServeHTTP r =
    (let path = r_path r in
     if r_method r = ''POST'' \<and> HasSuffix path ''/generate'' then ConfigHandler_generate r
     else if r_method r = ''POST'' \<and> HasSuffix path ''/push'' then ConfigHandler_push r
     else if r_method r = ''GET'' \<and> HasSuffix path ''/raw-config'' then ConfigHandler_getRawConfig r
     else if r_method r = ''PUT'' \<and> HasSuffix path ''/raw-config''
     then writeError 405 ''raw config is read-only; update panel-managed settings and push instead''
     else NotFound)"

section \<open>Traffic reports\<close>

text \<open>
  \<open>nameToUser\<close> and \<open>uuidToUser\<close>: of equal keys the last user counts. The report's map is
  the list of its entries in the order the loop visits them.
\<close>

definition reported_user :: "user list \<Rightarrow> string \<Rightarrow> user option" where
  "reported_user users key =
    (case List.find (\<lambda>u. u_name u = key) (rev users) of
       Some u \<Rightarrow> Some u
     | None \<Rightarrow> List.find (\<lambda>u. u_uuid u = key) (rev users))"

definition account_traffic :: "node \<Rightarrow> user list \<Rightarrow> string \<times> int \<times> int \<Rightarrow> unit io" where
  "account_traffic node users entry = (case entry of (key, up, down) \<Rightarrow>
     case reported_user users key of
       None \<Rightarrow> State_Monad.return ()
     | Some user \<Rightarrow>
         if up = 0 \<and> down = 0 then State_Monad.return ()
         else do { UserStore_AddTraffic (u_id user) up down;
                   TrafficStore_Record (n_id node) (u_id user) up down })"

definition HandleTrafficReport :: "request \<Rightarrow> response io" where
  "HandleTrafficReport r =
    (let nodeToken = r_header r ''X-Node-Token'' in
     case as_traffic (r_body r) of
       None \<Rightarrow> writeError 400 ''invalid json''
     | Some entries \<Rightarrow>
       attempt (NodeStore_GetByToken nodeToken) (\<lambda>_. writeError 401 ''invalid node token'') (\<lambda>node.
       attempt UserStore_List (\<lambda>e. writeError 500 (err_text e)) (\<lambda>users. do {
         map_each (account_traffic node users) entries;
         writeJSON 200 (PStatus ''ok'') })))"

section \<open>The generated document\<close>

lemma mem_users_for_node: "k \<in> set (users_for_node now i d)
    \<longleftrightarrow> (k, i) \<in> set (d_access d) \<and> (\<exists>u \<in> set (d_users d). u_id u = k \<and> may_use now u)"
  by (force simp: users_for_node_def split: if_splits)

lemma may_use_enabled: "may_use now u \<Longrightarrow> enabled_unexpired now u"
  by (simp add: may_use_def enabled_unexpired_def)

lemma allowed_served:
  assumes "distinct (map u_id (d_users d))"
  shows "list_all2 same_account
    (filter (\<lambda>u. u_id u \<in> set (users_for_node now i d))
       (map scan_user (filter (enabled_unexpired now) (d_users d))))
    (served now i d)"
proof -
  have eq: "(u_id u \<in> set (users_for_node now i d) \<and> enabled_unexpired now u)
      = ((u_id u, i) \<in> set (d_access d) \<and> may_use now u)" if "u \<in> set (d_users d)" for u
    using that assms by (auto simp: mem_users_for_node distinct_map dest: inj_onD may_use_enabled)
  have "filter (\<lambda>u. u_id u \<in> set (users_for_node now i d))
       (map scan_user (filter (enabled_unexpired now) (d_users d))) = map scan_user (served now i d)"
    using eq by (auto simp: served_def filter_map o_def scan_user_def intro!: arg_cong [where f = "map _"] filter_cong)
  then show ?thesis
    by (simp add: list_all2_map1 list_all2_same same_account_def scan_user_def)
qed

lemma wp_generateConfig:
  assumes "distinct (map u_id (d_users (w_db w)))"
    and "\<And>e w'. becomes w (w_db w) w' \<Longrightarrow> Q (Inl e) w'"
    and "\<And>w'. becomes w (w_db w) w' \<Longrightarrow> Q (Inr (gen_doc (w_now w) i (w_db w))) w'"
  shows "wp (generateConfig i) Q w"
proof -
  note doc = GenerateConfig_cong [OF allowed_served [OF assms(1)]]
  show ?thesis
    unfolding generateConfig_def AccessStore_UsersForNode_def UserStore_ListEnabled_def
      NodeStore_ListInbounds_def ok_def Let_def
    by (auto simp: wp_step becomes_def doc intro!: wp_db_query assms(2)
        assms(3) [unfolded gen_doc_def inbounds_of_def])
qed

section \<open>The deploy script\<close>

lemma tmp_backup [simp]: "tmpPath \<noteq> backupPath" "backupPath \<noteq> tmpPath"
  by (simp_all add: backupPath_def)

lemma sh_then_ok: "sh_then r k = (m', True) \<longleftrightarrow> (\<exists>m. r = (m, True) \<and> k m = (m', True))"
  by (auto simp: sh_then_def split: prod.splits bool.splits)

lemma cp_ok: "cp works torn from to m = (m', True)
    \<longleftrightarrow> works \<and> (\<exists>c. m_files m from = Some c \<and> m' = write_file to (Some c) m)"
  by (auto simp: cp_def split: option.splits)

lemma rm_f_ok: "rm_f works path m = (m', True) \<longleftrightarrow> works \<and> m' = write_file path None m"
  by (auto simp: rm_f_def)

lemma deploy_restart_ok: "deploy_restart rs path had m = (m', True) \<longleftrightarrow> rs_restart rs \<and> rs_rm_backup rs
    \<and> m' = write_file backupPath None (m\<lparr>m_loaded := m_files m (m_unit_path m)\<rparr>)"
  by (cases had) (auto simp: deploy_restart_def systemctl_restart_def rm_f_ok sh_then_def
      split: prod.splits bool.splits)

text \<open>Exit status 0 means that the new configuration is installed and loaded.\<close>

lemma deploy_script_success:
  assumes "m_files m tmpPath = Some c" "path \<noteq> tmpPath" "path \<noteq> backupPath"
    and "deploy_script rs path m = (m', True)"
  shows "m_files m' path = Some c \<and> (m_unit_path m' = path \<longrightarrow> m_loaded m' = Some c)"
proof (cases "m_files m path")
  case None
  then show ?thesis
    using assms by (auto simp: deploy_script_def Let_def sh_then_ok cp_ok rm_f_ok deploy_restart_ok write_file_def)
next
  case (Some old)
  then show ?thesis
    using assms by (auto simp: deploy_script_def Let_def sh_then_ok cp_ok rm_f_ok deploy_restart_ok write_file_def)
qed

text \<open>
  A restart that fails leaves the machine with the configuration it had, or without one when
  it had none, as long as the commands of the recovery work; the service is restarted on it.
\<close>

lemma deploy_script_restores:
  assumes "m_files m tmpPath = Some c" "path \<noteq> tmpPath" "path \<noteq> backupPath"
    and "rs_mkdir rs" "rs_backup rs" "rs_copy rs" "rs_rm_tmp rs" "\<not> rs_restart rs" "rs_restore rs"
    and "deploy_script rs path m = (m', st)"
  shows "\<not> st \<and> m_files m' path = m_files m path"
    and "rs_restart_again rs \<Longrightarrow> m_unit_path m = path \<Longrightarrow> m_loaded m' = m_files m path"
proof -
  have "\<not> st \<and> m_files m' path = m_files m path
      \<and> (rs_restart_again rs \<longrightarrow> m_unit_path m = path \<longrightarrow> m_loaded m' = m_files m path)"
    using assms
    by (cases "m_files m path"; cases "rs_rm_backup rs"; cases "rs_restart_again rs")
      (auto simp: deploy_script_def deploy_restart_def sh_then_def cp_def rm_f_def
        systemctl_restart_def write_file_def Let_def)
  then show "\<not> st \<and> m_files m' path = m_files m path"
    and "rs_restart_again rs \<Longrightarrow> m_unit_path m = path \<Longrightarrow> m_loaded m' = m_files m path"
    by auto
qed

section \<open>One node\<close>

lemma wp_on_machine: "(\<And>m a. f (w_fleet w addr) = (m, a) \<Longrightarrow> Q a (w\<lparr>w_fleet := (w_fleet w)(addr := m)\<rparr>))
    \<Longrightarrow> wp (on_machine addr f) Q w"
  by (auto simp: on_machine_def wp_step split: prod.splits)

text \<open>A push touches one machine, and its success means that this machine runs the document.\<close>

definition one_machine :: "string \<Rightarrow> world \<Rightarrow> world \<Rightarrow> bool" where
  "one_machine addr w w' \<longleftrightarrow> same_db w w' \<and> (\<forall>a. a \<noteq> addr \<longrightarrow> w_fleet w' a = w_fleet w a)"

lemma wp_push:
  assumes path: "n_config_path n \<noteq> tmpPath" "n_config_path n \<noteq> backupPath"
  shows "wp (pushViaSSHUnlocked n doc) (\<lambda>r w'. one_machine (sshDialAddr n) w w' \<and>
    (r = Inr () \<longrightarrow> runs (w_fleet w' (sshDialAddr n)) (n_config_path n) doc)) w"
proof -
  have ok: "runs m' (n_config_path n) doc"
    if "deploy_script rs (n_config_path n) (write_file tmpPath (Some (RawJson doc)) m) = (m', True)"
    for rs m m'
    using deploy_script_success [OF _ path that, of "RawJson doc"]
    by (simp add: runs_def write_file_def)
  show ?thesis
    unfolding pushViaSSHUnlocked_def next_remote_def sshConnect_def fail_def ok_def
    by (auto simp: wp_step next_tick_def one_machine_def same_db_def sshWriteFile_def
        intro!: wp_on_machine split: if_splits) (erule ok)+
qed

lemma one_machine_refl: "becomes w (w_db w) w' \<Longrightarrow> one_machine a w w'"
  by (simp add: becomes_def one_machine_def same_db_def)

lemma one_machine_trans: "one_machine a w w' \<Longrightarrow> one_machine a w' w'' \<Longrightarrow> one_machine a w w''"
  by (auto simp: one_machine_def same_db_def)

definition node_addr :: "int \<Rightarrow> db \<Rightarrow> string option" where
  "node_addr i d = map_option sshDialAddr (sel_row n_id i (d_nodes d))"

text \<open>The effect of synchronising node \<open>i\<close>: only its machine changes, and \<open>pushed\<close> is true.\<close>

definition node_synced :: "int \<Rightarrow> world \<Rightarrow> sync_result \<Rightarrow> world \<Rightarrow> bool" where
  "node_synced i w r w' \<longleftrightarrow> sr_node_id r = i \<and> same_db w w' \<and>
     (\<forall>a. Some a \<noteq> node_addr i (w_db w) \<longrightarrow> w_fleet w' a = w_fleet w a) \<and>
     (sr_status r = ''pushed'' \<longrightarrow> in_sync w' i)"

lemma node_synced_not_pushed:
  assumes "becomes w (w_db w) w'" "sr_node_id r = i" "sr_status r \<noteq> ''pushed''"
  shows "node_synced i w r w'"
  using assms by (simp add: node_synced_def becomes_def same_db_def)

lemma node_synced_push:
  assumes n: "sel_row n_id i (d_nodes (w_db w)) = Some n"
    and one: "one_machine (sshDialAddr n) w w'" and r: "sr_node_id r = i"
    and runs: "sr_status r = ''pushed'' \<Longrightarrow>
      runs (w_fleet w' (sshDialAddr n)) (n_config_path n) (gen_doc (w_now w) i (w_db w))"
  shows "node_synced i w r w'"
  using assms by (auto simp: node_synced_def node_addr_def in_sync_def one_machine_def same_db_def)

lemma wp_syncNode:
  assumes "fleet_ok (w_db w)"
  shows "wp (syncNode i) (\<lambda>r w'. node_synced i w r w') w"
  unfolding syncNode_def NodeStore_Get_def wp_attempt
proof (rule wp_db_query, goal_cases)
  case (1 w0)
  then show ?case by (simp add: wp_step sync_error_def node_synced_not_pushed)
next
  case (2 w0)
  show ?case
  proof (cases "sel_row n_id i (d_nodes (w_db w))")
    case None
    then show ?thesis using 2 by (simp add: wp_step sync_error_def node_synced_not_pushed)
  next
    case (Some n)
    then have "n \<in> set (d_nodes (w_db w))" by (auto dest: sel_row_SomeD)
    then have path: "n_config_path n \<noteq> tmpPath" "n_config_path n \<noteq> backupPath"
      using assms by (auto simp: fleet_ok_def)
    have dist: "distinct (map u_id (d_users (w_db w0)))" and now: "w_now w0 = w_now w" "w_db w0 = w_db w"
      using 2 assms by (simp_all add: becomes_def fleet_ok_def)
    have trans: "becomes w (w_db w) w1" if "becomes w0 (w_db w0) w1" for w1
      using that 2 by (simp add: becomes_def)
    have push: "wp (attempt (pushViaSSHUnlocked n (gen_doc (w_now w) i (w_db w)))
        (\<lambda>e. sync_error i (n_name n) ''error'' (''push: '' @ err_text e))
        (\<lambda>_. sync_error i (n_name n) ''pushed'' [])) (\<lambda>r w'. node_synced i w r w') w1"
      if "becomes w (w_db w) w1" for w1
      unfolding wp_attempt
      by (rule wp_mono [OF wp_push [OF path]])
        (auto simp: sync_error_def wp_step intro!: node_synced_push [OF Some]
          dest: one_machine_trans [OF one_machine_refl [OF that]])
    have "wp (attempt (generateConfig i)
        (\<lambda>e. sync_error i (n_name n) ''error'' (''generate: '' @ err_text e))
        (\<lambda>config. attempt (pushViaSSHUnlocked n config)
          (\<lambda>e. sync_error i (n_name n) ''error'' (''push: '' @ err_text e))
          (\<lambda>_. sync_error i (n_name n) ''pushed'' []))) (\<lambda>r w'. node_synced i w r w') w0"
      unfolding wp_attempt [of "generateConfig i"]
    proof (rule wp_generateConfig [OF dist], goal_cases)
      case (1 e w1)
      then show ?case using trans by (simp add: wp_step sync_error_def node_synced_not_pushed)
    next
      case (2 w1)
      then show ?case using push [OF trans [OF 2]] by (simp add: now)
    qed
    then show ?thesis
      using Some 2 by (auto simp: wp_step sync_error_def intro: node_synced_not_pushed)
  qed
qed

section \<open>All requested nodes\<close>

text \<open>\<open>SyncNodes\<close> on distinct nodes: each entry of the result tells the truth at the end.\<close>

lemma fleet_ok_addr:
  assumes "fleet_ok d" "node_addr i d = Some a" "node_addr j d = Some a"
  shows "i = j"
proof -
  obtain m n where "sel_row n_id i (d_nodes d) = Some m" "sel_row n_id j (d_nodes d) = Some n"
    "sshDialAddr m = a" "sshDialAddr n = a"
    using assms by (auto simp: node_addr_def)
  then show ?thesis
    using assms(1) by (auto simp: fleet_ok_def distinct_map dest!: sel_row_SomeD dest: inj_onD)
qed

lemma in_sync_frame:
  assumes "in_sync w i" "same_db w w'"
    and "\<And>a. node_addr i (w_db w) = Some a \<Longrightarrow> w_fleet w' a = w_fleet w a"
  shows "in_sync w' i"
  using assms by (auto simp: in_sync_def same_db_def node_addr_def)

lemma in_sync_other:
  assumes "fleet_ok (w_db w)" "node_synced i w r w'" "j \<noteq> i" "in_sync w j"
  shows "in_sync w' j"
proof (rule in_sync_frame [OF assms(4)])
  show "same_db w w'" using assms(2) by (simp add: node_synced_def)
  fix a assume a: "node_addr j (w_db w) = Some a"
  then have "node_addr i (w_db w) \<noteq> Some a"
    using fleet_ok_addr [OF assms(1) a] assms(3) by blast
  then show "w_fleet w' a = w_fleet w a"
    using assms(2) by (auto simp: node_synced_def)
qed

lemma wp_map_syncNode:
  assumes "fleet_ok (w_db w)" "distinct ids"
  shows "wp (map_each syncNode ids) (\<lambda>rs w'. same_db w w' \<and> map sr_node_id rs = ids \<and>
     (\<forall>r \<in> set rs. sr_status r = ''pushed'' \<longrightarrow> in_sync w' (sr_node_id r)) \<and>
     (\<forall>j. j \<notin> set ids \<longrightarrow> in_sync w j \<longrightarrow> in_sync w' j)) w"
  using assms
proof (induction ids arbitrary: w)
  case Nil
  then show ?case by (simp add: wp_step same_db_def)
next
  case (Cons i ids)
  show ?case
    unfolding map_each.simps wp_bind
  proof (rule wp_mono [OF wp_syncNode [OF Cons.prems(1)]])
    fix r w1 assume r: "node_synced i w r w1"
    then have db: "w_db w1 = w_db w" "sr_node_id r = i" "same_db w w1"
      by (simp_all add: node_synced_def same_db_def)
    show "wp (map_each syncNode ids) (\<lambda>rs. wp (State_Monad.return (r # rs))
      (\<lambda>rs w'. same_db w w' \<and> map sr_node_id rs = i # ids \<and>
        (\<forall>r \<in> set rs. sr_status r = ''pushed'' \<longrightarrow> in_sync w' (sr_node_id r)) \<and>
        (\<forall>j. j \<notin> set (i # ids) \<longrightarrow> in_sync w j \<longrightarrow> in_sync w' j))) w1"
      by (rule wp_mono [OF Cons.IH])
        (use Cons.prems r db in_sync_other [OF Cons.prems(1) r]
          in \<open>auto simp: wp_step same_db_def node_synced_def\<close>)
  qed
qed

text \<open>Without assumptions on the fleet: the frame and the order of the results.\<close>

lemma wp_syncNode_frame: "wp (syncNode i) (\<lambda>r w'. sr_node_id r = i \<and> same_db w w') w"
  unfolding syncNode_def NodeStore_Get_def generateConfig_def AccessStore_UsersForNode_def
    UserStore_ListEnabled_def NodeStore_ListInbounds_def pushViaSSHUnlocked_def next_remote_def
    sshConnect_def sync_error_def ok_def fail_def
  by (auto simp: wp_step becomes_def same_db_def next_tick_def Let_def
      intro!: wp_db_query wp_on_machine split: if_splits)

lemma wp_SyncNodes_frame:
  "wp (map_each syncNode ids) (\<lambda>rs w'. same_db w w' \<and> map sr_node_id rs = ids) w"
proof (induction ids arbitrary: w)
  case Nil
  then show ?case by (simp add: wp_step same_db_def)
next
  case (Cons i ids)
  show ?case
    unfolding map_each.simps wp_bind
    by (rule wp_mono [OF wp_syncNode_frame], rule wp_mono [OF Cons])
      (auto simp: wp_step same_db_def)
qed

interpretation cfg: node_synchronizer SyncNodes
proof unfold_locales
  fix ids w i
  have eq: "SyncNodes ids = map_each syncNode (uniqueSortedIDs ids)"
    by (simp add: SyncNodes_def uniqueNodeIDs_eq)
  show "wp (SyncNodes ids) (\<lambda>rs w'. same_db w w') w"
    unfolding eq by (rule wp_mono [OF wp_SyncNodes_frame]) simp
  show "wp (SyncNodes ids) (\<lambda>rs w'. map sr_node_id rs = uniqueSortedIDs ids) w"
    unfolding eq by (rule wp_mono [OF wp_SyncNodes_frame]) simp
  assume f: "fleet_ok (w_db w)"
  note wp = wp_map_syncNode [OF f distinct_uniqueSortedIDs [of ids]]
  show "wp (SyncNodes ids)
      (\<lambda>rs w'. \<forall>r \<in> set rs. sr_status r = ''pushed'' \<longrightarrow> in_sync w' (sr_node_id r)) w"
    unfolding eq by (rule wp_mono [OF wp]) simp
  assume "in_sync w i" "i \<notin> set ids"
  then show "wp (SyncNodes ids) (\<lambda>rs w'. in_sync w' i) w"
    unfolding eq by (intro wp_mono [OF wp]) (auto simp: set_uniqueSortedIDs)
qed

end
