(* ===== verification/UserHandler.thy ===== *)
theory UserHandler
  imports ConfigHandler
begin

text \<open>
  \<open>handler/user.go\<close>: the administrator's operations on users. An edit is committed to the
  database first, then pushed to the nodes it concerns; a failed push undoes the edit and
  pushes again.
\<close>

section \<open>Operations\<close>

definition UserHandler_list :: "response io" where
  "UserHandler_list = attempt UserStore_List (\<lambda>e. writeError 500 (err_text e))
     (\<lambda>users. writeJSON 200 (PUsers users))"

definition UserHandler_create :: "request \<Rightarrow> response io" where
  "UserHandler_create r = (case as_create_user (r_body r) of
     None \<Rightarrow> writeError 400 ''invalid json''
   | Some req \<Rightarrow>
       if cu_name req = '''' then writeError 400 ''name is required''
       else attempt (UserStore_Create req) (\<lambda>e. writeError 500 (err_text e))
         (\<lambda>user. writeJSON 201 (PUser user)))"

definition UserHandler_get :: "request \<Rightarrow> response io" where
  "UserHandler_get r = (let i = parseID (r_path r) ''/api/users/'' in
     if i = 0 then writeError 400 ''invalid id''
     else attempt (UserStore_Get i) (\<lambda>_. writeError 404 ''user not found'')
       (\<lambda>user. writeJSON 200 (PUser user)))"

definition userConfigChanged :: "user \<Rightarrow> user \<Rightarrow> bool" where
  "userConfigChanged before after \<longleftrightarrow> u_name before \<noteq> u_name after
     \<or> u_enabled before \<noteq> u_enabled after \<or> u_limit before \<noteq> u_limit after
     \<or> u_expire before \<noteq> u_expire after"

definition restore_req :: "user \<Rightarrow> update_user_req" where
  "restore_req user = \<lparr>uu_name = Some (u_name user), uu_enabled = Some (u_enabled user),
     uu_limit = Some (u_limit user), uu_reset_day = Some (u_reset_day user),
     uu_expire = Some (u_expire user), uu_note = None\<rparr>"

definition restoreUser :: "user \<Rightarrow> int list \<Rightarrow> unit res" where
  "restoreUser user nodeIDs =
     and_then (UserStore_UpdateWithAccess (u_id user) (restore_req user) nodeIDs) (\<lambda>_. ok ())"

definition UserHandler_update :: "syncer \<Rightarrow> request \<Rightarrow> response io" where
  "UserHandler_update Sync r = (let i = parseID (r_path r) ''/api/users/'' in
     if i = 0 then writeError 400 ''invalid id''
     else attempt (UserStore_Get i) (\<lambda>_. writeError 404 ''user not found'') (\<lambda>before.
     attempt (AccessStore_ListNodeIDs i) (\<lambda>e. writeError 500 (err_text e)) (\<lambda>beforeNodeIDs.
     case as_update_user (r_body r) of
       None \<Rightarrow> writeError 400 ''invalid json''
     | Some (req, nodeIDs) \<Rightarrow>
     attempt (case nodeIDs of Some ids \<Rightarrow> UserStore_UpdateWithAccess i req ids
                            | None \<Rightarrow> UserStore_Update i req)
       (\<lambda>e. writeError 400 (err_text e)) (\<lambda>user.
     attempt (AccessStore_ListNodeIDs i)
       (\<lambda>e. do { restoreUser before beforeNodeIDs; writeError 500 (err_text e) }) (\<lambda>afterNodeIDs.
     let targetNodeIDs =
       (if nodeIDs \<noteq> None \<or> userConfigChanged before user then unionIDs [beforeNodeIDs, afterNodeIDs]
        else changedIDs beforeNodeIDs afterNodeIDs) in
     do { results \<leftarrow> syncNodes Sync targetNodeIDs;
       (case syncFailure results of
          Some syncErr \<Rightarrow>
            attempt (restoreUser before beforeNodeIDs)
              (\<lambda>rollbackErr. writeError 500
                 (''node sync failed and user rollback failed: '' @ err_text rollbackErr))
              (\<lambda>_. do { restoreResults \<leftarrow> syncNodes Sync targetNodeIDs;
                 (case syncFailure restoreResults of
                    Some restoreErr \<Rightarrow> writeError 502
                      (''user edit was rolled back, but restoring one or more nodes failed: '' @ restoreErr)
                  | None \<Rightarrow> writeError 502 (''user edit was rolled back: '' @ syncErr)) })
        | None \<Rightarrow> writeJSON 200 (PUserSync user results)) })))))"

definition disable_req :: update_user_req where
  "disable_req = \<lparr>uu_name = None, uu_enabled = Some False, uu_limit = None, uu_reset_day = None,
     uu_expire = None, uu_note = None\<rparr>"

definition UserHandler_delete :: "syncer \<Rightarrow> request \<Rightarrow> response io" where
  "UserHandler_delete Sync r = (let i = parseID (r_path r) ''/api/users/'' in
     if i = 0 then writeError 400 ''invalid id''
     else attempt (UserStore_Get i) (\<lambda>_. writeError 404 ''user not found'') (\<lambda>before.
     attempt (AccessStore_ListNodeIDs i) (\<lambda>e. writeError 500 (err_text e)) (\<lambda>nodeIDs.
     attempt (UserStore_UpdateWithAccess i disable_req [])
       (\<lambda>e. writeError 500 (''prepare user deletion: '' @ err_text e)) (\<lambda>_.
     do { results \<leftarrow> syncNodes Sync nodeIDs;
       (case syncFailure results of
          Some syncErr \<Rightarrow>
            attempt (restoreUser before nodeIDs)
              (\<lambda>rollbackErr. writeError 500
                 (''node sync failed and user rollback failed: '' @ err_text rollbackErr))
              (\<lambda>_. do { restoreResults \<leftarrow> syncNodes Sync nodeIDs;
                 (case syncFailure restoreResults of
                    Some restoreErr \<Rightarrow> writeError 502
                      (''user deletion was rolled back, but restoring one or more nodes failed: '' @ restoreErr)
                  | None \<Rightarrow> writeError 502 (''user deletion was rolled back: '' @ syncErr)) })
        | None \<Rightarrow>
            attempt (UserStore_DeleteWithRelatedData i)
              (\<lambda>e. attempt (restoreUser before nodeIDs)
                 (\<lambda>rollbackErr. writeError 500
                    (''delete user failed and rollback failed: '' @ err_text rollbackErr))
                 (\<lambda>_. do { restoreResults \<leftarrow> syncNodes Sync nodeIDs;
                    (case syncFailure restoreResults of
                       Some restoreErr \<Rightarrow> writeError 502
                         (''user deletion was rolled back, but restoring one or more nodes failed: '' @ restoreErr)
                     | None \<Rightarrow> writeError 500 (''delete user: '' @ err_text e)) }))
              (\<lambda>_. writeJSON 200 (PUserDeleted results))) }))))"

definition UserHandler_resetTraffic :: "syncer \<Rightarrow> request \<Rightarrow> response io" where
  "UserHandler_resetTraffic Sync r = (let i = parseID (r_path r) ''/api/users/'' in
     if i = 0 then writeError 400 ''invalid id''
     else attempt (UserStore_Get i) (\<lambda>_. writeError 404 ''user not found'') (\<lambda>before.
     attempt (AccessStore_ListNodeIDs i) (\<lambda>e. writeError 500 (err_text e)) (\<lambda>nodeIDs.
     attempt (UserStore_ResetTraffic i) (\<lambda>e. writeError 500 (err_text e)) (\<lambda>_.
     attempt (UserStore_Get i)
       (\<lambda>e. do { UserStore_RestoreTraffic before; writeError 500 (err_text e) }) (\<lambda>user.
     do { results \<leftarrow> syncNodes Sync nodeIDs;
       (case syncFailure results of
          Some syncErr \<Rightarrow>
            attempt (UserStore_RestoreTraffic before)
              (\<lambda>rollbackErr. writeError 500
                 (''node sync failed and traffic rollback failed: '' @ err_text rollbackErr))
              (\<lambda>_. do { restoreResults \<leftarrow> syncNodes Sync nodeIDs;
                 (case syncFailure restoreResults of
                    Some restoreErr \<Rightarrow> writeError 502
                      (''traffic reset was rolled back, but restoring one or more nodes failed: '' @ restoreErr)
                  | None \<Rightarrow> writeError 502 (''traffic reset was rolled back: '' @ syncErr)) })
        | None \<Rightarrow> writeJSON 200 (PUserSync user results)) })))))"

definition UserHandler_resetSubToken :: "request \<Rightarrow> response io" where
  "UserHandler_resetSubToken r = (let i = parseID (r_path r) ''/api/users/'' in
     if i = 0 then writeError 400 ''invalid id''
     else attempt (UserStore_ResetSubToken i) (\<lambda>e. writeError 500 (err_text e))
       (\<lambda>token. writeJSON 200 (PToken token)))"

definition UserHandler_ServeHTTP :: "syncer \<Rightarrow> request \<Rightarrow> response io" where
  "UserHandler_ServeHTTP Sync r =
    (let path = r_path r; method = r_method r in
     if method = ''GET'' \<and> path = ''/api/users'' then UserHandler_list
     else if method = ''POST'' \<and> path = ''/api/users'' then UserHandler_create r
     else if method = ''GET'' \<and> HasPrefix path ''/api/users/'' \<and> \<not> Contains path ''/reset''
     then UserHandler_get r
     else if method = ''PUT'' \<and> HasPrefix path ''/api/users/'' \<and> \<not> Contains path ''/reset''
     then UserHandler_update Sync r
     else if method = ''DELETE'' \<and> HasPrefix path ''/api/users/'' then UserHandler_delete Sync r
     else if method = ''POST'' \<and> HasSuffix path ''/reset-traffic'' then UserHandler_resetTraffic Sync r
     else if method = ''POST'' \<and> HasSuffix path ''/reset-sub-token'' then UserHandler_resetSubToken r
     else NotFound)"

end
