(* ===== verification/AccessHandler.thy ===== *)
theory AccessHandler
  imports ConfigHandler
begin

text \<open>
  \<open>AccessHandler\<close> of \<open>handler/auth.go\<close>: granting, revoking and replacing a user's nodes.
\<close>

definition nodes_by_id :: "int list \<Rightarrow> node list io" where
  "nodes_by_id nodeIDs = do {
     found \<leftarrow> map_each (\<lambda>nid. attempt (NodeStore_Get nid) (\<lambda>_. State_Monad.return [])
       (\<lambda>n. State_Monad.return [n])) nodeIDs;
     State_Monad.return (concat found) }"

definition AccessHandler_listAccess :: "request \<Rightarrow> response io" where
  "AccessHandler_listAccess r = (let userID = extractUserID (r_path r) in
     if userID = 0 then writeError 400 ''invalid user id''
     else attempt (AccessStore_ListNodeIDs userID) (\<lambda>e. writeError 500 (err_text e)) (\<lambda>nodeIDs.
       do { nodes \<leftarrow> nodes_by_id nodeIDs; writeJSON 200 (PNodes nodes) }))"

definition completeAccessChange :: "syncer \<Rightarrow> int \<Rightarrow> int list \<Rightarrow> int list \<Rightarrow> response io" where
  "completeAccessChange Sync userID before after = (let targetNodeIDs = changedIDs before after in
     do { results \<leftarrow> syncNodes Sync targetNodeIDs;
       (case syncFailure results of
          Some syncErr \<Rightarrow>
            attempt (AccessStore_Replace userID before)
              (\<lambda>rollbackErr. writeError 500
                 (''node sync failed and access rollback failed: '' @ err_text rollbackErr))
              (\<lambda>_. do { restoreResults \<leftarrow> syncNodes Sync targetNodeIDs;
                 (case syncFailure restoreResults of
                    Some restoreErr \<Rightarrow> writeError 502
                      (''access change was rolled back, but restoring one or more nodes failed: '' @ restoreErr)
                  | None \<Rightarrow> writeError 502 (''access change was rolled back: '' @ syncErr)) })
        | None \<Rightarrow> writeJSON 200 (PAccess userID after results)) })"

text \<open>
  The three changes differ in the store operation and in the status of its error.
\<close>

definition change_access :: "syncer \<Rightarrow> int \<Rightarrow> unit res \<Rightarrow> int \<Rightarrow> int list \<Rightarrow> response io" where
  "change_access Sync userID change status before =
     attempt change (\<lambda>e. writeError status (err_text e)) (\<lambda>_.
     attempt (AccessStore_ListNodeIDs userID)
       (\<lambda>e. do { AccessStore_Replace userID before; writeError 500 (err_text e) })
       (\<lambda>nodeIDs. completeAccessChange Sync userID before nodeIDs))"

definition AccessHandler_grantAccess :: "syncer \<Rightarrow> request \<Rightarrow> response io" where
  "AccessHandler_grantAccess Sync r = (let userID = extractUserID (r_path r) in
     if userID = 0 then writeError 400 ''invalid user id''
     else case as_access (r_body r) of
       None \<Rightarrow> writeError 400 ''invalid json''
     | Some req \<Rightarrow>
       attempt (AccessStore_ListNodeIDs userID) (\<lambda>e. writeError 500 (err_text e)) (\<lambda>before.
       if ar_all req then change_access Sync userID (AccessStore_GrantAll userID) 400 before
       else if ar_node req > 0
       then change_access Sync userID (AccessStore_Grant userID (ar_node req)) 400 before
       else writeError 400 ''specify node_id or all:true''))"

definition AccessHandler_revokeAccess :: "syncer \<Rightarrow> request \<Rightarrow> response io" where
  "AccessHandler_revokeAccess Sync r = (let userID = extractUserID (r_path r) in
     if userID = 0 then writeError 400 ''invalid user id''
     else case as_access (r_body r) of
       None \<Rightarrow> writeError 400 ''invalid json''
     | Some req \<Rightarrow>
       attempt (AccessStore_ListNodeIDs userID) (\<lambda>e. writeError 500 (err_text e)) (\<lambda>before.
       if ar_all req then change_access Sync userID (AccessStore_RevokeAll userID) 500 before
       else if ar_node req > 0
       then change_access Sync userID (AccessStore_Revoke userID (ar_node req)) 500 before
       else writeError 400 ''specify node_id or all:true''))"

definition AccessHandler_replaceAccess :: "syncer \<Rightarrow> request \<Rightarrow> response io" where
  "AccessHandler_replaceAccess Sync r = (let userID = extractUserID (r_path r) in
     if userID = 0 then writeError 400 ''invalid user id''
     else case as_node_ids (r_body r) of
       None \<Rightarrow> writeError 400 ''invalid json''
     | Some ids \<Rightarrow>
       attempt (AccessStore_ListNodeIDs userID) (\<lambda>e. writeError 500 (err_text e)) (\<lambda>before.
       change_access Sync userID (AccessStore_Replace userID ids) 400 before))"

definition AccessHandler_ServeHTTP :: "syncer \<Rightarrow> request \<Rightarrow> response io" where
  "AccessHandler_ServeHTTP Sync r =
    (let path = r_path r; method = r_method r;
         access = HasPrefix path ''/api/users/'' \<and> HasSuffix path ''/access'' in
     if method = ''GET'' \<and> access then AccessHandler_listAccess r
     else if method = ''POST'' \<and> access then AccessHandler_grantAccess Sync r
     else if method = ''PUT'' \<and> access then AccessHandler_replaceAccess Sync r
     else if method = ''DELETE'' \<and> access then AccessHandler_revokeAccess Sync r
     else NotFound)"

end
