(* ===== verification/AuthHandler.thy ===== *)
theory AuthHandler
  imports ConfigHandler
begin

text \<open>
  \<open>AuthHandler\<close> and \<open>MeHandler\<close> of \<open>handler/auth.go\<close>. The JWT and bcrypt libraries are
  arguments: signing, parsing (which checks signature and expiry against the clock),
  comparing and hashing. A token's claims are the entries the panel writes and reads.
\<close>

section \<open>Libraries and settings\<close>

record claims =
  cl_user_id :: rat
  cl_role :: string
  cl_username :: string
  cl_exp :: datetime

text \<open>\<open>jwt_parse\<close> is \<open>None\<close> on an error or an invalid token; entries of other types are zero.\<close>

record crypto =
  jwt_sign :: "string \<Rightarrow> claims \<Rightarrow> string"
  jwt_parse :: "string \<Rightarrow> datetime \<Rightarrow> string \<Rightarrow> claims option"
  bcrypt_compare :: "string \<Rightarrow> string \<Rightarrow> bool"
  bcrypt_hash :: "string \<Rightarrow> nat \<Rightarrow> string option"

record auth =
  au_admin_user :: string
  au_admin_pass :: string
  au_secret :: string

section \<open>Login and registration\<close>

definition generateJWT :: "crypto \<Rightarrow> auth \<Rightarrow> int \<Rightarrow> string \<Rightarrow> string \<Rightarrow> string io" where
  "generateJWT lib h userID role username = do { now \<leftarrow> get_now;
     State_Monad.return (jwt_sign lib (au_secret h)
       \<lparr>cl_user_id = of_int userID, cl_role = role, cl_username = username, cl_exp = add_days 7 now\<rparr>) }"

definition HandleLogin :: "crypto \<Rightarrow> auth \<Rightarrow> request \<Rightarrow> response io" where
  "HandleLogin lib h r =
    (if r_method r \<noteq> ''POST'' then NotFound
     else case as_credentials (r_body r) of
       None \<Rightarrow> writeError 400 ''invalid json''
     | Some req \<Rightarrow>
       if lr_username req = '''' \<or> lr_password req = ''''
       then writeError 400 ''username and password required''
       else if lr_username req = au_admin_user h \<and> au_admin_pass h \<noteq> '''' \<and> lr_password req = au_admin_pass h
       then do { token \<leftarrow> generateJWT lib h 0 ''admin'' (lr_username req);
                 writeJSON 200 (PLogin token ''admin'' (lr_username req) 0) }
       else attempt (UserStore_GetByUsername (lr_username req))
         (\<lambda>_. writeError 401 ''invalid credentials'') (\<lambda>user.
         if \<not> bcrypt_compare lib (u_password user) (lr_password req)
         then writeError 401 ''invalid credentials''
         else if \<not> u_enabled user then writeError 403 ''account not yet approved by admin''
         else do { token \<leftarrow> generateJWT lib h (u_id user) ''user'' (u_name user);
                   writeJSON 200 (PLogin token ''user'' (u_name user) (u_id user)) }))"

text \<open>The random salt is the environment's, identified by the tick.\<close>

definition GenerateFromPassword :: "crypto \<Rightarrow> string \<Rightarrow> string option io" where
  "GenerateFromPassword lib password = do { w \<leftarrow> State_Monad.get; State_Monad.set (next_tick w);
     State_Monad.return (bcrypt_hash lib password (w_tick w)) }"

definition HandleRegister :: "crypto \<Rightarrow> request \<Rightarrow> response io" where
  "HandleRegister lib r =
    (if r_method r \<noteq> ''POST'' then NotFound
     else case as_credentials (r_body r) of
       None \<Rightarrow> writeError 400 ''invalid json''
     | Some req \<Rightarrow>
       if lr_username req = '''' \<or> lr_password req = ''''
       then writeError 400 ''username and password are required''
       else if length (lr_password req) < 6
       then writeError 400 ''password must be at least 6 characters''
       else do { hash \<leftarrow> GenerateFromPassword lib (lr_password req);
         (case hash of
            None \<Rightarrow> writeError 500 ''password hash failed''
          | Some hash \<Rightarrow> attempt (UserStore_CreateWithPassword (lr_username req) hash)
              (\<lambda>e. if Contains (err_text e) ''UNIQUE'' then writeError 409 ''username already taken''
                   else writeError 500 (err_text e))
              (\<lambda>user. writeJSON 201 (PRegistered (u_id user) (u_name user) (u_sub_token user)))) })"

section \<open>Middleware\<close>

text \<open>The request handed on carries the role and the user of the token in its context.\<close>

definition JWTAuth :: "crypto \<Rightarrow> auth \<Rightarrow> (request \<Rightarrow> response io) \<Rightarrow> request \<Rightarrow> response io" where
  "JWTAuth lib h next_handler r =
    (let authorization = r_header r ''Authorization'' in
     if \<not> HasPrefix authorization ''Bearer '' then writeError 401 ''unauthorized''
     else let tokenStr = TrimPrefix authorization ''Bearer '' in
     if au_admin_pass h = '''' \<and> tokenStr = au_secret h
     then next_handler (r\<lparr>r_role := ''admin'', r_user := 0\<rparr>)
     else do { now \<leftarrow> get_now;
       (case jwt_parse lib (au_secret h) now tokenStr of
          None \<Rightarrow> writeError 401 ''invalid token''
        | Some c \<Rightarrow> next_handler (r\<lparr>r_role := cl_role c, r_user := int_of_float (cl_user_id c)\<rparr>)) })"

definition AdminOnly :: "crypto \<Rightarrow> auth \<Rightarrow> (request \<Rightarrow> response io) \<Rightarrow> request \<Rightarrow> response io" where
  "AdminOnly lib h next_handler = JWTAuth lib h (\<lambda>r.
     if r_role r \<noteq> ''admin'' then writeError 403 ''admin access required'' else next_handler r)"

section \<open>The caller's own record and nodes\<close>

definition HandleMe :: "request \<Rightarrow> response io" where
  "HandleMe r =
    (if r_role r = ''admin'' then writeJSON 200 PAdmin
     else attempt (UserStore_Get (r_user r)) (\<lambda>_. writeError 404 ''user not found'')
       (\<lambda>user. writeJSON 200 (PMe user)))"

definition my_node :: "int \<Rightarrow> (int \<times> string \<times> string) list io" where
  "my_node nid = attempt (NodeStore_Get nid) (\<lambda>_. State_Monad.return [])
     (\<lambda>n. State_Monad.return (if \<not> n_enabled n then [] else [(n_id n, n_name n, n_domain n)]))"

text \<open>The errors of \<open>List\<close> and \<open>ListNodeIDs\<close> are dropped and leave a nil slice.\<close>

definition HandleMyNodes :: "request \<Rightarrow> response io" where
  "HandleMyNodes r =
    (if r_role r = ''admin''
     then attempt NodeStore_List (\<lambda>_. writeJSON 200 (PNodes [])) (\<lambda>nodes. writeJSON 200 (PNodes nodes))
     else do {
       nodeIDs \<leftarrow> attempt (AccessStore_ListNodeIDs (r_user r)) (\<lambda>_. State_Monad.return [])
         (\<lambda>ids. State_Monad.return ids);
       nodes \<leftarrow> map_each my_node nodeIDs;
       writeJSON 200 (PMyNodes (concat nodes)) })"

section \<open>What the middleware lets through\<close>

text \<open>The role and user a request is accepted with.\<close>

definition admitted :: "crypto \<Rightarrow> auth \<Rightarrow> datetime \<Rightarrow> request \<Rightarrow> (string \<times> int) option" where
  "admitted lib h now r =
    (let authorization = r_header r ''Authorization''; tokenStr = TrimPrefix authorization ''Bearer '' in
     if \<not> HasPrefix authorization ''Bearer '' then None
     else if au_admin_pass h = '''' \<and> tokenStr = au_secret h then Some (''admin'', 0)
     else map_option (\<lambda>c. (cl_role c, int_of_float (cl_user_id c))) (jwt_parse lib (au_secret h) now tokenStr))"

lemma run_JWTAuth: "run_state (JWTAuth lib h k r) w = (case admitted lib h (w_now w) r of
     None \<Rightarrow> (\<lparr>rp_status = 401, rp_payload = PError (if HasPrefix (r_header r ''Authorization'') ''Bearer ''
       then ''invalid token'' else ''unauthorized'')\<rparr>, w)
   | Some (role, user) \<Rightarrow> run_state (k (r\<lparr>r_role := role, r_user := user\<rparr>)) w)"
  by (auto simp: JWTAuth_def admitted_def Let_def writeError_def writeJSON_def get_now_def
      split: option.splits)

lemma run_AdminOnly: "run_state (AdminOnly lib h k r) w = (case admitted lib h (w_now w) r of
     None \<Rightarrow> (\<lparr>rp_status = 401, rp_payload = PError (if HasPrefix (r_header r ''Authorization'') ''Bearer ''
       then ''invalid token'' else ''unauthorized'')\<rparr>, w)
   | Some (role, user) \<Rightarrow>
       if role = ''admin'' then run_state (k (r\<lparr>r_role := role, r_user := user\<rparr>)) w
       else (\<lparr>rp_status = 403, rp_payload = PError ''admin access required''\<rparr>, w))"
  by (auto simp: AdminOnly_def run_JWTAuth writeError_def writeJSON_def split: option.splits)

end
