(* ===== verification/Stats.thy ===== *)
theory Stats
  imports AuthHandler
begin

text \<open>
  \<open>handler/stats.go\<close>: the usage queries, clamped to the retained window, and the per-user
  and per-node totals.
\<close>

section \<open>Parsing a query\<close>

definition defaultRangeDays :: int where
  "defaultRangeDays = 7"

text \<open>\<open>time.Parse\<close> with the layout \<open>2006-01-02\<close>.\<close>

definition ParseDay :: "string \<Rightarrow> datetime option" where
  "ParseDay s =
    (let t = mk_time (two_digits (take 4 s)) (two_digits (take 2 (drop 5 s))) (two_digits (drop 8 s)) 0 0 0
     in if length s = 10 \<and> list_all is_digit (take 4 s @ take 2 (drop 5 s) @ drop 8 s)
          \<and> s ! 4 = CHR ''-'' \<and> s ! 7 = CHR ''-'' \<and> valid_date t
        then Some t else None)"

definition errBadDay :: string where
  "errBadDay = ''dates must be formatted as YYYY-MM-DD''"

definition errBadRange :: string where
  "errBadRange = ''from must not be later than to''"

definition errBadGroup :: string where
  "errBadGroup = ''group accepts any combination of day, user and node''"

definition parseDay :: "string \<Rightarrow> string \<Rightarrow> string + string" where
  "parseDay v fallback = (if v = '''' then Inr fallback
     else case ParseDay v of None \<Rightarrow> Inl errBadDay | Some _ \<Rightarrow> Inr v)"

definition shiftDay :: "string \<Rightarrow> int \<Rightarrow> string + string" where
  "shiftDay day delta = (case ParseDay day of None \<Rightarrow> Inl errBadDay
     | Some t \<Rightarrow> Inr (FormatDay (add_days delta t)))"

fun parse_dims :: "string list \<Rightarrow> usage_query \<Rightarrow> string + usage_query" where
  "parse_dims [] q = Inr q"
| "parse_dims (name # dims) q =
    (let d = TrimSpace name in
     if d = '''' then parse_dims dims q
     else if d = ''day'' then parse_dims dims (q\<lparr>q_by_day := True\<rparr>)
     else if d = ''user'' then parse_dims dims (q\<lparr>q_by_user := True\<rparr>)
     else if d = ''node'' then parse_dims dims (q\<lparr>q_by_node := True\<rparr>)
     else Inl errBadGroup)"

definition or_error :: "'e + 'a \<Rightarrow> ('a \<Rightarrow> 'e + 'b) \<Rightarrow> 'e + 'b" where
  "or_error m k = (case m of Inl e \<Rightarrow> Inl e | Inr a \<Rightarrow> k a)"

definition parseUsageQuery :: "location option \<Rightarrow> datetime \<Rightarrow> (string \<Rightarrow> string) \<Rightarrow> int \<Rightarrow> string + usage_query" where
  "parseUsageQuery loc now query defaultDays =
    (let today = Today loc now; retentionFrom = RetentionStart loc now in
     or_error (parseDay (query ''to'') today) (\<lambda>to.
     let to = (if to > today then today else to) in
     if to < retentionFrom then Inl (''usage older than '' @ retentionFrom @ '' is no longer kept'')
     else or_error (shiftDay to (- (defaultDays - 1))) (\<lambda>defaultFrom.
     or_error (parseDay (query ''from'') defaultFrom) (\<lambda>from_day.
     let from_day = (if from_day < retentionFrom then retentionFrom else from_day) in
     if from_day > to then Inl errBadRange
     else or_error (parse_dims (SplitByte (CHR '','') (query ''group''))
       \<lparr>q_from = from_day, q_to = to, q_user = 0, q_node = 0, q_by_day = False, q_by_user = False,
        q_by_node = False, q_max_rows = 0\<rparr>) (\<lambda>q.
     Inr (q\<lparr>q_user := fst (Atoi (query ''user_id'')), q_node := fst (Atoi (query ''node_id''))\<rparr>))))))"

section \<open>Handlers\<close>

definition usage_response :: "location option \<Rightarrow> usage_query \<Rightarrow> response io" where
  "usage_response loc q = attempt (TrafficStore_Usage loc q) (\<lambda>e. writeError 500 (err_text e))
     (\<lambda>rows. writeJSON 200 (PUsage rows))"

definition HandleUsage :: "location option \<Rightarrow> request \<Rightarrow> response io" where
  "HandleUsage loc r = do { now \<leftarrow> get_now;
     (case parseUsageQuery loc now (r_query r) defaultRangeDays of
        Inl e \<Rightarrow> writeError 400 e
      | Inr q \<Rightarrow> usage_response loc q) }"

definition HandleMyUsage :: "location option \<Rightarrow> request \<Rightarrow> response io" where
  "HandleMyUsage loc r =
    (if r_user r = 0 then writeError 404 ''session has no user record''
     else do { now \<leftarrow> get_now;
       (case parseUsageQuery loc now (r_query r) 30 of
          Inl e \<Rightarrow> writeError 400 e
        | Inr q \<Rightarrow> usage_response loc (q\<lparr>q_user := r_user r, q_by_user := False\<rparr>)) })"

definition HandleUserStats :: "response io" where
  "HandleUserStats = attempt UserStore_List (\<lambda>e. writeError 500 (err_text e))
     (\<lambda>users. writeJSON 200 (PUserStats (map (\<lambda>u. (u_id u, u_name u, u_enabled u, u_used u, u_up u, u_down u,
        u_limit u, u_expire u)) users)))"

definition HandleNodeStats :: "response io" where
  "HandleNodeStats = attempt NodeStore_List (\<lambda>e. writeError 500 (err_text e)) (\<lambda>nodes.
     attempt TrafficStore_NodeTotals (\<lambda>e. writeError 500 (err_text e)) (\<lambda>totals.
     writeJSON 200 (PNodeStats (map (\<lambda>n. (n_id n, n_name n, n_enabled n,
        (case totals (n_id n) of None \<Rightarrow> (0, 0) | Some t \<Rightarrow> t))) nodes))))"

definition HandleMeta :: "location option \<Rightarrow> response io" where
  "HandleMeta loc = do { now \<leftarrow> get_now;
     writeJSON 200 (PMeta (loc_name (store_location loc)) (Today loc now) (RetentionStart loc now)
       RetentionMonths) }"

end
