(* ===== verification/Subscription.thy ===== *)
theory Subscription
  imports AuthHandler
begin

text \<open>
  What a user's client fetches: the subscription texts of \<open>singbox/generator.go\<close> and
  \<open>singbox/clash.go\<close>, and \<open>handler/subscription.go\<close> which assembles the nodes for them.
\<close>

section \<open>URL escaping and base64\<close>

definition upper_hex :: "nat \<Rightarrow> char" where
  "upper_hex d = (if d < 10 then char_of (48 + d) else char_of (55 + d))"

definition unreserved :: "char \<Rightarrow> bool" where
  "unreserved c \<longleftrightarrow> (CHR ''a'' \<le> c \<and> c \<le> CHR ''z'') \<or> (CHR ''A'' \<le> c \<and> c \<le> CHR ''Z'') \<or> is_digit c
     \<or> c \<in> {CHR ''-'', CHR ''_'', CHR ''.'', CHR ''~''}"

definition percent :: "char \<Rightarrow> string" where
  "percent c = (let n = of_char c :: nat in [CHR ''%'', upper_hex (n div 16 mod 16), upper_hex (n mod 16)])"

definition QueryEscape :: "string \<Rightarrow> string" where
  "QueryEscape s = concat (map (\<lambda>c. if unreserved c then [c] else if c = CHR '' '' then ''+'' else percent c) s)"

definition PathEscape :: "string \<Rightarrow> string" where
  "PathEscape s = concat (map (\<lambda>c. if unreserved c \<or> c \<in> {CHR ''$'', CHR ''&'', CHR ''+'', CHR ''='', CHR '':'', CHR ''@''}
     then [c] else percent c) s)"

definition base64_char :: "nat \<Rightarrow> char" where
  "base64_char n = (if n < 26 then char_of (65 + n) else if n < 52 then char_of (71 + n)
     else if n < 62 then char_of (n - 4) else if n = 62 then CHR ''+'' else CHR ''/'')"

fun base64 :: "nat list \<Rightarrow> string" where
  "base64 [] = []"
| "base64 [a] = [base64_char (a div 4), base64_char (a mod 4 * 16), CHR ''='', CHR ''='']"
| "base64 [a, b] = [base64_char (a div 4), base64_char (a mod 4 * 16 + b div 16),
     base64_char (b mod 16 * 4), CHR ''='']"
| "base64 (a # b # c # bs) = [base64_char (a div 4), base64_char (a mod 4 * 16 + b div 16),
     base64_char (b mod 16 * 4 + c div 64), base64_char (c mod 64)] @ base64 bs"

definition base64_string :: "string \<Rightarrow> string" where
  "base64_string s = base64 (map of_char s)"

section \<open>Share links\<close>

definition hostForURI :: "string \<Rightarrow> string" where
  "hostForURI host = (if Contains host '':'' then ''['' @ host @ '']'' else host)"

text \<open>\<open>protocolNameTracker\<close>: the counter of each base name; \<open>next\<close> returns the name and the tracker.\<close>

type_synonym tracker = "string \<Rightarrow> nat"

definition empty_tracker :: tracker where
  "empty_tracker = (\<lambda>_. 0)"

definition next_name :: "tracker \<Rightarrow> string \<Rightarrow> string \<times> tracker" where
  "next_name t base = (let n = t base + 1; t' = t(base := n) in
     if n = 1 then (base, t') else (base @ ''-'' @ Itoa (int n), t'))"

definition field_or :: "settings \<Rightarrow> string \<Rightarrow> string \<Rightarrow> string" where
  "field_or s k fallback = (if str_field s k = '''' then fallback else str_field s k)"

definition buildHysteria2URI :: "user \<Rightarrow> node \<Rightarrow> inbound \<Rightarrow> settings \<Rightarrow> tracker \<Rightarrow> string \<times> tracker" where
  "buildHysteria2URI user node ib s names =
    (let domain = field_or s ''domain'' (n_domain node) in
     if domain = '''' then ('''', names)
     else case next_name names (n_name node @ ''-Hy2'') of (name, names') \<Rightarrow>
       let obfsPassword = hysteriaObfsPassword s;
           obfs = (if obfsPassword \<noteq> '''' then ''&obfs=salamander&obfs-password='' @ QueryEscape obfsPassword
                   else '''')
       in (''hysteria2://'' @ u_uuid user @ ''@'' @ hostForURI domain @ '':'' @ Itoa (ib_port ib)
           @ ''?sni='' @ domain @ ''&alpn=h3'' @ obfs @ ''#'' @ PathEscape name, names'))"

definition buildRealityURI :: "user \<Rightarrow> node \<Rightarrow> inbound \<Rightarrow> settings \<Rightarrow> tracker \<Rightarrow> string \<times> tracker" where
  "buildRealityURI user node ib s names =
    (let sni = str_field s ''sni''; publicKey = str_field s ''public_key''; shortID = str_field s ''short_id'';
         fp = field_or s ''fingerprint'' ''chrome'' in
     if sni = '''' \<or> publicKey = '''' then ('''', names)
     else case next_name names (n_name node @ ''-Reality'') of (name, names') \<Rightarrow>
       (''vless://'' @ u_uuid user @ ''@'' @ hostForURI (realityServer (n_host node) s) @ '':'' @ Itoa (ib_port ib)
        @ ''?encryption=none&security=reality&sni='' @ sni @ ''&pbk='' @ publicKey @ ''&sid='' @ shortID
        @ ''&fp='' @ fp @ ''&flow=xtls-rprx-vision&type=tcp#'' @ PathEscape name, names'))"

definition buildHTTPUpgradeURI :: "user \<Rightarrow> node \<Rightarrow> inbound \<Rightarrow> settings \<Rightarrow> tracker \<Rightarrow> string \<times> tracker" where
  "buildHTTPUpgradeURI user node ib s names =
    (let domain = field_or s ''domain'' (n_domain node); path = field_or s ''path'' ''/upgrade'' in
     if domain = '''' then ('''', names)
     else case next_name names (n_name node @ ''-CDN'') of (name, names') \<Rightarrow>
       (''vless://'' @ u_uuid user @ ''@'' @ domain @ '':'' @ Itoa 443
        @ ''?encryption=none&security=tls&sni='' @ domain @ ''&type=httpupgrade&host='' @ domain
        @ ''&path='' @ path @ ''&fp=chrome#'' @ name, names'))"

definition buildURI :: "user \<Rightarrow> node \<Rightarrow> inbound \<Rightarrow> tracker \<Rightarrow> string \<times> tracker" where
  "buildURI user node ib names = (let s = settings_map (ib_settings ib) in
     if ib_protocol ib = ''hysteria2'' then buildHysteria2URI user node ib s names
     else if ib_protocol ib = ''vless-reality'' then buildRealityURI user node ib s names
     else if ib_protocol ib = ''vless-httpupgrade'' then buildHTTPUpgradeURI user node ib s names
     else ('''', names))"

fun node_uris :: "user \<Rightarrow> node \<Rightarrow> tracker \<Rightarrow> inbound list \<Rightarrow> string list" where
  "node_uris user n names [] = []"
| "node_uris user n names (ib # ibs) =
    (if \<not> ib_enabled ib then node_uris user n names ibs
     else case buildURI user n ib names of (uri, names') \<Rightarrow>
       (if uri \<noteq> '''' then [uri] else []) @ node_uris user n names' ibs)"

definition subscription_lines :: "user \<Rightarrow> (node \<times> inbound list) list \<Rightarrow> string list" where
  "subscription_lines user nodes = concat (map (\<lambda>(n, inbounds).
     if \<not> n_enabled n then [] else node_uris user n empty_tracker inbounds) nodes)"

definition nl :: string where
  "nl = [CHR 0x0A]"

definition GenerateSubscription :: "user \<Rightarrow> (node \<times> inbound list) list \<Rightarrow> string" where
  "GenerateSubscription user nodes = Join (subscription_lines user nodes) nl @ nl"

section \<open>The Clash configuration\<close>

definition clashName :: "node \<Rightarrow> inbound \<Rightarrow> tracker \<Rightarrow> string \<times> tracker" where
  "clashName node ib names =
    (if ib_protocol ib = ''hysteria2'' then next_name names (n_name node @ ''-Hy2'')
     else if ib_protocol ib = ''vless-reality'' then next_name names (n_name node @ ''-Reality'')
     else if ib_protocol ib = ''vless-httpupgrade'' then next_name names (n_name node @ ''-CDN'')
     else next_name names (n_name node))"

definition name_line :: "string \<Rightarrow> string" where
  "name_line name = ''  - name: '' @ [CHR 0x22] @ name @ [CHR 0x22]"

definition clashHysteria2 :: "user \<Rightarrow> node \<Rightarrow> inbound \<Rightarrow> settings \<Rightarrow> string \<Rightarrow> string" where
  "clashHysteria2 user node ib s name =
    (let domain = field_or s ''domain'' (n_domain node); obfsPassword = hysteriaObfsPassword s in
     if domain = '''' then ''''
     else Join ([name_line name, ''    type: hysteria2'', ''    server: '' @ domain,
       ''    port: '' @ Itoa (ib_port ib), ''    password: '' @ u_uuid user, ''    sni: '' @ domain]
       @ (if obfsPassword \<noteq> '''' then [''    obfs: salamander'', ''    obfs-password: '' @ obfsPassword] else [])
       @ [''    alpn:'', ''      - h3'']) nl)"

definition clashReality :: "user \<Rightarrow> node \<Rightarrow> inbound \<Rightarrow> settings \<Rightarrow> string \<Rightarrow> string" where
  "clashReality user node ib s name =
    (let sni = str_field s ''sni''; publicKey = str_field s ''public_key''; shortID = str_field s ''short_id'';
         fp = field_or s ''fingerprint'' ''chrome'' in
     if sni = '''' \<or> publicKey = '''' then ''''
     else Join [name_line name, ''    type: vless'', ''    server: '' @ realityServer (n_host node) s,
       ''    port: '' @ Itoa (ib_port ib), ''    udp: true'', ''    uuid: '' @ u_uuid user,
       ''    flow: xtls-rprx-vision'', ''    tls: true'', ''    servername: '' @ sni,
       ''    client-fingerprint: '' @ fp, ''    reality-opts:'', ''      public-key: '' @ publicKey,
       ''      short-id: '' @ shortID, ''    network: tcp''] nl)"

definition clashHTTPUpgrade :: "user \<Rightarrow> node \<Rightarrow> inbound \<Rightarrow> settings \<Rightarrow> string \<Rightarrow> string" where
  "clashHTTPUpgrade user node ib s name =
    (let domain = field_or s ''domain'' (n_domain node); path = field_or s ''path'' ''/upgrade'' in
     if domain = '''' then ''''
     else Join [name_line name, ''    type: vless'', ''    server: '' @ domain, ''    port: 443'',
       ''    udp: true'', ''    uuid: '' @ u_uuid user, ''    tls: true'', ''    servername: '' @ domain,
       ''    client-fingerprint: chrome'', ''    network: httpupgrade'', ''    httpupgrade-opts:'',
       ''      path: '' @ path, ''      host: '' @ domain] nl)"

definition buildClashProxy :: "user \<Rightarrow> node \<Rightarrow> inbound \<Rightarrow> string \<Rightarrow> string" where
  "buildClashProxy user node ib name = (let s = settings_map (ib_settings ib) in
     if ib_protocol ib = ''hysteria2'' then clashHysteria2 user node ib s name
     else if ib_protocol ib = ''vless-reality'' then clashReality user node ib s name
     else if ib_protocol ib = ''vless-httpupgrade'' then clashHTTPUpgrade user node ib s name
     else '''')"

text \<open>The proxies of one node: their names and their entries.\<close>

fun clash_proxies :: "user \<Rightarrow> node \<Rightarrow> tracker \<Rightarrow> inbound list \<Rightarrow> (string \<times> string) list" where
  "clash_proxies user n names [] = []"
| "clash_proxies user n names (ib # ibs) =
    (if \<not> ib_enabled ib then clash_proxies user n names ibs
     else case clashName n ib names of (name, names') \<Rightarrow>
       let entry = buildClashProxy user n ib name in
       (if entry \<noteq> '''' then [(name, entry)] else []) @ clash_proxies user n names' ibs)"

definition clash_lines :: "string list \<Rightarrow> string" where
  "clash_lines ls = concat (map (\<lambda>l. l @ nl) ls)"

definition GenerateClashConfig :: "user \<Rightarrow> (node \<times> inbound list) list \<Rightarrow> string" where
  "GenerateClashConfig user nodes =
    (let found = concat (map (\<lambda>(n, inbounds). if \<not> n_enabled n then []
                     else clash_proxies user n empty_tracker inbounds) nodes);
         proxies = map snd found; proxyNames = map fst found;
         items = map (\<lambda>name. ''      - '' @ name) proxyNames
     in clash_lines ([''mixed-port: 7890'', ''allow-lan: false'', ''mode: rule'', ''log-level: info'',
       ''unified-delay: true'', ''dns:'', ''  enable: true'', ''  enhanced-mode: fake-ip'', ''  nameserver:'',
       ''    - https://dns.alidns.com/dns-query'', ''    - https://doh.pub/dns-query'', '''', ''proxies:'']
       @ proxies
       @ ['''', ''proxy-groups:'', ''  - name: Proxy'', ''    type: select'', ''    proxies:'', ''      - Auto'']
       @ items
       @ [''      - DIRECT'', ''  - name: Auto'', ''    type: url-test'', ''    proxies:'']
       @ items
       @ [''    url: https://www.gstatic.com/generate_204'', ''    interval: 300'', '''', ''rules:'',
          ''  - DOMAIN-SUFFIX,local,DIRECT'', ''  - IP-CIDR,10.0.0.0/8,DIRECT,no-resolve'',
          ''  - IP-CIDR,172.16.0.0/12,DIRECT,no-resolve'', ''  - IP-CIDR,192.168.0.0/16,DIRECT,no-resolve'',
          ''  - IP-CIDR,127.0.0.0/8,DIRECT,no-resolve'', ''  - IP-CIDR6,::1/128,DIRECT,no-resolve'',
          ''  - IP-CIDR6,fc00::/7,DIRECT,no-resolve'', ''  - IP-CIDR6,fe80::/10,DIRECT,no-resolve'',
          ''  - GEOIP,CN,DIRECT,no-resolve'', ''  - MATCH,Proxy'']))"

section \<open>The handler\<close>

definition unlimitedSubscriptionTotalBytes :: int where
  "unlimitedSubscriptionTotalBytes = 2 ^ 50"

text \<open>
  \<open>time.Parse("2006-01-02 15:04:05", s)\<close>: two digits per field but for the hour, which may
  have one; spaces may repeat; a fraction may follow the seconds.
\<close>

definition read_fixed :: "nat \<Rightarrow> string \<Rightarrow> (int \<times> string) option" where
  "read_fixed n s = (if length s \<ge> n \<and> list_all is_digit (take n s)
     then Some (two_digits (take n s), drop n s) else None)"

definition read_hour :: "string \<Rightarrow> (int \<times> string) option" where
  "read_hour s = (case read_fixed 2 s of Some r \<Rightarrow> Some r | None \<Rightarrow> read_fixed 1 s)"

definition read_char :: "char \<Rightarrow> string \<Rightarrow> string option" where
  "read_char c s = (case s of [] \<Rightarrow> None | x # xs \<Rightarrow> if x = c then Some xs else None)"

definition read_spaces :: "string \<Rightarrow> string option" where
  "read_spaces s = map_option (dropWhile (\<lambda>c. c = CHR '' '')) (read_char (CHR '' '') s)"

definition skip_fraction :: "string \<Rightarrow> string" where
  "skip_fraction s = (case s of
     c # d # ds \<Rightarrow> if (c = CHR ''.'' \<or> c = CHR '','') \<and> is_digit d then dropWhile is_digit ds else s
   | _ \<Rightarrow> s)"

definition ParseExpiry :: "string \<Rightarrow> datetime option" where
  "ParseExpiry s =
     Option.bind (read_fixed 4 s) (\<lambda>(y, s). Option.bind (read_char (CHR ''-'') s) (\<lambda>s.
     Option.bind (read_fixed 2 s) (\<lambda>(m, s). Option.bind (read_char (CHR ''-'') s) (\<lambda>s.
     Option.bind (read_fixed 2 s) (\<lambda>(d, s). Option.bind (read_spaces s) (\<lambda>s.
     Option.bind (read_hour s) (\<lambda>(h, s). Option.bind (read_char (CHR '':'') s) (\<lambda>s.
     Option.bind (read_fixed 2 s) (\<lambda>(mi, s). Option.bind (read_char (CHR '':'') s) (\<lambda>s.
     Option.bind (read_fixed 2 s) (\<lambda>(sec, s).
       let t = mk_time y m d h mi sec in
       if skip_fraction s = '''' \<and> valid_date t \<and> valid_clock t then Some t else None)))))))))))"

text \<open>\<open>t.Unix()\<close>: days since 1970-01-01 in the Gregorian calendar, and the seconds of the day.\<close>

definition days_before_year :: "int \<Rightarrow> int" where
  "days_before_year y = 365 * (y - 1) + (y - 1) div 4 - (y - 1) div 100 + (y - 1) div 400"

definition day_of_year :: "datetime \<Rightarrow> int" where
  "day_of_year t = sum_list (map (days_in_month (yr t)) [1..mo t - 1]) + dy t"

definition Unix :: "datetime \<Rightarrow> int" where
  "Unix t = 86400 * (days_before_year (yr t) + day_of_year t - days_before_year 1970 - 1)
     + 3600 * hh t + 60 * mi t + sc t"

definition ToLower :: "string \<Rightarrow> string" where
  "ToLower s = map (\<lambda>c. if CHR ''A'' \<le> c \<and> c \<le> CHR ''Z'' then char_of (of_char c + 32 :: nat) else c) s"

definition detectFormat :: "request \<Rightarrow> string" where
  "detectFormat r =
    (if r_query r ''format'' \<noteq> '''' then r_query r ''format''
     else let ua = ToLower (r_header r ''User-Agent'') in
     if Contains ua ''clash'' \<or> Contains ua ''mihomo'' \<or> Contains ua ''stash'' \<or> Contains ua ''verge''
     then ''clash'' else ''base64'')"

definition userinfo :: "user \<Rightarrow> string" where
  "userinfo user =
    (let total = (if u_limit user = 0 then unlimitedSubscriptionTotalBytes else u_limit user) in
     ''upload='' @ Itoa (u_up user) @ ''; download='' @ Itoa (u_down user) @ ''; total='' @ Itoa total
     @ (if u_expire user = '''' then '''' else case ParseExpiry (u_expire user) of
          None \<Rightarrow> '''' | Some t \<Rightarrow> ''; expire='' @ Itoa (Unix t)))"

text \<open>The nodes of the loop: enabled, accessible and with readable inbounds.\<close>

definition accessible_node :: "int list \<Rightarrow> node \<Rightarrow> (node \<times> inbound list) list io" where
  "accessible_node accessSet n =
    (if \<not> n_enabled n \<or> n_id n \<notin> set accessSet then State_Monad.return []
     else attempt (NodeStore_ListInbounds (n_id n)) (\<lambda>_. State_Monad.return [])
       (\<lambda>inbounds. State_Monad.return [(n, inbounds)]))"

definition subscription_nodes :: "user \<Rightarrow> node list \<Rightarrow> (node \<times> inbound list) list io" where
  "subscription_nodes user nodes = do {
     accessSet \<leftarrow> attempt (AccessStore_ListNodeIDs (u_id user)) (\<lambda>_. State_Monad.return [])
       (\<lambda>ids. State_Monad.return ids);
     found \<leftarrow> map_each (accessible_node accessSet) nodes;
     State_Monad.return (concat found) }"

definition subscription_text :: "request \<Rightarrow> user \<Rightarrow> (node \<times> inbound list) list \<Rightarrow> response io" where
  "subscription_text r user nodesWithInbounds =
     (if detectFormat r = ''clash''
      then writeJSON 200 (PText [(''Subscription-Userinfo'', userinfo user),
         (''Profile-Update-Interval'', ''6''), (''Content-Type'', ''text/yaml; charset=utf-8''),
         (''Content-Disposition'', ''attachment; filename=config.yaml'')]
         (GenerateClashConfig user nodesWithInbounds))
      else writeJSON 200 (PText [(''Subscription-Userinfo'', userinfo user),
         (''Profile-Update-Interval'', ''6''), (''Content-Type'', ''text/plain; charset=utf-8''),
         (''Content-Disposition'', ''attachment; filename=nodes'')]
         (base64_string (GenerateSubscription user nodesWithInbounds))))"

definition Subscription_ServeHTTP :: "request \<Rightarrow> response io" where
  "Subscription_ServeHTTP r = (let token = TrimPrefix (r_path r) ''/sub/'' in
     if token = '''' then NotFound
     else attempt (UserStore_GetBySubToken token) (\<lambda>_. NotFound) (\<lambda>user0. do {
       user \<leftarrow> UserStore_CheckTrafficReset user0;
       now \<leftarrow> get_now;
       (if \<not> IsActive now user then NotFound
        else attempt NodeStore_List (\<lambda>e. writeError 500 (err_text e)) (\<lambda>nodes. do {
          found \<leftarrow> subscription_nodes user nodes;
          subscription_text r user found })) }))"

end
