(* ===== verification/Ports.thy ===== *)
theory Ports
  imports ConfigHandler
begin

text \<open>
  The choice of a listening port in \<open>handler/setup.go\<close>: the node is asked what it listens on,
  the conventional HTTPS ports are tried in order, and a random high port is the last resort.
  A remote command is its text; what it prints and whether it succeeds is the environment's.
\<close>

section \<open>Remote commands\<close>

text \<open>
  \<open>sshRun\<close>: the output and whether the command exited with status 0. The commands of the
  panel other than the push do not write configurations; one that restarts the service (the
  certificate renewal does) makes it load the file that is there.
\<close>

definition reload_unit :: "machine \<Rightarrow> machine" where
  "reload_unit m = m\<lparr>m_loaded := m_files m (m_unit_path m)\<rparr>"

definition sshRun :: "string \<Rightarrow> string \<Rightarrow> (string \<times> bool) io" where
  "sshRun addr command = do { w \<leftarrow> State_Monad.get;
     State_Monad.set (next_tick w);
     (if ssh_reload (w_env w) (w_tick w) then on_machine addr (\<lambda>m. (reload_unit m, ())) else State_Monad.return ());
     State_Monad.return (ssh_run (w_env w) (w_tick w) command) }"

section \<open>Random values\<close>

definition randomHex :: "nat \<Rightarrow> string io" where
  "randomHex n = random_hex n"

text \<open>\<open>rand.Int(rand.Reader, 30000)\<close> is a number below 30000 made of random bytes.\<close>

definition randomPort :: "int io" where
  "randomPort = do { w \<leftarrow> State_Monad.get; State_Monad.set (next_tick w);
     State_Monad.return (int ((rand_byte (w_env w) (w_tick w) 0 + 256 * rand_byte (w_env w) (w_tick w) 1) mod 30000) + 20000) }"

section \<open>Listening ports\<close>

definition conventionalPorts :: "int list" where
  "conventionalPorts = [443, 8443, 2053, 2083, 2087, 2096]"

definition field_port :: "string \<Rightarrow> int option" where
  "field_port f = (case after_last (CHR '':'') f of
     None \<Rightarrow> None
   | Some digits \<Rightarrow> (case Atoi digits of (port, no_error) \<Rightarrow>
       if \<not> no_error \<or> port \<le> 0 \<or> port > 65535 then None else Some port))"

definition parseListeningPorts :: "string \<Rightarrow> int list" where
  "parseListeningPorts output =
    List.map_filter field_port (concat (map Fields (SplitByte (CHR 0x0A) output)))"

definition listen_command :: "string \<Rightarrow> string" where
  "listen_command network = (let flag = (if network = ''udp'' then ''-lnu'' else ''-lnt'') in
     ''ss '' @ flag @ '' 2>/dev/null || netstat -ln'' @ TrimPrefix flag ''-ln'')"

text \<open>The occupied ports that an output means, or that it cannot be trusted.\<close>

definition occupied_ports :: "string \<Rightarrow> string \<times> bool \<Rightarrow> int list option" where
  "occupied_ports network result = (case result of (out, no_error) \<Rightarrow>
     if \<not> no_error \<and> TrimSpace out = '''' then None
     else let ports = parseListeningPorts out in
       if length ports = 0 \<and> network \<noteq> ''udp'' then None else Some ports)"

definition listeningPorts :: "string \<Rightarrow> string \<Rightarrow> int list option io" where
  "listeningPorts addr network = do {
     result \<leftarrow> sshRun addr (listen_command network);
     State_Monad.return (occupied_ports network result) }"

text \<open>The sets of occupied and reserved ports are lists of their elements.\<close>

definition pickListenPort :: "string \<Rightarrow> string \<Rightarrow> int \<Rightarrow> int list \<Rightarrow> int io" where
  "pickListenPort addr network currentPort reserved = do {
     probed \<leftarrow> listeningPorts addr network;
     (case probed of
        None \<Rightarrow>
          if currentPort \<noteq> 0 \<and> currentPort \<notin> set reserved then State_Monad.return currentPort else randomPort
      | Some occupied \<Rightarrow>
          let occupied = removeAll currentPort occupied in
          (case List.find (\<lambda>port. port \<notin> set occupied \<and> port \<notin> set reserved) conventionalPorts of
             Some port \<Rightarrow> State_Monad.return port
           | None \<Rightarrow>
               if currentPort \<noteq> 0 \<and> currentPort \<notin> set reserved then State_Monad.return currentPort
               else randomPort)) }"

definition selectListenPort :: "string \<Rightarrow> string \<Rightarrow> int \<Rightarrow> int list \<Rightarrow> (int \<times> int list) io" where
  "selectListenPort addr network currentPort reserved = do {
     port \<leftarrow> pickListenPort addr network currentPort reserved;
     State_Monad.return (port, port # reserved) }"

section \<open>What is chosen\<close>

lemma runs_reload: "runs m path doc \<Longrightarrow> runs (reload_unit m) path doc"
  by (simp add: runs_def reload_unit_def)

lemma in_sync_reload: "in_sync w i \<Longrightarrow>
    in_sync (w\<lparr>w_tick := t, w_fleet := (w_fleet w)(a := reload_unit (w_fleet w a))\<rparr>) i"
  by (auto simp: in_sync_def intro: runs_reload)

lemma in_sync_tick: "in_sync (w\<lparr>w_tick := t\<rparr>) i = in_sync w i"
  by (simp add: in_sync_def)

lemma wp_sshRun: "(\<And>w'. w_db w' = w_db w \<Longrightarrow> w_now w' = w_now w \<Longrightarrow> w_env w' = w_env w \<Longrightarrow>
      (\<And>i. in_sync w i \<Longrightarrow> in_sync w' i) \<Longrightarrow> Q (ssh_run (w_env w) (w_tick w) command) w') \<Longrightarrow>
    wp (sshRun addr command) Q w"
  by (simp add: sshRun_def on_machine_def wp_step next_tick_def in_sync_reload in_sync_tick)

text \<open>
  A chosen port is one the node may listen on: its own, a conventional one that nobody
  occupies and that was not handed out in this run, or one of the random range.
\<close>

definition port_ok :: "int list option \<Rightarrow> int \<Rightarrow> int list \<Rightarrow> int \<Rightarrow> bool" where
  "port_ok probed current reserved port \<longleftrightarrow>
     (\<exists>occupied. probed = Some occupied \<and> port \<in> set conventionalPorts \<and> (port = current \<or> port \<notin> set occupied)
        \<and> port \<notin> set reserved)
     \<or> port = current \<and> current \<noteq> 0 \<and> port \<notin> set reserved
     \<or> 20000 \<le> port \<and> port < 50000"

lemma find_free: "List.find p xs = Some x \<Longrightarrow> x \<in> set xs \<and> p x"
  by (auto simp: find_Some_iff)

lemma wp_pickListenPort: "wp (pickListenPort addr network current reserved) (\<lambda>port w'. w_db w' = w_db w \<and>
    port_ok (occupied_ports network (ssh_run (w_env w) (w_tick w) (listen_command network))) current reserved port) w"
  unfolding pickListenPort_def listeningPorts_def randomPort_def wp_bind Let_def
  by (rule wp_sshRun)
    (auto simp: wp_step port_ok_def next_tick_def split: option.splits dest!: find_free)

end
