(* ===== verification/Shell.thy ===== *)
theory Shell
  imports GoStrings
begin

text \<open>
  The texts of the shell commands that carry values of the database: quoting
  (\<open>shellQuote\<close> in \<open>handler/install.go\<close>, the \<open>%q\<close> of \<open>fmt\<close>), the script that installs a binary,
  and how a POSIX shell reads a quoted word back.
\<close>

section \<open>Quoting\<close>

text \<open>
  A Go raw string, line by line. It cannot hold a backtick; here the backtick stands for
  the backslash, which a string of this logic cannot hold.
\<close>

definition raw :: "string \<Rightarrow> string" where
  "raw s = map (\<lambda>c. if c = CHR 0x60 then CHR 0x5C else c) s"

text \<open>The bytes of an em dash.\<close>

definition em_dash :: string where "em_dash = [CHR 0xE2, CHR 0x80, CHR 0x94]"

definition raw_lines :: "string list \<Rightarrow> string" where
  "raw_lines ls = concat (map (\<lambda>l. l @ [CHR 0x0A]) ls)"

text \<open>\<open>strings.ReplaceAll\<close> of one byte.\<close>

definition replace_byte :: "char \<Rightarrow> string \<Rightarrow> string \<Rightarrow> string" where
  "replace_byte b t s = concat (map (\<lambda>c. if c = b then t else [c]) s)"

definition quote_char :: char where "quote_char = CHR 0x27"

definition shellQuote :: "string \<Rightarrow> string" where
  "shellQuote value = [quote_char]
     @ replace_byte quote_char [quote_char, CHR 0x22, quote_char, CHR 0x22, quote_char] value @ [quote_char]"

text \<open>\<open>%q\<close> of bytes below 128.\<close>

definition quoted_byte :: "char \<Rightarrow> string" where
  "quoted_byte c = (let n = of_char c :: nat; hex = (\<lambda>d. if d < 10 then char_of (48 + d) else char_of (87 + d)) in
     if c = CHR 0x22 \<or> c = CHR 0x5C then [CHR 0x5C, c]
     else if n = 7 then raw ''`a'' else if n = 8 then raw ''`b'' else if n = 9 then raw ''`t''
     else if n = 10 then raw ''`n'' else if n = 11 then raw ''`v'' else if n = 12 then raw ''`f''
     else if n = 13 then raw ''`r''
     else if n < 32 \<or> n = 127 then raw ''`x'' @ [hex (n div 16), hex (n mod 16)]
     else [c])"

definition Quote :: "string \<Rightarrow> string" where
  "Quote s = [CHR 0x22] @ concat (map quoted_byte s) @ [CHR 0x22]"

section \<open>Installing a binary\<close>

definition verifiedInstallScript :: "string \<Rightarrow> string \<Rightarrow> string \<Rightarrow> string \<Rightarrow> string" where
  "verifiedInstallScript url binPath configPath version =
    (let q = shellQuote; bin = q binPath; previous = q (binPath @ ''.previous''); new = q (binPath @ ''.new'');
         banner = q (''sing-box version '' @ version) in raw_lines
    [''set -eu'',
     ''work=$(mktemp -d)'',
     ''trap 'rm -rf \"$work\"' EXIT'',
     ''curl -fSL --retry 2 --connect-timeout 15 --max-time 180 '' @ q url @ '' -o \"$work/sb.tar.gz\"'',
     ''tar xzf \"$work/sb.tar.gz\" -C \"$work\"'',
     ''candidate=$(find \"$work\" -name sing-box -type f | head -1)'',
     ''[ -n \"$candidate\" ]'',
     ''version_out=$(\"$candidate\" version)'',
     raw ''printf '%s`n' \"$version_out\"'',
     raw ''printf '%s`n' \"$version_out\" | grep -Fx '' @ banner,
     raw ''printf '%s`n' \"$version_out\" | grep -q 'with_v2ray_api'' @ [quote_char],
     ''if [ -s '' @ q configPath @ '' ]; then \"$candidate\" check -c '' @ q configPath @ ''; fi'',
     ''mkdir -p \"$(dirname '' @ bin @ '')\"'',
     ''was_running=0'',
     ''systemctl is-active --quiet sing-box && was_running=1'',
     ''had_binary=0'',
     ''if [ -f '' @ bin @ '' ]; then cp -p '' @ bin @ '' '' @ previous @ ''; had_binary=1; fi'',
     ''install -m 0755 \"$candidate\" '' @ new,
     ''mv -f '' @ new @ '' '' @ bin,
     ''if [ \"$was_running\" = 1 ]; then'',
     ''  running_new_binary() {'',
     ''    systemctl is-active --quiet sing-box || return 1'',
     ''    pid=$(systemctl show -p MainPID --value sing-box)'',
     ''    [ -n \"$pid\" ] && [ \"$pid\" != 0 ] || return 1'',
     ''    [ \"$(readlink -f /proc/\"$pid\"/exe)\" = \"$(readlink -f '' @ bin @ '')\" ]'',
     ''  }'',
     ''  if ! systemctl restart sing-box || ! sleep 2 || ! running_new_binary; then'',
     ''    if [ \"$had_binary\" = 1 ]; then mv -f '' @ previous @ '' '' @ bin @ ''; systemctl restart sing-box; fi'',
     ''    echo 'upgrade failed; previous binary restored' >&2'',
     ''    exit 1'',
     ''  fi'',
     ''fi'',
     bin @ '' version | grep -Fx '' @ banner])"

section \<open>Reading a word back\<close>

text \<open>
  How a POSIX shell reads one word: plain bytes, single and double quotes, up to a
  delimiter. What would be expanded or escaped gives \<open>None\<close>: no such byte may come from data.
\<close>

datatype quoting = Bare | Single | Double

definition word_end :: "char \<Rightarrow> bool" where
  "word_end c \<longleftrightarrow> is_space c \<or> c \<in> {CHR '';'', CHR ''&'', CHR ''|'', CHR ''('', CHR '')'', CHR ''<'', CHR ''>''}"

definition word_plain :: "char \<Rightarrow> bool" where
  "word_plain c \<longleftrightarrow> CHR ''a'' \<le> c \<and> c \<le> CHR ''z'' \<or> CHR ''A'' \<le> c \<and> c \<le> CHR ''Z'' \<or> is_digit c
     \<or> c \<in> {CHR ''_'', CHR ''-'', CHR ''.'', CHR ''/'', CHR '':'', CHR '','', CHR ''+'', CHR ''@'', CHR ''%''}"

definition expands :: "char \<Rightarrow> bool" where
  "expands c \<longleftrightarrow> c \<in> {CHR ''$'', CHR 0x60, CHR 0x5C}"

fun read_word :: "quoting \<Rightarrow> string \<Rightarrow> (string \<times> string) option" where
  "read_word Bare [] = Some ([], [])"
| "read_word Bare (c # cs) =
    (if word_end c then Some ([], c # cs)
     else if c = quote_char then read_word Single cs
     else if c = CHR 0x22 then read_word Double cs
     else if word_plain c then map_option (apfst (Cons c)) (read_word Bare cs)
     else None)"
| "read_word Single [] = None"
| "read_word Single (c # cs) =
    (if c = quote_char then read_word Bare cs else map_option (apfst (Cons c)) (read_word Single cs))"
| "read_word Double [] = None"
| "read_word Double (c # cs) =
    (if c = CHR 0x22 then read_word Bare cs
     else if expands c then None
     else map_option (apfst (Cons c)) (read_word Double cs))"

lemma replace_byte_simps [simp]: "replace_byte b t [] = []"
  "replace_byte b t (c # cs) = (if c = b then t else [c]) @ replace_byte b t cs"
  by (simp_all add: replace_byte_def)

text \<open>A shell reads a quoted value as the value, whatever its bytes are.\<close>

lemma read_quoted:
  assumes "rest = [] \<or> word_end (hd rest)"
  shows "read_word Bare (shellQuote v @ rest) = Some (v, rest)"
proof -
  have close: "read_word Bare rest = Some ([], rest)"
    using assms by (cases rest) auto
  have marks: "\<not> word_end quote_char" "\<not> word_end (CHR 0x22)" "CHR 0x22 \<noteq> quote_char"
    "\<not> expands quote_char" "\<not> expands (CHR 0x22)" "quote_char \<noteq> CHR 0x22"
    by (simp_all add: word_end_def is_space_def quote_char_def expands_def)
  have "read_word Single (replace_byte quote_char [quote_char, CHR 0x22, quote_char, CHR 0x22, quote_char] v
      @ quote_char # rest) = Some (v, rest)"
    by (induction v) (simp_all add: close marks)
  then show ?thesis by (simp add: shellQuote_def marks)
qed

end
