(* ===== verification/CertTime.thy ===== *)
theory CertTime
  imports Clock Shell
begin

text \<open>
  The times of certificates (\<open>handler/cert.go\<close>): \<open>time.Parse\<close> with the two layouts of
  \<open>openssl -enddate\<close>, the difference of two times, and the RFC 3339 text.
\<close>

section \<open>Differences of times\<close>

text \<open>Days since a fixed day, with March as the first month of the year.\<close>

definition days_of_years :: "int \<Rightarrow> int" where
  "days_of_years y = 365 * y + (y div 4 - y div 100 + y div 400)"

definition day_number :: "datetime \<Rightarrow> int" where
  "day_number t = days_of_years (if mo t \<le> 2 then yr t - 1 else yr t)
     + (153 * ((mo t + 9) mod 12) + 2) div 5 + dy t"

definition seconds :: "datetime \<Rightarrow> int" where
  "seconds t = 86400 * day_number t + 3600 * hh t + 60 * mi t + sc t"

text \<open>\<open>t.Sub(u)\<close> in seconds: a \<open>Duration\<close> saturates at its 64-bit bounds.\<close>

definition Sub :: "datetime \<Rightarrow> datetime \<Rightarrow> int" where
  "Sub t u = max (- 9223372036) (min 9223372036 (seconds t - seconds u))"

text \<open>\<open>int(d.Hours() / 24)\<close>: towards zero.\<close>

definition whole_days :: "int \<Rightarrow> int" where
  "whole_days d = (if d < 0 then - ((- d) div 86400) else d div 86400)"

definition FormatRFC3339 :: "datetime \<Rightarrow> string" where
  "FormatRFC3339 t = FormatDay t @ ''T'' @ pad2 (hh t) @ '':'' @ pad2 (mi t) @ '':'' @ pad2 (sc t) @ ''Z''"

section \<open>Parsing\<close>

text \<open>A parser consumes a prefix of the text and returns its value with the rest.\<close>

type_synonym 'a parser = "string \<Rightarrow> ('a \<times> string) option"

definition shortMonthNames :: "string list" where
  "shortMonthNames = [''Jan'', ''Feb'', ''Mar'', ''Apr'', ''May'', ''Jun'', ''Jul'', ''Aug'', ''Sep'', ''Oct'',
     ''Nov'', ''Dec'']"

definition lower :: "char \<Rightarrow> char" where
  "lower c = (if CHR ''A'' \<le> c \<and> c \<le> CHR ''Z'' then char_of (of_char c + 32 :: nat) else c)"

definition parse_month :: "int parser" where
  "parse_month s = (case List.find (\<lambda>p. map lower (take 3 s) = map lower (snd p)) (List.enumerate 1 shortMonthNames) of
     None \<Rightarrow> None
   | Some (m, _) \<Rightarrow> Some (int m, drop 3 s))"

text \<open>A blank of the layout stands for a run of blanks, and for the end of the text.\<close>

definition parse_blank :: "unit parser" where
  "parse_blank s = (if s = [] then Some ((), []) else if hd s \<noteq> CHR '' '' then None
     else Some ((), dropWhile (\<lambda>c. c = CHR '' '') s))"

definition parse_char :: "char \<Rightarrow> unit parser" where
  "parse_char c s = (if HasPrefix s [c] then Some ((), tl s) else None)"

text \<open>\<open>getnum\<close>: two digits, or one where the width is not fixed.\<close>

fun getnum :: "bool \<Rightarrow> int parser" where
  "getnum fixed [] = None"
| "getnum fixed (c # s) =
    (if \<not> is_digit c then None
     else case s of
       d # t \<Rightarrow> if is_digit d then Some (int (10 * digit_val c + digit_val d), t)
                else if fixed then None else Some (int (digit_val c), s)
     | [] \<Rightarrow> if fixed then None else Some (int (digit_val c), []))"

definition parse_below :: "bool \<Rightarrow> int \<Rightarrow> int parser" where
  "parse_below fixed n s = (case getnum fixed s of
     Some (v, t) \<Rightarrow> if v < n then Some (v, t) else None
   | None \<Rightarrow> None)"

text \<open>A fraction after the seconds is accepted; it is below the resolution of the model.\<close>

definition skip_fraction :: "string \<Rightarrow> string" where
  "skip_fraction s = (case s of
     p # d # t \<Rightarrow> if (p = CHR ''.'' \<or> p = CHR '','') \<and> is_digit d then dropWhile is_digit t else s
   | _ \<Rightarrow> s)"

definition parse_year :: "int parser" where
  "parse_year s = (if length s < 4 \<or> \<not> list_all is_digit (take 4 s) then None
     else Some (int (read_nat (take 4 s)), drop 4 s))"

text \<open>\<open>parseSignedOffset\<close>: the length of an offset of at most 23 hours, 0 when there is none.\<close>

definition parseSignedOffset :: "string \<Rightarrow> nat" where
  "parseSignedOffset s = (case s of
     sign # t \<Rightarrow> let ds = takeWhile is_digit t in
       if sign \<noteq> CHR ''-'' \<and> sign \<noteq> CHR ''+'' \<or> ds = [] \<or> read_nat ds > 23 then 0 else 1 + length ds
   | [] \<Rightarrow> 0)"

definition is_upper :: "char \<Rightarrow> bool" where
  "is_upper c \<longleftrightarrow> CHR ''A'' \<le> c \<and> c \<le> CHR ''Z''"

text \<open>\<open>parseTimeZone\<close>: the length of the zone's name.\<close>

definition parseTimeZone :: "string \<Rightarrow> nat option" where
  "parseTimeZone s =
    (if length s < 3 then None
     else if take 4 s = ''ChST'' \<or> take 4 s = ''MeST'' then Some 4
     else if take 3 s = ''GMT'' then Some (3 + parseSignedOffset (drop 3 s))
     else if hd s = CHR ''+'' \<or> hd s = CHR ''-''
     then (let n = parseSignedOffset s in if n > 0 then Some n else None)
     else let n = length (takeWhile is_upper (take 6 s)) in
       if n = 5 then (if s ! 4 = CHR ''T'' then Some 5 else None)
       else if n = 4 then (if s ! 3 = CHR ''T'' \<or> take 4 s = ''WITA'' then Some 4 else None)
       else if n = 3 then Some 3 else None)"

text \<open>The offset in seconds that a zone's name gives: only \<open>GMT\<close> with hours does.\<close>

definition zone_offset :: "string \<Rightarrow> int" where
  "zone_offset zone = (if length zone > 3 \<and> HasPrefix zone ''GMT'' then 3600 * fst (Atoi (drop 3 zone)) else 0)"

definition parse_zone :: "int parser" where
  "parse_zone s = (if HasPrefix s ''UTC'' then Some (0, drop 3 s)
     else map_option (\<lambda>n. (zone_offset (take n s), drop n s)) (parseTimeZone s))"

definition parse_date :: "datetime parser" where
  "parse_date s = do {
     (m, s) \<leftarrow> parse_month s; (_, s) \<leftarrow> parse_blank s;
     (d, s) \<leftarrow> getnum False (TrimPrefix s '' ''); (_, s) \<leftarrow> parse_blank s;
     (h, s) \<leftarrow> parse_below False 24 s; (_, s) \<leftarrow> parse_char (CHR '':'') s;
     (i, s) \<leftarrow> parse_below True 60 s; (_, s) \<leftarrow> parse_char (CHR '':'') s;
     (c, s) \<leftarrow> parse_below True 60 s; (_, s) \<leftarrow> parse_blank (skip_fraction s);
     (y, s) \<leftarrow> parse_year s;
     if d < 1 \<or> d > days_in_month y m then None else Some (mk_time y m d h i c, s) }"

text \<open>\<open>Jan _2 15:04:05 2006 MST\<close>, then the layout without a zone, as UTC.\<close>

definition parse_enddate :: "string \<Rightarrow> datetime option" where
  "parse_enddate s = (case parse_date s of
     None \<Rightarrow> None
   | Some (t, rest) \<Rightarrow>
       if rest = [] then Some t
       else case parse_blank rest of
         None \<Rightarrow> None
       | Some (_, zone) \<Rightarrow> (case parse_zone zone of
           Some (offset, []) \<Rightarrow> Some (add_seconds (- offset) t)
         | _ \<Rightarrow> None))"

definition parseCertNotAfter :: "string \<Rightarrow> string + datetime" where
  "parseCertNotAfter v =
    (let v = TrimSpace (TrimPrefix (TrimSpace v) ''notAfter='') in
     if v = '''' then Inl ''empty enddate''
     else case parse_enddate v of
       None \<Rightarrow> Inl (''unrecognized enddate '' @ Quote v)
     | Some t \<Rightarrow> Inr t)"

section \<open>The days are counted one by one\<close>

lemma div_pred:
  fixes y n :: int
  assumes "0 < n"
  shows "(y - 1) div n = (if y mod n = 0 then y div n - 1 else y div n)"
proof -
  have y: "y = n * (y div n) + y mod n" by simp
  show ?thesis
  proof (cases "y mod n = 0")
    case True
    then have "y - 1 = n * (y div n - 1) + (n - 1)" using y by (simp add: algebra_simps)
    then have "(y - 1) div n = y div n - 1"
      using assms by (intro int_div_pos_eq [of _ _ _ "n - 1"]) auto
    with True show ?thesis by simp
  next
    case False
    then have "y - 1 = n * (y div n) + (y mod n - 1)" "0 \<le> y mod n - 1" "y mod n - 1 < n"
      using y assms pos_mod_bound [OF assms, of y] pos_mod_sign [OF assms, of y] by linarith+
    then have "(y - 1) div n = y div n" by (intro int_div_pos_eq [of _ _ _ "y mod n - 1"])
    with False show ?thesis by simp
  qed
qed

lemma leap_count: "(C \<Longrightarrow> B) \<Longrightarrow> (B \<Longrightarrow> A) \<Longrightarrow> (if A \<and> (\<not> B \<or> C) then 1 else 0 :: int)
    = (if A then 1 else 0) - (if B then 1 else 0) + (if C then 1 else 0)"
  by (cases A; cases B; cases C) simp_all

lemma days_of_years_pred: "days_of_years y = days_of_years (y - 1) + 365 + (if leap_year y then 1 else 0)"
proof -
  have imp: "y mod 400 = 0 \<Longrightarrow> y mod 100 = 0" "y mod 100 = 0 \<Longrightarrow> y mod 4 = 0"
    using dvd_trans [of 100 400 y] dvd_trans [of 4 100 y] unfolding dvd_eq_mod_eq_0 by simp_all
  have pred: "(y - 1) div n = y div n - (if y mod n = 0 then 1 else 0)" if "0 < n" for n
    using div_pred [OF that] by simp
  have shift: "365 * y + (a - b + c) = 365 * (y - 1) + (a - i - (b - j) + (c - k)) + 365 + (i - j + k)"
    for a b c i j k :: int by simp
  have leap: "(if leap_year y then 1 else 0 :: int)
      = (if y mod 4 = 0 then 1 else 0) - (if y mod 100 = 0 then 1 else 0) + (if y mod 400 = 0 then 1 else 0)"
    unfolding leap_year_def by (rule leap_count) (erule imp)+
  show ?thesis
    unfolding days_of_years_def pred [of 4, simplified] pred [of 100, simplified] pred [of 400, simplified] leap
    by (rule shift)
qed

lemma month_cases: "1 \<le> m \<Longrightarrow> m \<le> 12 \<Longrightarrow>
    m \<in> {1, 2, 3, 4, 5, 6, 7, 8, 9, 10, 11, 12 :: int}"
  by simp presburger

lemma day_number_next:
  assumes "valid_date t"
  shows "day_number (next_day t) = day_number t + 1"
proof -
  have "dy t \<le> days_in_month (yr t) (mo t)" "mo t \<in> {1, 2, 3, 4, 5, 6, 7, 8, 9, 10, 11, 12}"
    using assms month_cases [of "mo t"] by (simp_all add: valid_date_def)
  then show ?thesis
    unfolding insert_iff empty_iff
    by (elim disjE)
      (simp_all add: day_number_def next_day_def days_in_month_def days_of_years_pred [of "yr t"])
qed

lemma enddate_examples:
  "parse_enddate ''Aug  1 12:00:00 2026 GMT'' = Some (mk_time 2026 8 1 12 0 0)"
  "parse_enddate ''Feb 30 12:00:00 2026 GMT'' = None"
  by code_simp+

end
