(* ===== verification/Certs.thy ===== *)
theory Certs
  imports Ports CertTime
begin

text \<open>
  \<open>handler/cert.go\<close>: what a node holds on disk for the domains of its inbounds, read back
  over SSH, and the renewal of certificates. The certificate authority, \<open>openssl\<close> and
  \<open>acme.sh\<close> are behind the output of the commands.
\<close>

section \<open>Targets\<close>

definition certRenewBeforeDays :: int where
  "certRenewBeforeDays = 30"

definition tlsInboundProtocols :: "string list" where
  "tlsInboundProtocols = [''hysteria2'', ''vless-httpupgrade'']"

record cert_target =
  ct_inbound :: int
  ct_protocol :: string
  ct_domain :: string
  ct_cert_path :: string
  ct_key_path :: string

definition certTargetsFor :: "inbound list \<Rightarrow> cert_target list" where
  "certTargetsFor inbounds = map (\<lambda>b. let s = settings_map (ib_settings b) in
       \<lparr>ct_inbound = ib_id b, ct_protocol = ib_protocol b, ct_domain = str_field s ''domain'',
        ct_cert_path = str_field s ''cert_path'', ct_key_path = str_field s ''key_path''\<rparr>)
     (filter (\<lambda>b. ib_protocol b \<in> set tlsInboundProtocols) inbounds)"

section \<open>Reading back\<close>

definition certMaterialCheck :: "string \<Rightarrow> string \<Rightarrow> string \<Rightarrow> string" where
  "certMaterialCheck domain cert key =
     ''(openssl x509 -in '' @ shellQuote cert @ '' -noout -checkhost '' @ shellQuote domain
     @ '' >/dev/null 2>&1 && cert_pub=$(openssl x509 -in '' @ shellQuote cert
     @ '' -noout -pubkey 2>/dev/null) && key_pub=$(openssl pkey -in '' @ shellQuote key
     @ '' -pubout 2>/dev/null) && [ -n \"$cert_pub\" ] && [ \"$cert_pub\" = \"$key_pub\" ])''"

definition read_cert :: "cert_target \<Rightarrow> string" where
  "read_cert t = raw ''printf '%s`t' '' @ shellQuote (Itoa (ct_inbound t)) @ ''; if ''
     @ certMaterialCheck (ct_domain t) (ct_cert_path t) (ct_key_path t)
     @ ''; then openssl x509 -in '' @ shellQuote (ct_cert_path t)
     @ '' -noout -enddate 2>/dev/null | sed 's/^notAfter=//'; else echo INVALID_MATERIAL; fi;'' @ [CHR 0x0A]"

text \<open>\<open>strings.Cut\<close> at a byte, and the value of each key of the output: the last line counts.\<close>

definition Cut :: "char \<Rightarrow> string \<Rightarrow> (string \<times> string) option" where
  "Cut sep s = (if sep \<in> set s then Some (takeWhile (\<lambda>c. c \<noteq> sep) s, tl (dropWhile (\<lambda>c. c \<noteq> sep) s)) else None)"

definition TrimRightByte :: "char \<Rightarrow> string \<Rightarrow> string" where
  "TrimRightByte b s = rev (dropWhile (\<lambda>c. c = b) (rev s))"

definition cert_values :: "string \<Rightarrow> (string \<times> string) list" where
  "cert_values output = map (map_prod id TrimSpace)
     (List.map_filter (Cut (CHR 0x09)) (map (TrimRightByte (CHR 0x0D)) (SplitByte (CHR 0x0A) output)))"

definition new_status :: "cert_target \<Rightarrow> cert_status" where
  "new_status t = \<lparr>cs_domain = ct_domain t, cs_path = ct_cert_path t, cs_not_after = '''', cs_days_left = 0,
     cs_expired = False,
     cs_error = (if ct_cert_path t = '''' then ''no cert_path in inbound settings'' else '''')\<rparr>"

definition status_from :: "datetime \<Rightarrow> string option \<Rightarrow> cert_status \<Rightarrow> cert_status" where
  "status_from now seen s =
    (if seen = Some ''INVALID_MATERIAL''
     then s\<lparr>cs_error := ''certificate unreadable, hostname mismatch, or private key mismatch''\<rparr>
     else case seen of
       None \<Rightarrow> s\<lparr>cs_error := ''certificate missing or unreadable'', cs_expired := True\<rparr>
     | Some v \<Rightarrow>
         if v = '''' then s\<lparr>cs_error := ''certificate missing or unreadable'', cs_expired := True\<rparr>
         else case parseCertNotAfter v of
           Inl e \<Rightarrow> s\<lparr>cs_error := e\<rparr>
         | Inr notAfter \<Rightarrow> s\<lparr>cs_not_after := FormatRFC3339 notAfter,
             cs_days_left := whole_days (Sub notAfter now), cs_expired := \<not> Before now notAfter\<rparr>)"

text \<open>The map from inbound ids to statuses is the list of its entries.\<close>

definition readCertStatuses :: "string \<Rightarrow> cert_target list \<Rightarrow> datetime \<Rightarrow> (int \<times> cert_status) list io" where
  "readCertStatuses addr targets now =
    (let fresh = map (\<lambda>t. (ct_inbound t, new_status t)) targets;
         checks = filter (\<lambda>t. ct_cert_path t \<noteq> '''') targets in
     if length checks = 0 then State_Monad.return fresh
     else do {
       result \<leftarrow> sshRun addr (concat (map read_cert checks));
       State_Monad.return (case result of (out, no_error) \<Rightarrow>
         if \<not> no_error \<and> TrimSpace out = ''''
         then map (map_prod id (\<lambda>s. if cs_error s = '''' then s\<lparr>cs_error := ''cert read failed: ''\<rparr> else s)) fresh
         else map (\<lambda>(i, s). (i, if cs_error s \<noteq> '''' then s
             else status_from now (map_of (rev (cert_values out)) (Itoa i)) s)) fresh) })"

section \<open>Renewing\<close>

text \<open>The arguments are quoted by \<open>%q\<close>.\<close>

definition renewCertScript :: "string \<Rightarrow> string \<Rightarrow> string \<Rightarrow> bool \<Rightarrow> int \<Rightarrow> string" where
  "renewCertScript domain certPath keyPath force minDays = raw_lines
    [''set -u'',
     ''DOMAIN='' @ Quote domain @ ''; CERT='' @ Quote certPath @ ''; KEY='' @ Quote keyPath
       @ ''; FORCE='' @ Quote (if force then ''1'' else ''0'') @ ''; MINDAYS='' @ Itoa minDays,
     ''ACME=/root/.acme.sh/acme.sh'',
     ''mkdir -p \"$(dirname \"$CERT\")\"'',
     '''',
     ''# Repair the renewal *machinery* on every run, before deciding whether this'',
     ''# particular cert needs re-issuing. A node can hold a perfectly valid cert and'',
     raw ''# still have no cron to renew it '' @ em_dash @ '' that is not a healthy node, it is an outage'',
     ''# with a date on it. Gating this behind \"we happened to re-issue today\" would'',
     ''# leave exactly those nodes unfixed.'',
     ''harden_acme() {'',
     ''  [ -x \"$ACME\" ] || return 0'',
     ''  # acme.sh writes no log unless LOG_FILE is set, and the cron entry it installs'',
     ''  # sends stdout to /dev/null, so a failing renewal is silent until expiry.'',
     ''  touch /root/.acme.sh/account.conf'',
     ''  grep -q '^LOG_FILE=' /root/.acme.sh/account.conf || echo \"LOG_FILE='/root/.acme.sh/acme.sh.log'\" >> /root/.acme.sh/account.conf'',
     ''  grep -q '^LOG_LEVEL=' /root/.acme.sh/account.conf || echo \"LOG_LEVEL=1\" >> /root/.acme.sh/account.conf'',
     ''  \"$ACME\" --install-cronjob >/dev/null 2>&1'',
     ''  echo \"ACME_HARDENED\"'',
     ''}'',
     ''harden_acme'',
     '''',
     ''if [ \"$FORCE\" != \"1\" ] && [ -f \"$CERT\" ] && [ -f \"$KEY\" ] &&'',
     ''   openssl x509 -in \"$CERT\" -noout -checkend $((MINDAYS * 86400)) >/dev/null 2>&1 && ''
       @ certMaterialCheck domain certPath keyPath @ ''; then'',
     ''  echo \"CERT_FRESH\"; exit 0'',
     ''fi'',
     '''',
     ''if [ ! -x \"$ACME\" ]; then'',
     ''  curl -sL https://get.acme.sh | sh -s email=acme@\"$DOMAIN\" 2>&1'',
     ''  harden_acme'',
     ''fi'',
     ''if [ ! -x \"$ACME\" ]; then echo \"ACME_MISSING\"; exit 0; fi'',
     '''',
     ''\"$ACME\" --set-default-ca --server letsencrypt 2>/dev/null'',
     '''',
     ''ACME_MODE=\"--standalone\"'',
     ''if command -v caddy >/dev/null 2>&1 && systemctl is-active caddy >/dev/null 2>&1; then'',
     ''  WEBROOT=\"/var/www/acme\"'',
     ''  mkdir -p \"$WEBROOT\"'',
     ''  ACME_MODE=\"--webroot $WEBROOT\"'',
     ''  if ! grep -q \"$DOMAIN\" /etc/caddy/Caddyfile 2>/dev/null; then'',
     raw ''    printf '`nhttp://%s {`n  root * /var/www/acme`n  file_server`n}`n' \"$DOMAIN\" >> /etc/caddy/Caddyfile'',
     ''    systemctl reload caddy 2>/dev/null; sleep 1'',
     ''  fi'',
     ''elif ss -tlnp 2>/dev/null | grep -q ':80 '; then'',
     raw ''  PORT80_SVC=$(ss -tlnp 2>/dev/null | grep ':80 ' | grep -oP 'users:`(`(\"`K[^\"]+' || true)'',
     ''  if [ -n \"${PORT80_SVC:-}\" ]; then systemctl stop \"$PORT80_SVC\" 2>/dev/null || true; sleep 1; fi'',
     ''fi'',
     '''',
     ''\"$ACME\" --issue -d \"$DOMAIN\" $ACME_MODE --keylength ec-256 --server letsencrypt --force 2>&1'',
     ''ISSUE_RC=$?'',
     ''if [ -n \"${PORT80_SVC:-}\" ]; then systemctl start \"$PORT80_SVC\" 2>/dev/null || true; fi'',
     '''',
     ''if [ \"$ISSUE_RC\" != \"0\" ]; then'',
     ''  echo \"ACME_ISSUE_FAILED rc=$ISSUE_RC\"'',
     ''  exit 0'',
     ''fi'',
     '''',
     raw ''\"$ACME\" --install-cert -d \"$DOMAIN\" --ecc --fullchain-file \"$CERT\" --key-file \"$KEY\" `'',
     ''  --reloadcmd \"systemctl restart sing-box 2>/dev/null || true\" 2>&1'',
     ''echo \"ACME_DONE\"'']"

text \<open>The freshness gate of the script, on the status read before it.\<close>

definition certNeedsIssuing :: "cert_status option \<Rightarrow> bool \<Rightarrow> bool" where
  "certNeedsIssuing before force = (case before of
     None \<Rightarrow> True
   | Some s \<Rightarrow> force \<or> cs_error s \<noteq> '''' \<or> cs_expired s \<or> cs_days_left s < certRenewBeforeDays)"

definition tailLines :: "string \<Rightarrow> nat \<Rightarrow> string" where
  "tailLines s n = (let ls = SplitByte (CHR 0x0A) (TrimRightByte (CHR 0x0A) s) in
     Join (if length ls > n then drop (length ls - n) ls else ls) [CHR 0x0A])"

definition firstNonEmpty :: "string list \<Rightarrow> string" where
  "firstNonEmpty values = (case List.find (\<lambda>v. v \<noteq> '''') values of Some v \<Rightarrow> v | None \<Rightarrow> '''')"

definition headline :: "cert_status \<Rightarrow> int" where
  "headline s = (if cs_error s \<noteq> '''' \<or> cs_expired s then min (cs_days_left s) 0 else cs_days_left s)"

text \<open>The worst of the numbers, \<open>None\<close> when there is no certificate.\<close>

fun certDaysLeftHeadline :: "(int \<times> cert_status) list \<Rightarrow> int option" where
  "certDaysLeftHeadline [] = None"
| "certDaysLeftHeadline ((_, s) # rest) = (case certDaysLeftHeadline rest of
     None \<Rightarrow> Some (headline s)
   | Some worst \<Rightarrow> Some (if headline s < worst then headline s else worst))"

end
