(* ===== verification/CertHandler.thy ===== *)
theory CertHandler
  imports Certs
begin

text \<open>
  The handlers of certificates: renewal of what the inbounds of a node use
  (\<open>HandleCertRenew\<close> in \<open>handler/cert.go\<close>) and the upload of an own certificate
  (\<open>HandleCertUpload\<close> in \<open>handler/validate.go\<close>).
\<close>

section \<open>Lookups and files\<close>

text \<open>\<open>net.LookupHost\<close>: what the resolver answers at this moment.\<close>

definition LookupHost :: "host_lookup io" where
  "LookupHost = do { w \<leftarrow> State_Monad.get; State_Monad.set (next_tick w);
     State_Monad.return (lookup_host (w_env w) (w_tick w)) }"

definition containsHost :: "string list \<Rightarrow> string \<Rightarrow> host_lookup \<Rightarrow> bool" where
  "containsHost ips host lookup = recordsPointToNode ips host lookup"

text \<open>\<open>fmt.Sprintf("DNS: %s \<dots> %v, expected %s", domain, ips, host)\<close>, with its arrow.\<close>

definition dns_mismatch :: "string \<Rightarrow> string list \<Rightarrow> string \<Rightarrow> string" where
  "dns_mismatch domain ips host = ''DNS: '' @ domain @ '' '' @ [CHR 0xE2, CHR 0x86, CHR 0x92] @ '' [''
     @ Join ips '' '' @ ''], expected '' @ host"

text \<open>\<open>sshWriteFile\<close> of a text that is not JSON.\<close>

definition sshWriteText :: "remote_script \<Rightarrow> string \<Rightarrow> string \<Rightarrow> machine \<Rightarrow> machine \<times> bool" where
  "sshWriteText rs path data m =
    (if rs_write rs then (write_file path (Some (RawInvalid data)) m, True)
     else (write_file path (rs_torn rs) m, False))"

section \<open>Renewal\<close>

text \<open>Every target has an entry in what \<open>readCertStatuses\<close> returns for it.\<close>

definition status_of :: "(int \<times> cert_status) list \<Rightarrow> cert_target \<Rightarrow> cert_status" where
  "status_of statuses t = (case map_of (rev statuses) (ct_inbound t) of Some s \<Rightarrow> s | None \<Rightarrow> new_status t)"

definition renew_blocked :: "string \<Rightarrow> bool \<Rightarrow> cert_status \<Rightarrow> cert_target \<Rightarrow> string option io" where
  "renew_blocked host force before t =
    (if \<not> certNeedsIssuing (Some before) force then State_Monad.return None
     else do {
       lookup \<leftarrow> LookupHost;
       State_Monad.return (case lookup (ct_domain t) of
           None \<Rightarrow> Some ''DNS lookup failed: ''
         | Some ips \<Rightarrow> if containsHost ips host lookup then None
             else Some (dns_mismatch (ct_domain t) ips host
               @ ''; HTTP-01 validates against the node itself'')) })"

text \<open>The result of a run of the script, from what is read back after it.\<close>

definition renew_outcome :: "bool \<Rightarrow> cert_status \<Rightarrow> cert_status \<Rightarrow> cert_renew_result \<Rightarrow> cert_renew_result" where
  "renew_outcome no_error before after r =
    (if cs_error after \<noteq> '''' \<or> cs_expired after
     then r\<lparr>cr_after := Some after, cr_status := ''failed'',
            cr_details := firstNonEmpty [cs_error after, ''certificate still expired after renewal'']
              @ (if no_error then '''' else ''; ssh: '')\<rparr>
     else if cs_not_after before = cs_not_after after
     then r\<lparr>cr_after := Some after, cr_status := ''failed'',
            cr_details := ''acme.sh ran but the installed certificate did not change''\<rparr>
     else r\<lparr>cr_after := Some after, cr_status := ''renewed''\<rparr>)"

definition renew_target :: "string \<Rightarrow> string \<Rightarrow> datetime \<Rightarrow> bool \<Rightarrow> (int \<times> cert_status) list \<Rightarrow> cert_target \<Rightarrow>
    cert_renew_result io" where
  "renew_target addr host now force statuses t =
    (let before = status_of statuses t;
         r = \<lparr>cr_domain = ct_domain t, cr_protocol = ct_protocol t, cr_status = '''', cr_before = Some before,
              cr_after = None, cr_details = '''', cr_acme_output = ''''\<rparr> in
     if ct_domain t = '''' \<or> ct_cert_path t = '''' \<or> ct_key_path t = ''''
     then State_Monad.return (r\<lparr>cr_status := ''failed'',
       cr_details := ''inbound settings lack domain/cert_path/key_path''\<rparr>)
     else do {
       blocked \<leftarrow> renew_blocked host force before t;
       (case blocked of
          Some why \<Rightarrow> State_Monad.return (r\<lparr>cr_status := ''failed'', cr_details := why\<rparr>)
        | None \<Rightarrow> do {
            result \<leftarrow> sshRun addr
              (renewCertScript (ct_domain t) (ct_cert_path t) (ct_key_path t) force certRenewBeforeDays);
            (case result of (out, no_error) \<Rightarrow>
              let r = r\<lparr>cr_acme_output := tailLines out 20\<rparr> in
              if Contains out ''CERT_FRESH''
              then State_Monad.return (r\<lparr>cr_status := ''fresh'', cr_after := Some before,
                cr_details := ''still valid for '' @ Itoa (cs_days_left before)
                  @ '' days; pass force to re-issue anyway''\<rparr>)
              else do {
                later \<leftarrow> get_now;
                afters \<leftarrow> readCertStatuses addr [t] later;
                State_Monad.return (renew_outcome no_error before (status_of afters t) r) }) }) })"

definition HandleCertRenew :: "request \<Rightarrow> response io" where
  "HandleCertRenew r =
    (if r_method r \<noteq> ''POST'' then NotFound
     else attempt (NodeStore_Get (parseNodeIDFromConfigPath (r_path r))) (\<lambda>_. writeError 404 ''node not found'') (\<lambda>node.
     case as_cert_renew (r_body r) of (domain, force) \<Rightarrow>
     if domain \<noteq> '''' \<and> \<not> validDomainName domain then writeError 400 ''invalid domain''
     else attempt (NodeStore_ListInbounds (n_id node)) (\<lambda>e. writeError 500 (err_text e)) (\<lambda>inbounds.
     let targets = filter (\<lambda>t. domain = '''' \<or> ct_domain t = domain) (certTargetsFor inbounds) in
     if length targets = 0 then writeError 400 ''node has no TLS-terminating inbound to renew''
     else do {
       rs \<leftarrow> next_remote;
       attempt (sshConnect rs node) (\<lambda>e. writeError 500 (''ssh connect failed: '' @ err_text e)) (\<lambda>_. do {
         now \<leftarrow> get_now;
         before \<leftarrow> readCertStatuses (sshDialAddr node) targets now;
         results \<leftarrow> map_each (renew_target (sshDialAddr node) (n_host node) now force before) targets;
         writeJSON (if list_ex (\<lambda>c. cr_status c = ''failed'') results then 207 else 200)
           (PCertRenew (n_name node) (int (length (filter (\<lambda>c. cr_status c = ''renewed'') results))) results) }) })))"

section \<open>Upload\<close>

text \<open>
  What \<open>crypto/tls\<close> and \<open>crypto/x509\<close> make of a pair of PEM texts is an argument: nothing
  when they are not a certificate with its key, else the names the leaf is valid for and
  its period.
\<close>

record certificate =
  xc_covers :: "string \<Rightarrow> bool"
  xc_not_before :: datetime
  xc_not_after :: datetime

type_synonym key_pairs = "string \<Rightarrow> string \<Rightarrow> certificate option"

definition validateCertificate :: "key_pairs \<Rightarrow> string \<Rightarrow> string \<Rightarrow> string \<Rightarrow> datetime \<Rightarrow> string option" where
  "validateCertificate x509 domain certPEM keyPEM now =
    (case x509 certPEM keyPEM of
       None \<Rightarrow> Some ''invalid certificate/key pair: ''
     | Some cert \<Rightarrow>
         if \<not> xc_covers cert domain then Some (''certificate does not cover '' @ domain @ '': '')
         else if Before now (xc_not_before cert) \<or> \<not> Before now (xc_not_after cert)
         then Some ''certificate is outside its validity period''
         else None)"

definition store_certificate :: "node \<Rightarrow> string \<Rightarrow> string \<Rightarrow> string \<Rightarrow> remote_script \<Rightarrow> response io" where
  "store_certificate node domain cert key rs =
    (let addr = sshDialAddr node; certDir = ''/etc/sing-box/tls'';
         certPath = certDir @ ''/'' @ domain @ ''.crt''; keyPath = certDir @ ''/'' @ domain @ ''.key'' in do {
     made \<leftarrow> sshRun addr (''mkdir -p '' @ certDir);
     if \<not> snd made then writeError 502 ''create certificate directory: ''
     else do {
       cert_written \<leftarrow> on_machine addr (sshWriteText rs certPath cert);
       if \<not> cert_written then writeError 500 ''write cert: ''
       else do {
         rs \<leftarrow> next_remote;
         key_written \<leftarrow> on_machine addr (sshWriteText rs keyPath key);
         if \<not> key_written then writeError 500 ''write key: ''
         else do {
           protected \<leftarrow> sshRun addr (''chmod 600 '' @ shellQuote keyPath);
           if \<not> snd protected then writeError 502 ''protect certificate key: ''
           else do {
             let t = \<lparr>ct_inbound = 0, ct_protocol = '''', ct_domain = domain, ct_cert_path = certPath,
                      ct_key_path = keyPath\<rparr>;
             now \<leftarrow> get_now;
             statuses \<leftarrow> readCertStatuses addr [t] now;
             let s = status_of statuses t;
             (if cs_error s \<noteq> '''' \<or> cs_expired s
              then writeError 502 ''uploaded certificate failed read-back validation''
              else writeJSON 200 (PCertUploaded (n_name node) domain certPath keyPath s)) } } } } })"

definition HandleCertUpload :: "key_pairs \<Rightarrow> request \<Rightarrow> response io" where
  "HandleCertUpload x509 r =
    (if r_method r \<noteq> ''POST'' then NotFound
     else let nodeID = parseNodeIDFromConfigPath (r_path r) in
     if nodeID = 0 then writeError 400 ''invalid node id''
     else attempt (NodeStore_Get nodeID) (\<lambda>_. writeError 404 ''node not found'') (\<lambda>node.
     case as_upload_cert (r_body r) of
       None \<Rightarrow> writeError 400 ''invalid json''
     | Some (requested, cert, key) \<Rightarrow>
       let domain = (if requested = '''' then n_domain node else requested) in
       if domain = '''' \<or> cert = '''' \<or> key = '''' then writeError 400 ''domain, cert, and key are required''
       else if \<not> validDomainName domain then writeError 400 ''invalid domain''
       else do {
         now \<leftarrow> get_now;
         (case validateCertificate x509 domain cert key now of
            Some e \<Rightarrow> writeError 400 e
          | None \<Rightarrow> do {
              rs \<leftarrow> next_remote;
              attempt (sshConnect rs node) (\<lambda>e. writeError 500 (''ssh: '' @ err_text e))
                (\<lambda>_. store_certificate node domain cert key rs) }) }))"

section \<open>What is reported\<close>

text \<open>A certificate that is reported without error and unexpired has been read back, and has its days.\<close>

definition healthy :: "cert_status \<Rightarrow> bool" where
  "healthy s \<longleftrightarrow> cs_error s = '''' \<and> \<not> cs_expired s"

lemma renewed_outcome: "cr_status (renew_outcome st before after r) = ''renewed'' \<Longrightarrow> cr_status r \<noteq> ''renewed'' \<Longrightarrow>
    healthy after \<and> cs_not_after after \<noteq> cs_not_after before \<and> cr_after (renew_outcome st before after r) = Some after"
  by (auto simp: renew_outcome_def healthy_def split: if_splits)

lemma whole_days_sign: "0 < d \<Longrightarrow> 0 \<le> whole_days d" "d \<le> 0 \<Longrightarrow> whole_days d \<le> 0"
  by (auto simp: whole_days_def)

lemma headline_None: "certDaysLeftHeadline statuses = None \<longleftrightarrow> statuses = []"
  by (induction statuses rule: certDaysLeftHeadline.induct) (auto split: option.splits)

lemma headline_min:
  assumes "certDaysLeftHeadline statuses = Some worst"
  shows "worst \<in> headline ` snd ` set statuses \<and> (\<forall>p \<in> set statuses. worst \<le> headline (snd p))"
  using assms
proof (induction statuses arbitrary: worst)
  case (Cons p rest)
  obtain i s where "p = (i, s)" by (cases p)
  then show ?case
    using Cons by (cases "certDaysLeftHeadline rest") (auto simp: headline_None split: if_splits)
qed simp

end
