(* ===== verification/KernelTune.thy ===== *)
theory KernelTune
  imports CertHandler "HOL-Library.Multiset"
begin

text \<open>
  \<open>handler/nodetune.go\<close>: the kernel baseline of a node, written as a drop-in of \<open>sysctl\<close>,
  loaded, and read back key by key.
\<close>

section \<open>The baseline\<close>

definition tuneDropInPath :: string where
  "tuneDropInPath = ''/etc/sysctl.d/99-zz-singbox-panel.conf''"

text \<open>The map of the wanted values is the list of its entries, in the order of the source.\<close>

definition tunedSysctls :: "int \<Rightarrow> (string \<times> string) list" where
  "tunedSysctls memTotalKB =
    (let bufMax = (if memTotalKB > 0 \<and> memTotalKB < 1024 * 1024 then 8 * 1024 * 1024 else 16 * 1024 * 1024);
         buf = Itoa bufMax in
     [(''net.core.rmem_max'', buf), (''net.core.wmem_max'', buf),
      (''net.core.rmem_default'', ''1048576''), (''net.core.wmem_default'', ''1048576''),
      (''net.ipv4.udp_rmem_min'', ''8192''), (''net.ipv4.udp_wmem_min'', ''8192''),
      (''net.core.netdev_max_backlog'', ''16384''), (''net.core.somaxconn'', ''8192''),
      (''net.ipv4.tcp_mtu_probing'', ''1''), (''net.ipv4.tcp_slow_start_after_idle'', ''0''),
      (''net.core.default_qdisc'', ''fq''), (''net.ipv4.tcp_congestion_control'', ''bbr'')])"

definition normalizeSysctl :: "string \<Rightarrow> string" where
  "normalizeSysctl s = Join (Fields s) '' ''"

text \<open>
  The insertion sort of \<open>sortedKeys\<close>: the inner loop moves the key at \<open>j\<close> down past the
  larger ones before it.
\<close>

fun sink :: "string \<Rightarrow> string list \<Rightarrow> string list" where
  "sink k [] = [k]"
| "sink k (x # xs) = (if k < x then x # sink k xs else k # x # xs)"

text \<open>The sorted part is kept in reverse, so that the key is compared with the last one first.\<close>

fun sort_onto :: "string list \<Rightarrow> string list \<Rightarrow> string list" where
  "sort_onto sorted_part [] = rev sorted_part"
| "sort_onto sorted_part (k # ks) = sort_onto (sink k sorted_part) ks"

definition sortedKeys :: "(string \<times> string) list \<Rightarrow> string list" where
  "sortedKeys m = sort_onto [] (map fst m)"

definition readMemTotalKB :: "string \<Rightarrow> int io" where
  "readMemTotalKB addr = do {
     result \<leftarrow> sshRun addr ''awk '/^MemTotal:/{print $2}' /proc/meminfo'';
     State_Monad.return (case result of (out, no_error) \<Rightarrow>
       if \<not> no_error then 0
       else case Atoi (normalizeSysctl out) of (n, parsed) \<Rightarrow> if parsed then n else 0) }"

definition drop_in :: "(string \<times> string) list \<Rightarrow> string" where
  "drop_in want = raw_lines
     ([''# Managed by singbox-panel. Baseline for hysteria2 (QUIC/UDP) and'',
       ''# VLESS Reality (TCP). Regenerated on every node setup.'',
       ''# Sorted last in /etc/sysctl.d on purpose; note that /etc/sysctl.conf'',
       ''# is still applied after this file and will override it.'']
      @ map (\<lambda>k. k @ '' = '' @ the (map_of want k)) (sortedKeys want))"

section \<open>Applying and reading back\<close>

definition read_key :: "string \<Rightarrow> string \<Rightarrow> (string \<times> (string \<times> bool)) io" where
  "read_key addr k = do {
     result \<leftarrow> sshRun addr (''sysctl -n '' @ k @ '' 2>/dev/null'');
     State_Monad.return (k, result) }"

definition effective :: "(string \<times> string) list \<Rightarrow> string \<times> (string \<times> bool) \<Rightarrow> tune_result \<Rightarrow> tune_result" where
  "effective want reading r = (case reading of (k, out, no_error) \<Rightarrow>
     let got = normalizeSysctl out in
     if \<not> no_error \<or> got = '''' then r\<lparr>kt_ineffective := kt_ineffective r @ [(k, ''unreadable'')]\<rparr>
     else if map_of want k = Some got then r\<lparr>kt_applied := kt_applied r @ [k]\<rparr>
     else r\<lparr>kt_ineffective := kt_ineffective r @ [(k, got)]\<rparr>)"

definition tune_note :: string where
  "tune_note = ''some values did not take effect; /etc/sysctl.conf and /etc/sysctl.d/99-sysctl.conf are applied after ''
     @ tuneDropInPath @ '' and override it. Remove the conflicting keys there.''"

definition tune_report :: "(string \<times> string) list \<Rightarrow> (string \<times> (string \<times> bool)) list \<Rightarrow> tune_result" where
  "tune_report want readings =
    (let r = fold (effective want) readings \<lparr>kt_applied = [], kt_ineffective = [], kt_note = ''''\<rparr> in
     if length (kt_ineffective r) > 0 then r\<lparr>kt_note := tune_note\<rparr> else r)"

definition applyKernelTuning :: "string \<Rightarrow> (string + tune_result) io" where
  "applyKernelTuning addr = do {
     memKB \<leftarrow> readMemTotalKB addr;
     let want = tunedSysctls memKB;
     rs \<leftarrow> next_remote;
     written \<leftarrow> on_machine addr (sshWriteText rs tuneDropInPath (drop_in want));
     if \<not> written then State_Monad.return (Inl (''write '' @ tuneDropInPath @ '': ''))
     else do {
       sshRun addr ''modprobe tcp_bbr 2>/dev/null; grep -qxs tcp_bbr /etc/modules-load.d/bbr.conf 2>/dev/null || echo tcp_bbr > /etc/modules-load.d/bbr.conf'';
       loaded \<leftarrow> sshRun addr ''sysctl --system >/dev/null 2>&1; echo done'';
       if \<not> snd loaded then State_Monad.return (Inl (''sysctl --system: '' @ fst loaded @ '': ''))
       else do {
         readings \<leftarrow> map_each (read_key addr) (sortedKeys want);
         State_Monad.return (Inr (tune_report want readings)) } } }"

section \<open>The keys\<close>

lemma mset_sink: "mset (sink k xs) = add_mset k (mset xs)"
  by (induction xs) auto

lemma sorted_sink: "sorted_wrt (\<ge>) xs \<Longrightarrow> sorted_wrt (\<ge>) (sink k xs)"
proof (induction xs)
  case (Cons x xs)
  have "set (sink k xs) = insert k (set xs)"
    using mset_sink [of k xs] by (metis set_mset_add_mset_insert set_mset_mset)
  with Cons show ?case by (auto intro: order.trans)
qed simp

lemma sort_onto: "sorted_wrt (\<ge>) acc \<Longrightarrow> sorted (sort_onto acc ks) \<and> mset (sort_onto acc ks) = mset acc + mset ks"
proof (induction acc ks rule: sort_onto.induct)
  case (1 acc)
  then show ?case by (simp add: sorted_wrt_rev)
next
  case (2 acc k ks)
  then show ?case by (simp add: sorted_sink mset_sink)
qed

text \<open>Whatever the order in which the map is iterated, the keys come out sorted and complete.\<close>

lemma sortedKeys_sort: "sortedKeys m = sort (map fst m)"
  unfolding sortedKeys_def
  by (rule properties_for_sort [symmetric]) (use sort_onto [of "[]" "map fst m"] in simp_all)

section \<open>The report\<close>

lemma fold_effective: "fold (effective want) readings r = r\<lparr>
    kt_applied := kt_applied r @ map fst (filter (\<lambda>(k, out, st). st \<and> normalizeSysctl out \<noteq> ''''
      \<and> map_of want k = Some (normalizeSysctl out)) readings),
    kt_ineffective := kt_ineffective r @ map (\<lambda>(k, out, st). (k, if \<not> st \<or> normalizeSysctl out = ''''
      then ''unreadable'' else normalizeSysctl out)) (filter (\<lambda>(k, out, st). \<not> (st \<and> normalizeSysctl out \<noteq> ''''
      \<and> map_of want k = Some (normalizeSysctl out))) readings)\<rparr>"
  by (induction readings arbitrary: r) (auto simp: effective_def Let_def split: prod.splits)

text \<open>A key is reported as applied exactly when its value was read back as wanted.\<close>

lemma tune_report_applied: "kt_applied (tune_report want readings) = map fst (filter (\<lambda>(k, out, st).
    st \<and> normalizeSysctl out \<noteq> '''' \<and> map_of want k = Some (normalizeSysctl out)) readings)"
  by (simp add: tune_report_def fold_effective Let_def)

lemma tune_report_ineffective: "map fst (kt_ineffective (tune_report want readings)) = map fst (filter (\<lambda>(k, out, st).
    \<not> (st \<and> normalizeSysctl out \<noteq> '''' \<and> map_of want k = Some (normalizeSysctl out))) readings)"
  by (simp add: tune_report_def fold_effective Let_def case_prod_unfold o_def)

end
