(* ===== verification/NodeHandler.thy ===== *)
theory NodeHandler
  imports ConfigHandler Validate
begin

text \<open>
  \<open>handler/node.go\<close>: the administrator's operations on nodes and inbounds.
\<close>

definition NodeHandler_list :: "response io" where
  "NodeHandler_list = attempt NodeStore_List (\<lambda>e. writeError 500 (err_text e))
     (\<lambda>nodes. writeJSON 200 (PNodes nodes))"

definition NodeHandler_create :: "request \<Rightarrow> response io" where
  "NodeHandler_create r = (case as_create_node (r_body r) of
     None \<Rightarrow> writeError 400 ''invalid json''
   | Some req \<Rightarrow>
       if cn_name req = '''' \<or> cn_host req = '''' then writeError 400 ''name and host are required''
       else if cn_domain req \<noteq> '''' \<and> \<not> validDomainName (cn_domain req)
       then writeError 400 ''invalid domain''
       else attempt (NodeStore_Create req) (\<lambda>e. writeError 500 (err_text e))
         (\<lambda>node. writeJSON 201 (PNode node)))"

definition NodeHandler_get :: "request \<Rightarrow> response io" where
  "NodeHandler_get r = (let i = parseID (r_path r) ''/api/nodes/'' in
     if i = 0 then writeError 400 ''invalid id''
     else attempt (NodeStore_GetWithInbounds i) (\<lambda>_. writeError 404 ''node not found'')
       (\<lambda>nwi. writeJSON 200 (PNodeInbounds (fst nwi) (snd nwi))))"

definition domain_bound :: "inbound \<Rightarrow> bool" where
  "domain_bound b \<longleftrightarrow> ib_protocol b = ''hysteria2'' \<or> ib_protocol b = ''vless-httpupgrade''"

definition store_node_update :: "int \<Rightarrow> update_node_req \<Rightarrow> response io" where
  "store_node_update i req = attempt (NodeStore_Update i req) (\<lambda>_. writeError 404 ''node not found'')
     (\<lambda>node. writeJSON 200 (PNode node))"

definition NodeHandler_update :: "request \<Rightarrow> response io" where
  "NodeHandler_update r = (let i = parseID (r_path r) ''/api/nodes/'' in
     if i = 0 then writeError 400 ''invalid id''
     else case as_update_node (r_body r) of
       None \<Rightarrow> writeError 400 ''invalid json''
     | Some req \<Rightarrow>
       attempt (NodeStore_Get i) (\<lambda>_. writeError 404 ''node not found'') (\<lambda>current.
       case un_domain req of
         None \<Rightarrow> store_node_update i req
       | Some domain \<Rightarrow>
         if domain = n_domain current then store_node_update i req
         else if domain \<noteq> '''' \<and> \<not> validDomainName domain then writeError 400 ''invalid domain''
         else attempt (NodeStore_ListInbounds i) (\<lambda>e. writeError 500 (err_text e)) (\<lambda>inbounds.
           if list_ex domain_bound inbounds
           then writeError 409 ''node has domain-bound inbounds; migrate the domain through auto-setup''
           else store_node_update i req)))"

definition NodeHandler_delete :: "syncer \<Rightarrow> request \<Rightarrow> response io" where
  "NodeHandler_delete Sync r = (let i = parseID (r_path r) ''/api/nodes/'' in
     if i = 0 then writeError 400 ''invalid id''
     else attempt (NodeStore_Get i) (\<lambda>_. writeError 404 ''node not found'') (\<lambda>node.
     if n_proxy_type node \<noteq> ''singbox''
     then writeError 409 ''automatic remote decommission is only supported for singbox nodes''
     else attempt (NodeStore_ListInbounds i) (\<lambda>e. writeError 500 (err_text e)) (\<lambda>inbounds.
     attempt (AccessStore_CountForNode i) (\<lambda>e. writeError 500 (err_text e)) (\<lambda>accessCount.
     if length inbounds > 0 \<or> accessCount > 0
     then writeError 409 ''node still has inbounds or user access; remove them before deleting the node''
     else do { results \<leftarrow> syncNodes Sync [i];
       (case syncFailure results of
          Some e \<Rightarrow> writeError 502 (''refusing to delete node before remote decommission: '' @ e)
        | None \<Rightarrow> attempt (NodeStore_Delete i) (\<lambda>e. writeError 500 (err_text e))
            (\<lambda>_. writeJSON 200 (PNodeDeleted (n_name node) results))) }))))"

text \<open>
  The settings an inbound needs before it is stored; \<open>None\<close> when they are accepted.
  \<open>json.Unmarshal\<close> accepts an object or \<open>null\<close>.
\<close>

fun settings_object :: "raw_message \<Rightarrow> settings option" where
  "settings_object (RawJson (JObj m)) = Some m"
| "settings_object (RawJson JNull) = Some []"
| "settings_object _ = None"

definition missing_settings :: "string \<Rightarrow> settings \<Rightarrow> string option" where
  "missing_settings protocol s =
    (if protocol = ''hysteria2'' then
       (if \<not> validDomainName (str_field s ''domain'') then Some ''hysteria2 requires domain in settings''
        else if str_field s ''cert_path'' = '''' \<or> str_field s ''key_path'' = ''''
        then Some ''hysteria2 requires cert_path and key_path in settings'' else None)
     else if protocol = ''vless-httpupgrade'' then
       (if \<not> validDomainName (str_field s ''domain'') then Some ''vless-httpupgrade requires domain in settings''
        else if str_field s ''cert_path'' = '''' \<or> str_field s ''key_path'' = ''''
        then Some ''vless-httpupgrade requires cert_path and key_path in settings'' else None)
     else if protocol = ''vless-reality'' then
       (if \<not> validDomainName (str_field s ''sni'') \<or> str_field s ''private_key'' = ''''
           \<or> str_field s ''public_key'' = ''''
        then Some ''vless-reality requires sni, private_key, public_key in settings'' else None)
     else Some ''unsupported protocol'')"

definition NodeHandler_createInbound :: "syncer \<Rightarrow> request \<Rightarrow> response io" where
  "NodeHandler_createInbound Sync r =
    (let parts = SplitByte (CHR ''/'') (TrimPrefix (r_path r) ''/api/nodes/'') in
     if length parts < 2 then writeError 400 ''invalid path''
     else let nodeID = parseID (''/api/nodes/'' @ parts ! 0) ''/api/nodes/'' in
     if nodeID = 0 then writeError 400 ''invalid node id''
     else attempt (NodeStore_Get nodeID) (\<lambda>_. writeError 404 ''node not found'') (\<lambda>node.
     if n_proxy_type node \<noteq> ''singbox''
     then writeError 400 ''inbound synchronization is only supported for singbox nodes''
     else case as_create_inbound (r_body r) of
       None \<Rightarrow> writeError 400 ''invalid json''
     | Some req \<Rightarrow>
     if ci_protocol req = '''' \<or> ci_port req < 1 \<or> ci_port req > 65535
     then writeError 400 ''protocol and a valid port are required''
     else case settings_object (ci_settings req) of
       None \<Rightarrow> writeError 400 ''settings must be a JSON object''
     | Some settings \<Rightarrow>
     case missing_settings (ci_protocol req) settings of
       Some msg \<Rightarrow> writeError 400 msg
     | None \<Rightarrow>
     attempt (NodeStore_CreateInbound nodeID req) (\<lambda>e. writeError 500 (err_text e)) (\<lambda>ib.
     do { results \<leftarrow> syncNodes Sync [nodeID];
       (case syncFailure results of
          Some err \<Rightarrow>
            attempt (NodeStore_DeleteInbound (ib_id ib))
              (\<lambda>rollbackErr. writeError 500
                 (''node sync failed and inbound rollback failed: '' @ err_text rollbackErr))
              (\<lambda>_. do { restoreResults \<leftarrow> syncNodes Sync [nodeID];
                 (case syncFailure restoreResults of
                    Some restoreErr \<Rightarrow> writeError 502
                      (''inbound creation was rolled back, but restoring the node failed: '' @ restoreErr)
                  | None \<Rightarrow> writeError 502 (''inbound was not created: '' @ err)) })
        | None \<Rightarrow> writeJSON 201 (PInboundSync ib results)) })))"

definition NodeHandler_deleteInbound :: "syncer \<Rightarrow> request \<Rightarrow> response io" where
  "NodeHandler_deleteInbound Sync r = (let i = parseID (r_path r) ''/api/inbounds/'' in
     if i = 0 then writeError 400 ''invalid id''
     else attempt (NodeStore_GetInbound i) (\<lambda>_. writeError 404 ''inbound not found'') (\<lambda>inbound.
     attempt (NodeStore_Get (ib_node inbound)) (\<lambda>_. writeError 404 ''node not found'') (\<lambda>node.
     if n_proxy_type node \<noteq> ''singbox''
     then writeError 400 ''inbound synchronization is only supported for singbox nodes''
     else attempt (NodeStore_DeleteInbound i) (\<lambda>e. writeError 500 (err_text e)) (\<lambda>_.
     do { results \<leftarrow> syncNodes Sync [ib_node inbound];
       (case syncFailure results of
          Some err \<Rightarrow>
            attempt (NodeStore_RestoreInbound inbound)
              (\<lambda>restoreErr. writeError 500
                 (''delete sync failed and database restore failed: '' @ err_text restoreErr))
              (\<lambda>_. do { restoreResults \<leftarrow> syncNodes Sync [ib_node inbound];
                 (case syncFailure restoreResults of
                    Some restoreErr \<Rightarrow> writeError 502
                      (''inbound deletion was rolled back, but restoring the node failed: '' @ restoreErr)
                  | None \<Rightarrow> writeError 502 (''inbound deletion was rolled back: '' @ err)) })
        | None \<Rightarrow> writeJSON 200 (PInboundDeleted inbound results)) }))))"

definition NodeHandler_Reorder :: "request \<Rightarrow> response io" where
  "NodeHandler_Reorder r =
    (if r_method r \<noteq> ''PUT'' then NotFound
     else case as_reorder (r_body r) of
       None \<Rightarrow> writeError 400 ''invalid json''
     | Some items \<Rightarrow> attempt (NodeStore_ReorderNodes items) (\<lambda>e. writeError 500 (err_text e))
         (\<lambda>_. writeJSON 200 (PStatus ''ok'')))"

definition NodeHandler_ReorderInbounds :: "syncer \<Rightarrow> request \<Rightarrow> response io" where
  "NodeHandler_ReorderInbounds Sync r =
    (if r_method r \<noteq> ''PUT'' then NotFound
     else case as_reorder (r_body r) of
       None \<Rightarrow> writeError 400 ''invalid json''
     | Some items \<Rightarrow>
     let nodeID = parseID (r_path r) ''/api/nodes/'' in
     if nodeID = 0 then writeError 400 ''invalid node id''
     else attempt (NodeStore_Get nodeID) (\<lambda>_. writeError 404 ''node not found'') (\<lambda>node.
     if n_proxy_type node \<noteq> ''singbox''
     then writeError 400 ''inbound synchronization is only supported for singbox nodes''
     else attempt (NodeStore_ListInbounds nodeID) (\<lambda>e. writeError 500 (err_text e)) (\<lambda>before.
     attempt (NodeStore_ReorderInbounds nodeID items) (\<lambda>e. writeError 400 (err_text e)) (\<lambda>_.
     do { results \<leftarrow> syncNodes Sync [nodeID];
       (case syncFailure results of
          Some err \<Rightarrow>
            attempt (NodeStore_ReorderInbounds nodeID
                (map (\<lambda>b. \<lparr>ri_id = ib_id b, ri_sort_order = ib_sort_order b\<rparr>) before))
              (\<lambda>rollbackErr. writeError 500
                 (''node sync failed and inbound order rollback failed: '' @ err_text rollbackErr))
              (\<lambda>_. do { restoreResults \<leftarrow> syncNodes Sync [nodeID];
                 (case syncFailure restoreResults of
                    Some restoreErr \<Rightarrow> writeError 502
                      (''inbound reorder was rolled back, but restoring the node failed: '' @ restoreErr)
                  | None \<Rightarrow> writeError 502 (''inbound reorder was rolled back: '' @ err)) })
        | None \<Rightarrow> writeJSON 200 (PReordered results)) }))))"

definition NodeHandler_ServeHTTP :: "syncer \<Rightarrow> request \<Rightarrow> response io" where
  "NodeHandler_ServeHTTP Sync r =
    (let path = r_path r; method = r_method r;
         node_path = HasPrefix path ''/api/nodes/'' \<and> \<not> Contains path ''/inbounds'' in
     if method = ''GET'' \<and> path = ''/api/nodes'' then NodeHandler_list
     else if method = ''POST'' \<and> path = ''/api/nodes'' then NodeHandler_create r
     else if method = ''GET'' \<and> node_path then NodeHandler_get r
     else if method = ''PUT'' \<and> node_path then NodeHandler_update r
     else if method = ''DELETE'' \<and> node_path then NodeHandler_delete Sync r
     else if method = ''POST'' \<and> HasSuffix path ''/inbounds'' then NodeHandler_createInbound Sync r
     else if method = ''DELETE'' \<and> HasPrefix path ''/api/inbounds/'' then NodeHandler_deleteInbound Sync r
     else NotFound)"

end
