(* ===== verification/Reality.thy ===== *)
theory Reality
  imports Ports NodeHandler
begin

text \<open>
  The Reality handshake target of a node: choosing one in auto-setup (\<open>handler/setup.go\<close>),
  reporting what the node sees, and switching it (\<open>handler/reality.go\<close>).
\<close>

section \<open>Choosing a target\<close>

definition realityDestStillQualifies :: "string \<Rightarrow> string \<Rightarrow> bool io" where
  "realityDestStillQualifies addr host = do {
     result \<leftarrow> sshRun addr (realityProbeScriptFor [host]);
     State_Monad.return (case result of (out, no_error) \<Rightarrow>
       if \<not> no_error \<and> TrimSpace out = '''' then True
       else fst (parseRealityProbe out [host]) = host) }"

definition selectRealitySNI :: "string \<Rightarrow> string \<Rightarrow> (string + string) io" where
  "selectRealitySNI addr seed = do {
     result \<leftarrow> sshRun addr realityProbeScript;
     State_Monad.return (case result of (out, no_error) \<Rightarrow>
       if \<not> no_error \<and> TrimSpace out = '''' then Inl ''unable to probe Reality handshake targets''
       else let candidates = qualifiedRealityProbes out in
         if length candidates = 0
         then Inl ''no Reality handshake target served HTTP/2 over TLS 1.3 with a non-error status''
         else Inr (pickRealityDest candidates seed)) }"

definition chooseRealitySNI :: "string \<Rightarrow> string \<Rightarrow> string \<Rightarrow> string \<Rightarrow> (string + string) io" where
  "chooseRealitySNI addr stored requested seed =
    (if requested \<noteq> '''' then
       if \<not> validDomainName requested then State_Monad.return (Inl ''invalid Reality target domain'')
       else do {
         result \<leftarrow> sshRun addr (realityProbeScriptFor [requested]);
         State_Monad.return (case result of (out, no_error) \<Rightarrow>
           if \<not> no_error then Inl ''explicit Reality target probe failed: ''
           else if fst (parseRealityProbe out [requested]) \<noteq> requested
           then Inl ''explicit Reality target must serve HTTP/2 over TLS 1.3 with a non-error status''
           else Inr requested) }
     else if stored = '''' then selectRealitySNI addr seed
     else do {
       still \<leftarrow> realityDestStillQualifies addr stored;
       if still then State_Monad.return (Inr stored) else selectRealitySNI addr seed })"

section \<open>Reporting\<close>

text \<open>An absent or unreadable settings document reads as the empty map.\<close>

definition realitySNIOf :: "inbound \<Rightarrow> string" where
  "realitySNIOf b = (let s = settings_map (ib_settings b) in
     if str_field s ''sni'' \<noteq> '''' then str_field s ''sni'' else str_field s ''handshake_server'')"

definition reality_inbound :: "inbound list \<Rightarrow> inbound option" where
  "reality_inbound bs = List.find (\<lambda>b. ib_protocol b = ''vless-reality'') bs"

fun extra_candidates :: "string list \<Rightarrow> string list \<Rightarrow> string list" where
  "extra_candidates candidates [] = candidates"
| "extra_candidates candidates (extra # extras) =
    (let host = TrimSpace extra in
     if host = '''' \<or> \<not> validDomainName host \<or> host \<in> set candidates then extra_candidates candidates extras
     else extra_candidates (candidates @ [host]) extras)"

text \<open>Qualifying rows first, by latency; the others by name. The sort is stable.\<close>

definition sort_rows :: "realityTargetProbe list \<Rightarrow> realityTargetProbe list" where
  "sort_rows rows = sort_key rt_latency_ms (filter rt_qualifies rows)
     @ sort_key rt_host (filter (\<lambda>r. \<not> rt_qualifies r) rows)"

definition loadNode :: "request \<Rightarrow> (node \<Rightarrow> response io) \<Rightarrow> response io" where
  "loadNode r k = attempt (NodeStore_Get (parseNodeIDFromConfigPath (r_path r)))
     (\<lambda>_. writeError 404 ''node not found'') k"

definition HandleRealityTargets :: "request \<Rightarrow> response io" where
  "HandleRealityTargets r =
    (if r_method r \<noteq> ''GET'' then NotFound
     else loadNode r (\<lambda>node.
       attempt (NodeStore_ListInbounds (n_id node)) (\<lambda>e. writeError 500 (err_text e)) (\<lambda>inbounds.
       let current = (case reality_inbound inbounds of None \<Rightarrow> '''' | Some b \<Rightarrow> realitySNIOf b);
           candidates = extra_candidates realitySNIs (r_values r ''host'') in do {
       rs \<leftarrow> next_remote;
       attempt (sshConnect rs node) (\<lambda>e. writeError 502 (''ssh connect failed: '' @ err_text e)) (\<lambda>_. do {
         result \<leftarrow> sshRun (sshDialAddr node) (realityProbeScriptFor candidates);
         (case result of (out, no_error) \<Rightarrow>
           if \<not> no_error \<and> TrimSpace out = '''' then writeError 502 ''probe failed: ''
           else do {
             now \<leftarrow> get_now;
             writeJSON 200 (PRealityTargets (n_name node) current now
               (sort_rows (map (\<lambda>row. row\<lparr>rt_current := (rt_host row = current)\<rparr>)
                 (probeAllRealityTargetsFor out candidates)))) }) }) })))"

section \<open>Switching\<close>

text \<open>
  \<open>json.Unmarshal\<close> into the map of the settings: \<open>None\<close> is an error. A stored \<open>null\<close> makes
  the map nil, and storing into it panics.
\<close>

fun stored_settings :: "raw_message \<Rightarrow> settings option" where
  "stored_settings RawEmpty = Some []"
| "stored_settings (RawJson (JObj m)) = Some m"
| "stored_settings (RawJson JNull) = Some []"
| "stored_settings _ = None"

definition set_field :: "settings \<Rightarrow> string \<Rightarrow> json \<Rightarrow> settings" where
  "set_field m k v = filter (\<lambda>e. fst e \<noteq> k) m @ [(k, v)]"

definition retargeted :: "settings \<Rightarrow> string \<Rightarrow> raw_message" where
  "retargeted s sni = RawJson (JObj (set_field (set_field s ''sni'' (JStr sni)) ''handshake_server'' (JStr sni)))"

definition with_settings :: "inbound \<Rightarrow> raw_message \<Rightarrow> create_inbound_req" where
  "with_settings b raw = \<lparr>ci_tag = ib_tag b, ci_protocol = ib_protocol b, ci_port = ib_port b, ci_settings = raw\<rparr>"

definition store_target :: "node \<Rightarrow> inbound \<Rightarrow> string \<Rightarrow> raw_message \<Rightarrow> string \<Rightarrow> response io" where
  "store_target node target previous raw sni =
     attempt (NodeStore_UpdateInbound (ib_id target) (with_settings target raw))
       (\<lambda>e. writeError 500 (''store new target: '' @ err_text e)) (\<lambda>_. do {
       results \<leftarrow> SyncNodes [n_id node];
       (case syncFailure results of
          Some err \<Rightarrow>
            attempt (NodeStore_UpdateInbound (ib_id target) (with_settings target (ib_settings target)))
              (\<lambda>e. writeError 500 (''push failed and the stored target could not be restored: '' @ err_text e))
              (\<lambda>_. writeError 502 (''push failed, stored target reverted: '' @ err))
        | None \<Rightarrow> (case results of
            [] \<Rightarrow> panicked
          | result # _ \<Rightarrow> writeJSON 200 (PRealityTarget (n_name node) previous sni ''updated'' (Some result)))) })"

definition switch_target :: "node \<Rightarrow> inbound \<Rightarrow> string \<Rightarrow> response io" where
  "switch_target node target sni =
    (case stored_settings (ib_settings target) of
       None \<Rightarrow> writeError 500 ''stored settings are not readable: ''
     | Some s \<Rightarrow>
       let previous = str_field s ''sni'' in
       if previous = sni
       then writeJSON 200 (PRealityTarget (n_name node) previous sni ''unchanged'' None)
       else if ib_settings target = RawJson JNull then panicked
       else store_target node target previous (retargeted s sni) sni)"

definition HandleRealityTarget :: "request \<Rightarrow> response io" where
  "HandleRealityTarget r =
    (if r_method r \<noteq> ''POST'' then NotFound
     else loadNode r (\<lambda>node.
       case as_reality_target (r_body r) of
         None \<Rightarrow> writeError 400 ''invalid request body''
       | Some sni \<Rightarrow>
         if \<not> validDomainName sni then writeError 400 ''sni must be a domain name''
         else attempt (NodeStore_ListInbounds (n_id node)) (\<lambda>e. writeError 500 (err_text e)) (\<lambda>inbounds.
           case reality_inbound inbounds of
             None \<Rightarrow> writeError 400 ''node has no vless-reality inbound''
           | Some target \<Rightarrow> do {
               rs \<leftarrow> next_remote;
               attempt (sshConnect rs node) (\<lambda>e. writeError 502 (''ssh connect failed: '' @ err_text e)) (\<lambda>_. do {
                 result \<leftarrow> sshRun (sshDialAddr node) (realityProbeScriptFor [sni]);
                 (case result of (out, no_error) \<Rightarrow>
                   if \<not> no_error \<and> TrimSpace out = '''' then writeError 502 ''probe failed: ''
                   else if fst (parseRealityProbe out [sni]) \<noteq> sni
                   then writeError 422 (sni @ '' did not answer TLS 1.3 with HTTP/2 and a non-error status from this node'')
                   else switch_target node target sni) }) })))"

section \<open>Only measured targets\<close>

text \<open>
  A requested target is taken when the node's own measurement of it qualifies, otherwise the
  stored one is kept or one of the candidate list is taken whose measurement qualifies.
\<close>

definition shown :: "env \<Rightarrow> string list \<Rightarrow> string \<Rightarrow> bool" where
  "shown e hosts host \<longleftrightarrow> (\<exists>t. measured hosts (fst (ssh_run e t (realityProbeScriptFor hosts))) host)"

definition good_choice :: "env \<Rightarrow> string \<Rightarrow> string \<Rightarrow> string \<Rightarrow> bool" where
  "good_choice e stored requested sni \<longleftrightarrow>
     (if requested \<noteq> '''' then sni = requested \<and> validDomainName sni \<and> shown e [requested] sni
      else sni = stored \<and> stored \<noteq> '''' \<or> shown e realitySNIs sni)"

lemma shownI: "ssh_run e t (realityProbeScriptFor hosts) = (out, st) \<Longrightarrow> measured hosts out host \<Longrightarrow> shown e hosts host"
  by (metis shown_def fst_conv)

lemma probed_measured: "fst (parseRealityProbe out [host]) = host \<Longrightarrow> host \<noteq> '''' \<Longrightarrow> measured [host] out host"
  using parseRealityProbe_measured [of out "[host]"] by simp

lemma picked_measured: "qualifiedRealityProbes out \<noteq> [] \<Longrightarrow>
    measured realitySNIs out (pickRealityDest (qualifiedRealityProbes out) seed)"
  by (rule qualified_measured) (rule set_mp [OF set_take_subset pick_in])

lemma wp_selectRealitySNI: "wp (selectRealitySNI addr seed) (\<lambda>r w'. w_db w' = w_db w \<and> w_now w' = w_now w \<and>
    w_env w' = w_env w \<and> (\<forall>i. in_sync w i \<longrightarrow> in_sync w' i) \<and>
    (\<forall>sni. r = Inr sni \<longrightarrow> shown (w_env w) realitySNIs sni)) w"
  unfolding selectRealitySNI_def realityProbeScript_def wp_bind wp_return
  by (rule wp_sshRun)
    (auto simp: Let_def split: prod.splits intro: shownI [OF _ picked_measured])

lemma wp_stillQualifies: "wp (realityDestStillQualifies addr host) (\<lambda>r w'. w_db w' = w_db w \<and> w_now w' = w_now w \<and>
    w_env w' = w_env w \<and> (\<forall>i. in_sync w i \<longrightarrow> in_sync w' i)) w"
  unfolding realityDestStillQualifies_def wp_bind wp_return by (rule wp_sshRun) simp

lemma wp_chooseRealitySNI: "wp (chooseRealitySNI addr stored requested seed) (\<lambda>r w'. w_db w' = w_db w \<and>
    w_now w' = w_now w \<and> w_env w' = w_env w \<and> (\<forall>i. in_sync w i \<longrightarrow> in_sync w' i) \<and>
    (\<forall>sni. r = Inr sni \<longrightarrow> good_choice (w_env w) stored requested sni)) w"
proof (cases "requested = ''''")
  case False
  show ?thesis
  proof (cases "validDomainName requested")
    case valid: True
    show ?thesis
      unfolding chooseRealitySNI_def if_P [OF False] if_not_P [OF not_not [THEN iffD2, OF valid]] wp_bind wp_return
      by (rule wp_sshRun)
        (use False valid in \<open>auto simp: good_choice_def split: prod.splits intro: shownI [OF _ probed_measured]\<close>)
  qed (simp add: chooseRealitySNI_def False wp_step)
next
  case True
  have select: "wp (selectRealitySNI addr seed) (\<lambda>r w'. w_db w' = w_db w \<and> w_now w' = w_now w \<and> w_env w' = w_env w \<and>
      (\<forall>i. in_sync w i \<longrightarrow> in_sync w' i) \<and> (\<forall>sni. r = Inr sni \<longrightarrow> good_choice (w_env w) stored requested sni)) w1"
    if "w_db w1 = w_db w" "w_now w1 = w_now w" "w_env w1 = w_env w" "\<forall>i. in_sync w i \<longrightarrow> in_sync w1 i" for w1
    by (rule wp_mono [OF wp_selectRealitySNI]) (use that True in \<open>auto simp: good_choice_def\<close>)
  show ?thesis
  proof (cases "stored = ''''")
    case True
    then have "chooseRealitySNI addr stored requested seed = selectRealitySNI addr seed"
      using \<open>requested = ''''\<close> by (simp add: chooseRealitySNI_def)
    then show ?thesis using select [of w] by simp
  next
    case False
    then have kept: "good_choice e stored requested stored" for e
      using \<open>requested = ''''\<close> by (simp add: good_choice_def)
    from False \<open>requested = ''''\<close> have "chooseRealitySNI addr stored requested seed = do {
        still \<leftarrow> realityDestStillQualifies addr stored;
        if still then State_Monad.return (Inr stored) else selectRealitySNI addr seed }"
      by (simp add: chooseRealitySNI_def)
    then show ?thesis
      by (simp only: wp_step, intro wp_mono [OF wp_stillQualifies]) (auto simp: kept wp_step intro: select)
  qed
qed

end
