(* ===== verification/AutoSetup.thy ===== *)
theory AutoSetup
  imports KernelTune Reality
begin

text \<open>
  Auto-setup of a node (\<open>handler/setup.go\<close>) and the assessment before it
  (\<open>HandleSetupAssessment\<close> in \<open>handler/setup_profile.go\<close>). Each protocol is planned first,
  talking to the node, and then stored; the changes of all protocols are pushed at the end
  or undone.
\<close>

section \<open>Small functions\<close>

definition contains_text :: "string \<Rightarrow> string \<Rightarrow> bool" where
  "contains_text s sub = Contains s sub"

definition trimOutput :: "string \<Rightarrow> string" where
  "trimOutput s = TrimSpace s"

definition splitLines :: "string \<Rightarrow> string list" where
  "splitLines s = map TrimSpace (SplitByte (CHR 0x0A) s)"

text \<open>The private and the public key of \<open>generate reality-keypair\<close>; the last line of a kind counts.\<close>

definition keypair_line :: "string \<Rightarrow> string \<times> string \<Rightarrow> string \<times> string" where
  "keypair_line line keys = (case keys of (privateKey, publicKey) \<Rightarrow>
     (if contains_text line ''PrivateKey:'' then trimOutput (drop (length ''PrivateKey:'') line) else privateKey,
      if contains_text line ''PublicKey:'' then trimOutput (drop (length ''PublicKey:'') line) else publicKey))"

definition parseKeypair :: "string \<Rightarrow> string \<times> string" where
  "parseKeypair output = fold keypair_line (splitLines output) ('''', '''')"

text \<open>\<open>reflect.DeepEqual\<close> of two settings.\<close>

definition same_settings :: "settings \<Rightarrow> settings \<Rightarrow> bool" where
  "same_settings m m' \<longleftrightarrow> list_all (\<lambda>k. field m k = field m' k) (map fst m @ map fst m')"

definition tls_path :: "string \<Rightarrow> string \<Rightarrow> string" where
  "tls_path domain suffix = ''/etc/sing-box/tls/'' @ domain @ suffix"

definition hysteriaSettings :: "settings \<Rightarrow> string \<Rightarrow> string \<Rightarrow> settings io" where
  "hysteriaSettings old requested domain =
    (let profile = (if requested = '''' then HysteriaProfile old else requested);
         s = set_field old ''profile'' (JStr profile);
         s = set_field s ''domain'' (JStr domain);
         s = set_field s ''cert_path'' (JStr (tls_path domain ''.crt''));
         s = set_field s ''key_path'' (JStr (tls_path domain ''.key'')) in
     if profile = ''salamander'' \<and> str_field s ''obfs_password'' = ''''
     then do { password \<leftarrow> randomHex 16; State_Monad.return (set_field s ''obfs_password'' (JStr password)) }
     else State_Monad.return s)"

section \<open>Planning a protocol\<close>

text \<open>What a protocol comes to: an entry of the results, or an inbound to store.\<close>

datatype setup_plan = Stop setup_result | Store int settings details

definition setup_error :: "string \<Rightarrow> int \<Rightarrow> string \<Rightarrow> setup_plan" where
  "setup_error proto port msg = Stop \<lparr>si_protocol = proto, si_port = port, si_status = ''error'',
     si_details = DetailText msg\<rparr>"

definition setup_skipped :: "string \<Rightarrow> int \<Rightarrow> string \<Rightarrow> setup_plan" where
  "setup_skipped proto port msg = Stop \<lparr>si_protocol = proto, si_port = port, si_status = ''skipped'',
     si_details = DetailText msg\<rparr>"

definition old_settings :: "inbound option \<Rightarrow> settings" where
  "old_settings existing = (case existing of None \<Rightarrow> [] | Some b \<Rightarrow> settings_map (ib_settings b))"

definition current_port :: "inbound option \<Rightarrow> int" where
  "current_port existing = (case existing of None \<Rightarrow> 0 | Some b \<Rightarrow> ib_port b)"

text \<open>The port that is asked for, which is not entered into the reserved ones, or a chosen one.\<close>

definition desired_port :: "string \<Rightarrow> string \<Rightarrow> int \<Rightarrow> int \<Rightarrow> int list \<Rightarrow> (int \<times> int list) io" where
  "desired_port addr network requested current reserved =
    (if requested \<noteq> 0 then State_Monad.return (requested, reserved)
     else selectListenPort addr network current reserved)"

definition cert_failure :: "cert_status \<Rightarrow> string \<times> bool \<Rightarrow> string" where
  "cert_failure s result = (case result of (out, no_error) \<Rightarrow>
     (if cs_error s \<noteq> '''' then ''cert install failed: '' @ cs_error s
      else ''cert install failed: certificate on node is expired'')
     @ (if no_error then '''' else ''; ssh: '')
     @ (if tailLines out 5 = '''' then '''' else ''; acme: '' @ tailLines out 5))"

definition plan_hysteria2 :: "node \<Rightarrow> setup_req \<Rightarrow> string \<Rightarrow> inbound option \<Rightarrow> int list \<Rightarrow>
    (int list \<times> setup_plan) io" where
  "plan_hysteria2 node req domain existing reserved =
    (let proto = ''hysteria2''; addr = sshDialAddr node in
     if domain = '''' then State_Monad.return (reserved, setup_error proto 0 ''domain is required'')
     else do {
       settings \<leftarrow> hysteriaSettings (old_settings existing) (aq_hysteria2_profile req) domain;
       (port, reserved) \<leftarrow> desired_port addr ''udp'' (aq_port_hysteria2 req) (current_port existing) reserved;
       lookup \<leftarrow> LookupHost;
       (case lookup domain of
          None \<Rightarrow> State_Monad.return (reserved, setup_error proto 0 ''DNS lookup failed: '')
        | Some ips \<Rightarrow>
          if \<not> recordsPointToNode ips (n_host node) lookup
          then State_Monad.return (reserved, setup_error proto 0 (dns_mismatch domain ips (n_host node)))
          else do {
            let certPath = tls_path domain ''.crt'';
            let keyPath = tls_path domain ''.key'';
            result \<leftarrow> sshRun addr (renewCertScript domain certPath keyPath False certRenewBeforeDays);
            let t = \<lparr>ct_inbound = 0, ct_protocol = proto, ct_domain = domain, ct_cert_path = certPath,
                     ct_key_path = keyPath\<rparr>;
            now \<leftarrow> get_now;
            statuses \<leftarrow> readCertStatuses addr [t] now;
            let s = status_of statuses t;
            State_Monad.return (reserved,
              if cs_error s \<noteq> '''' \<or> cs_expired s then setup_error proto port (cert_failure s result)
              else if existing \<noteq> None \<and> port = current_port existing \<and> same_settings (old_settings existing) settings
              then setup_skipped proto port ''configuration unchanged; certificate checked''
              else Store port settings NoDetails) }) })"

text \<open>The key pair that is stored, or a new one; \<open>Inl\<close> is why there is none.\<close>

definition reality_keys :: "node \<Rightarrow> settings \<Rightarrow> (string + string \<times> string) io" where
  "reality_keys node old =
    (let privateKey = str_field old ''private_key''; publicKey = str_field old ''public_key'' in
     if privateKey \<noteq> '''' \<and> publicKey \<noteq> '''' then State_Monad.return (Inr (privateKey, publicKey))
     else do {
       result \<leftarrow> sshRun (sshDialAddr node) (n_singbox_bin node @ '' generate reality-keypair'');
       State_Monad.return (case result of (out, no_error) \<Rightarrow>
         if \<not> no_error then Inl ''keypair generation failed''
         else case parseKeypair out of (privateKey, publicKey) \<Rightarrow>
           if privateKey = '''' \<or> publicKey = '''' then Inl ''keypair output was invalid''
           else Inr (privateKey, publicKey)) })"

definition reality_short_id :: "node \<Rightarrow> settings \<Rightarrow> string io" where
  "reality_short_id node old =
    (if str_field old ''short_id'' \<noteq> '''' then State_Monad.return (str_field old ''short_id'')
     else do {
       result \<leftarrow> sshRun (sshDialAddr node) (n_singbox_bin node @ '' generate rand 8 --hex'');
       (if trimOutput (fst result) \<noteq> '''' then State_Monad.return (trimOutput (fst result)) else randomHex 8) })"

definition reality_address :: "node \<Rightarrow> string \<Rightarrow> string io" where
  "reality_address node domain =
    (if domain = '''' then State_Monad.return (n_host node)
     else do {
       lookup \<leftarrow> LookupHost;
       State_Monad.return (case lookup domain of
           None \<Rightarrow> n_host node
         | Some ips \<Rightarrow> if recordsPointToNode ips (n_host node) lookup then domain else n_host node) })"

definition reality_settings :: "string \<Rightarrow> string \<times> string \<Rightarrow> string \<Rightarrow> string \<Rightarrow> settings" where
  "reality_settings sni keys shortID server = (case keys of (privateKey, publicKey) \<Rightarrow>
     [(''sni'', JStr sni), (''private_key'', JStr privateKey), (''public_key'', JStr publicKey),
      (''short_id'', JStr shortID), (''handshake_server'', JStr sni), (''handshake_port'', jint 443),
      (''fingerprint'', JStr ''chrome''), (''server'', JStr server)])"

definition plan_reality :: "node \<Rightarrow> setup_req \<Rightarrow> string \<Rightarrow> inbound option \<Rightarrow> int list \<Rightarrow>
    (int list \<times> setup_plan) io" where
  "plan_reality node req domain existing reserved =
    (let proto = ''vless-reality''; addr = sshDialAddr node; old = old_settings existing in do {
       (port, reserved) \<leftarrow> desired_port addr ''tcp'' (aq_port_reality req) (current_port existing) reserved;
       keys \<leftarrow> reality_keys node old;
       (case keys of
          Inl msg \<Rightarrow> State_Monad.return (reserved, setup_error proto port msg)
        | Inr keys \<Rightarrow> do {
            shortID \<leftarrow> reality_short_id node old;
            chosen \<leftarrow> chooseRealitySNI addr (str_field old ''sni'') (aq_reality_sni req) (n_name node);
            (case chosen of
               Inl msg \<Rightarrow> State_Monad.return (reserved, setup_error proto port msg)
             | Inr sni \<Rightarrow> do {
                 server \<leftarrow> reality_address node domain;
                 State_Monad.return (reserved,
                   if existing \<noteq> None \<and> port = current_port existing \<and> sni = str_field old ''sni''
                      \<and> server = str_field old ''server''
                   then setup_skipped proto (current_port existing) ''already configured''
                   else Store port (reality_settings sni keys shortID server)
                     (DetailMap [(''public_key'', snd keys), (''short_id'', shortID), (''sni'', sni)])) }) }) })"

definition plan_httpupgrade :: "node \<Rightarrow> setup_req \<Rightarrow> string \<Rightarrow> inbound option \<Rightarrow> int list \<Rightarrow>
    (int list \<times> setup_plan) io" where
  "plan_httpupgrade node req domain existing reserved =
    (let proto = ''vless-httpupgrade''; addr = sshDialAddr node; old = old_settings existing in
     if domain = '''' then State_Monad.return (reserved, setup_error proto 0 ''domain is required'')
     else if existing \<noteq> None \<and> str_field old ''domain'' = domain
       \<and> (aq_port_httpupgrade req = 0 \<or> aq_port_httpupgrade req = current_port existing)
     then State_Monad.return (reserved, setup_skipped proto (current_port existing) ''already configured'')
     else do {
       let port = (if aq_port_httpupgrade req \<noteq> 0 then aq_port_httpupgrade req
                   else if existing \<noteq> None then current_port existing else 443);
       let reserved = port # reserved;
       path \<leftarrow> (if str_field old ''path'' \<noteq> '''' then State_Monad.return (str_field old ''path'')
                else do { h \<leftarrow> randomHex 8; State_Monad.return (''/'' @ h) });
       let certPath = tls_path domain ''.crt'';
       let keyPath = tls_path domain ''.key'';
       result \<leftarrow> sshRun addr (''test -f '' @ certPath @ '' && test -f '' @ keyPath @ '' && echo OK'');
       State_Monad.return (reserved,
         if \<not> contains_text (fst result) ''OK''
         then setup_error proto port
           ''CF Origin Certificate required: upload cert/key via node settings first''
         else Store port [(''domain'', JStr domain), (''path'', JStr path), (''cert_path'', JStr certPath),
                (''key_path'', JStr keyPath)] (DetailMap [(''path'', path)])) })"

section \<open>Storing\<close>

text \<open>What the loop has done so far: its results, and what a rollback has to undo.\<close>

record setup_run =
  sx_results :: "setup_result list"
  sx_error :: bool
  sx_created :: "int list"
  sx_updated :: "inbound list"
  sx_tcp :: "int list"
  sx_udp :: "int list"

definition add_result :: "setup_result \<Rightarrow> setup_run \<Rightarrow> setup_run" where
  "add_result r st = st\<lparr>sx_results := sx_results st @ [r], sx_error := (sx_error st \<or> si_status r = ''error'')\<rparr>"

definition stored_result :: "string \<Rightarrow> int \<Rightarrow> string \<Rightarrow> details \<Rightarrow> setup_result" where
  "stored_result proto port status d = \<lparr>si_protocol = proto, si_port = port, si_status = status, si_details = d\<rparr>"

definition store_setup :: "node \<Rightarrow> string \<Rightarrow> inbound option \<Rightarrow> int \<Rightarrow> settings \<Rightarrow> details \<Rightarrow> setup_run \<Rightarrow> setup_run io" where
  "store_setup node proto existing port settings d st =
    (let req = \<lparr>ci_tag = proto, ci_protocol = proto, ci_port = port, ci_settings = RawJson (JObj settings)\<rparr> in
     case existing of
       Some b \<Rightarrow> let st = st\<lparr>sx_updated := sx_updated st @ [b]\<rparr> in
         attempt (NodeStore_UpdateInbound (ib_id b) req)
           (\<lambda>e. State_Monad.return (add_result (stored_result proto port ''error'' (DetailText (err_text e))) st))
           (\<lambda>_. State_Monad.return (add_result (stored_result proto port ''updated'' d) st))
     | None \<Rightarrow>
         attempt (NodeStore_CreateInbound (n_id node) req)
           (\<lambda>e. State_Monad.return (add_result (stored_result proto port ''error'' (DetailText (err_text e))) st))
           (\<lambda>b. State_Monad.return (add_result (stored_result proto port ''ok'' d)
                  (st\<lparr>sx_created := sx_created st @ [ib_id b]\<rparr>))))"

definition finish_setup :: "node \<Rightarrow> string \<Rightarrow> inbound option \<Rightarrow> setup_plan \<Rightarrow> setup_run \<Rightarrow> setup_run io" where
  "finish_setup node proto existing plan st = (case plan of
     Stop r \<Rightarrow> State_Monad.return (add_result r st)
   | Store port settings d \<Rightarrow> store_setup node proto existing port settings d st)"

text \<open>\<open>existingProtos\<close>: of several inbounds of a protocol the last one counts.\<close>

definition existing_inbound :: "inbound list \<Rightarrow> string \<Rightarrow> inbound option" where
  "existing_inbound inbounds proto = List.find (\<lambda>b. ib_protocol b = proto) (rev inbounds)"

definition setup_protocol :: "node \<Rightarrow> setup_req \<Rightarrow> string \<Rightarrow> inbound list \<Rightarrow> string \<Rightarrow> setup_run \<Rightarrow> setup_run io" where
  "setup_protocol node req domain inbounds proto st =
    (let existing = existing_inbound inbounds proto in
     if proto = ''hysteria2'' then do {
       (udp, plan) \<leftarrow> plan_hysteria2 node req domain existing (sx_udp st);
       finish_setup node proto existing plan (st\<lparr>sx_udp := udp\<rparr>) }
     else if proto = ''vless-reality'' then do {
       (tcp, plan) \<leftarrow> plan_reality node req domain existing (sx_tcp st);
       finish_setup node proto existing plan (st\<lparr>sx_tcp := tcp\<rparr>) }
     else if proto = ''vless-httpupgrade'' then do {
       (tcp, plan) \<leftarrow> plan_httpupgrade node req domain existing (sx_tcp st);
       finish_setup node proto existing plan (st\<lparr>sx_tcp := tcp\<rparr>) }
     else finish_setup node proto existing (setup_error proto 0 ''unsupported protocol'') st)"

fun setup_protocols :: "node \<Rightarrow> setup_req \<Rightarrow> string \<Rightarrow> inbound list \<Rightarrow> string list \<Rightarrow> setup_run \<Rightarrow> setup_run io" where
  "setup_protocols node req domain inbounds [] st = State_Monad.return st"
| "setup_protocols node req domain inbounds (proto # protos) st = do {
     st \<leftarrow> setup_protocol node req domain inbounds proto st;
     setup_protocols node req domain inbounds protos st }"

section \<open>Undoing\<close>

definition undo_created :: "int \<Rightarrow> string list io" where
  "undo_created i = attempt (NodeStore_DeleteInbound i)
     (\<lambda>e. State_Monad.return [''remove inbound '' @ Itoa i @ '': '' @ err_text e]) (\<lambda>_. State_Monad.return [])"

definition undo_updated :: "inbound \<Rightarrow> string list io" where
  "undo_updated b = attempt (NodeStore_UpdateInbound (ib_id b) (with_settings b (ib_settings b)))
     (\<lambda>e. State_Monad.return [''restore inbound '' @ Itoa (ib_id b) @ '': '' @ err_text e])
     (\<lambda>_. State_Monad.return [])"

definition domain_update :: "string \<Rightarrow> update_node_req" where
  "domain_update domain = \<lparr>un_name = None, un_host = None, un_port = None, un_domain = Some domain,
     un_ssh_password = None, un_ssh_user = None, un_proxy_type = None, un_enabled = None, un_config_path = None,
     un_singbox_bin = None, un_sort_order = None\<rparr>"

definition undo_domain :: "node \<Rightarrow> string \<Rightarrow> string list io" where
  "undo_domain node domain =
    (if domain = n_domain node then State_Monad.return []
     else attempt (NodeStore_Update (n_id node) (domain_update (n_domain node)))
       (\<lambda>e. State_Monad.return [''restore node domain: '' @ err_text e]) (\<lambda>_. State_Monad.return []))"

definition rollbackDatabase :: "node \<Rightarrow> string \<Rightarrow> setup_run \<Rightarrow> unit res" where
  "rollbackDatabase node domain st = do {
     e1 \<leftarrow> map_each undo_created (sx_created st);
     e2 \<leftarrow> map_each undo_updated (sx_updated st);
     e3 \<leftarrow> undo_domain node domain;
     (case concat e1 @ concat e2 @ e3 of
        [] \<Rightarrow> ok ()
      | errors \<Rightarrow> fail (ErrMsg (Join errors [CHR 0x0A]))) }"

section \<open>The handler\<close>

text \<open>Why a list of protocols is refused.\<close>

fun refuse_protocols :: "string \<Rightarrow> string list \<Rightarrow> string list \<Rightarrow> string option" where
  "refuse_protocols domain seen [] = None"
| "refuse_protocols domain seen (proto # protos) =
    (if proto \<in> set seen then Some (''duplicate protocol: '' @ proto)
     else if proto = ''hysteria2'' \<or> proto = ''vless-httpupgrade'' then
       (if domain = '''' then Some (proto @ '' requires a domain'') else refuse_protocols domain (proto # seen) protos)
     else if proto = ''vless-reality'' then refuse_protocols domain (proto # seen) protos
     else Some (''unsupported protocol: '' @ proto))"

text \<open>The source ranges over a map: of several invalid ports it names any.\<close>

definition refuse_ports :: "setup_req \<Rightarrow> string option" where
  "refuse_ports req = map_option (\<lambda>p. ''invalid port for '' @ fst p)
     (List.find (\<lambda>p. snd p < 0 \<or> snd p > 65535)
       [(''hysteria2'', aq_port_hysteria2 req), (''vless-reality'', aq_port_reality req),
        (''vless-httpupgrade'', aq_port_httpupgrade req)])"

fun detail_text :: "details \<Rightarrow> string" where
  "detail_text NoDetails = ''<nil>''"
| "detail_text (DetailText s) = s"
| "detail_text (DetailMap m) = ''map['' @ Join (map (\<lambda>(k, v). k @ '':'' @ v) m) '' '' @ '']''"

definition failure_details :: "setup_result list \<Rightarrow> string" where
  "failure_details results = Join (map (\<lambda>r. si_protocol r @ '': '' @ detail_text (si_details r))
     (filter (\<lambda>r. si_status r = ''error'') results)) ''; ''"

definition push_setup :: "node \<Rightarrow> string \<Rightarrow> assessment option \<Rightarrow> setup_run \<Rightarrow> response io" where
  "push_setup node domain assessment st = do {
     syncResults \<leftarrow> SyncNodes [n_id node];
     (case syncFailure syncResults of
        Some syncErr \<Rightarrow>
          attempt (rollbackDatabase node domain st)
            (\<lambda>e. writeError 500 (''push failed and database rollback failed: '' @ err_text e))
            (\<lambda>_. do { restoreResults \<leftarrow> SyncNodes [n_id node];
               (case syncFailure restoreResults of
                  Some restoreErr \<Rightarrow> writeError 502
                    (''changes rolled back, but restoring the previous node config failed: '' @ restoreErr)
                | None \<Rightarrow> writeError 502 (''push failed; changes rolled back: '' @ syncErr)) })
      | None \<Rightarrow> do {
          tuning \<leftarrow> applyKernelTuning (sshDialAddr node);
          writeJSON 200 (PSetup (sx_results st) syncResults (n_name node) assessment
            (case tuning of
               Inl e \<Rightarrow> \<lparr>kt_applied = [], kt_ineffective = [], kt_note = ''kernel tuning failed: '' @ e\<rparr>
             | Inr t \<Rightarrow> t)) }) }"

definition complete_setup :: "node \<Rightarrow> string \<Rightarrow> assessment option \<Rightarrow> setup_run \<Rightarrow> response io" where
  "complete_setup node domain assessment st =
    (if sx_error st then
       attempt (rollbackDatabase node domain st)
         (\<lambda>e. writeError 500 (''auto-setup failed and database rollback failed: '' @ err_text e))
         (\<lambda>_. writeJSON 422 (PSetupFailed
            (''auto-setup failed; no changes were applied: '' @ failure_details (sx_results st)) (sx_results st)))
     else if domain = n_domain node then push_setup node domain assessment st
     else attempt (NodeStore_Update (n_id node) (domain_update domain))
       (\<lambda>e. attempt (rollbackDatabase node domain st)
          (\<lambda>e'. writeError 500 (''update node domain failed and rollback failed: '' @ err_text e'))
          (\<lambda>_. writeError 500 (''update node domain: '' @ err_text e)))
       (\<lambda>_. push_setup node domain assessment st))"

definition run_setup :: "node \<Rightarrow> setup_req \<Rightarrow> string \<Rightarrow> string list \<Rightarrow> assessment option \<Rightarrow> response io" where
  "run_setup node req domain protocols assessment = do {
     rs \<leftarrow> next_remote;
     attempt (sshConnect rs node) (\<lambda>e. writeError 500 (''ssh connect failed: '' @ err_text e)) (\<lambda>_.
     attempt (NodeStore_ListInbounds (n_id node)) (\<lambda>e. writeError 500 (err_text e)) (\<lambda>inbounds.
       if domain \<noteq> n_domain node \<and> list_ex (\<lambda>b. domain_bound b \<and> ib_protocol b \<notin> set protocols) inbounds
       then writeError 409 ''domain migration must include every existing domain-bound protocol''
       else do {
         st \<leftarrow> setup_protocols node req domain inbounds protocols
           \<lparr>sx_results = [], sx_error = False, sx_created = [], sx_updated = [], sx_tcp = [], sx_udp = []\<rparr>;
         complete_setup node domain assessment st })) }"

definition HandleAutoSetup :: "request \<Rightarrow> response io" where
  "HandleAutoSetup r =
    (if r_method r \<noteq> ''POST'' then NotFound
     else attempt (NodeStore_Get (parseNodeIDFromConfigPath (r_path r))) (\<lambda>_. writeError 404 ''node not found'') (\<lambda>node.
     if n_proxy_type node \<noteq> ''singbox''
     then writeError 400 ''auto-setup is only supported for singbox nodes''
     else case as_auto_setup (r_body r) of
       None \<Rightarrow> writeError 400 ''invalid json''
     | Some req \<Rightarrow>
       if aq_hysteria2_profile req \<notin> {'''', ''quic'', ''salamander''}
       then writeError 400 ''hysteria2_profile must be quic or salamander''
       else if aq_reality_sni req \<noteq> '''' \<and> \<not> validDomainName (aq_reality_sni req)
       then writeError 400 ''reality_sni must be a domain name''
       else let domain = (if aq_domain req = '''' then n_domain node else aq_domain req) in
       if domain \<noteq> '''' \<and> \<not> validDomainName domain then writeError 400 ''invalid domain''
       else do {
         lookup \<leftarrow> LookupHost;
         (case suggestedProtocolsForRequest req node lookup of
            (_, assessment, Some e) \<Rightarrow>
              writeJSON (if assessment = None then 400 else 422) (PSetupRefused e assessment)
          | (protocols, assessment, None) \<Rightarrow>
              (case refuse_protocols domain [] protocols of
                 Some e \<Rightarrow> writeError 400 e
               | None \<Rightarrow> (case refuse_ports req of
                   Some e \<Rightarrow> writeError 400 e
                 | None \<Rightarrow> run_setup node req domain protocols assessment))) }))"

definition HandleSetupAssessment :: "request \<Rightarrow> response io" where
  "HandleSetupAssessment r =
    (if r_method r \<noteq> ''GET'' then NotFound
     else attempt (NodeStore_Get (parseNodeIDFromConfigPath (r_path r))) (\<lambda>_. writeError 404 ''node not found'') (\<lambda>node.
     if n_proxy_type node \<noteq> ''singbox''
     then writeError 400 ''setup assessment is only supported for singbox nodes''
     else case normalizeSetupMode (r_query r ''mode'') of
       Inl e \<Rightarrow> writeError 400 e
     | Inr mode \<Rightarrow> do {
         let domain = (if TrimSpace (r_query r ''domain'') = '''' then n_domain node
                       else TrimSpace (r_query r ''domain''));
         lookup \<leftarrow> LookupHost;
         (case assessSetup mode domain (n_host node) lookup of
            (assessment, e) \<Rightarrow> writeJSON 200 (PAssessment e assessment)) }))"

end
