(* ===== verification/NodeOps.thy ===== *)
theory NodeOps
  imports AutoSetup
begin

text \<open>
  The operations on a node's machine in \<open>handler/nodeops.go\<close>: which sing-box it runs and in
  which state it is, installing a release, the kernel baseline on its own, and installing the
  panel's SSH key.
\<close>

section \<open>Versions\<close>

definition singboxRepo :: string where
  "singboxRepo = ''briqt/sing-box''"

definition recommendedSingboxVersion :: string where
  "recommendedSingboxVersion = ''1.14.4''"

definition digits :: "string \<Rightarrow> bool" where
  "digits s \<longleftrightarrow> s \<noteq> '''' \<and> list_all is_digit s"

text \<open>The pattern of three decimal numbers between dots.\<close>

definition stableVersionPattern :: "string \<Rightarrow> bool" where
  "stableVersionPattern s = (case SplitByte (CHR ''.'') s of [a, b, c] \<Rightarrow> digits a \<and> digits b \<and> digits c | _ \<Rightarrow> False)"

definition NodeOpsHandler_getVersion :: "request \<Rightarrow> response io" where
  "NodeOpsHandler_getVersion r =
     attempt (NodeStore_Get (parseNodeIDFromConfigPath (r_path r))) (\<lambda>_. writeError 404 ''node not found'') (\<lambda>node. do {
     rs \<leftarrow> next_remote;
     attempt (sshConnect rs node) (\<lambda>e. writeError 500 (''ssh: '' @ err_text e)) (\<lambda>_. do {
       result \<leftarrow> sshRun (sshDialAddr node) (n_singbox_bin node @ '' version 2>/dev/null | head -1'');
       (case result of (out, no_error) \<Rightarrow>
         if \<not> no_error then writeJSON 200 (PNotInstalled (n_name node))
         else writeJSON 200 (PVersion (TrimSpace out) (n_name node) (n_singbox_bin node))) }) })"

definition NodeOpsHandler_tune :: "request \<Rightarrow> response io" where
  "NodeOpsHandler_tune r =
     attempt (NodeStore_Get (parseNodeIDFromConfigPath (r_path r))) (\<lambda>_. writeError 404 ''node not found'') (\<lambda>node. do {
     rs \<leftarrow> next_remote;
     attempt (sshConnect rs node) (\<lambda>e. writeError 500 (''ssh connect failed: '' @ err_text e)) (\<lambda>_. do {
       result \<leftarrow> applyKernelTuning (sshDialAddr node);
       (case result of
          Inl e \<Rightarrow> writeError 500 e
        | Inr report \<Rightarrow> writeJSON 200 (PTune (n_name node) report)) }) })"

section \<open>Status\<close>

definition to_lower :: "char \<Rightarrow> char" where
  "to_lower c = (if CHR ''A'' \<le> c \<and> c \<le> CHR ''Z'' then char_of (of_char c + 32 :: nat) else c)"

text \<open>The port behind the last colon of a field, as \<open>socketPortPattern\<close> finds it.\<close>

definition socket_port :: "string \<Rightarrow> int option" where
  "socket_port f = (case after_last (CHR '':'') f of
     None \<Rightarrow> None
   | Some s \<Rightarrow> if \<not> digits s then None
       else (case Atoi s of (port, no_error) \<Rightarrow> if no_error \<and> port > 0 then Some port else None))"

definition socket_network :: "string \<Rightarrow> string option" where
  "socket_network f = (let network = map to_lower f in
     if HasPrefix network ''tcp'' then Some ''tcp'' else if HasPrefix network ''udp'' then Some ''udp'' else None)"

definition socket_line :: "string \<Rightarrow> (string \<times> int) option" where
  "socket_line line = (let fields = Fields line in
     if length fields < 5 then None
     else (case socket_network (hd fields) of
        None \<Rightarrow> None
      | Some network \<Rightarrow> (case List.map_filter socket_port (tl fields) of
            [] \<Rightarrow> None
          | port # _ \<Rightarrow> Some (network, port))))"

text \<open>The map of maps of booleans is the list of the pairs that are true.\<close>

definition parseListeningSockets :: "string \<Rightarrow> (string \<times> int) list" where
  "parseListeningSockets output = List.map_filter socket_line (SplitByte (CHR 0x0A) output)"

definition inbound_network :: "inbound \<Rightarrow> string" where
  "inbound_network b = (if ib_protocol b = ''hysteria2'' then ''udp'' else ''tcp'')"

definition inbound_state :: "(string \<times> int) list option \<Rightarrow> (int \<times> cert_status) list \<Rightarrow> inbound \<Rightarrow> inbound_status" where
  "inbound_state sockets certs b =
     \<lparr>is_id = ib_id b, is_protocol = ib_protocol b, is_port = ib_port b, is_network = inbound_network b,
      is_listening = map_option (\<lambda>ss. (inbound_network b, ib_port b) \<in> set ss) sockets,
      is_cert = map_of (rev certs) (ib_id b)\<rparr>"

definition system_command :: string where
  "system_command = raw (''printf '' @ [quote_char] @ ''{\"mem_total\":%s,\"mem_available\":%s,\"disk_total\":%s,\"disk_used\":%s,\"uptime\":%s}''
     @ [quote_char] @ '' `'' @ [CHR 0x0A, CHR 0x09]
     @ ''$(awk '' @ [quote_char] @ ''/MemTotal/{t=$2} /MemAvailable/{a=$2} END{printf \"%d %d\",t*1024,a*1024}'' @ [quote_char]
     @ '' /proc/meminfo) `'' @ [CHR 0x0A, CHR 0x09]
     @ ''$(df / --output=size,used -B1 | tail -1 | awk '' @ [quote_char] @ ''{printf \"%s %s\",$1,$2}'' @ [quote_char] @ '') `''
     @ [CHR 0x0A, CHR 0x09]
     @ ''$(awk '' @ [quote_char] @ ''{printf \"%d\",$1}'' @ [quote_char] @ '' /proc/uptime)'')"

text \<open>
  \<open>json.Unmarshal\<close> into a map of 64-bit integers, on what the command prints: one object
  without spaces whose members are decimal numbers. A text of another form counts as
  unreadable, a number outside the range is left out.
\<close>

definition json_member :: "string \<Rightarrow> (string \<times> string) option" where
  "json_member s = (case SplitByte (CHR '':'') s of
     [key, number] \<Rightarrow> if length key \<ge> 2 \<and> hd key = CHR 0x22 \<and> last key = CHR 0x22
         \<and> CHR 0x22 \<notin> set (butlast (tl key)) \<and> CHR 0x5C \<notin> set key
         \<and> digits number \<and> (number = ''0'' \<or> hd number \<noteq> CHR ''0'')
       then Some (butlast (tl key), number) else None
   | _ \<Rightarrow> None)"

definition number_map :: "string \<Rightarrow> (string \<rightharpoonup> int) option" where
  "number_map s =
    (if length s < 2 \<or> hd s \<noteq> CHR ''{'' \<or> last s \<noteq> CHR ''}'' then None
     else let ms = map json_member (SplitByte (CHR '','') (butlast (tl s))) in
       if list_ex (\<lambda>m. m = None) ms then None
       else Some (map_of (rev (List.map_filter (\<lambda>(k, v). case Atoi v of (n, no_error) \<Rightarrow>
         if no_error then Some (k, n) else None) (map the ms)))))"

definition system_report :: "string \<Rightarrow> (string \<times> int) list option" where
  "system_report out = map_option (\<lambda>m. map (\<lambda>k. (k, case m k of None \<Rightarrow> 0 | Some n \<Rightarrow> n))
     [''mem_total'', ''mem_available'', ''disk_total'', ''disk_used'', ''uptime'']) (number_map out)"

definition NodeOpsHandler_getStatus :: "request \<Rightarrow> response io" where
  "NodeOpsHandler_getStatus r =
     attempt (NodeStore_Get (parseNodeIDFromConfigPath (r_path r))) (\<lambda>_. writeError 404 ''node not found'') (\<lambda>node. do {
     rs \<leftarrow> next_remote;
     let addr = sshDialAddr node;
     attempt (sshConnect rs node) (\<lambda>e. writeJSON 200 (PUnreachable (n_name node) (err_text e))) (\<lambda>_. do {
       ver \<leftarrow> sshRun addr (n_singbox_bin node @ '' version 2>/dev/null | head -1'');
       svc \<leftarrow> sshRun addr ''systemctl is-active sing-box 2>/dev/null'';
       sockets \<leftarrow> sshRun addr ''ss -H -lntu 2>/dev/null'';
       attempt (NodeStore_ListInbounds (n_id node)) (\<lambda>e. writeError 500 (err_text e)) (\<lambda>inbounds. do {
         now \<leftarrow> get_now;
         certs \<leftarrow> readCertStatuses addr (certTargetsFor inbounds) now;
         sys \<leftarrow> sshRun addr system_command;
         writeJSON 200 (PNodeStatus
           \<lparr>ns_node = n_name node, ns_installed = (TrimSpace (fst ver) \<noteq> ''''), ns_version = TrimSpace (fst ver),
            ns_running = (TrimSpace (fst svc) = ''active''),
            ns_inbounds = map (inbound_state (if snd sockets then Some (parseListeningSockets (fst sockets)) else None) certs) inbounds,
            ns_listener_check_error = (\<not> snd sockets), ns_cert_days_left = certDaysLeftHeadline certs,
            ns_system = system_report (fst sys)\<rparr>) }) }) })"

section \<open>Installing a release\<close>

definition wanted_version :: "string \<Rightarrow> string" where
  "wanted_version v = TrimPrefix (if v = '''' \<or> v = ''recommended'' then recommendedSingboxVersion else v) ''v''"

definition node_arch :: "string \<Rightarrow> string option" where
  "node_arch out = (let a = TrimSpace out in
     if a = ''x86_64'' \<or> a = ''amd64'' then Some ''amd64''
     else if a = ''aarch64'' \<or> a = ''arm64'' then Some ''arm64'' else None)"

text \<open>What follows the last occurrence of a text, \<open>None\<close> when \<open>strings.LastIndex\<close> finds none.\<close>

fun after_last_text :: "string \<Rightarrow> string \<Rightarrow> string option" where
  "after_last_text p [] = None"
| "after_last_text p (c # cs) = (case after_last_text p cs of
     Some t \<Rightarrow> Some t
   | None \<Rightarrow> if HasPrefix (c # cs) p then Some (drop (length p) (c # cs)) else None)"

definition resolve_command :: string where
  "resolve_command = ''curl -fsSLI -o /dev/null -w '' @ [quote_char] @ ''%{url_effective}'' @ [quote_char]
     @ '' \"https://github.com/'' @ singboxRepo @ ''/releases/latest\"''"

definition resolve_version :: "string \<Rightarrow> string \<Rightarrow> string option io" where
  "resolve_version addr version =
    (if version = ''latest'' then do {
       result \<leftarrow> sshRun addr resolve_command;
       let tag = (case after_last_text ''/tag/'' (TrimSpace (fst result)) of None \<Rightarrow> '''' | Some t \<Rightarrow> t);
       State_Monad.return (if \<not> snd result \<or> tag = '''' then None else Some (TrimPrefix tag ''v'')) }
     else State_Monad.return (Some (TrimPrefix version ''v'')))"

definition release_url :: "string \<Rightarrow> string \<Rightarrow> string" where
  "release_url version arch = ''https://github.com/'' @ singboxRepo @ ''/releases/download/v'' @ version
     @ ''/sing-box-'' @ version @ ''-linux-'' @ arch @ ''.tar.gz''"

definition unitPath :: string where
  "unitPath = ''/etc/systemd/system/sing-box.service''"

definition unit_file :: "string \<Rightarrow> string \<Rightarrow> string" where
  "unit_file binPath configPath = raw_lines [''[Unit]'', ''Description=Sing-Box Service'', ''After=network.target'', '''',
     ''[Service]'', ''Type=simple'', ''ExecStart='' @ binPath @ '' run -c '' @ configPath, ''Restart=always'',
     ''RestartSec=3'', ''LimitNOFILE=65536'', '''', ''[Install]'', ''WantedBy=multi-user.target'']"

text \<open>A node without a unit gets one; whether that works is not looked at.\<close>

definition ensure_unit :: "string \<Rightarrow> string \<Rightarrow> string \<Rightarrow> unit io" where
  "ensure_unit addr binPath configPath = do {
     check \<leftarrow> sshRun addr ''test -f /etc/systemd/system/sing-box.service && echo exists'';
     (if Contains (fst check) ''exists'' then State_Monad.return ()
      else do {
        rs \<leftarrow> next_remote;
        written \<leftarrow> on_machine addr (sshWriteText rs unitPath (unit_file binPath configPath));
        sshRun addr ''systemctl daemon-reload && systemctl enable sing-box'';
        (if written then on_machine addr (\<lambda>m. (m\<lparr>m_unit_path := configPath\<rparr>, ())) else State_Monad.return ()) }) }"

definition install_release :: "node \<Rightarrow> string \<Rightarrow> string \<Rightarrow> response io" where
  "install_release node version arch =
    (let addr = sshDialAddr node; binPath = (if n_singbox_bin node = '''' then DefaultSingboxBin else n_singbox_bin node) in do {
       result \<leftarrow> sshRun addr (verifiedInstallScript (release_url version arch) binPath (n_config_path node) version);
       (case result of (out, no_error) \<Rightarrow>
         if \<not> no_error then writeError 500 (''install failed: '' @ TrimSpace out)
         else do {
           ensure_unit addr binPath (n_config_path node);
           writeJSON 200 (PInstalled (n_name node) (''v'' @ version) binPath (TrimSpace out)) }) })"

definition NodeOpsHandler_install :: "request \<Rightarrow> response io" where
  "NodeOpsHandler_install r =
     attempt (NodeStore_Get (parseNodeIDFromConfigPath (r_path r))) (\<lambda>_. writeError 404 ''node not found'') (\<lambda>node.
     case (if r_has_body r then as_install (r_body r) else Some '''') of
       None \<Rightarrow> writeError 400 ''invalid json''
     | Some v \<Rightarrow> let version = wanted_version v in
       if version \<noteq> ''latest'' \<and> \<not> stableVersionPattern version
       then writeError 400 ''version must be recommended, latest, or a stable x.y.z version''
       else do {
         rs \<leftarrow> next_remote;
         attempt (sshConnect rs node) (\<lambda>e. writeError 500 (''ssh: '' @ err_text e)) (\<lambda>_. do {
           uname \<leftarrow> sshRun (sshDialAddr node) ''uname -m'';
           (case node_arch (fst uname) of
              None \<Rightarrow> writeError 400 ''unsupported or unreadable node architecture''
            | Some arch \<Rightarrow>
              if \<not> snd uname then writeError 502 ''failed to read node architecture''
              else do {
                resolved \<leftarrow> resolve_version (sshDialAddr node) version;
                (case resolved of
                   None \<Rightarrow> writeError 500 (''failed to resolve latest version from '' @ singboxRepo)
                 | Some version \<Rightarrow>
                     if \<not> stableVersionPattern version
                     then writeError 502 ''release source did not return a stable version''
                     else install_release node version arch) }) }) })"

section \<open>The panel's key\<close>

definition inject_command :: "string \<Rightarrow> string" where
  "inject_command key = ''mkdir -p ~/.ssh && chmod 700 ~/.ssh && grep -qF \"'' @ key
     @ ''\" ~/.ssh/authorized_keys 2>/dev/null || echo \"'' @ key
     @ ''\" >> ~/.ssh/authorized_keys && chmod 600 ~/.ssh/authorized_keys && echo \"key_added\"''"

text \<open>
  The file of the public key is an argument, \<open>None\<close> when it cannot be read. The dial with a
  password succeeds as the environment says; the \<open>UPDATE\<close> of the password is not checked.
\<close>

definition NodeOpsHandler_setupSSH :: "string option \<Rightarrow> request \<Rightarrow> response io" where
  "NodeOpsHandler_setupSSH pub_key r =
     attempt (NodeStore_Get (parseNodeIDFromConfigPath (r_path r))) (\<lambda>_. writeError 404 ''node not found'') (\<lambda>node.
     case pub_key of
       None \<Rightarrow> writeError 500 ''cannot read panel public key: ''
     | Some bytes \<Rightarrow>
       let pubKey = TrimSpace bytes; given = as_setup_ssh (r_body r);
           password = (if given = '''' then n_ssh_password node else given) in
       if password = ''''
       then writeError 400 ''password required (provide in request body or set ssh_password on node)''
       else do {
         rs \<leftarrow> next_remote;
         if \<not> rs_dial rs then writeError 500 ''ssh connect with password failed: ''
         else do {
           result \<leftarrow> sshRun (sshDialAddr node) (inject_command pubKey);
           (case result of (out, no_error) \<Rightarrow>
             if \<not> no_error then writeError 500 (''inject key failed: '' @ TrimSpace out)
             else do {
               (if given \<noteq> '''' then do {
                  db_exec (set_node (n_id node) (\<lambda>n. n\<lparr>n_ssh_password := given\<rparr>)); State_Monad.return () }
                else State_Monad.return ());
               rs \<leftarrow> next_remote;
               attempt (sshConnect rs node)
                 (\<lambda>e. writeJSON 200 (PSSH ''key_injected_but_verify_failed'' (n_name node) (err_text e)))
                 (\<lambda>_. writeJSON 200 (PSSH ''ready'' (n_name node) ''SSH key auth configured successfully'')) }) } })"

definition NodeOpsHandler_ServeHTTP :: "string option \<Rightarrow> request \<Rightarrow> response io" where
  "NodeOpsHandler_ServeHTTP pub_key r = (let path = r_path r; post = r_method r = ''POST''; got = r_method r = ''GET'' in
     if post \<and> HasSuffix path ''/setup-ssh'' then NodeOpsHandler_setupSSH pub_key r
     else if got \<and> HasSuffix path ''/version'' then NodeOpsHandler_getVersion r
     else if post \<and> HasSuffix path ''/install'' then NodeOpsHandler_install r
     else if post \<and> HasSuffix path ''/upgrade'' then NodeOpsHandler_install r
     else if got \<and> HasSuffix path ''/status'' then NodeOpsHandler_getStatus r
     else if post \<and> HasSuffix path ''/tune'' then NodeOpsHandler_tune r
     else if post \<and> HasSuffix path ''/cert-renew'' then HandleCertRenew r
     else if got \<and> HasSuffix path ''/reality-targets'' then HandleRealityTargets r
     else if post \<and> HasSuffix path ''/reality-target'' then HandleRealityTarget r
     else NotFound)"

end
