(* ===== verification/Reprovision.thy ===== *)
theory Reprovision
  imports NodeOps
begin

text \<open>
  \<open>handler/reprovision.go\<close>: auto-setup of every enabled sing-box node, one after another,
  through the handler of a single node, optionally after an upgrade of its sing-box.
\<close>

text \<open>Without ids every node is wanted. The order is that of the node list, whatever the request's.\<close>

definition selectReprovisionTargets :: "node list \<Rightarrow> int list \<Rightarrow> node list" where
  "selectReprovisionTargets nodes ids =
    (let targets = filter (\<lambda>n. n_proxy_type n = ''singbox'' \<and> (ids = [] \<or> n_id n \<in> set ids)) nodes in
     sort_key n_sort_order (sort_key n_id targets))"

text \<open>\<open>httptest.NewRequest\<close>: the request to the handler of one node.\<close>

definition inner_request :: "int \<Rightarrow> string \<Rightarrow> body \<Rightarrow> request" where
  "inner_request i operation b = \<lparr>r_method = ''POST'', r_path = ''/api/nodes/'' @ Itoa i @ operation,
     r_query = (\<lambda>_. ''''), r_values = (\<lambda>_. []), r_header = (\<lambda>_. ''''), r_body = b, r_has_body = True,
     r_role = '''', r_user = 0\<rparr>"

definition empty_body :: body where
  "empty_body = \<lparr>as_create_user = None, as_update_user = None, as_create_node = None, as_update_node = None,
     as_create_inbound = None, as_reorder = None, as_access = None, as_node_ids = None,
     as_credentials = None, as_traffic = None, as_auto_setup = None, as_reality_target = None,
     as_reprovision = None, as_cert_renew = ('''', False), as_install = None, as_setup_ssh = '''',
     as_upload_cert = None\<rparr>"

definition install_request :: "int \<Rightarrow> string \<Rightarrow> request" where
  "install_request i version = inner_request i ''/install'' (empty_body\<lparr>as_install := Some version\<rparr>)"

definition setup_options :: "node \<Rightarrow> reprovision_req \<Rightarrow> setup_req" where
  "setup_options node options = \<lparr>aq_domain = n_domain node, aq_mode = rv_mode options, aq_protocols = [],
     aq_hysteria2_profile = rv_hysteria2_profile options, aq_reality_sni = rv_reality_sni options,
     aq_port_hysteria2 = 0, aq_port_reality = 0, aq_port_httpupgrade = 0\<rparr>"

definition setup_request_for :: "node \<Rightarrow> reprovision_req \<Rightarrow> request" where
  "setup_request_for node options = inner_request (n_id node) ''/auto-setup''
     (empty_body\<lparr>as_auto_setup := Some (setup_options node options)\<rparr>)"

text \<open>
  \<open>NodeReprovisionResult\<close>: node, name, status, HTTP code, what auto-setup and the install
  answered, and the error. A plain text is not valid JSON and is left out.
\<close>

type_synonym reprovision_result =
  "int \<times> string \<times> string \<times> int \<times> payload option \<times> payload option \<times> string"

definition succeeded :: "reprovision_result \<Rightarrow> bool" where
  "succeeded result \<longleftrightarrow> fst (snd (snd result)) = ''ok''"

definition accepted :: "response \<Rightarrow> bool" where
  "accepted rp \<longleftrightarrow> 200 \<le> rp_status rp \<and> rp_status rp < 300"

definition json_payload :: "payload \<Rightarrow> payload option" where
  "json_payload p = (if p = PNotFound then None else Some p)"

definition setup_node :: "node \<Rightarrow> reprovision_req \<Rightarrow> payload option \<Rightarrow> reprovision_result io" where
  "setup_node node options install = do {
     rp \<leftarrow> HandleAutoSetup (setup_request_for node options);
     State_Monad.return (if accepted rp
       then (n_id node, n_name node, ''ok'', rp_status rp, json_payload (rp_payload rp), install, '''')
       else (n_id node, n_name node, ''failed'', rp_status rp, json_payload (rp_payload rp), install,
             ''auto-setup returned '' @ Itoa (rp_status rp))) }"

definition reprovisionNode :: "reprovision_req \<Rightarrow> node \<Rightarrow> reprovision_result io" where
  "reprovisionNode options node =
    (if rv_upgrade options then do {
       rp \<leftarrow> NodeOpsHandler_install (install_request (n_id node) (rv_version options));
       (if \<not> accepted rp
        then State_Monad.return (n_id node, n_name node, ''failed'', rp_status rp, None, Some (rp_payload rp),
               ''upgrade failed; setup was not attempted'')
        else setup_node node options (Some (rp_payload rp))) }
     else setup_node node options None)"

definition pinned_version :: "string \<Rightarrow> string" where
  "pinned_version v = (if v = '''' \<or> v = ''recommended'' then recommendedSingboxVersion else v)"

definition no_options :: reprovision_req where
  "no_options = \<lparr>rv_mode = '''', rv_node_ids = [], rv_dry_run = False, rv_upgrade = False, rv_version = '''',
     rv_hysteria2_profile = '''', rv_reality_sni = ''''\<rparr>"

definition reprovision_status :: "reprovision_result list \<Rightarrow> int" where
  "reprovision_status results = (let ok_count = length (filter succeeded results) in
     if ok_count = 0 then 502 else if ok_count < length results then 207 else 200)"

definition HandleReprovision :: "request \<Rightarrow> response io" where
  "HandleReprovision r =
    (if r_method r \<noteq> ''POST'' then NotFound
     else case (if r_has_body r then as_reprovision (r_body r) else Some no_options) of
       None \<Rightarrow> writeError 400 ''invalid json''
     | Some req \<Rightarrow>
       if rv_mode req \<notin> {'''', ''auto'', ''direct'', ''cdn'', ''reality''}
       then writeError 400 (''unsupported mode: '' @ rv_mode req)
       else if rv_hysteria2_profile req \<notin> {'''', ''quic'', ''salamander''}
       then writeError 400 ''hysteria2_profile must be quic or salamander''
       else if rv_reality_sni req \<noteq> '''' \<and> \<not> validDomainName (rv_reality_sni req)
       then writeError 400 ''reality_sni must be a domain name''
       else let req = req\<lparr>rv_version := pinned_version (rv_version req)\<rparr> in
       if \<not> stableVersionPattern (rv_version req)
       then writeError 400 ''batch upgrades require a pinned stable x.y.z version''
       else attempt NodeStore_ListEnabled (\<lambda>e. writeError 500 (err_text e)) (\<lambda>nodes.
       let targets = selectReprovisionTargets nodes (rv_node_ids req) in
       if targets = [] then writeError 404 ''no enabled singbox node matched the request''
       else if rv_dry_run req
       then writeJSON 200 (PReprovisionPlan (map (\<lambda>n. (n_id n, n_name n, n_domain n)) targets) req)
       else do {
         results \<leftarrow> map_each (reprovisionNode req) targets;
         let ok_count = int (length (filter succeeded results));
         writeJSON (reprovision_status results) (PReprovision results ok_count (int (length results) - ok_count)) }))"

section \<open>The selection\<close>

lemma in_selectReprovisionTargets: "n \<in> set (selectReprovisionTargets nodes ids) \<longleftrightarrow>
    n \<in> set nodes \<and> n_proxy_type n = ''singbox'' \<and> (ids = [] \<or> n_id n \<in> set ids)"
  by (auto simp: selectReprovisionTargets_def)

text \<open>Ordered by the sort order, and by the id among equals.\<close>

definition listed_before :: "node \<Rightarrow> node \<Rightarrow> bool" where
  "listed_before m n \<longleftrightarrow> n_sort_order m < n_sort_order n \<or> n_sort_order m = n_sort_order n \<and> n_id m \<le> n_id n"

lemma sorted_insort_before:
  assumes "sorted_wrt listed_before ns" "\<And>n. n \<in> set ns \<Longrightarrow> n_id m \<le> n_id n"
  shows "sorted_wrt listed_before (insort_key n_sort_order m ns)"
  using assms by (induction ns) (auto simp: listed_before_def set_insort_key)

lemma selectReprovisionTargets_sorted: "sorted_wrt listed_before (selectReprovisionTargets nodes ids)"
proof -
  have "sorted_wrt listed_before (sort_key n_sort_order ns)" if "sorted (map n_id ns)" for ns
    using that
  proof (induction ns)
    case (Cons n ns)
    have "sort_key n_sort_order (n # ns) = insort_key n_sort_order n (sort_key n_sort_order ns)"
      by (simp add: sort_key_def)
    with Cons show ?case by (auto intro!: sorted_insort_before)
  qed simp
  then show ?thesis by (simp add: selectReprovisionTargets_def)
qed

end
