(* ===== verification/Process.thy ===== *)
theory Process
  imports ConfigHandler
begin

text \<open>
  The process around the handlers: its configuration from the environment
  (\<open>config/config.go\<close>), the build stamp (\<open>buildinfo/buildinfo.go\<close>), and the probes and the
  static assets that \<open>main.go\<close> serves itself.
\<close>

section \<open>Configuration\<close>

record config =
  cf_port :: string
  cf_admin_user :: string
  cf_admin_pass :: string
  cf_jwt_secret :: string
  cf_data_dir :: string
  cf_ssh_key_path :: string
  cf_tls_cert :: string
  cf_tls_key :: string
  cf_location :: "location option"

definition getEnv :: "(string \<Rightarrow> string) \<Rightarrow> string \<Rightarrow> string \<Rightarrow> string" where
  "getEnv Getenv key fallback = (if Getenv key \<noteq> '''' then Getenv key else fallback)"

text \<open>
  The time zones of the embedded database are an argument; UTC is \<open>None\<close>, also for a name the
  database does not have.
\<close>

definition loadLocation :: "(string \<rightharpoonup> location) \<Rightarrow> string \<Rightarrow> location option" where
  "loadLocation zones name = zones name"

text \<open>The random bytes are drawn only without a configured secret.\<close>

definition Load :: "(string \<Rightarrow> string) \<Rightarrow> (string \<rightharpoonup> location) \<Rightarrow> (nat \<Rightarrow> nat) \<Rightarrow> config" where
  "Load Getenv zones random =
    (let secret = getEnv Getenv ''JWT_SECRET'' '''';
         jwtSecret = (if secret = '''' then EncodeToString (map (\<lambda>i. random i mod 256) [0..<32]) else secret) in
     \<lparr>cf_port = getEnv Getenv ''PORT'' ''8080'', cf_admin_user = getEnv Getenv ''ADMIN_USER'' ''admin'',
      cf_admin_pass = getEnv Getenv ''ADMIN_PASS'' '''', cf_jwt_secret = jwtSecret,
      cf_data_dir = getEnv Getenv ''DATA_DIR'' ''/opt/singbox-panel/data'',
      cf_ssh_key_path = getEnv Getenv ''SSH_KEY_PATH'' ''/root/.ssh/id_ed25519'',
      cf_tls_cert = getEnv Getenv ''TLS_CERT'' '''', cf_tls_key = getEnv Getenv ''TLS_KEY'' '''',
      cf_location = loadLocation zones (getEnv Getenv ''TIMEZONE'' ''Asia/Shanghai'')\<rparr>)"

section \<open>The build\<close>

record build_info =
  bi_version :: string
  bi_commit :: string
  bi_date :: string
  bi_dirty :: bool

definition withDefaults :: "build_info \<Rightarrow> build_info" where
  "withDefaults info =
    (let info = (if bi_version info = '''' then info\<lparr>bi_version := ''dev''\<rparr> else info) in
     if bi_commit info = '''' then info\<lparr>bi_commit := ''unknown''\<rparr> else info)"

definition shortCommit :: "string \<Rightarrow> string" where
  "shortCommit revision = (if length revision > 12 then take 12 revision else revision)"

definition vcs_setting :: "build_info \<Rightarrow> string \<times> string \<Rightarrow> build_info" where
  "vcs_setting info setting = (case setting of (key, v) \<Rightarrow>
     if key = ''vcs.revision'' then (if bi_commit info = '''' then info\<lparr>bi_commit := shortCommit v\<rparr> else info)
     else if key = ''vcs.time'' then (if bi_date info = '''' then info\<lparr>bi_date := v\<rparr> else info)
     else if key = ''vcs.modified'' then info\<lparr>bi_dirty := (v = ''true'')\<rparr>
     else info)"

text \<open>What the linker stamped, and the settings the toolchain embedded if it did.\<close>

definition buildinfo_Get :: "string \<Rightarrow> string \<Rightarrow> string \<Rightarrow> (string \<times> string) list option \<Rightarrow> build_info" where
  "buildinfo_Get version commit date settings =
    (let info = \<lparr>bi_version = version, bi_commit = commit, bi_date = date, bi_dirty = False\<rparr> in
     case settings of
       None \<Rightarrow> withDefaults info
     | Some ss \<Rightarrow> withDefaults (foldl vcs_setting info ss))"

section \<open>Probes\<close>

definition serve_health :: "request \<Rightarrow> response io" where
  "serve_health r = writeJSON 200 (PStatus ''ok'')"

definition serve_version :: "build_info \<Rightarrow> request \<Rightarrow> response io" where
  "serve_version info r = writeJSON 200 (PBuild (bi_version info) (bi_commit info) (bi_date info) (bi_dirty info))"

text \<open>\<open>PingContext\<close> fails as a statement may.\<close>

definition serve_ready :: "request \<Rightarrow> response io" where
  "serve_ready r = attempt (db_query (\<lambda>_. Inr ()))
     (\<lambda>e. writeJSON 503 (PReady ''unready'' (err_text e))) (\<lambda>_. writeJSON 200 (PReady ''ready'' ''ok''))"

section \<open>Assets\<close>

text \<open>
  The embedded files: the index if the frontend was built, which paths are files, and what
  \<open>http.FileServer\<close> answers for one.
\<close>

record assets =
  ax_index :: "string option"
  ax_is_file :: "string \<Rightarrow> bool"
  ax_serve :: "string \<Rightarrow> response"

definition spaHandler :: "assets \<Rightarrow> request \<Rightarrow> response io" where
  "spaHandler a r =
    (if HasPrefix (r_path r) ''/api/'' then NotFound
     else case ax_index a of
       None \<Rightarrow> writeJSON 503 (PText [] (''frontend not built: run '' @ [CHR 0x60] @ ''make web'' @ [CHR 0x60]
         @ '' before building the binary''))
     | Some index \<Rightarrow>
         let path = TrimPrefix (r_path r) ''/'' in
         if path \<noteq> '''' \<and> ax_is_file a path then State_Monad.return (ax_serve a (r_path r))
         else writeJSON 200 (PText [(''Content-Type'', ''text/html; charset=utf-8'')] index))"

text \<open>A build is always named, and a given stamp is not replaced.\<close>

lemma vcs_setting_keeps: "bi_version (vcs_setting info s) = bi_version info"
  "bi_commit info \<noteq> '''' \<Longrightarrow> bi_commit (vcs_setting info s) = bi_commit info"
  by (auto simp: vcs_setting_def split: prod.splits)

lemma foldl_vcs: "bi_version (foldl vcs_setting info ss) = bi_version info"
  "bi_commit info \<noteq> '''' \<Longrightarrow> bi_commit (foldl vcs_setting info ss) = bi_commit info"
  by (induction ss arbitrary: info) (simp_all add: vcs_setting_keeps)

lemma buildinfo_stamp: "bi_version (buildinfo_Get version commit date ss) = (if version = '''' then ''dev'' else version)"
  "commit \<noteq> '''' \<Longrightarrow> bi_commit (buildinfo_Get version commit date ss) = commit"
  "bi_commit (buildinfo_Get version commit date ss) \<noteq> ''''"
  by (auto simp: buildinfo_Get_def withDefaults_def foldl_vcs Let_def split: option.splits)

end
