(* ===== verification/Panel.thy ===== *)
theory Panel
  imports UserHandler AccessHandler Stats Subscription Reprovision Process
begin

text \<open>
  \<open>handler/batch.go\<close> and the routes of \<open>main.go\<close>: which handler answers which path, and
  behind which middleware.
\<close>

section \<open>Batch operations\<close>

definition PushAll :: "request \<Rightarrow> response io" where
  "PushAll r =
    (if r_method r \<noteq> ''POST'' then NotFound
     else attempt NodeStore_ListEnabled (\<lambda>e. writeError 500 (err_text e)) (\<lambda>nodes.
       do { results \<leftarrow> SyncNodes (map n_id nodes); writeJSON 200 (PSync results) }))"

definition ApplyTemplate :: "response io" where
  "ApplyTemplate = writeError 410 ''use POST /api/nodes/{id}/auto-setup instead''"

section \<open>Routes\<close>

text \<open>
  What \<open>main\<close> wires together beside the database: the libraries, the credentials, the time
  zone, the panel's public key file, the build stamp and the embedded assets.
\<close>

record panel =
  pn_lib :: crypto
  pn_auth :: auth
  pn_loc :: "location option"
  pn_x509 :: key_pairs
  pn_pub_key :: "string option"
  pn_build :: build_info
  pn_assets :: assets

definition user_routes :: "request \<Rightarrow> response io" where
  "user_routes r = (if HasSuffix (r_path r) ''/access'' then AccessHandler_ServeHTTP (Some SyncNodes) r
     else UserHandler_ServeHTTP (Some SyncNodes) r)"

definition ops_suffixes :: "string list" where
  "ops_suffixes = [''/version'', ''/install'', ''/upgrade'', ''/status'', ''/tune'', ''/setup-ssh'',
     ''/reality-targets'', ''/reality-target'', ''/cert-renew'']"

definition node_routes :: "panel \<Rightarrow> request \<Rightarrow> response io" where
  "node_routes p r = (let path = r_path r in
     if HasSuffix path ''/generate'' \<or> HasSuffix path ''/push'' \<or> HasSuffix path ''/raw-config''
     then ConfigHandler_ServeHTTP r
     else if list_ex (HasSuffix path) ops_suffixes then NodeOpsHandler_ServeHTTP (pn_pub_key p) r
     else if HasSuffix path ''/cert-upload'' then HandleCertUpload (pn_x509 p) r
     else if HasSuffix path ''/setup-assessment'' then HandleSetupAssessment r
     else if HasSuffix path ''/auto-setup'' then HandleAutoSetup r
     else if HasSuffix path ''/inbounds/reorder'' then NodeHandler_ReorderInbounds (Some SyncNodes) r
     else NodeHandler_ServeHTTP (Some SyncNodes) r)"

text \<open>
  The patterns of the mux with their handlers. A pattern that ends in a slash matches its
  subtree, any other one its path; the longest match wins.
\<close>

definition public_routes :: "panel \<Rightarrow> (string \<times> (request \<Rightarrow> response io)) list" where
  "public_routes p = [(''/'', spaHandler (pn_assets p)), (''/api/health'', serve_health),
     (''/api/version'', serve_version (pn_build p)), (''/api/ready'', serve_ready),
     (''/api/login'', HandleLogin (pn_lib p) (pn_auth p)), (''/api/register'', HandleRegister (pn_lib p)),
     (''/api/node/report'', HandleTrafficReport), (''/sub/'', Subscription_ServeHTTP)]"

definition session_routes :: "panel \<Rightarrow> (string \<times> (request \<Rightarrow> response io)) list" where
  "session_routes p = [(''/api/me'', HandleMe), (''/api/me/nodes'', HandleMyNodes),
     (''/api/me/usage'', HandleMyUsage (pn_loc p))]"

definition admin_routes :: "panel \<Rightarrow> (string \<times> (request \<Rightarrow> response io)) list" where
  "admin_routes p = [(''/api/users'', UserHandler_ServeHTTP (Some SyncNodes)), (''/api/users/'', user_routes),
     (''/api/nodes'', NodeHandler_ServeHTTP (Some SyncNodes)), (''/api/nodes/reorder'', NodeHandler_Reorder),
     (''/api/nodes/'', node_routes p), (''/api/inbounds/'', NodeHandler_ServeHTTP (Some SyncNodes)),
     (''/api/batch/push-all'', PushAll), (''/api/batch/reprovision'', HandleReprovision),
     (''/api/batch/template'', (\<lambda>r. ApplyTemplate)), (''/api/stats/meta'', (\<lambda>r. HandleMeta (pn_loc p))),
     (''/api/stats/usage'', HandleUsage (pn_loc p)), (''/api/stats/users'', (\<lambda>r. HandleUserStats)),
     (''/api/stats/nodes'', (\<lambda>r. HandleNodeStats))]"

definition routes :: "panel \<Rightarrow> (string \<times> (request \<Rightarrow> response io)) list" where
  "routes p = public_routes p
     @ map (\<lambda>(pat, h). (pat, JWTAuth (pn_lib p) (pn_auth p) h)) (session_routes p)
     @ map (\<lambda>(pat, h). (pat, AdminOnly (pn_lib p) (pn_auth p) h)) (admin_routes p)"

definition mux_match :: "string \<Rightarrow> string \<Rightarrow> bool" where
  "mux_match path pat \<longleftrightarrow> (if HasSuffix pat ''/'' then HasPrefix path pat else path = pat)"

fun longest :: "string \<Rightarrow> (string \<times> 'h) list \<Rightarrow> (string \<times> 'h) option" where
  "longest path [] = None"
| "longest path ((pat, h) # rest) =
    (if \<not> mux_match path pat then longest path rest
     else case longest path rest of
       None \<Rightarrow> Some (pat, h)
     | Some (pat', h') \<Rightarrow> if length pat' > length pat then Some (pat', h') else Some (pat, h))"

definition panel_serve :: "panel \<Rightarrow> request \<Rightarrow> response io" where
  "panel_serve p r = (case longest (r_path r) (routes p) of None \<Rightarrow> NotFound | Some (pat, h) \<Rightarrow> h r)"

end
