(* ===== verification/Effects.thy ===== *)
theory Effects
  imports TrafficStore
begin

text \<open>
  The effect of the stores' writing operations on the database, as rules for \<open>wp\<close>: what
  each leaves when it succeeds, that a transaction that fails leaves nothing, and the one
  case in between, an operation that reports an error of its final \<open>SELECT\<close> after its change
  is committed.
\<close>

section \<open>Composing statements\<close>

lemma becomes_refl [simp]: "becomes w (w_db w) w"
  by (simp add: becomes_def)

lemma becomes_trans: "becomes w d w' \<Longrightarrow> becomes w' d' w'' \<Longrightarrow> becomes w d' w''"
  by (simp add: becomes_def)

lemma becomes_db: "becomes w d w' \<Longrightarrow> w_db w' = d"
  by (simp add: becomes_def)

lemma becomes_now: "becomes w d w' \<Longrightarrow> w_now w' = w_now w"
  by (simp add: becomes_def)

text \<open>
  \<open>does m f P\<close>: \<open>m\<close> succeeds with the database changed by \<open>f\<close> and a result that \<open>P\<close> relates
  to the database it found, or fails with the database in some state.
\<close>

definition does :: "'a res \<Rightarrow> (datetime \<Rightarrow> db \<Rightarrow> db) \<Rightarrow> (datetime \<Rightarrow> db \<Rightarrow> 'a \<Rightarrow> bool) \<Rightarrow> bool" where
  "does m f P \<longleftrightarrow> (\<forall>w. wp m (\<lambda>r w'. (\<exists>d. becomes w d w') \<and>
      (\<forall>a. r = Inr a \<longrightarrow> w_db w' = f (w_now w) (w_db w) \<and> P (w_now w) (w_db w) a)) w)"

lemma does_wp: "does m f P \<Longrightarrow> (\<And>d r w'. becomes w d w' \<Longrightarrow>
    (\<And>a. r = Inr a \<Longrightarrow> d = f (w_now w) (w_db w) \<and> P (w_now w) (w_db w) a) \<Longrightarrow> Q r w') \<Longrightarrow> wp m Q w"
  unfolding does_def by (erule allE, erule wp_mono) (auto simp: becomes_def)

lemma does_weaken:
  assumes "does m f P" "\<And>now d a. P now d a \<Longrightarrow> f now d = g now d \<and> R now d a"
  shows "does m g R"
  unfolding does_def by (intro allI, rule does_wp [OF assms(1)]) (auto dest: assms(2) simp: becomes_def)

lemma does_query: "does (db_query q) (\<lambda>now d. d) (\<lambda>now d a. q d = Inr a)"
  by (auto simp: does_def becomes_def intro!: wp_db_query)

lemma does_exec: "does (db_exec f) (\<lambda>now d. case f d of Inl _ \<Rightarrow> d | Inr p \<Rightarrow> snd p)
    (\<lambda>now d a. \<exists>d'. f d = Inr (a, d'))"
  by (auto simp: does_def becomes_def intro!: wp_db_exec)

lemma does_ok: "does (ok a) (\<lambda>now d. d) (\<lambda>now d b. b = a)"
  by (auto simp: does_def ok_def wp_step becomes_def)

lemma does_fail: "does (fail e) f (\<lambda>now d b. False)"
  by (auto simp: does_def fail_def wp_step becomes_def)

lemma does_and_then:
  assumes "does m f P" and "\<And>a. does (k a) g (R a)"
  shows "does (and_then m k) (\<lambda>now d. g now (f now d)) (\<lambda>now d b. \<exists>a. P now d a \<and> R a now (f now d) b)"
  unfolding does_def wp_and_then
proof (intro allI, rule does_wp [OF assms(1)], intro conjI allI impI, goal_cases)
  case (4 w d r w1 a)
  show ?case
    by (rule does_wp [OF assms(2)]) (use 4 in \<open>auto simp: becomes_def\<close>)
qed (auto simp: becomes_def)

lemma does_for_each:
  assumes "\<And>x. x \<in> set xs \<Longrightarrow> does (f x) (g x) (\<lambda>now d _. P x now d)"
  shows "does (for_each f xs) (\<lambda>now d. fold (\<lambda>x d. g x now d) xs d)
    (\<lambda>now d _. \<forall>i < length xs. P (xs ! i) now (fold (\<lambda>x d. g x now d) (take i xs) d))"
  using assms
proof (induction xs)
  case Nil
  show ?case by (simp add: does_def wp_step becomes_def)
next
  case (Cons x xs)
  then have "does (for_each f xs) (\<lambda>now d. fold (\<lambda>x d. g x now d) xs d)
    (\<lambda>now d _. \<forall>i < length xs. P (xs ! i) now (fold (\<lambda>x d. g x now d) (take i xs) d))" by simp
  from does_and_then [OF Cons.prems [of x] this]
  have "does (for_each f (x # xs)) (\<lambda>now d. fold (\<lambda>x d. g x now d) xs (g x now d))
    (\<lambda>now d _. P x now d \<and>
      (\<forall>i < length xs. P (xs ! i) now (fold (\<lambda>x d. g x now d) (take i xs) (g x now d))))"
    by simp
  then show ?case
    by (rule does_weaken) (auto simp: less_Suc_eq_0_disj)
qed

text \<open>A transaction around it either has exactly this effect or none.\<close>

lemma wp_transaction_does:
  assumes "does m f P"
    and "\<And>e w'. becomes w (w_db w) w' \<Longrightarrow> Q (Inl e) w'"
    and "\<And>a w'. becomes w (f (w_now w) (w_db w)) w' \<Longrightarrow> P (w_now w) (w_db w) a \<Longrightarrow> Q (Inr a) w'"
  shows "wp (transaction m) Q w"
proof (rule wp_transaction)
  fix w0 assume w0: "becomes w (w_db w) w0"
  show "wp m (\<lambda>r w1. (\<exists>d. becomes w d w1) \<and>
      (\<forall>a w'. r = Inr a \<longrightarrow> becomes w (w_db w1) w' \<longrightarrow> Q (Inr a) w')) w0"
    by (rule does_wp [OF assms(1)])
      (use w0 assms(3) in \<open>auto simp: becomes_def\<close>)
qed (rule assms(2))

section \<open>Edits of users\<close>

definition opt_edit :: "'x option \<Rightarrow> ('x \<Rightarrow> 'r \<Rightarrow> 'r) \<Rightarrow> 'r \<Rightarrow> 'r" where
  "opt_edit x g r = (case x of None \<Rightarrow> r | Some v \<Rightarrow> g v r)"

lemma opt_edit_simps [simp]: "opt_edit None g = (\<lambda>r. r)" "opt_edit (Some v) g = g v"
  by (simp_all add: opt_edit_def fun_eq_iff)

text \<open>The row an edit leaves.\<close>

definition edited :: "update_user_req \<Rightarrow> string \<Rightarrow> user \<Rightarrow> user" where
  "edited req now u =
     opt_edit (uu_note req) (\<lambda>v u. u\<lparr>u_note := v, u_updated := now\<rparr>)
     (opt_edit (uu_expire req) (\<lambda>v u. u\<lparr>u_expire := v, u_updated := now\<rparr>)
     (opt_edit (uu_reset_day req) (\<lambda>v u. u\<lparr>u_reset_day := v, u_updated := now\<rparr>)
     (opt_edit (uu_limit req) (\<lambda>v u. u\<lparr>u_limit := v, u_updated := now\<rparr>)
     (opt_edit (uu_enabled req) (\<lambda>v u. u\<lparr>u_enabled := v, u_updated := now\<rparr>)
     (opt_edit (uu_name req) (\<lambda>v u. u\<lparr>u_name := v, u_updated := now\<rparr>) u)))))"

definition upd_user :: "int \<Rightarrow> (user \<Rightarrow> user) \<Rightarrow> db \<Rightarrow> db" where
  "upd_user i f d = d\<lparr>d_users := upd_row u_id i f (d_users d)\<rparr>"

lemma upd_user_id: "upd_user i (\<lambda>u. u) d = d"
  by (simp add: upd_user_def upd_row_def)

lemma upd_user_comp:
  assumes "\<And>u. u_id (f u) = u_id u"
  shows "upd_user i g (upd_user i f d) = upd_user i (\<lambda>u. g (f u)) d"
  using assms by (simp add: upd_user_def upd_upd_row)

lemma does_when_set_user:
  "does (when_given x (\<lambda>v. db_exec (set_user i (g v)))) (\<lambda>now. upd_user i (opt_edit x g)) (\<lambda>now d _. True)"
proof (cases x)
  case None
  then show ?thesis
    by (simp add: when_given_def does_def wp_step becomes_def upd_user_id)
next
  case (Some v)
  have "does (db_exec (set_user i (g v))) (\<lambda>now. upd_user i (g v)) (\<lambda>now d _. True)"
    by (rule does_weaken [OF does_exec]) (auto simp: set_user_def upd_user_def)
  with Some show ?thesis by (simp add: when_given_def)
qed

text \<open>A new name is given to one user only.\<close>

definition name_free :: "int \<Rightarrow> string option \<Rightarrow> db \<Rightarrow> bool" where
  "name_free i x d \<longleftrightarrow> (\<forall>v. x = Some v \<longrightarrow>
     \<not> ((\<exists>u \<in> set (d_users d). u_id u = i) \<and> (\<exists>u \<in> set (d_users d). u_id u \<noteq> i \<and> u_name u = v)))"

lemma does_set_user_name:
  "does (when_given x (\<lambda>v. db_exec (set_user_name i v now)))
     (\<lambda>_. upd_user i (opt_edit x (\<lambda>v u. u\<lparr>u_name := v, u_updated := now\<rparr>)))
     (\<lambda>_ d _. name_free i x d)"
proof (cases x)
  case None
  then show ?thesis
    by (simp add: when_given_def does_def wp_step becomes_def upd_user_id name_free_def)
next
  case (Some v)
  have "does (db_exec (set_user_name i v now))
      (\<lambda>_. upd_user i (\<lambda>u. u\<lparr>u_name := v, u_updated := now\<rparr>)) (\<lambda>_ d _. name_free i (Some v) d)"
    by (rule does_weaken [OF does_exec])
      (auto simp: set_user_name_def set_user_def upd_user_def name_free_def list_ex_iff split: if_splits)
  with Some show ?thesis by (simp add: when_given_def)
qed

lemma u_id_opt_edit [simp]: "(\<And>v u. u_id (g v u) = u_id u) \<Longrightarrow> u_id (opt_edit x g u) = u_id u"
  by (simp add: opt_edit_def split: option.splits)

lemma u_id_edited [simp]: "u_id (edited req now u) = u_id u"
  by (simp add: edited_def)

lemma does_get_now_text:
  assumes "\<And>now. does (k (FormatDateTime now)) (\<lambda>_. f now) (\<lambda>_ d _. P now d)"
  shows "does (do { now \<leftarrow> get_now_text; k now }) f (\<lambda>now d _. P now d)"
  using assms by (simp add: does_def wp_step)

lemma does_applyUserUpdate:
  "does (applyUserUpdate i req) (\<lambda>now. upd_user i (edited req (FormatDateTime now)))
     (\<lambda>now d _. name_free i (uu_name req) d)"
  unfolding applyUserUpdate_def
proof (rule does_get_now_text)
  fix now
  note steps = does_and_then [OF does_set_user_name]
    does_and_then [OF does_when_set_user] does_when_set_user
  let ?now = "FormatDateTime now"
  show "does (and_then (when_given (uu_name req) (\<lambda>v. db_exec (set_user_name i v ?now))) (\<lambda>_.
     and_then (when_given (uu_enabled req)
       (\<lambda>v. db_exec (set_user i (\<lambda>u. u\<lparr>u_enabled := v, u_updated := ?now\<rparr>)))) (\<lambda>_.
     and_then (when_given (uu_limit req)
       (\<lambda>v. db_exec (set_user i (\<lambda>u. u\<lparr>u_limit := v, u_updated := ?now\<rparr>)))) (\<lambda>_.
     and_then (when_given (uu_reset_day req)
       (\<lambda>v. db_exec (set_user i (\<lambda>u. u\<lparr>u_reset_day := v, u_updated := ?now\<rparr>)))) (\<lambda>_.
     and_then (when_given (uu_expire req)
       (\<lambda>v. db_exec (set_user i (\<lambda>u. u\<lparr>u_expire := v, u_updated := ?now\<rparr>)))) (\<lambda>_.
     when_given (uu_note req)
       (\<lambda>v. db_exec (set_user i (\<lambda>u. u\<lparr>u_note := v, u_updated := ?now\<rparr>)))))))))
    (\<lambda>_. upd_user i (edited req ?now)) (\<lambda>_ d _. name_free i (uu_name req) d)"
    by (rule does_weaken, (rule steps)+) (simp add: upd_user_comp edited_def [abs_def])
qed

section \<open>Assignments\<close>

definition set_access :: "int \<Rightarrow> int list \<Rightarrow> db \<Rightarrow> db" where
  "set_access i ids d = d\<lparr>d_access := del_rows (\<lambda>a. fst a = i) (d_access d) @ map (Pair i) ids\<rparr>"

lemma does_count_users: "does (count_users i) (\<lambda>now d. d)
    (\<lambda>now d a. a = count_rows (\<lambda>u. u_id u = i) (d_users d))"
  unfolding count_users_def by (rule does_weaken [OF does_query]) auto

lemma does_count_nodes: "does (count_nodes i) (\<lambda>now d. d)
    (\<lambda>now d a. a = count_rows (\<lambda>n. n_id n = i) (d_nodes d))"
  unfolding count_nodes_def by (rule does_weaken [OF does_query]) auto

text \<open>\<open>if exists == 0 { return err }\<close>\<close>

lemma does_check:
  "does (if c then fail e else ok ()) (\<lambda>now d. d) (\<lambda>now d _. \<not> c)"
  by (simp add: does_def wp_step fail_def ok_def becomes_def)

lemma does_if:
  assumes "does m f P"
  shows "does (if c then fail e else m) f (\<lambda>now d a. \<not> c \<and> P now d a)"
  using assms does_fail [of e f] by (cases c) (simp_all add: does_def)

lemma does_require_node: "does (require_node i) (\<lambda>now d. d) (\<lambda>now d _. i \<in> n_id ` set (d_nodes d))"
  unfolding require_node_def
  by (rule does_weaken, rule does_and_then [OF does_count_nodes], rule does_check)
    (auto simp: table_law)

lemma fold_id: "fold (\<lambda>x d. d) xs d = d"
  by (induction xs) auto

lemma does_require_nodes: "does (for_each require_node ids) (\<lambda>now d. d)
    (\<lambda>now d _. set ids \<subseteq> n_id ` set (d_nodes d))"
  by (rule does_weaken, rule does_for_each, rule does_require_node)
    (auto simp: fold_id in_set_conv_nth)

lemma does_delete_access: "does (delete_access_of_user i) (\<lambda>now. set_access i []) (\<lambda>now d _. True)"
  unfolding delete_access_of_user_def by (rule does_weaken [OF does_exec]) (auto simp: set_access_def)

lemma does_insert_access: "does (insert_access i k)
    (\<lambda>now d. d\<lparr>d_access := d_access d @ [(i, k)]\<rparr>) (\<lambda>now d _. (i, k) \<notin> set (d_access d))"
  unfolding insert_access_def by (rule does_weaken [OF does_exec]) (auto split: if_splits)

lemma fold_insert_access:
  "fold (\<lambda>k d. d\<lparr>d_access := d_access d @ [(i, k)]\<rparr>) ids d = d\<lparr>d_access := d_access d @ map (Pair i) ids\<rparr>"
  by (induction ids arbitrary: d) auto

lemma does_insert_accesses: "does (for_each (insert_access i) ids)
    (\<lambda>now d. d\<lparr>d_access := d_access d @ map (Pair i) ids\<rparr>) (\<lambda>now d _. True)"
  by (rule does_weaken, rule does_for_each, rule does_insert_access) (auto simp: fold_insert_access)

lemma set_access_append: "(set_access i [] d)\<lparr>d_access := d_access (set_access i [] d) @ map (Pair i) ids\<rparr>
    = set_access i ids d"
  by (simp add: set_access_def)

lemma does_replace_access: "does (and_then (delete_access_of_user i) (\<lambda>_. for_each (insert_access i) ids))
    (\<lambda>now. set_access i ids) (\<lambda>now d _. True)"
  by (rule does_weaken, rule does_and_then [OF does_delete_access does_insert_accesses])
    (simp add: set_access_append)

text \<open>
  The edit of a user with its assignments. The error after the commit is the one of the
  final \<open>Get\<close>.
\<close>

definition edit_access :: "int \<Rightarrow> update_user_req \<Rightarrow> int list \<Rightarrow> datetime \<Rightarrow> db \<Rightarrow> db" where
  "edit_access i req ids now d
    = set_access i (uniqueSortedIDs ids) (upd_user i (edited req (FormatDateTime now)) d)"

lemma wp_UserStore_Get:
  assumes "\<And>w'. becomes w (w_db w) w' \<Longrightarrow> Q (Inl ErrIO) w'"
    and "\<And>w'. becomes w (w_db w) w' \<Longrightarrow> sel_row u_id i (d_users (w_db w)) = None \<Longrightarrow> Q (Inl ErrNoRows) w'"
    and "\<And>w' u. becomes w (w_db w) w' \<Longrightarrow> sel_row u_id i (d_users (w_db w)) = Some u
      \<Longrightarrow> Q (Inr (scan_user u)) w'"
  shows "wp (UserStore_Get i) Q w"
  unfolding UserStore_Get_def
  by (rule wp_db_query) (use assms in \<open>auto split: option.splits simp: map_option_case\<close>)

lemma d_users_set_access [simp]: "d_users (set_access i ids d) = d_users d"
  "d_nodes (set_access i ids d) = d_nodes d" "d_inbounds (set_access i ids d) = d_inbounds d"
  "d_logs (set_access i ids d) = d_logs d"
  by (simp_all add: set_access_def)

lemma d_nodes_upd_user [simp]: "d_nodes (upd_user i f d) = d_nodes d"
  "d_access (upd_user i f d) = d_access d" "d_inbounds (upd_user i f d) = d_inbounds d"
  "d_logs (upd_user i f d) = d_logs d" "d_users (upd_user i f d) = upd_row u_id i f (d_users d)"
  by (simp_all add: upd_user_def)

lemma set_access_upd_user: "set_access i ids (upd_user k f d) = upd_user k f (set_access i ids d)"
  by (simp add: set_access_def upd_user_def)

text \<open>What the statements of the transaction have checked when it commits.\<close>

definition edit_valid :: "int \<Rightarrow> update_user_req \<Rightarrow> int list \<Rightarrow> db \<Rightarrow> bool" where
  "edit_valid i req ids d \<longleftrightarrow> i \<in> u_id ` set (d_users d) \<and> name_free i (uu_name req) d
     \<and> set (uniqueSortedIDs ids) \<subseteq> n_id ` set (d_nodes d)"

lemma wp_UserStore_UpdateWithAccess:
  assumes fail: "\<And>e w'. becomes w (w_db w) w' \<Longrightarrow> Q (Inl e) w'"
    and late: "\<And>w'. becomes w (edit_access i req ids (w_now w) (w_db w)) w' \<Longrightarrow>
      edit_valid i req ids (w_db w) \<Longrightarrow> Q (Inl ErrIO) w'"
    and succ: "\<And>w' u. becomes w (edit_access i req ids (w_now w) (w_db w)) w' \<Longrightarrow>
      sel_row u_id i (d_users (w_db w)) = Some u \<Longrightarrow> edit_valid i req ids (w_db w) \<Longrightarrow>
      Q (Inr (scan_user (edited req (FormatDateTime (w_now w)) u))) w'"
  shows "wp (UserStore_UpdateWithAccess i req ids) Q w"
proof -
  have "does (and_then (for_each require_node (uniqueSortedIDs ids)) (\<lambda>_.
       and_then (applyUserUpdate i req) (\<lambda>_.
       and_then (delete_access_of_user i) (\<lambda>_.
       for_each (insert_access i) (uniqueSortedIDs ids)))))
    (edit_access i req ids) (\<lambda>now d _. set (uniqueSortedIDs ids) \<subseteq> n_id ` set (d_nodes d)
       \<and> name_free i (uu_name req) d)"
    by (rule does_weaken, rule does_and_then [OF does_require_nodes],
        rule does_and_then [OF does_applyUserUpdate], rule does_replace_access)
      (auto simp: edit_access_def)
  note body = does_and_then [OF does_count_users does_if [OF this]]
  have row: "sel_row u_id i (d_users (edit_access i req ids (w_now w) (w_db w)))
      = map_option (edited req (FormatDateTime (w_now w))) (sel_row u_id i (d_users (w_db w)))"
    by (simp add: edit_access_def sel_row_upd)
  show ?thesis
    unfolding UserStore_UpdateWithAccess_def Let_def wp_and_then
  proof (rule wp_transaction_does [OF body], goal_cases)
    case (1 e w')
    then show ?case using fail by simp
  next
    case (2 a w')
    then have ex: "sel_row u_id i (d_users (w_db w)) \<noteq> None"
      and nodes: "edit_valid i req ids (w_db w)"
      by (auto simp: sel_row_None image_iff count_rows_pos edit_valid_def)
    note b = becomes_trans [OF 2(1)]
    have db: "w_db w' = edit_access i req ids (w_now w) (w_db w)" using 2(1) by (simp add: becomes_db)
    show ?case
      using ex nodes
      by (auto simp: db row intro!: wp_UserStore_Get intro: late succ dest!: b)
  qed
qed

lemma wp_UserStore_Update:
  assumes fail: "\<And>e w'. becomes w (w_db w) w' \<Longrightarrow> Q (Inl e) w'"
    and late: "\<And>w'. becomes w (upd_user i (edited req (FormatDateTime (w_now w))) (w_db w)) w'
      \<Longrightarrow> name_free i (uu_name req) (w_db w) \<Longrightarrow> Q (Inl ErrIO) w'"
    and succ: "\<And>w' u. becomes w (upd_user i (edited req (FormatDateTime (w_now w))) (w_db w)) w' \<Longrightarrow>
      sel_row u_id i (d_users (w_db w)) = Some u \<Longrightarrow> name_free i (uu_name req) (w_db w) \<Longrightarrow>
      Q (Inr (scan_user (edited req (FormatDateTime (w_now w)) u))) w'"
  shows "wp (UserStore_Update i req) Q w"
proof -
  note body = does_and_then [OF does_applyUserUpdate does_and_then [OF does_count_users does_check]]
  show ?thesis
    unfolding UserStore_Update_def wp_and_then
  proof (rule wp_transaction_does [OF body], goal_cases)
    case (1 e w')
    then show ?case using fail by simp
  next
    case (2 a w')
    have db: "w_db w' = upd_user i (edited req (FormatDateTime (w_now w))) (w_db w)"
      using 2(1) by (simp add: becomes_db)
    have row: "sel_row u_id i (d_users (w_db w'))
        = map_option (edited req (FormatDateTime (w_now w))) (sel_row u_id i (d_users (w_db w)))"
      by (simp add: db sel_row_upd)
    have "i \<in> u_id ` set (upd_row u_id i (edited req (FormatDateTime (w_now w))) (d_users (w_db w)))"
      using 2(2) by (auto simp: count_rows_pos)
    then have ex: "sel_row u_id i (d_users (w_db w)) \<noteq> None"
      using row sel_row_None [of u_id i "d_users (w_db w')"] by (auto simp: db)
    have free: "name_free i (uu_name req) (w_db w)" using 2(2) by auto
    have b: "becomes w (upd_user i (edited req (FormatDateTime (w_now w))) (w_db w)) w''"
      if "becomes w' (w_db w') w''" for w''
      using that 2(1) by (simp add: becomes_def)
    show ?case
      by (simp, rule wp_UserStore_Get) (use ex free in \<open>auto simp: row intro: late succ dest!: b\<close>)
  qed
qed

lemma in_set_access [simp]: "(j, i) \<in> set (d_access (set_access k ids d))
    \<longleftrightarrow> (if j = k then i \<in> set ids else (j, i) \<in> set (d_access d))"
  by (auto simp: set_access_def set_del_rows)

end
