(* ===== verification/Integrity.thy ===== *)
theory Integrity
  imports Effects
begin

text \<open>
  The well-formedness of the database: keys are unique and below the sequences, the unique
  columns are unique, and every assignment, inbound and traffic sample refers to rows that
  exist, although SQLite is not asked to check foreign keys.
\<close>

definition users_ok :: "db \<Rightarrow> bool" where
  "users_ok d \<longleftrightarrow> table_ok u_id (d_users d) \<and> (\<forall>u \<in> set (d_users d). 0 < u_id u \<and> u_id u \<le> d_user_seq d)
     \<and> distinct (map u_name (d_users d)) \<and> distinct (map u_uuid (d_users d))
     \<and> distinct (map u_sub_token (d_users d)) \<and> 0 \<le> d_user_seq d"

definition nodes_ok :: "db \<Rightarrow> bool" where
  "nodes_ok d \<longleftrightarrow> table_ok n_id (d_nodes d) \<and> (\<forall>n \<in> set (d_nodes d). 0 < n_id n \<and> n_id n \<le> d_node_seq d)
     \<and> distinct (map n_name (d_nodes d)) \<and> 0 \<le> d_node_seq d"

definition inbounds_ok :: "db \<Rightarrow> bool" where
  "inbounds_ok d \<longleftrightarrow> table_ok ib_id (d_inbounds d)
     \<and> (\<forall>b \<in> set (d_inbounds d). 0 < ib_id b \<and> ib_id b \<le> d_inbound_seq d
          \<and> ib_node b \<in> n_id ` set (d_nodes d)) \<and> 0 \<le> d_inbound_seq d"

definition access_ok :: "db \<Rightarrow> bool" where
  "access_ok d \<longleftrightarrow> distinct (d_access d)
     \<and> (\<forall>a \<in> set (d_access d). fst a \<in> u_id ` set (d_users d) \<and> snd a \<in> n_id ` set (d_nodes d))"

definition logs_ok :: "db \<Rightarrow> bool" where
  "logs_ok d \<longleftrightarrow> (\<forall>t \<in> set (d_logs d). t_user t \<in> u_id ` set (d_users d)
     \<and> t_node t \<in> n_id ` set (d_nodes d))"

definition db_ok :: "db \<Rightarrow> bool" where
  "db_ok d \<longleftrightarrow> users_ok d \<and> nodes_ok d \<and> inbounds_ok d \<and> access_ok d \<and> logs_ok d"

lemma db_ok_empty: "db_ok empty_db"
  by (simp add: db_ok_def users_ok_def nodes_ok_def inbounds_ok_def access_ok_def logs_ok_def
      empty_db_def table_ok_def)

lemma db_ok_user_ids: "db_ok d \<Longrightarrow> distinct (map u_id (d_users d))"
  by (simp add: db_ok_def users_ok_def table_ok_def)

lemma db_ok_access_pos: "db_ok d \<Longrightarrow> (k, i) \<in> set (d_access d) \<Longrightarrow> 0 < i"
  by (fastforce simp: db_ok_def access_ok_def nodes_ok_def)

lemma db_ok_access_user: "db_ok d \<Longrightarrow> (k, i) \<in> set (d_access d) \<Longrightarrow> k \<in> u_id ` set (d_users d)"
  by (fastforce simp: db_ok_def access_ok_def)

end
