(* ===== verification/Rollback.thy ===== *)
theory Rollback
  imports Effects Http
begin

text \<open>
  The pattern the administrator's handlers share, proved once against the contract of the
  synchroniser: the database is changed, the nodes concerned are pushed, and when a push
  fails the change is undone and the nodes are pushed again.
\<close>

section \<open>Reading the assignments\<close>

lemma wp_AccessStore_ListNodeIDs:
  assumes "\<And>w'. becomes w (w_db w) w' \<Longrightarrow> Q (Inl ErrIO) w'"
    and "\<And>w'. becomes w (w_db w) w' \<Longrightarrow> Q (Inr (nodes_of_user i (w_db w))) w'"
  shows "wp (AccessStore_ListNodeIDs i) Q w"
  unfolding AccessStore_ListNodeIDs_def by (rule wp_db_query) (use assms in auto)

lemma set_nodes_of_user: "set (nodes_of_user i d) = {k. (i, k) \<in> set (d_access d)}"
  by (force simp: nodes_of_user_def)

lemma get_post: "wp (UserStore_Get i) (\<lambda>r w'. becomes w (w_db w) w' \<and>
    (\<forall>a. r = Inr a \<longrightarrow> (\<exists>u. sel_row u_id i (d_users (w_db w)) = Some u \<and> a = scan_user u))) w"
  by (rule wp_UserStore_Get) auto

lemma ids_post: "wp (AccessStore_ListNodeIDs i) (\<lambda>r w'. becomes w (w_db w) w' \<and>
    (\<forall>a. r = Inr a \<longrightarrow> a = nodes_of_user i (w_db w))) w"
  by (rule wp_AccessStore_ListNodeIDs) auto

lemma fleet_ok_users: "fleet_ok d \<Longrightarrow> d_nodes d' = d_nodes d \<Longrightarrow> distinct (map u_id (d_users d'))
    \<Longrightarrow> fleet_ok d'"
  by (simp add: fleet_ok_def)

text \<open>The answer of a handler that has undone its change and restored the nodes.\<close>

definition rolled_back :: "string \<Rightarrow> response \<Rightarrow> bool" where
  "rolled_back prefix r \<longleftrightarrow> rp_status r = 502 \<and> (\<exists>e. rp_payload r = PError (prefix @ e))"

section \<open>Push, or undo and push again\<close>

context node_synchronizer
begin

text \<open>
  \<open>U\<close> is what the undo establishes of the database; the nodes that are not pushed must not
  see a difference between the database before and after it.
\<close>

lemma wp_undo_resync:
  assumes fleet: "fleet_ok (w_db w)"
    and others: "\<And>i. 0 < i \<Longrightarrow> i \<notin> set targets \<Longrightarrow> in_sync w i"
    and undo: "wp undo (\<lambda>r w3. (\<forall>e. r = Inl e \<longrightarrow> Q \<lparr>rp_status = 500, rp_payload = PError (m1 @ err_text e)\<rparr> w3) \<and>
      (\<forall>a. r = Inr a \<longrightarrow> (\<exists>d. becomes w d w3 \<and> U d \<and> fleet_ok d \<and>
         (\<forall>i. 0 < i \<longrightarrow> i \<notin> set targets \<longrightarrow> same_for i (w_db w) d)))) w"
    and failed: "\<And>e w4. U (w_db w4) \<Longrightarrow> Q \<lparr>rp_status = 502, rp_payload = PError (m2 @ e)\<rparr> w4"
    and restored: "\<And>w4. U (w_db w4) \<Longrightarrow> fleet_ok (w_db w4) \<Longrightarrow> w_now w4 = w_now w \<Longrightarrow>
      (\<And>i. in_sync w4 i) \<Longrightarrow> wp final Q w4"
  shows "wp (attempt undo (\<lambda>e. writeError 500 (m1 @ err_text e))
     (\<lambda>_. do { restoreResults \<leftarrow> syncNodes (Some SyncNodes) targets;
        (case syncFailure restoreResults of
           Some restoreErr \<Rightarrow> writeError 502 (m2 @ restoreErr)
         | None \<Rightarrow> final) })) Q w"
  unfolding wp_attempt
proof (rule wp_mono [OF undo], intro conjI allI impI, goal_cases)
  case (1 r w3 e)
  then show ?case by (simp add: wp_step)
next
  case (2 r w3 a)
  then obtain d where d: "becomes w d w3" "U d" "fleet_ok d"
    "\<And>i. 0 < i \<Longrightarrow> i \<notin> set targets \<Longrightarrow> same_for i (w_db w) d" by auto
  have w3: "w_db w3 = d" "w_fleet w3 = w_fleet w" "w_now w3 = w_now w"
    using d(1) by (simp_all add: becomes_def)
  have stale: "in_sync w3 i" if "0 < i" "i \<notin> set targets" for i
    by (rule in_sync_same_for [OF others [OF that]]) (use d(4) that w3 in simp_all)
  show ?case
    unfolding wp_bind
  proof (rule wp_syncNodes)
    fix rs w4 assume s: "synced targets w3 rs w4"
    then have w4: "w_db w4 = d" "w_now w4 = w_now w" using w3 by (simp_all add: synced_world)
    have "in_sync w4 i" if "syncFailure rs = None" for i
    proof (cases "0 < i")
      case True
      then show ?thesis using synced_all [OF s that] d(3) stale w3 by simp
    next
      case False
      then show ?thesis using in_sync_nonpos [of w4 i] d(3) w4 by simp
    qed
    then show "wp (case syncFailure rs of None \<Rightarrow> final
        | Some restoreErr \<Rightarrow> writeError 502 (m2 @ restoreErr)) Q w4"
      using failed restored d(2,3) w4 by (simp add: wp_step)
  qed
qed

lemma wp_sync_or_undo:
  assumes fleet: "fleet_ok (w_db w1)"
    and others: "\<And>i. 0 < i \<Longrightarrow> i \<notin> set targets \<Longrightarrow> in_sync w1 i"
    and success: "\<And>rs w2. w_db w2 = w_db w1 \<Longrightarrow> w_now w2 = w_now w1 \<Longrightarrow> (\<And>i. in_sync w2 i)
      \<Longrightarrow> wp (success rs) Q w2"
    and undo: "\<And>w2. w_db w2 = w_db w1 \<Longrightarrow> w_now w2 = w_now w1 \<Longrightarrow>
      wp undo (\<lambda>r w3. (\<forall>e. r = Inl e \<longrightarrow> Q \<lparr>rp_status = 500, rp_payload = PError (m1 @ err_text e)\<rparr> w3) \<and>
        (\<forall>a. r = Inr a \<longrightarrow> (\<exists>d. becomes w2 d w3 \<and> U d \<and> fleet_ok d \<and>
           (\<forall>i. 0 < i \<longrightarrow> i \<notin> set targets \<longrightarrow> same_for i (w_db w1) d)))) w2"
    and failed: "\<And>e w4. U (w_db w4) \<Longrightarrow> Q \<lparr>rp_status = 502, rp_payload = PError (m2 @ e)\<rparr> w4"
    and restored: "\<And>e w4. U (w_db w4) \<Longrightarrow> w_now w4 = w_now w1 \<Longrightarrow> (\<And>i. in_sync w4 i) \<Longrightarrow>
      Q \<lparr>rp_status = 502, rp_payload = PError (m3 @ e)\<rparr> w4"
  shows "wp (do { results \<leftarrow> syncNodes (Some SyncNodes) targets;
       (case syncFailure results of
          Some syncErr \<Rightarrow> attempt undo (\<lambda>e. writeError 500 (m1 @ err_text e))
            (\<lambda>_. do { restoreResults \<leftarrow> syncNodes (Some SyncNodes) targets;
               (case syncFailure restoreResults of
                  Some restoreErr \<Rightarrow> writeError 502 (m2 @ restoreErr)
                | None \<Rightarrow> writeError 502 (m3 @ syncErr)) })
        | None \<Rightarrow> success results) }) Q w1"
  unfolding wp_bind [of "syncNodes (Some SyncNodes) targets"]
proof (rule wp_syncNodes)
  fix rs w2 assume s: "synced targets w1 rs w2"
  then have w2: "w_db w2 = w_db w1" "w_now w2 = w_now w1" by (simp_all add: synced_world)
  show "wp (case syncFailure rs of None \<Rightarrow> success rs
      | Some syncErr \<Rightarrow> attempt undo (\<lambda>e. writeError 500 (m1 @ err_text e))
          (\<lambda>_. do { restoreResults \<leftarrow> syncNodes (Some SyncNodes) targets;
             (case syncFailure restoreResults of
                Some restoreErr \<Rightarrow> writeError 502 (m2 @ restoreErr)
              | None \<Rightarrow> writeError 502 (m3 @ syncErr)) })) Q w2"
  proof (cases "syncFailure rs")
    case None
    have "in_sync w2 i" for i
    proof (cases "0 < i")
      case True
      then show ?thesis using synced_all [OF s None fleet] others by simp
    next
      case False
      then show ?thesis using in_sync_nonpos [of w2 i] fleet w2 by simp
    qed
    with None show ?thesis using success w2 by simp
  next
    case (Some e)
    have "wp (attempt undo (\<lambda>e. writeError 500 (m1 @ err_text e))
          (\<lambda>_. do { restoreResults \<leftarrow> syncNodes (Some SyncNodes) targets;
             (case syncFailure restoreResults of
                Some restoreErr \<Rightarrow> writeError 502 (m2 @ restoreErr)
              | None \<Rightarrow> writeError 502 (m3 @ e)) })) Q w2"
      by (rule wp_undo_resync [where U = U])
        (use undo [OF w2] fleet w2 s others failed restored in \<open>auto simp: synced_def wp_step\<close>)
    with Some show ?thesis by simp
  qed
qed

end

end
