(* ===== verification/NodeSync.thy ===== *)
theory NodeSync
  imports NodeHandler Integrity Rollback
begin

text \<open>
  What the handlers of \<open>handler/node.go\<close> guarantee: an inbound is created, deleted or moved
  on the node as in the database or not at all, and a node is deleted only after its
  machine serves nobody.
\<close>

section \<open>Inbounds and documents\<close>

text \<open>A change of the inbounds of node \<open>k\<close> is not seen by another node.\<close>

definition other_inbounds :: "int \<Rightarrow> db \<Rightarrow> db \<Rightarrow> bool" where
  "other_inbounds k d d' \<longleftrightarrow> d_users d' = d_users d \<and> d_access d' = d_access d \<and> d_nodes d' = d_nodes d
     \<and> (\<forall>i. i \<noteq> k \<longrightarrow> inbounds_of i d' = inbounds_of i d)"

lemma other_inbounds_same_for: "other_inbounds k d d' \<Longrightarrow> i \<noteq> k \<Longrightarrow> same_for i d d'"
  by (auto simp: other_inbounds_def same_for_def intro: list_all2_refl)

lemma other_inbounds_fleet: "other_inbounds k d d' \<Longrightarrow> fleet_ok d \<Longrightarrow> fleet_ok d'"
  by (simp add: other_inbounds_def fleet_ok_def)

lemma other_inbounds_sym: "other_inbounds k d d' \<Longrightarrow> other_inbounds k d' d"
  by (simp add: other_inbounds_def)

lemma inbounds_of_cong: "filter (\<lambda>b. ib_node b = i) (d_inbounds d') = filter (\<lambda>b. ib_node b = i) (d_inbounds d)
    \<Longrightarrow> inbounds_of i d' = inbounds_of i d"
  by (simp add: inbounds_of_def)

section \<open>The store operations\<close>

lemma node_post: "wp (NodeStore_Get i) (\<lambda>r w'. becomes w (w_db w) w' \<and>
    (\<forall>a. r = Inr a \<longrightarrow> sel_row n_id i (d_nodes (w_db w)) = Some a)) w"
  unfolding NodeStore_Get_def by (rule wp_db_query) (auto split: option.splits elim: row_or_none.elims)

lemma inbound_post: "wp (NodeStore_GetInbound i) (\<lambda>r w'. becomes w (w_db w) w' \<and>
    (\<forall>a. r = Inr a \<longrightarrow> sel_row ib_id i (d_inbounds (w_db w)) = Some a)) w"
  unfolding NodeStore_GetInbound_def by (rule wp_db_query) (auto elim: row_or_none.elims)

lemma inbounds_post: "wp (NodeStore_ListInbounds i) (\<lambda>r w'. becomes w (w_db w) w' \<and>
    (\<forall>a. r = Inr a \<longrightarrow> a = inbounds_of i (w_db w))) w"
  unfolding NodeStore_ListInbounds_def by (rule wp_db_query) (auto simp: inbounds_of_def)

definition new_inbound :: "int \<Rightarrow> create_inbound_req \<Rightarrow> db \<Rightarrow> inbound" where
  "new_inbound nodeID req d = \<lparr>ib_id = d_inbound_seq d + 1, ib_node = nodeID, ib_tag = ci_tag req,
     ib_protocol = ci_protocol req, ib_port = ci_port req,
     ib_settings = settings_or_empty (ci_settings req), ib_enabled = True, ib_sort_order = 0\<rparr>"

definition add_inbound :: "inbound \<Rightarrow> db \<Rightarrow> db" where
  "add_inbound b d = d\<lparr>d_inbounds := ins_row ib_id b (d_inbounds d),
     d_inbound_seq := max (d_inbound_seq d) (ib_id b)\<rparr>"

definition drop_inbound :: "int \<Rightarrow> db \<Rightarrow> db" where
  "drop_inbound i d = d\<lparr>d_inbounds := del_rows (\<lambda>b. ib_id b = i) (d_inbounds d)\<rparr>"

lemma create_post: "wp (NodeStore_CreateInbound k req) (\<lambda>r w'. (\<forall>a. r = Inr a \<longrightarrow>
    ib_id a = ib_id (new_inbound k req (w_db w)) \<and> ib_id a \<notin> ib_id ` set (d_inbounds (w_db w)) \<and>
    becomes w (add_inbound (new_inbound k req (w_db w)) (w_db w)) w')) w"
  unfolding NodeStore_CreateInbound_def wp_and_then
proof (rule wp_db_exec; clarsimp)
  fix w' i d
  assume ins: "insert_next_inbound \<lparr>ib_id = 0, ib_node = k, ib_tag = ci_tag req,
        ib_protocol = ci_protocol req, ib_port = ci_port req,
        ib_settings = settings_or_empty (ci_settings req), ib_enabled = True, ib_sort_order = 0\<rparr> (w_db w)
      = Inr (i, d)"
    and w': "becomes w d w'"
  have d: "d = add_inbound (new_inbound k req (w_db w)) (w_db w)" "i = d_inbound_seq (w_db w) + 1"
    "i \<notin> ib_id ` set (d_inbounds (w_db w))"
    using ins by (auto simp: insert_next_inbound_def insert_inbound_def add_inbound_def new_inbound_def
        list_ex_iff split: if_splits)
  show "wp (NodeStore_GetInbound i) (\<lambda>r w'. \<forall>a. r = Inr a \<longrightarrow>
      ib_id a = ib_id (new_inbound k req (w_db w)) \<and> ib_id a \<notin> ib_id ` set (d_inbounds (w_db w)) \<and>
      becomes w (add_inbound (new_inbound k req (w_db w)) (w_db w)) w') w'"
    by (rule wp_mono [OF inbound_post])
      (use w' d in \<open>auto simp: becomes_def new_inbound_def dest!: sel_row_SomeD\<close>)
qed

lemma drop_post: "wp (NodeStore_DeleteInbound i) (\<lambda>r w'.
    (\<forall>a. r = Inr a \<longrightarrow> becomes w (drop_inbound i (w_db w)) w')) w"
  unfolding NodeStore_DeleteInbound_def fail_def ok_def wp_and_then
  by (rule wp_db_exec) (auto simp: wp_step drop_inbound_def)

lemma restore_post: "wp (NodeStore_RestoreInbound b) (\<lambda>r w'.
    (\<forall>a. r = Inr a \<longrightarrow> becomes w (add_inbound b (w_db w)) w')) w"
  unfolding NodeStore_RestoreInbound_def wp_and_then
  by (rule wp_db_exec) (auto simp: insert_inbound_def add_inbound_def becomes_def split: if_splits
      intro!: wp_mono [OF inbound_post])

lemma other_add: "ib_node b = k \<Longrightarrow> other_inbounds k d (add_inbound b d)"
  by (auto simp: other_inbounds_def add_inbound_def ins_row_def filter_insort_triv intro!: inbounds_of_cong)

lemma other_drop:
  assumes "\<And>b. b \<in> set (d_inbounds d) \<Longrightarrow> ib_id b = j \<Longrightarrow> ib_node b = k"
  shows "other_inbounds k d (drop_inbound j d)"
proof -
  have "filter (\<lambda>b. ib_node b = i) (del_rows (\<lambda>b. ib_id b = j) (d_inbounds d))
      = filter (\<lambda>b. ib_node b = i) (d_inbounds d)" if "i \<noteq> k" for i
    using assms that by (auto simp: del_rows_def intro!: filter_cong)
  then show ?thesis by (auto simp: other_inbounds_def drop_inbound_def intro!: inbounds_of_cong)
qed

lemma drop_add:
  assumes "ib_id b \<notin> ib_id ` set (d_inbounds d)" "ib_id b = d_inbound_seq d + 1"
  shows "drop_inbound (ib_id b) (add_inbound b d) = d\<lparr>d_inbound_seq := d_inbound_seq d + 1\<rparr>"
proof -
  have fresh: "\<forall>x \<in> set (d_inbounds d). ib_id x \<noteq> ib_id b" using assms(1) by (metis image_eqI)
  have "del_rows (\<lambda>x. ib_id x = ib_id b) (ins_row ib_id b (d_inbounds d)) = d_inbounds d"
    using fresh by (auto simp: del_rows_def ins_row_def filter_insort_triv intro!: filter_True)
  with assms(2) show ?thesis by (simp add: drop_inbound_def add_inbound_def)
qed

lemma add_drop:
  assumes "inbounds_ok d" "sel_row ib_id j (d_inbounds d) = Some b"
  shows "add_inbound b (drop_inbound j d) = d"
proof -
  have b: "b \<in> set (d_inbounds d)" "ib_id b = j" using sel_row_SomeD [OF assms(2)] by auto
  have "ins_row ib_id b (del_rows (\<lambda>x. ib_id x = ib_id b) (d_inbounds d)) = d_inbounds d"
    by (rule ins_del_row) (use assms(1) b in \<open>auto simp: inbounds_ok_def\<close>)
  moreover have "ib_id b \<le> d_inbound_seq d" using assms(1) b by (auto simp: inbounds_ok_def)
  ultimately show ?thesis using b(2) by (simp add: add_inbound_def drop_inbound_def max_absorb1)
qed

section \<open>Creating and deleting an inbound\<close>

definition create_promise :: "int \<Rightarrow> request \<Rightarrow> world \<Rightarrow> response \<Rightarrow> world \<Rightarrow> bool" where
  "create_promise k r w rp w' \<longleftrightarrow>
     (rp_status rp = 201 \<longrightarrow> (\<forall>i. in_sync w' i) \<and>
        (\<exists>req. as_create_inbound (r_body r) = Some req \<and>
           w_db w' = add_inbound (new_inbound k req (w_db w)) (w_db w))) \<and>
     (rolled_back ''inbound was not created: '' rp \<longrightarrow> (\<forall>i. in_sync w' i) \<and>
        w_db w' = (w_db w)\<lparr>d_inbound_seq := d_inbound_seq (w_db w) + 1\<rparr>)"

lemma create_promise_error [simp]: "st \<noteq> 201 \<Longrightarrow> st \<noteq> 502 \<Longrightarrow>
    create_promise k r w \<lparr>rp_status = st, rp_payload = p\<rparr> w'"
  by (simp add: create_promise_def rolled_back_def)

lemma create_promise_failed: "create_promise k r w \<lparr>rp_status = 502,
    rp_payload = PError (''inbound creation was rolled back, but restoring the node failed: '' @ e)\<rparr> w'"
  by (simp add: create_promise_def rolled_back_def)

definition drop_promise :: "int \<Rightarrow> world \<Rightarrow> response \<Rightarrow> world \<Rightarrow> bool" where
  "drop_promise j w rp w' \<longleftrightarrow>
     (rp_status rp = 200 \<longrightarrow> (\<forall>i. in_sync w' i) \<and> w_db w' = drop_inbound j (w_db w)) \<and>
     (rolled_back ''inbound deletion was rolled back: '' rp \<longrightarrow> (\<forall>i. in_sync w' i) \<and> w_db w' = w_db w)"

lemma drop_promise_error [simp]: "st \<noteq> 200 \<Longrightarrow> st \<noteq> 502 \<Longrightarrow>
    drop_promise j w \<lparr>rp_status = st, rp_payload = p\<rparr> w'"
  by (simp add: drop_promise_def rolled_back_def)

lemma drop_promise_failed: "drop_promise j w \<lparr>rp_status = 502,
    rp_payload = PError (''inbound deletion was rolled back, but restoring the node failed: '' @ e)\<rparr> w'"
  by (simp add: drop_promise_def rolled_back_def)

context node_synchronizer
begin

text \<open>The three inbound changes push one node and are undone the same way.\<close>

lemma wp_inbound_change:
  assumes ok: "fleet_ok (w_db w)" and sync: "\<And>i. in_sync w i"
    and w1: "becomes w da w1" and da: "other_inbounds k (w_db w) da" and dz: "other_inbounds k da dz"
    and undo: "\<And>w2. w_db w2 = da \<Longrightarrow> wp undo (\<lambda>r w3. \<forall>a. r = Inr a \<longrightarrow> becomes w2 dz w3) w2"
    and success: "\<And>rs w2. w_db w2 = da \<Longrightarrow> (\<And>i. in_sync w2 i) \<Longrightarrow> wp (success rs) Q w2"
    and error: "\<And>e w3. Q \<lparr>rp_status = 500, rp_payload = PError (m1 @ err_text e)\<rparr> w3"
    and failed: "\<And>e w4. Q \<lparr>rp_status = 502, rp_payload = PError (m2 @ e)\<rparr> w4"
    and restored: "\<And>e w4. w_db w4 = dz \<Longrightarrow> (\<And>i. in_sync w4 i) \<Longrightarrow>
      Q \<lparr>rp_status = 502, rp_payload = PError (m3 @ e)\<rparr> w4"
  shows "wp (do { results \<leftarrow> syncNodes (Some SyncNodes) [k];
       (case syncFailure results of
          Some err \<Rightarrow> attempt undo (\<lambda>e. writeError 500 (m1 @ err_text e))
            (\<lambda>_. do { restoreResults \<leftarrow> syncNodes (Some SyncNodes) [k];
               (case syncFailure restoreResults of
                  Some restoreErr \<Rightarrow> writeError 502 (m2 @ restoreErr)
                | None \<Rightarrow> writeError 502 (m3 @ err)) })
        | None \<Rightarrow> success results) }) Q w1"
proof -
  have db: "w_db w1 = da" "w_now w1 = w_now w" "w_fleet w1 = w_fleet w"
    using w1 by (simp_all add: becomes_def)
  have fleet1: "fleet_ok da" by (rule other_inbounds_fleet [OF da ok])
  have fleet2: "fleet_ok dz" by (rule other_inbounds_fleet [OF dz fleet1])
  show ?thesis
  proof (rule wp_sync_or_undo [where U = "\<lambda>d. d = dz"], goal_cases)
    case (2 i)
    show ?case
      by (rule in_sync_same_for [OF sync, of i]) (use 2 db other_inbounds_same_for [OF da] in auto)
  next
    case (4 w2)
    show ?case
      by (rule wp_mono [OF undo])
        (use 4 db error fleet2 other_inbounds_same_for [OF dz] in auto)
  qed (use fleet1 db success failed restored in auto)
qed

lemma wp_createInbound:
  assumes ok: "db_ok (w_db w)" "fleet_ok (w_db w)" and sync: "\<And>i. in_sync w i"
  shows "wp (NodeHandler_createInbound (Some SyncNodes) r)
    (create_promise (parseID (r_path r) ''/api/nodes/'') r w) w"
proof -
  define parts where "parts = SplitByte (CHR ''/'') (TrimPrefix (r_path r) ''/api/nodes/'')"
  define k where "k = parseID (''/api/nodes/'' @ parts ! 0) ''/api/nodes/''"
  have "CHR ''/'' \<notin> set (parts ! 0)"
    using SplitByte_parts [of "parts ! 0" "CHR ''/''" "TrimPrefix (r_path r) ''/api/nodes/''"]
    by (simp add: parts_def)
  then have k: "parseID (r_path r) ''/api/nodes/'' = k"
    unfolding k_def parseID_def TrimPrefix_append SplitByte_no_sep [OF \<open>CHR ''/'' \<notin> set (parts ! 0)\<close>]
    by (simp add: parts_def hd_conv_nth)
  show ?thesis
  proof (cases "length parts < 2 \<or> k = 0")
    case True
    then show ?thesis
      unfolding NodeHandler_createInbound_def Let_def parts_def [symmetric] k_def [symmetric]
      by (auto simp: wp_step)
  next
    case False
    then have l: "\<not> length parts < 2" and k0: "k \<noteq> 0" by auto
    show ?thesis
      unfolding NodeHandler_createInbound_def Let_def parts_def [symmetric] k_def [symmetric]
        if_not_P [OF l] if_not_P [OF k0] k
    proof (rule wp_attemptI [OF node_post], goal_cases)
      case (2 n w0)
      then have w0: "becomes w (w_db w) w0" by simp
      show ?case
      proof (cases "n_proxy_type n \<noteq> ''singbox'' \<or> as_create_inbound (r_body r) = None")
        case True
        then show ?thesis by (auto simp: wp_step)
      next
        case False
        then obtain req where n: "\<not> n_proxy_type n \<noteq> ''singbox''"
          and req: "as_create_inbound (r_body r) = Some req" by auto
        show ?thesis
        proof (cases "(ci_protocol req = [] \<or> ci_port req < 1 \<or> ci_port req > 65535)
            \<or> settings_object (ci_settings req) = None
            \<or> missing_settings (ci_protocol req) (the (settings_object (ci_settings req))) \<noteq> None")
          case True
          then show ?thesis using n by (auto simp: req wp_step split: option.splits)
        next
          case False
          then obtain s where c: "\<not> (ci_protocol req = [] \<or> ci_port req < 1 \<or> ci_port req > 65535)"
            and s: "settings_object (ci_settings req) = Some s" "missing_settings (ci_protocol req) s = None"
            by auto
          show ?thesis
            unfolding if_not_P [OF n] req option.case if_not_P [OF c] s
          proof (rule wp_attemptI [OF create_post], goal_cases)
            case (2 ib w1)
            let ?b = "new_inbound k req (w_db w)"
            have w1: "becomes w (add_inbound ?b (w_db w)) w1" and ib: "ib_id ib = ib_id ?b"
              "ib_id ib \<notin> ib_id ` set (d_inbounds (w_db w))"
              using 2 w0 by (auto simp: becomes_def)
            have fresh: "\<forall>b \<in> set (d_inbounds (w_db w)). ib_id b \<noteq> ib_id ?b"
              using ib by (metis image_eqI)
            have drop: "drop_inbound (ib_id ib) (add_inbound ?b (w_db w))
                = (w_db w)\<lparr>d_inbound_seq := d_inbound_seq (w_db w) + 1\<rparr>"
              using drop_add [of ?b] ib by (simp add: new_inbound_def)
            show ?case
            proof (rule wp_inbound_change [OF ok(2) sync w1, where
                dz = "drop_inbound (ib_id ib) (add_inbound ?b (w_db w))"], goal_cases)
              case 1
              show ?case by (rule other_add) (simp add: new_inbound_def)
            next
              case 2
              show ?case
                by (rule other_drop)
                  (use ib(1) fresh in \<open>auto simp: add_inbound_def set_ins_row new_inbound_def\<close>)
            next
              case (3 w2)
              then show ?case using drop_post [of "ib_id ib" w2] by simp
            next
              case (4 rs w2)
              then show ?case using req by (auto simp: wp_step create_promise_def rolled_back_def)
            next
              case (6 e w4)
              show ?case by (rule create_promise_failed)
            next
              case (7 e w4)
              then show ?case by (auto simp: create_promise_def drop)
            qed simp
          qed (simp add: wp_step)
        qed
      qed
    qed (simp add: wp_step)
  qed
qed

lemma wp_deleteInbound:
  assumes ok: "db_ok (w_db w)" "fleet_ok (w_db w)" and sync: "\<And>i. in_sync w i"
  shows "wp (NodeHandler_deleteInbound (Some SyncNodes) r)
    (drop_promise (parseID (r_path r) ''/api/inbounds/'') w) w"
proof -
  define j where "j = parseID (r_path r) ''/api/inbounds/''"
  show ?thesis
  proof (cases "j = 0")
    case True
    then show ?thesis by (simp add: NodeHandler_deleteInbound_def j_def wp_step)
  next
    case j: False
    show ?thesis
      unfolding NodeHandler_deleteInbound_def Let_def j_def [symmetric] if_not_P [OF j]
    proof (rule wp_attemptI [OF inbound_post], goal_cases)
      case (2 b w0)
      then have w0: "becomes w (w_db w) w0" and b: "sel_row ib_id j (d_inbounds (w_db w)) = Some b" by auto
      show ?case
      proof (rule wp_attemptI [OF node_post], goal_cases)
        case (2 n w1)
        then have w1: "becomes w (w_db w) w1" using w0 by (auto simp: becomes_def)
        show ?case
        proof (cases "n_proxy_type n \<noteq> ''singbox''")
          case True
          then show ?thesis by (simp add: wp_step)
        next
          case n: False
          show ?thesis
            unfolding if_not_P [OF n]
          proof (rule wp_attemptI [OF drop_post], goal_cases)
            case (2 a w2)
            then have w2: "becomes w (drop_inbound j (w_db w)) w2" using w1 by (auto simp: becomes_def)
            have inb: "inbounds_ok (w_db w)" using ok(1) by (simp add: db_ok_def)
            have only: "c = b" if "c \<in> set (d_inbounds (w_db w))" "ib_id c = j" for c
              using that sel_row_SomeD [OF b] inb
              by (auto simp: inbounds_ok_def table_ok_def distinct_map dest: inj_onD)
            have again: "add_inbound b (drop_inbound j (w_db w)) = w_db w" by (rule add_drop [OF inb b])
            have away: "other_inbounds (ib_node b) (w_db w) (drop_inbound j (w_db w))"
              by (rule other_drop) (use only in auto)
            show ?case
            proof (rule wp_inbound_change [OF ok(2) sync w2 away other_inbounds_sym [OF away]], goal_cases)
              case (1 w3)
              then show ?case using restore_post [of b w3] again by simp
            next
              case (2 rs w3)
              then show ?case by (auto simp: wp_step drop_promise_def rolled_back_def)
            next
              case (4 e w4)
              show ?case by (rule drop_promise_failed)
            next
              case (5 e w4)
              then show ?case by (auto simp: drop_promise_def)
            qed simp
          qed (simp add: wp_step)
        qed
      qed (simp add: wp_step)
    qed (simp add: wp_step)
  qed
qed

end

section \<open>Moving inbounds\<close>

text \<open>The new row of an inbound after a list of reorder items, and the whole table.\<close>

definition reorder_one :: "int \<Rightarrow> reorder_item \<Rightarrow> inbound \<Rightarrow> inbound" where
  "reorder_one k item b = (if ib_id b = ri_id item \<and> ib_node b = k
     then b\<lparr>ib_sort_order := ri_sort_order item\<rparr> else b)"

definition reorder_db :: "int \<Rightarrow> reorder_item list \<Rightarrow> db \<Rightarrow> db" where
  "reorder_db k items d = d\<lparr>d_inbounds := map (fold (reorder_one k) items) (d_inbounds d)\<rparr>"

lemma does_reorder_inbound: "does (reorder_inbound k item)
    (\<lambda>now d. d\<lparr>d_inbounds := map (reorder_one k item) (d_inbounds d)\<rparr>) (\<lambda>now d _. True)"
proof -
  have "does (exec_inbounds (\<lambda>b. ib_id b = ri_id item \<and> ib_node b = k)
       (\<lambda>b. b\<lparr>ib_sort_order := ri_sort_order item\<rparr>))
    (\<lambda>now d. d\<lparr>d_inbounds := map (reorder_one k item) (d_inbounds d)\<rparr>) (\<lambda>now d _. True)"
    unfolding exec_inbounds_def
    by (rule does_weaken [OF does_exec]) (auto simp: reorder_one_def)
  from does_and_then [OF this does_check] show ?thesis
    unfolding reorder_inbound_def by (rule does_weaken) auto
qed

lemma reorder_post: "wp (NodeStore_ReorderInbounds k items) (\<lambda>r w'. \<forall>a. r = Inr a \<longrightarrow>
    becomes w (reorder_db k items (w_db w)) w') w"
proof -
  have "fold (\<lambda>item d. d\<lparr>d_inbounds := map (reorder_one k item) (d_inbounds d)\<rparr>) items d
      = reorder_db k items d" for d
    by (induction items arbitrary: d) (simp_all add: reorder_db_def)
  then have "does (for_each (reorder_inbound k) items) (\<lambda>now. reorder_db k items) (\<lambda>now d _. True)"
    by (intro does_weaken [OF does_for_each [OF does_reorder_inbound]]) auto
  then show ?thesis
    unfolding NodeStore_ReorderInbounds_def by (rule wp_transaction_does) auto
qed

lemma reorder_one_keys [simp]: "ib_id (reorder_one k item b) = ib_id b" "ib_node (reorder_one k item b) = ib_node b"
  by (simp_all add: reorder_one_def)

lemma reorder_row_keys [simp]: "ib_id (fold (reorder_one k) items b) = ib_id b"
  "ib_node (fold (reorder_one k) items b) = ib_node b"
  by (induction items arbitrary: b) simp_all

lemma reorder_row: "\<exists>x. fold (reorder_one k) items b = b\<lparr>ib_sort_order := x\<rparr>"
proof (induction items arbitrary: b)
  case Nil
  have "b = b\<lparr>ib_sort_order := ib_sort_order b\<rparr>" by simp
  then show ?case by (metis fold_simps(1))
next
  case (Cons item items)
  have "\<exists>y. reorder_one k item b = b\<lparr>ib_sort_order := y\<rparr>"
    by (cases "ib_id b = ri_id item \<and> ib_node b = k")
      (auto simp: reorder_one_def intro: exI [of _ "ib_sort_order b"])
  then obtain y where "reorder_one k item b = b\<lparr>ib_sort_order := y\<rparr>" ..
  with Cons [of "b\<lparr>ib_sort_order := y\<rparr>"] show ?case by auto
qed

lemma reorder_other: "ib_node b \<noteq> k \<Longrightarrow> fold (reorder_one k) items b = b"
  by (induction items) (simp_all add: reorder_one_def)

lemma other_reorder: "other_inbounds k d (reorder_db k items d)"
proof -
  have "filter (\<lambda>b. ib_node b = i) (map (fold (reorder_one k) items) bs)
      = filter (\<lambda>b. ib_node b = i) bs" if "i \<noteq> k" for i bs
    using that by (induction bs) (auto simp: reorder_other)
  then show ?thesis by (auto simp: other_inbounds_def reorder_db_def intro!: inbounds_of_cong)
qed

definition order_items :: "inbound list \<Rightarrow> reorder_item list" where
  "order_items bs = map (\<lambda>b. \<lparr>ri_id = ib_id b, ri_sort_order = ib_sort_order b\<rparr>) bs"

lemma reorder_back_row:
  assumes "b \<in> set bs" "distinct (map ib_id bs)" "ib_node b = k"
  shows "fold (reorder_one k) (order_items bs) (b\<lparr>ib_sort_order := x\<rparr>) = b"
proof -
  have skip: "fold (reorder_one k) (order_items cs) b = b" if "ib_id b \<notin> ib_id ` set cs" for cs
    using that by (induction cs) (auto simp: order_items_def reorder_one_def)
  show ?thesis
    using assms
  proof (induction bs arbitrary: x)
    case (Cons c cs)
    show ?case
    proof (cases "c = b")
      case True
      have "reorder_one k \<lparr>ri_id = ib_id b, ri_sort_order = ib_sort_order b\<rparr> (b\<lparr>ib_sort_order := x\<rparr>) = b"
        using Cons.prems by (simp add: reorder_one_def)
      then show ?thesis using True Cons.prems skip [of cs] by (simp add: order_items_def)
    next
      case False
      then have ne: "ib_id b \<noteq> ib_id c" "b \<in> set cs"
        using Cons.prems by (auto simp: image_iff)
      then have "reorder_one k \<lparr>ri_id = ib_id c, ri_sort_order = ib_sort_order c\<rparr> (b\<lparr>ib_sort_order := x\<rparr>)
          = b\<lparr>ib_sort_order := x\<rparr>"
        by (simp add: reorder_one_def)
      then show ?thesis using ne Cons by (simp add: order_items_def)
    qed
  qed simp
qed

lemma reorder_back:
  assumes "inbounds_ok d"
  shows "reorder_db k (order_items (inbounds_of k d)) (reorder_db k items d) = d"
proof -
  have dist: "distinct (map ib_id (inbounds_of k d))"
    using assms by (simp add: inbounds_of_def inbounds_ok_def table_ok_def distinct_map inj_on_def)
  have "fold (reorder_one k) (order_items (inbounds_of k d)) (fold (reorder_one k) items b) = b"
    if "b \<in> set (d_inbounds d)" for b
  proof (cases "ib_node b = k")
    case True
    then have "b \<in> set (inbounds_of k d)" using that by (simp add: inbounds_of_def)
    from reorder_back_row [OF this dist True] show ?thesis by (metis reorder_row)
  next
    case False
    then show ?thesis by (simp add: reorder_other)
  qed
  then have "map (\<lambda>b. fold (reorder_one k) (order_items (inbounds_of k d)) (fold (reorder_one k) items b))
      (d_inbounds d) = d_inbounds d"
    by (simp add: map_idI)
  then show ?thesis by (simp add: reorder_db_def o_def)
qed

definition reorder_promise :: "int \<Rightarrow> request \<Rightarrow> world \<Rightarrow> response \<Rightarrow> world \<Rightarrow> bool" where
  "reorder_promise k r w rp w' \<longleftrightarrow>
     (rp_status rp = 200 \<longrightarrow> (\<forall>i. in_sync w' i) \<and>
        (\<exists>items. as_reorder (r_body r) = Some items \<and> w_db w' = reorder_db k items (w_db w))) \<and>
     (rolled_back ''inbound reorder was rolled back: '' rp \<longrightarrow> (\<forall>i. in_sync w' i) \<and> w_db w' = w_db w)"

lemma reorder_promise_error [simp]: "st \<noteq> 200 \<Longrightarrow> st \<noteq> 502 \<Longrightarrow>
    reorder_promise k r w \<lparr>rp_status = st, rp_payload = p\<rparr> w'"
  by (simp add: reorder_promise_def rolled_back_def)

lemma reorder_promise_failed: "reorder_promise k r w \<lparr>rp_status = 502,
    rp_payload = PError (''inbound reorder was rolled back, but restoring the node failed: '' @ e)\<rparr> w'"
  by (simp add: reorder_promise_def rolled_back_def)

section \<open>Deleting a node\<close>

definition delete_node_db :: "int \<Rightarrow> db \<Rightarrow> db" where
  "delete_node_db k d = d\<lparr>d_inbounds := del_rows (\<lambda>b. ib_node b = k) (d_inbounds d),
     d_access := del_rows (\<lambda>a. snd a = k) (d_access d), d_logs := del_rows (\<lambda>t. t_node t = k) (d_logs d),
     d_nodes := del_rows (\<lambda>n. n_id n = k) (d_nodes d)\<rparr>"

lemma delete_node_post: "wp (NodeStore_Delete k) (\<lambda>r w'. \<forall>a. r = Inr a \<longrightarrow>
    becomes w (delete_node_db k (w_db w)) w') w"
proof -
  have ex: "does (db_exec (\<lambda>d. Inr ((), f d))) (\<lambda>now d. f d) (\<lambda>now d _. True)" for f
    by (rule does_weaken [OF does_exec]) auto
  have "does (and_then (db_exec (\<lambda>d. Inr ((), d\<lparr>d_inbounds := del_rows (\<lambda>b. ib_node b = k) (d_inbounds d)\<rparr>))) (\<lambda>_.
     and_then (db_exec (\<lambda>d. Inr ((), d\<lparr>d_access := del_rows (\<lambda>a. snd a = k) (d_access d)\<rparr>))) (\<lambda>_.
     and_then (db_exec (\<lambda>d. Inr ((), d\<lparr>d_logs := del_rows (\<lambda>t. t_node t = k) (d_logs d)\<rparr>))) (\<lambda>_.
     db_exec (\<lambda>d. Inr ((), d\<lparr>d_nodes := del_rows (\<lambda>n. n_id n = k) (d_nodes d)\<rparr>))))))
     (\<lambda>now. delete_node_db k) (\<lambda>now d _. True)"
    by (rule does_weaken, rule does_and_then [OF ex], rule does_and_then [OF ex],
        rule does_and_then [OF ex], rule ex) (simp add: delete_node_db_def)
  then show ?thesis
    unfolding NodeStore_Delete_def by (rule wp_transaction_does) auto
qed

lemma count_post: "wp (AccessStore_CountForNode k) (\<lambda>r w'. becomes w (w_db w) w' \<and>
    (\<forall>a. r = Inr a \<longrightarrow> a = count_rows (\<lambda>a. snd a = k) (d_access (w_db w)))) w"
  unfolding AccessStore_CountForNode_def by (rule wp_db_query) auto

lemma gen_doc_delete_node:
  assumes "i \<noteq> k"
  shows "gen_doc now i (delete_node_db k d) = gen_doc now i d"
proof -
  have "served now i (delete_node_db k d) = served now i d"
    using assms by (auto simp: served_def delete_node_db_def set_del_rows intro!: filter_cong)
  moreover have "filter (\<lambda>b. ib_node b = i) (del_rows (\<lambda>b. ib_node b = k) (d_inbounds d))
      = filter (\<lambda>b. ib_node b = i) (d_inbounds d)"
    using assms by (auto simp: del_rows_def intro!: filter_cong)
  ultimately show ?thesis by (simp add: gen_doc_def inbounds_of_def delete_node_db_def)
qed

definition delete_node_promise :: "int \<Rightarrow> world \<Rightarrow> response \<Rightarrow> world \<Rightarrow> bool" where
  "delete_node_promise k w rp w' \<longleftrightarrow> (rp_status rp = 200 \<longrightarrow>
     (\<exists>n. sel_row n_id k (d_nodes (w_db w)) = Some n \<and>
        inbounds_of k (w_db w) = [] \<and> (\<forall>u. (u, k) \<notin> set (d_access (w_db w))) \<and>
        runs (w_fleet w' (sshDialAddr n)) (n_config_path n) (GenerateConfig [] [])) \<and>
     w_db w' = delete_node_db k (w_db w) \<and> (\<forall>i. in_sync w' i)) \<and>
   (rp_status rp = 409 \<or> rp_status rp = 502 \<longrightarrow> w_db w' = w_db w)"

lemma delete_node_promise_error [simp]: "st \<notin> {200, 409, 502} \<Longrightarrow>
    delete_node_promise k w \<lparr>rp_status = st, rp_payload = p\<rparr> w'"
  by (simp add: delete_node_promise_def)

context node_synchronizer
begin

lemma wp_ReorderInbounds:
  assumes ok: "db_ok (w_db w)" "fleet_ok (w_db w)" and sync: "\<And>i. in_sync w i"
  shows "wp (NodeHandler_ReorderInbounds (Some SyncNodes) r)
    (reorder_promise (parseID (r_path r) ''/api/nodes/'') r w) w"
proof -
  define k where "k = parseID (r_path r) ''/api/nodes/''"
  show ?thesis
  proof (cases "r_method r \<noteq> ''PUT'' \<or> as_reorder (r_body r) = None \<or> k = 0")
    case True
    then show ?thesis
      by (auto simp: NodeHandler_ReorderInbounds_def Let_def wp_step split: option.splits simp flip: k_def)
  next
    case False
    then obtain items where m: "\<not> r_method r \<noteq> ''PUT''" and k: "k \<noteq> 0"
      and items: "as_reorder (r_body r) = Some items" by auto
    show ?thesis
      unfolding NodeHandler_ReorderInbounds_def Let_def k_def [symmetric] if_not_P [OF m] items
        option.case if_not_P [OF k]
    proof (rule wp_attemptI [OF node_post], goal_cases)
      case (2 n w0)
      then have w0: "becomes w (w_db w) w0" by simp
      show ?case
      proof (cases "n_proxy_type n \<noteq> ''singbox''")
        case True
        then show ?thesis by (simp add: wp_step)
      next
        case n: False
        show ?thesis
          unfolding if_not_P [OF n] order_items_def [symmetric]
        proof (rule wp_attemptI [OF inbounds_post], goal_cases)
          case (2 before w1)
          then have w1: "becomes w (w_db w) w1" and before: "before = inbounds_of k (w_db w)"
            using w0 by (auto simp: becomes_def)
          show ?case
          proof (rule wp_attemptI [OF reorder_post], goal_cases)
            case (2 a w2)
            then have w2: "becomes w (reorder_db k items (w_db w)) w2" using w1 by (auto simp: becomes_def)
            have "inbounds_ok (w_db w)" using ok(1) by (simp add: db_ok_def)
            note again = reorder_back [OF this, of k items, folded before]
            show ?case
            proof (rule wp_inbound_change [OF ok(2) sync w2 other_reorder
                  other_inbounds_sym [OF other_reorder]], goal_cases)
              case (1 w3)
              then show ?case using reorder_post [of k "order_items before" w3] again by simp
            next
              case (2 rs w3)
              then show ?case using items by (auto simp: wp_step reorder_promise_def rolled_back_def)
            next
              case (4 e w4)
              show ?case by (rule reorder_promise_failed)
            next
              case (5 e w4)
              then show ?case by (auto simp: reorder_promise_def)
            qed simp
          qed (simp add: wp_step)
        qed (simp add: wp_step)
      qed
    qed (simp add: wp_step)
  qed
qed

lemma wp_delete_node:
  assumes ok: "db_ok (w_db w)" "fleet_ok (w_db w)" and sync: "\<And>i. in_sync w i"
  shows "wp (NodeHandler_delete (Some SyncNodes) r)
    (delete_node_promise (parseID (r_path r) ''/api/nodes/'') w) w"
proof -
  define k where "k = parseID (r_path r) ''/api/nodes/''"
  show ?thesis
  proof (cases "k = 0")
    case True
    then show ?thesis by (simp add: NodeHandler_delete_def k_def wp_step)
  next
    case k: False
    show ?thesis
      unfolding NodeHandler_delete_def Let_def k_def [symmetric] if_not_P [OF k]
    proof (rule wp_attemptI [OF node_post], goal_cases)
      case (2 n w0)
      then have w0: "becomes w (w_db w) w0" and n: "sel_row n_id k (d_nodes (w_db w)) = Some n" by auto
      show ?case
      proof (cases "n_proxy_type n \<noteq> ''singbox''")
        case True
        then show ?thesis using w0 by (simp add: wp_step delete_node_promise_def becomes_def)
      next
        case sb: False
        show ?thesis
          unfolding if_not_P [OF sb]
        proof (rule wp_attemptI [OF inbounds_post], goal_cases)
          case (2 ibs w1)
          then have w1: "becomes w (w_db w) w1" and ibs: "ibs = inbounds_of k (w_db w)"
            using w0 by (auto simp: becomes_def)
          show ?case
          proof (rule wp_attemptI [OF count_post], goal_cases)
            case (2 c w2)
            then have w2: "becomes w (w_db w) w2" and c: "c = count_rows (\<lambda>a. snd a = k) (d_access (w_db w))"
              using w1 by (auto simp: becomes_def)
            show ?case
            proof (cases "length ibs > 0 \<or> c > 0")
              case True
              then show ?thesis using w2 by (simp add: wp_step delete_node_promise_def becomes_def)
            next
              case empty: False
              then have none: "inbounds_of k (w_db w) = []" "\<And>u. (u, k) \<notin> set (d_access (w_db w))"
                by (auto simp: ibs c table_law)
              have doc: "gen_doc (w_now w) k (w_db w) = GenerateConfig [] []"
                using none by (simp add: gen_doc_def served_def)
              show ?thesis
                unfolding if_not_P [OF empty] wp_bind
              proof (rule wp_syncNodes)
                fix rs w3 assume s: "synced [k] w2 rs w3"
                then have w3: "w_db w3 = w_db w" "w_now w3 = w_now w"
                  using w2 by (auto simp: becomes_def dest: synced_world)
                show "wp (case syncFailure rs of
                    None \<Rightarrow> attempt (NodeStore_Delete k) (\<lambda>e. writeError 500 (err_text e))
                      (\<lambda>_. writeJSON 200 (PNodeDeleted (n_name n) rs))
                  | Some e \<Rightarrow> writeError 502 (''refusing to delete node before remote decommission: '' @ e))
                  (delete_node_promise k w) w3"
                proof (cases "syncFailure rs")
                  case (Some e)
                  then show ?thesis using w3 by (simp add: wp_step delete_node_promise_def)
                next
                  case None
                  have sync2: "in_sync w2 i" for i
                    by (rule in_sync_same_for [OF sync]) (use w2 in \<open>auto simp: becomes_def\<close>)
                  have f2: "fleet_ok (w_db w2)" using ok(2) w2 by (simp add: becomes_def)
                  have sync3: "in_sync w3 i" for i
                  proof (cases "0 < i")
                    case True
                    then show ?thesis using synced_all [OF s None f2 sync2] by simp
                  next
                    case False
                    then show ?thesis using in_sync_nonpos [of w3 i] ok(2) w3 by simp
                  qed
                  have runs: "runs (w_fleet w3 (sshDialAddr n)) (n_config_path n) (GenerateConfig [] [])"
                    using sync3 [of k] n sb by (simp add: in_sync_def w3 doc)
                  show ?thesis
                    unfolding None option.case
                  proof (rule wp_attemptI [OF delete_node_post], goal_cases)
                    case (2 a w4)
                    then have w4: "becomes w3 (delete_node_db k (w_db w)) w4" using w3 by simp
                    have "in_sync w4 i" for i
                    proof (cases "i = k")
                      case True
                      then show ?thesis
                        using w4 by (simp add: in_sync_def becomes_def delete_node_db_def sel_row_del)
                    next
                      case False
                      show ?thesis
                        by (rule in_sync_cong [OF sync3 [of i]])
                          (use w4 w3 False gen_doc_delete_node [OF False] in
                            \<open>auto simp: becomes_def delete_node_db_def sel_row_del\<close>)
                    qed
                    then show ?case
                      using n none runs w4 by (simp add: wp_step delete_node_promise_def becomes_def)
                  qed (simp add: wp_step)
                qed
              qed
            qed
          qed (simp add: wp_step)
        qed (simp add: wp_step)
      qed
    qed (simp add: wp_step)
  qed
qed

end

end
