(* ===== verification/AccessSync.thy ===== *)
theory AccessSync
  imports AccessHandler Integrity Rollback
begin

text \<open>
  What the handlers that change assignments guarantee: each change touches the pairs of one
  user only, the nodes whose pair changed are pushed, and a change that is answered as
  rolled back has left the assignments as they were.
\<close>

section \<open>The store operations\<close>

definition only_access :: "int \<Rightarrow> db \<Rightarrow> (int \<times> int) set \<Rightarrow> db \<Rightarrow> bool" where
  "only_access k d new d' \<longleftrightarrow> (\<exists>acc. d' = d\<lparr>d_access := acc\<rparr>) \<and> set (d_access d') = new
     \<and> (\<forall>j i. j \<noteq> k \<longrightarrow> ((j, i) \<in> new \<longleftrightarrow> (j, i) \<in> set (d_access d)))"

lemma set_access_only: "only_access k d ({a \<in> set (d_access d). fst a \<noteq> k} \<union> Pair k ` set ids) (set_access k ids d)"
  by (auto simp: only_access_def set_access_def set_del_rows)

lemma does_validateUser: "does (validateUser k) (\<lambda>now d. d) (\<lambda>now d _. k \<in> u_id ` set (d_users d))"
  unfolding validateUser_def
  by (rule does_weaken, rule does_and_then [OF does_count_users], rule does_check)
    (auto simp: table_law)

lemma set_add_access [simp]: "set (add_access p rows) = insert p (set rows)"
  by (auto simp: add_access_def)

lemma set_fold_add_access: "set (fold add_access ps rows) = set ps \<union> set rows"
  by (induction ps arbitrary: rows) auto

text \<open>The pairs after each operation.\<close>

definition granted :: "int \<Rightarrow> int \<Rightarrow> db \<Rightarrow> (int \<times> int) set" where
  "granted k n d = insert (k, n) (set (d_access d))"

definition granted_all :: "int \<Rightarrow> db \<Rightarrow> (int \<times> int) set" where
  "granted_all k d = set (d_access d) \<union> Pair k ` n_id ` set (d_nodes d)"

definition revoked :: "int \<Rightarrow> int \<Rightarrow> db \<Rightarrow> (int \<times> int) set" where
  "revoked k n d = set (d_access d) - {(k, n)}"

definition replaced :: "int \<Rightarrow> int list \<Rightarrow> db \<Rightarrow> (int \<times> int) set" where
  "replaced k ids d = {a \<in> set (d_access d). fst a \<noteq> k} \<union> Pair k ` set (uniqueSortedIDs ids)"

definition changes_access :: "int \<Rightarrow> (db \<Rightarrow> (int \<times> int) set) \<Rightarrow> unit res \<Rightarrow> bool" where
  "changes_access k new op \<longleftrightarrow> (\<forall>w. wp op (\<lambda>r w'.
     (\<forall>e. r = Inl e \<longrightarrow> becomes w (w_db w) w') \<and>
     (\<forall>a. r = Inr a \<longrightarrow> (\<exists>d. becomes w d w' \<and> only_access k (w_db w) (new (w_db w)) d))) w)"

lemma becomes_unchanged: "becomes w d w' \<Longrightarrow> d = w_db w \<Longrightarrow> becomes w (w_db w) w'"
  by simp

lemma changes_Grant: "changes_access k (granted k n) (AccessStore_Grant k n)"
  unfolding changes_access_def AccessStore_Grant_def validateUserAndNode_def validateUser_def
    require_node_def count_users_def count_nodes_def fail_def ok_def
  by (auto simp: wp_step becomes_def only_access_def granted_def intro!: wp_db_query wp_db_exec)

lemma changes_GrantAll: "changes_access k (granted_all k) (AccessStore_GrantAll k)"
  unfolding changes_access_def AccessStore_GrantAll_def validateUser_def count_users_def fail_def ok_def
  by (auto simp: wp_step becomes_def only_access_def granted_all_def set_fold_add_access
      intro!: wp_db_query wp_db_exec)

lemma changes_Revoke: "changes_access k (revoked k n) (AccessStore_Revoke k n)"
  unfolding changes_access_def AccessStore_Revoke_def
  by (auto simp: wp_step becomes_def only_access_def revoked_def set_del_rows intro!: wp_db_exec)

lemma changes_RevokeAll: "changes_access k (replaced k []) (AccessStore_RevokeAll k)"
  unfolding changes_access_def AccessStore_RevokeAll_def delete_access_of_user_def
  by (auto simp: wp_step becomes_def only_access_def replaced_def set_del_rows uniqueSortedIDs_def
      intro!: wp_db_exec)

lemma changes_Replace: "changes_access k (replaced k ids) (AccessStore_Replace k ids)"
proof -
  have body: "does (and_then (for_each require_node (uniqueSortedIDs ids)) (\<lambda>_.
       and_then (delete_access_of_user k) (\<lambda>_.
       for_each (insert_access k) (uniqueSortedIDs ids))))
    (\<lambda>now. set_access k (uniqueSortedIDs ids)) (\<lambda>now d _. True)"
    by (rule does_weaken, rule does_and_then [OF does_require_nodes does_replace_access]) auto
  have tx: "wp (transaction (and_then (for_each require_node (uniqueSortedIDs ids)) (\<lambda>_.
       and_then (delete_access_of_user k) (\<lambda>_.
       for_each (insert_access k) (uniqueSortedIDs ids)))))
     (\<lambda>r w'. (\<forall>e. r = Inl e \<longrightarrow> becomes w (w_db w) w') \<and>
        (\<forall>a. r = Inr a \<longrightarrow> (\<exists>d. becomes w d w' \<and> only_access k (w_db w) (replaced k ids (w_db w)) d))) w1"
    if "becomes w (w_db w) w1" for w w1
    by (rule wp_transaction_does [OF body])
      (use that set_access_only [of k "w_db w"] in \<open>auto simp: becomes_def replaced_def\<close>)
  have check: "wp (validateUser k) (\<lambda>r w'. becomes w (w_db w) w') w" for w
    unfolding validateUser_def count_users_def fail_def ok_def
    by (auto simp: wp_step becomes_def intro!: wp_db_query)
  show ?thesis
    unfolding changes_access_def AccessStore_Replace_def Let_def and_then_def [of "validateUser k"]
  proof (intro allI, rule wp_attemptI [OF check], goal_cases)
    case (1 w e w1)
    then show ?case by (simp add: wp_return)
  next
    case (2 w a w1)
    then show ?case by (rule tx)
  qed
qed

section \<open>The handlers\<close>

text \<open>
  \<open>access_promise\<close>: answered with success, every node runs the new assignments; answered as
  rolled back, the assignments are the old ones and every node runs these.
\<close>

definition access_promise :: "(db \<Rightarrow> (int \<times> int) set) \<Rightarrow> world \<Rightarrow> response \<Rightarrow> world \<Rightarrow> bool" where
  "access_promise new w rp w' \<longleftrightarrow>
     (rp_status rp = 200 \<longrightarrow> (\<forall>i. in_sync w' i) \<and>
        (\<exists>acc. w_db w' = (w_db w)\<lparr>d_access := acc\<rparr> \<and> set acc = new (w_db w))) \<and>
     (rolled_back ''access change was rolled back: '' rp \<longrightarrow> (\<forall>i. in_sync w' i) \<and>
        (\<exists>acc. w_db w' = (w_db w)\<lparr>d_access := acc\<rparr> \<and> set acc = set (d_access (w_db w))))"

lemma access_promise_error [simp]: "st \<noteq> 200 \<Longrightarrow> st \<noteq> 502 \<Longrightarrow>
    access_promise new w \<lparr>rp_status = st, rp_payload = p\<rparr> w'"
  by (simp add: access_promise_def rolled_back_def)

lemma access_promise_failed: "access_promise new w \<lparr>rp_status = 502,
    rp_payload = PError (''access change was rolled back, but restoring one or more nodes failed: '' @ e)\<rparr> w'"
  by (simp add: access_promise_def rolled_back_def)

lemma same_for_access:
  assumes "d_users d' = d_users d" "d_inbounds d' = d_inbounds d" "d_nodes d' = d_nodes d"
    and "\<And>j. (j, i) \<in> set (d_access d') \<longleftrightarrow> (j, i) \<in> set (d_access d)"
  shows "same_for i d d'"
  by (rule same_for_edit [where f = "\<lambda>u. u"]) (use assms in auto)

lemma replace_back:
  assumes "db_ok d" "only_access k d new d'"
    and "only_access k d' (replaced k (nodes_of_user k d) d') d2"
  shows "\<exists>acc. d2 = d\<lparr>d_access := acc\<rparr>" and "set (d_access d2) = set (d_access d)"
proof -
  have pos: "0 < i" if "(k, i) \<in> set (d_access d)" for i
    by (rule db_ok_access_pos [OF assms(1) that])
  have set': "set (d_access d2) = replaced k (nodes_of_user k d) d'"
    using assms(3) by (simp add: only_access_def)
  have other: "(j, i) \<in> set (d_access d') \<longleftrightarrow> (j, i) \<in> set (d_access d)" if "j \<noteq> k" for i j
    using assms(2) that by (auto simp: only_access_def)
  have "(j, i) \<in> replaced k (nodes_of_user k d) d' \<longleftrightarrow> (j, i) \<in> set (d_access d)" for i j
    using pos other [of j i] by (auto simp: replaced_def id_law set_nodes_of_user)
  then show "set (d_access d2) = set (d_access d)"
    unfolding set' by auto
  show "\<exists>acc. d2 = d\<lparr>d_access := acc\<rparr>"
    using assms(2,3) by (auto simp: only_access_def)
qed

context node_synchronizer
begin

lemma wp_change_access:
  assumes ok: "db_ok (w_db w)" "fleet_ok (w_db w)" and sync: "\<And>i. in_sync w i"
    and op: "changes_access k new op" and st: "st \<noteq> 200" "st \<noteq> 502"
    and w0: "becomes w (w_db w) w0" and B: "B = nodes_of_user k (w_db w)"
  shows "wp (change_access (Some SyncNodes) k op st B) (access_promise new w) w0"
  unfolding change_access_def
proof (rule wp_attemptI [OF op [unfolded changes_access_def, rule_format]], goal_cases)
  case (1 e w1)
  then show ?case using st by (simp add: wp_step)
next
  case (2 a w1)
  then obtain d1 where w1: "becomes w d1 w1" and d1: "only_access k (w_db w) (new (w_db w)) d1"
    using w0 by (auto simp: becomes_def)
  note undo = changes_Replace [of k B, unfolded changes_access_def, rule_format]
  have frame: "d_users d1 = d_users (w_db w)" "d_inbounds d1 = d_inbounds (w_db w)"
    "d_nodes d1 = d_nodes (w_db w)" using d1 by (auto simp: only_access_def)
  show ?case
  proof (rule wp_attemptI [OF ids_post], goal_cases)
    case (1 e w2)
    show ?case unfolding wp_bind by (rule wp_mono [OF undo]) (simp add: wp_step)
  next
    case (2 A w2)
    then have w2: "w_db w2 = d1" "w_now w2 = w_now w" "w_fleet w2 = w_fleet w" and A: "A = nodes_of_user k d1"
      using w1 by (auto simp: becomes_def)
    have alike: "same_for i (w_db w) d1" if "i \<notin> set (changedIDs B A)" for i
    proof (rule same_for_access [OF frame])
      show "(j, i) \<in> set (d_access d1) \<longleftrightarrow> (j, i) \<in> set (d_access (w_db w))" for j
        using that d1 by (cases "j = k") (auto simp: id_law A B set_nodes_of_user only_access_def)
    qed
    have fleet1: "fleet_ok d1"
      by (rule fleet_ok_users [OF ok(2)]) (use ok(2) frame in \<open>auto simp: fleet_ok_def\<close>)
    show ?case
      unfolding completeAccessChange_def Let_def
    proof (rule wp_sync_or_undo [where U = "\<lambda>d. (\<exists>acc. d = (w_db w)\<lparr>d_access := acc\<rparr>)
        \<and> set (d_access d) = set (d_access (w_db w))"], goal_cases)
      case 1
      show ?case using fleet1 w2 by simp
    next
      case (2 i)
      show ?case by (rule in_sync_same_for [OF sync alike [folded w2(1)]]) (use 2 w2 in simp_all)
    next
      case (3 rs w3)
      then show ?case
        using w2 d1 by (auto simp: wp_step access_promise_def rolled_back_def only_access_def)
    next
      case (4 w3)
      show ?case
      proof (rule wp_mono [OF undo], intro conjI allI impI, goal_cases)
        case (2 r w4 a)
        then obtain d2 where d2: "becomes w3 d2 w4" "only_access k d1 (replaced k B d1) d2"
          using 4 w2 by auto
        note restored = replace_back [OF ok(1) d1 d2(2) [unfolded B]]
        have frame2: "d_users d2 = d_users d1" "d_inbounds d2 = d_inbounds d1" "d_nodes d2 = d_nodes d1"
          using d2(2) by (auto simp: only_access_def)
        have "fleet_ok d2"
          by (rule fleet_ok_users [OF fleet1]) (use frame2 fleet1 in \<open>auto simp: fleet_ok_def\<close>)
        moreover have "same_for i d1 d2" if "i \<notin> set (changedIDs B A)" for i
        proof (rule same_for_trans [OF same_for_sym [OF alike [OF that]]])
          show "same_for i (w_db w) d2"
            by (rule same_for_access) (use frame frame2 restored(2) in auto)
        qed
        ultimately show ?case using d2(1) restored w2 by blast
      qed simp
    next
      case (5 e w4)
      show ?case by (rule access_promise_failed)
    next
      case (6 e w4)
      then show ?case by (auto simp: access_promise_def)
    qed
  qed
qed

lemma wp_grantAccess:
  fixes r :: request
  assumes ok: "db_ok (w_db w)" "fleet_ok (w_db w)" and sync: "\<And>i. in_sync w i"
  defines "k \<equiv> extractUserID (r_path r)"
  shows "wp (AccessHandler_grantAccess (Some SyncNodes) r) (access_promise
    (case as_access (r_body r) of Some req \<Rightarrow> if ar_all req then granted_all k else granted k (ar_node req)
      | None \<Rightarrow> (\<lambda>d. {})) w) w"
proof (cases "k = 0 \<or> as_access (r_body r) = None")
  case True
  then show ?thesis by (auto simp: AccessHandler_grantAccess_def Let_def wp_step simp flip: k_def)
next
  case False
  then obtain req where k: "k \<noteq> 0" and req: "as_access (r_body r) = Some req" by auto
  note change = wp_change_access [OF ok sync]
  show ?thesis
    unfolding AccessHandler_grantAccess_def Let_def k_def [symmetric] if_not_P [OF k] req option.case
  proof (rule wp_attemptI [OF ids_post], goal_cases)
    case (2 B w0)
    then show ?case
      using change [OF changes_GrantAll, of 400] change [OF changes_Grant, of 400 w0 B k "ar_node req"]
      by (auto simp: wp_step)
  qed (simp add: wp_step)
qed

lemma wp_revokeAccess:
  fixes r :: request
  assumes ok: "db_ok (w_db w)" "fleet_ok (w_db w)" and sync: "\<And>i. in_sync w i"
  defines "k \<equiv> extractUserID (r_path r)"
  shows "wp (AccessHandler_revokeAccess (Some SyncNodes) r) (access_promise
    (case as_access (r_body r) of Some req \<Rightarrow> if ar_all req then replaced k [] else revoked k (ar_node req)
      | None \<Rightarrow> (\<lambda>d. {})) w) w"
proof (cases "k = 0 \<or> as_access (r_body r) = None")
  case True
  then show ?thesis by (auto simp: AccessHandler_revokeAccess_def Let_def wp_step simp flip: k_def)
next
  case False
  then obtain req where k: "k \<noteq> 0" and req: "as_access (r_body r) = Some req" by auto
  note change = wp_change_access [OF ok sync]
  show ?thesis
    unfolding AccessHandler_revokeAccess_def Let_def k_def [symmetric] if_not_P [OF k] req option.case
  proof (rule wp_attemptI [OF ids_post], goal_cases)
    case (2 B w0)
    then show ?case
      using change [OF changes_RevokeAll, of 500] change [OF changes_Revoke, of 500 w0 B k "ar_node req"]
      by (auto simp: wp_step)
  qed (simp add: wp_step)
qed

lemma wp_replaceAccess:
  fixes r :: request
  assumes ok: "db_ok (w_db w)" "fleet_ok (w_db w)" and sync: "\<And>i. in_sync w i"
  defines "k \<equiv> extractUserID (r_path r)"
  shows "wp (AccessHandler_replaceAccess (Some SyncNodes) r) (access_promise
    (case as_node_ids (r_body r) of Some ids \<Rightarrow> replaced k ids | None \<Rightarrow> (\<lambda>d. {})) w) w"
proof (cases "k = 0 \<or> as_node_ids (r_body r) = None")
  case True
  then show ?thesis by (auto simp: AccessHandler_replaceAccess_def Let_def wp_step simp flip: k_def)
next
  case False
  then obtain ids where k: "k \<noteq> 0" and ids: "as_node_ids (r_body r) = Some ids" by auto
  note change = wp_change_access [OF ok sync]
  show ?thesis
    unfolding AccessHandler_replaceAccess_def Let_def k_def [symmetric] if_not_P [OF k] ids option.case
  proof (rule wp_attemptI [OF ids_post], goal_cases)
    case (2 B w0)
    then show ?case using change [OF changes_Replace, of 400] by (auto simp: wp_step)
  qed (simp add: wp_step)
qed

end

end
