(* ===== verification/UserSync.thy ===== *)
theory UserSync
  imports UserHandler Integrity Rollback
begin

text \<open>
  What the handlers of \<open>handler/user.go\<close> guarantee, proved against the contract of the
  synchroniser: after an edit, a deletion or a traffic reset that is answered with success
  every node runs what the database says, and after one that is answered as rolled back
  every node does so as well and the database is the old one, up to the note.
\<close>

section \<open>What an edit and its undo do to a row\<close>

lemma scan_user_fields [simp]: "u_name (scan_user u) = u_name u" "u_enabled (scan_user u) = u_enabled u"
  "u_limit (scan_user u) = u_limit u" "u_expire (scan_user u) = u_expire u" "u_id (scan_user u) = u_id u"
  "u_reset_day (scan_user u) = u_reset_day u" "u_used (scan_user u) = u_used u" "u_up (scan_user u) = u_up u"
  "u_down (scan_user u) = u_down u" "u_last_reset (scan_user u) = u_last_reset u" "u_note (scan_user u) = u_note u"
  by (simp_all add: scan_user_def)

lemma edited_kept [simp]: "u_uuid (edited req now u) = u_uuid u" "u_used (edited req now u) = u_used u"
  "u_sub_token (edited req now u) = u_sub_token u"
  by (simp_all add: edited_def opt_edit_def split: option.splits)

lemma unchanged_same_rights:
  "\<not> userConfigChanged (scan_user u) (scan_user (edited req now u)) \<Longrightarrow> same_rights u (edited req now u)"
  by (simp add: userConfigChanged_def same_rights_def)

text \<open>
  Restoring the row after an edit gives back all of it except the note and the time of the
  last update.
\<close>

lemma restore_edited: "edited (restore_req (scan_user u)) now (edited req now u)
    = opt_edit (uu_note req) (\<lambda>v u. u\<lparr>u_note := v\<rparr>) (u\<lparr>u_updated := now\<rparr>)"
  by (cases u) (simp add: edited_def restore_req_def opt_edit_def split: option.splits)

text \<open>An edit of user \<open>k\<close>, with or without new assignments, seen by node \<open>i\<close>.\<close>

lemma same_for_upd_user:
  assumes "sel_row u_id k (d_users d) = Some u" "distinct (map u_id (d_users d))"
    and "\<And>u. u_id (f u) = u_id u" "(k, i) \<in> set (d_access d) \<Longrightarrow> same_rights u (f u)"
    and "\<And>j. (j, i) \<in> set (d_access d') \<longleftrightarrow> (j, i) \<in> set (d_access d)"
    and "d_users d' = upd_row u_id k f (d_users d)"
    and "d_inbounds d' = d_inbounds d" "d_nodes d' = d_nodes d"
  shows "same_for i d d'"
proof -
  have only: "x = u" if "x \<in> set (d_users d)" "u_id x = k" for x
    using that assms(2) sel_row_SomeD [OF assms(1)] by (auto simp: distinct_map dest: inj_onD)
  show ?thesis
    by (rule same_for_edit [where f = "\<lambda>x. if u_id x = k then f x else x"])
      (use assms only in \<open>auto simp: upd_row_def\<close>)
qed

text \<open>
  After a rolled back edit: only the note and the update time of the row may differ, and
  the order of the assignments.
\<close>

definition restored_but_note :: "int \<Rightarrow> string option \<Rightarrow> db \<Rightarrow> db \<Rightarrow> bool" where
  "restored_but_note k note d d' \<longleftrightarrow>
     (\<exists>now. d_users d' = upd_row u_id k (\<lambda>u. opt_edit note (\<lambda>v u. u\<lparr>u_note := v\<rparr>) (u\<lparr>u_updated := now\<rparr>)) (d_users d))
     \<and> set (d_access d') = set (d_access d) \<and> d_nodes d' = d_nodes d \<and> d_inbounds d' = d_inbounds d
     \<and> d_logs d' = d_logs d \<and> d_user_seq d' = d_user_seq d \<and> d_node_seq d' = d_node_seq d
     \<and> d_inbound_seq d' = d_inbound_seq d"

text \<open>The database of an edit: the row edited, the assignments replaced when they are given.\<close>

definition edit_db :: "int \<Rightarrow> update_user_req \<Rightarrow> int list option \<Rightarrow> datetime \<Rightarrow> db \<Rightarrow> db" where
  "edit_db k req ids now d = (case ids of
     None \<Rightarrow> upd_user k (edited req (FormatDateTime now)) d
   | Some ids \<Rightarrow> edit_access k req ids now d)"

definition edit_targets :: "int \<Rightarrow> int list option \<Rightarrow> user \<Rightarrow> user \<Rightarrow> db \<Rightarrow> db \<Rightarrow> int list" where
  "edit_targets k ids before user d d' =
    (if ids \<noteq> None \<or> userConfigChanged before user
     then unionIDs [nodes_of_user k d, nodes_of_user k d']
     else changedIDs (nodes_of_user k d) (nodes_of_user k d'))"

lemma edit_db_frame [simp]: "d_nodes (edit_db k req ids now d) = d_nodes d"
  "d_inbounds (edit_db k req ids now d) = d_inbounds d"
  "d_users (edit_db k req ids now d) = upd_row u_id k (edited req (FormatDateTime now)) (d_users d)"
  by (simp_all add: edit_db_def edit_access_def split: option.splits)

lemma edit_db_other: "j \<noteq> k \<Longrightarrow> (j, i) \<in> set (d_access (edit_db k req ids now d)) \<longleftrightarrow> (j, i) \<in> set (d_access d)"
  by (simp add: edit_db_def edit_access_def split: option.splits)

text \<open>The targets are complete: a node outside them sees no difference.\<close>

lemma edit_targets_complete:
  assumes u: "sel_row u_id k (d_users d) = Some u" "distinct (map u_id (d_users d))"
    and i: "0 < i" "i \<notin> set (edit_targets k ids (scan_user u)
      (scan_user (edited req (FormatDateTime now) u)) d (edit_db k req ids now d))"
  shows "same_for i d (edit_db k req ids now d)"
proof (rule same_for_upd_user [OF u])
  let ?changed = "userConfigChanged (scan_user u) (scan_user (edited req (FormatDateTime now) u))"
  have same: "(k, i) \<in> set (d_access (edit_db k req ids now d)) \<longleftrightarrow> (k, i) \<in> set (d_access d)"
    using i by (auto simp: edit_targets_def set_nodes_of_user id_law split: if_splits)
  then show "(j, i) \<in> set (d_access (edit_db k req ids now d)) \<longleftrightarrow> (j, i) \<in> set (d_access d)" for j
    using edit_db_other by (cases "j = k") auto
  have "\<not> ?changed" if "(k, i) \<in> set (d_access d)"
    using i that by (auto simp: edit_targets_def set_nodes_of_user id_law split: if_splits)
  then show "(k, i) \<in> set (d_access d) \<Longrightarrow> same_rights u (edited req (FormatDateTime now) u)"
    using unchanged_same_rights by blast
qed simp_all

text \<open>Undoing the edit.\<close>

lemma undo_edit:
  fixes req :: update_user_req and ids :: "int list option" and now :: datetime
  assumes ok: "db_ok d" and u: "sel_row u_id k (d_users d) = Some u"
  defines "d2 \<equiv> edit_access k (restore_req (scan_user u)) (nodes_of_user k d) now (edit_db k req ids now d)"
  shows "restored_but_note k (uu_note req) d d2" and "\<And>i. 0 < i \<Longrightarrow> same_for i d d2"
proof -
  note dist = db_ok_user_ids [OF ok]
  have users: "d_users d2 = upd_row u_id k (\<lambda>x. edited (restore_req (scan_user u)) (FormatDateTime now)
      (edited req (FormatDateTime now) x)) (d_users d)"
    by (simp add: d2_def edit_access_def upd_upd_row)
  also have "\<dots> = upd_row u_id k (\<lambda>x. opt_edit (uu_note req) (\<lambda>v u. u\<lparr>u_note := v\<rparr>)
      (x\<lparr>u_updated := FormatDateTime now\<rparr>)) (d_users d)"
    by (rule upd_row_cong [OF u dist]) (rule restore_edited)
  finally have rows: "d_users d2 = \<dots>" .
  have acc: "(j, i) \<in> set (d_access d2) \<longleftrightarrow> (j, i) \<in> set (d_access d)" for i j
    using db_ok_access_pos [OF ok, of k i] edit_db_other [of j k]
    by (auto simp: d2_def edit_access_def set_nodes_of_user id_law)
  show "restored_but_note k (uu_note req) d d2"
    unfolding restored_but_note_def using rows acc
    by (auto simp: d2_def edit_access_def edit_db_def set_access_def upd_user_def split: option.splits)
  show "same_for i d d2" if "0 < i" for i
    by (rule same_for_upd_user [OF u dist, where f = "\<lambda>x. opt_edit (uu_note req) (\<lambda>v u. u\<lparr>u_note := v\<rparr>)
        (x\<lparr>u_updated := FormatDateTime now\<rparr>)"])
      (use acc rows in \<open>auto simp: opt_edit_def same_rights_def d2_def edit_access_def split: option.splits\<close>)
qed

lemma fleet_ok_edit: "fleet_ok d \<Longrightarrow> fleet_ok (edit_db k req ids now d)"
  by (rule fleet_ok_users [of d]) (simp_all add: keys_upd_row fleet_ok_def)

lemma wp_restoreUser:
  assumes "\<And>e w'. becomes w (w_db w) w' \<Longrightarrow> Q (Inl e) w'"
    and "\<And>w' e. becomes w (edit_access (u_id u) (restore_req u) ids (w_now w) (w_db w)) w' \<Longrightarrow> Q (Inl e) w'"
    and "\<And>w'. becomes w (edit_access (u_id u) (restore_req u) ids (w_now w) (w_db w)) w' \<Longrightarrow> Q (Inr ()) w'"
  shows "wp (restoreUser u ids) Q w"
  unfolding restoreUser_def wp_and_then ok_def wp_return
  by (rule wp_UserStore_UpdateWithAccess) (use assms in auto)

section \<open>The handlers under the contract of the synchroniser\<close>

definition update_promise :: "request \<Rightarrow> world \<Rightarrow> response \<Rightarrow> world \<Rightarrow> bool" where
  "update_promise r w rp w' \<longleftrightarrow>
     (rp_status rp = 200 \<longrightarrow> (\<forall>i. in_sync w' i) \<and>
        (\<exists>req ids. as_update_user (r_body r) = Some (req, ids) \<and>
           w_db w' = edit_db (parseID (r_path r) ''/api/users/'') req ids (w_now w) (w_db w))) \<and>
     (rolled_back ''user edit was rolled back: '' rp \<longrightarrow> (\<forall>i. in_sync w' i) \<and>
        (\<exists>req ids. as_update_user (r_body r) = Some (req, ids) \<and>
           restored_but_note (parseID (r_path r) ''/api/users/'') (uu_note req) (w_db w) (w_db w')))"

lemma update_promise_error [simp]: "st \<noteq> 200 \<Longrightarrow> st \<noteq> 502 \<Longrightarrow>
    update_promise r w \<lparr>rp_status = st, rp_payload = p\<rparr> w'"
  by (simp add: update_promise_def rolled_back_def)

lemma update_promise_failed: "update_promise r w \<lparr>rp_status = 502,
    rp_payload = PError (''user edit was rolled back, but restoring one or more nodes failed: '' @ e)\<rparr> w'"
  by (simp add: update_promise_def rolled_back_def)

lemma edit_post: "wp (case ids of Some ids \<Rightarrow> UserStore_UpdateWithAccess k req ids
      | None \<Rightarrow> UserStore_Update k req) (\<lambda>r w'. \<forall>a. r = Inr a \<longrightarrow>
      becomes w (edit_db k req ids (w_now w) (w_db w)) w' \<and>
      (\<exists>u. sel_row u_id k (d_users (w_db w)) = Some u \<and>
        a = scan_user (edited req (FormatDateTime (w_now w)) u))) w"
  by (cases ids) (auto intro: wp_UserStore_Update wp_UserStore_UpdateWithAccess simp: edit_db_def)

context node_synchronizer
begin

lemma wp_update:
  assumes ok: "db_ok (w_db w)" "fleet_ok (w_db w)" and sync: "\<And>i. in_sync w i"
  shows "wp (UserHandler_update (Some SyncNodes) r) (update_promise r w) w"
proof -
  define k where "k = parseID (r_path r) ''/api/users/''"
  note dist = db_ok_user_ids [OF ok(1)]
  have main: "wp (do { results \<leftarrow> syncNodes (Some SyncNodes) targets;
       (case syncFailure results of
          Some syncErr \<Rightarrow>
            attempt (restoreUser (scan_user u) (nodes_of_user k (w_db w)))
              (\<lambda>rollbackErr. writeError 500
                 (''node sync failed and user rollback failed: '' @ err_text rollbackErr))
              (\<lambda>_. do { restoreResults \<leftarrow> syncNodes (Some SyncNodes) targets;
                 (case syncFailure restoreResults of
                    Some restoreErr \<Rightarrow> writeError 502
                      (''user edit was rolled back, but restoring one or more nodes failed: '' @ restoreErr)
                  | None \<Rightarrow> writeError 502 (''user edit was rolled back: '' @ syncErr)) })
        | None \<Rightarrow> writeJSON 200 (PUserSync user results)) }) (update_promise r w) w1"
    if u: "sel_row u_id k (d_users (w_db w)) = Some u"
      and body: "as_update_user (r_body r) = Some (req, ids)"
      and w1: "becomes w (edit_db k req ids (w_now w) (w_db w)) w1"
      and targets: "targets = edit_targets k ids (scan_user u)
        (scan_user (edited req (FormatDateTime (w_now w)) u)) (w_db w) (w_db w1)"
    for u user req ids w1 targets
  proof (rule wp_sync_or_undo [where U = "restored_but_note k (uu_note req) (w_db w)"], goal_cases)
    have db1: "w_db w1 = edit_db k req ids (w_now w) (w_db w)" and now1: "w_now w1 = w_now w"
      "w_fleet w1 = w_fleet w" using w1 by (simp_all add: becomes_def)
    have alike: "same_for i (w_db w) (w_db w1)" if "0 < i" "i \<notin> set targets" for i
      using edit_targets_complete [OF u dist that(1)] that(2) by (simp add: targets db1)
    {
      case 1
      show ?case using fleet_ok_edit [OF ok(2)] by (simp add: db1)
    next
      case (2 i)
      show ?case by (rule in_sync_same_for [OF sync alike]) (use 2 now1 in simp_all)
    next
      case (3 rs w2)
      then show ?case using body db1 by (auto simp: wp_step update_promise_def rolled_back_def k_def)
    next
      case (4 w2)
      have uid: "u_id (scan_user u) = k" using sel_row_SomeD [OF u] by simp
      note undo = undo_edit [OF ok(1) u, where now = "w_now w" and req = req and ids = ids]
      show ?case
      proof (rule wp_restoreUser, goal_cases)
        case (3 w3)
        let ?d = "edit_access k (restore_req (scan_user u)) (nodes_of_user k (w_db w)) (w_now w) (w_db w1)"
        have "fleet_ok ?d"
          using fleet_ok_users [OF ok(2), of ?d] 4 db1 dist
          by (simp add: edit_access_def keys_upd_row)
        moreover have "same_for i (w_db w1) ?d" if "0 < i" "i \<notin> set targets" for i
          using same_for_trans [OF same_for_sym [OF alike [OF that]]] undo(2) [OF that(1)] 4 db1 now1 by simp
        ultimately show ?case using 3 undo(1) 4 db1 now1 uid by auto
      qed simp_all
    next
      case (5 e w4)
      show ?case by (rule update_promise_failed)
    next
      case (6 e w4)
      then show ?case using body by (auto simp: update_promise_def k_def)
    }
  qed
  show ?thesis
  proof (cases "k = 0")
    case True
    then show ?thesis by (simp add: UserHandler_update_def k_def wp_step)
  next
    case k: False
    show ?thesis
      unfolding UserHandler_update_def Let_def k_def [symmetric] if_not_P [OF k]
    proof (rule wp_attemptI [OF get_post], goal_cases)
      case (2 before w0)
      then obtain u where w0: "becomes w (w_db w) w0" and u: "sel_row u_id k (d_users (w_db w)) = Some u"
        and before: "before = scan_user u" by auto
      show ?case
      proof (rule wp_attemptI [OF ids_post], goal_cases)
        case (2 B w1)
        then have w1: "becomes w (w_db w) w1" and B: "B = nodes_of_user k (w_db w)"
          using w0 by (auto simp: becomes_def)
        show ?case
        proof (cases "as_update_user (r_body r)")
          case (Some p)
          obtain req ids where p: "p = (req, ids)" by (cases p)
          show ?thesis
            unfolding Some option.case p prod.case
          proof (rule wp_attemptI [OF edit_post], goal_cases)
            case (2 user w2)
            then have w2: "becomes w (edit_db k req ids (w_now w) (w_db w)) w2"
              and user: "user = scan_user (edited req (FormatDateTime (w_now w)) u)"
              using w1 u by (auto simp: becomes_def)
            show ?case
            proof (rule wp_attemptI [OF ids_post], goal_cases)
              case (1 e w3)
              show ?case unfolding wp_bind by (rule wp_restoreUser) (simp_all add: wp_step)
            next
              case (2 A w3)
              then have w3: "becomes w (edit_db k req ids (w_now w) (w_db w)) w3"
                and A: "A = nodes_of_user k (w_db w3)"
                using w2 by (auto simp: becomes_def)
              show ?case
                unfolding before B
                by (rule main [OF u _ w3]) (simp_all add: Some p edit_targets_def user A)
            qed
          qed (simp add: wp_step)
        qed (simp add: wp_step)
      qed (simp add: wp_step)
    qed (simp add: wp_step)
  qed
qed

end

section \<open>Deleting a user\<close>

definition delete_user_db :: "int \<Rightarrow> db \<Rightarrow> db" where
  "delete_user_db k d = d\<lparr>d_users := del_rows (\<lambda>u. u_id u = k) (d_users d),
     d_access := del_rows (\<lambda>a. fst a = k) (d_access d), d_logs := del_rows (\<lambda>t. t_user t = k) (d_logs d)\<rparr>"

lemma does_DeleteWithRelatedData: "wp (UserStore_DeleteWithRelatedData k) (\<lambda>r w'.
    (r = Inr () \<longrightarrow> becomes w (delete_user_db k (w_db w)) w') \<and>
    (\<forall>e. r = Inl e \<longrightarrow> becomes w (w_db w) w')) w"
proof -
  have logs: "does (db_exec (\<lambda>d. Inr ((), d\<lparr>d_logs := del_rows (\<lambda>t. t_user t = k) (d_logs d)\<rparr>)))
      (\<lambda>now d. d\<lparr>d_logs := del_rows (\<lambda>t. t_user t = k) (d_logs d)\<rparr>) (\<lambda>now d _. True)"
    by (rule does_weaken [OF does_exec]) auto
  have users: "does (db_exec (\<lambda>d. Inr (count_rows (\<lambda>u. u_id u = k) (d_users d),
         d\<lparr>d_users := del_rows (\<lambda>u. u_id u = k) (d_users d)\<rparr>)))
      (\<lambda>now d. d\<lparr>d_users := del_rows (\<lambda>u. u_id u = k) (d_users d)\<rparr>) (\<lambda>now d _. True)"
    by (rule does_weaken [OF does_exec]) auto
  have body: "does (and_then (delete_access_of_user k) (\<lambda>_.
     and_then (db_exec (\<lambda>d. Inr ((), d\<lparr>d_logs := del_rows (\<lambda>t. t_user t = k) (d_logs d)\<rparr>))) (\<lambda>_.
     and_then (db_exec (\<lambda>d. Inr (count_rows (\<lambda>u. u_id u = k) (d_users d),
         d\<lparr>d_users := del_rows (\<lambda>u. u_id u = k) (d_users d)\<rparr>))) (\<lambda>deleted.
     if deleted \<noteq> 1 then fail ErrNoRows else ok ()))))
     (\<lambda>now. delete_user_db k) (\<lambda>now d _. True)"
    by (rule does_weaken, rule does_and_then [OF does_delete_access],
        rule does_and_then [OF logs], rule does_and_then [OF users], rule does_check)
      (simp add: delete_user_db_def set_access_def)
  show ?thesis
    unfolding UserStore_DeleteWithRelatedData_def by (rule wp_transaction_does [OF body]) auto
qed

text \<open>Without assignments the user is in no document, so its rows may go.\<close>

lemma served_delete_user:
  assumes "\<And>i. (k, i) \<notin> set (d_access d)"
  shows "gen_doc now i (delete_user_db k d) = gen_doc now i d"
proof -
  have "served now i (delete_user_db k d) = served now i d"
    using assms by (auto simp: served_def delete_user_db_def del_rows_def intro!: filter_cong)
  then show ?thesis by (simp add: gen_doc_def inbounds_of_def delete_user_db_def)
qed

lemma delete_after_edit: "delete_user_db k (edit_db k req ids now d) = delete_user_db k d"
proof -
  have 1: "del_rows (\<lambda>u. u_id u = k) (upd_row u_id k f us) = del_rows (\<lambda>u. u_id u = k) us"
    if "\<And>u. u_id (f u) = u_id u" for f us
    using that by (induction us) (auto simp: del_rows_def upd_row_def)
  have 2: "del_rows (\<lambda>a. fst a = k) (del_rows (\<lambda>a. fst a = k) acc @ map (Pair k) xs)
      = del_rows (\<lambda>a. fst a = k) acc" for acc :: "(int \<times> int) list" and xs
    by (induction acc) (auto simp: del_rows_def)
  show ?thesis
    by (simp add: delete_user_db_def edit_db_def edit_access_def set_access_def upd_user_def 1 2
        split: option.splits)
qed

lemma fleet_ok_delete: "fleet_ok d \<Longrightarrow> fleet_ok (delete_user_db k d)"
  by (rule fleet_ok_users [of d]) (auto simp: delete_user_db_def fleet_ok_def del_rows_def
      distinct_map inj_on_def)

definition delete_promise :: "request \<Rightarrow> world \<Rightarrow> response \<Rightarrow> world \<Rightarrow> bool" where
  "delete_promise r w rp w' \<longleftrightarrow>
     (rp_status rp = 200 \<longrightarrow> (\<forall>i. in_sync w' i) \<and>
        w_db w' = delete_user_db (parseID (r_path r) ''/api/users/'') (w_db w)) \<and>
     (rolled_back ''user deletion was rolled back: '' rp \<longrightarrow> (\<forall>i. in_sync w' i) \<and>
        restored_but_note (parseID (r_path r) ''/api/users/'') None (w_db w) (w_db w'))"

lemma delete_promise_error [simp]: "st \<noteq> 200 \<Longrightarrow> st \<noteq> 502 \<Longrightarrow>
    delete_promise r w \<lparr>rp_status = st, rp_payload = p\<rparr> w'"
  by (simp add: delete_promise_def rolled_back_def)

lemma delete_promise_failed: "delete_promise r w \<lparr>rp_status = 502,
    rp_payload = PError (''user deletion was rolled back, but restoring one or more nodes failed: '' @ e)\<rparr> w'"
  by (simp add: delete_promise_def rolled_back_def)

context node_synchronizer
begin

lemma wp_delete:
  assumes ok: "db_ok (w_db w)" "fleet_ok (w_db w)" and sync: "\<And>i. in_sync w i"
  shows "wp (UserHandler_delete (Some SyncNodes) r) (delete_promise r w) w"
proof -
  define k where "k = parseID (r_path r) ''/api/users/''"
  note dist = db_ok_user_ids [OF ok(1)]
  show ?thesis
  proof (cases "k = 0")
    case True
    then show ?thesis by (simp add: UserHandler_delete_def k_def wp_step delete_promise_def rolled_back_def)
  next
    case k: False
    show ?thesis
      unfolding UserHandler_delete_def Let_def k_def [symmetric] if_not_P [OF k]
    proof (rule wp_attemptI [OF get_post], goal_cases)
      case (1 e t)
      then show ?case by (simp add: wp_step)
    next
      case (2 before w0)
      then obtain u where w0: "becomes w (w_db w) w0" and u: "sel_row u_id k (d_users (w_db w)) = Some u"
        and before: "before = scan_user u" by auto
      show ?case
      proof (rule wp_attemptI [OF ids_post], goal_cases)
        case (1 e t)
        then show ?case by (simp add: wp_step)
      next
        case (2 B w1)
        then have w1: "becomes w (w_db w) w1" and B: "B = nodes_of_user k (w_db w)"
          using w0 by (auto simp: becomes_def)
        show ?case
        proof (rule wp_attemptI [OF edit_post [where ids = "Some []", simplified]], goal_cases)
          case (1 e t)
          then show ?case by (simp add: wp_step)
        next
          case (2 user w2)
          define d1 where "d1 = edit_db k disable_req (Some []) (w_now w) (w_db w)"
          have w2: "becomes w d1 w2" using 2 w1 by (auto simp: d1_def becomes_def)
          have db2: "w_db w2 = d1" "w_now w2 = w_now w" "w_fleet w2 = w_fleet w"
            using w2 by (simp_all add: becomes_def)
          have fleet1: "fleet_ok d1" unfolding d1_def by (rule fleet_ok_edit [OF ok(2)])
          have none: "(k, i) \<notin> set (d_access d1)" for i
            by (simp add: d1_def edit_db_def edit_access_def uniqueSortedIDs_def)
          have alike: "same_for i (w_db w) d1" if "0 < i" "i \<notin> set B" for i
            unfolding d1_def by (rule edit_targets_complete [OF u dist that(1)])
              (use that none [of i] in \<open>auto simp: edit_targets_def id_law set_nodes_of_user B simp flip: d1_def\<close>)
          have undo: "wp (restoreUser before B) (\<lambda>r w4.
              (\<forall>e. r = Inl e \<longrightarrow> Q \<lparr>rp_status = 500, rp_payload = PError (m @ err_text e)\<rparr> w4) \<and>
              (\<forall>a. r = Inr a \<longrightarrow> (\<exists>d. becomes w3 d w4 \<and> restored_but_note k None (w_db w) d \<and>
                 fleet_ok d \<and> (\<forall>i. 0 < i \<longrightarrow> i \<notin> set B \<longrightarrow> same_for i d1 d)))) w3"
            if w3: "w_db w3 = d1" "w_now w3 = w_now w" and Q: "\<And>e w4. Q \<lparr>rp_status = 500, rp_payload = PError (m @ err_text e)\<rparr> w4"
            for w3 m Q
          proof -
            let ?d = "edit_access k (restore_req (scan_user u)) (nodes_of_user k (w_db w)) (w_now w) d1"
            have uid: "u_id u = k" using sel_row_SomeD [OF u] by simp
            note undo = undo_edit [OF ok(1) u, where now = "w_now w" and req = disable_req
                and ids = "Some []", folded d1_def]
            have "fleet_ok ?d"
              by (rule fleet_ok_users [OF fleet1]) (use fleet1 in \<open>simp_all add: edit_access_def keys_upd_row fleet_ok_def\<close>)
            moreover have "same_for i d1 ?d" if "0 < i" "i \<notin> set B" for i
              using same_for_trans [OF same_for_sym [OF alike [OF that]] undo(2) [OF that(1)]] .
            ultimately show ?thesis
              using undo(1) by (intro wp_restoreUser) (auto simp: uid before B w3 Q disable_req_def)
          qed
          show ?case
          proof (rule wp_sync_or_undo [where U = "restored_but_note k None (w_db w)"], goal_cases)
            case 1
            show ?case using fleet1 db2 by simp
          next
            case (2 i)
            show ?case by (rule in_sync_same_for [OF sync alike [folded db2(1)]]) (use 2 db2 in simp_all)
          next
            case (3 rs w3)
            show ?case
            proof (rule wp_attemptI [OF does_DeleteWithRelatedData], goal_cases)
              case (1 e w4)
              then have w4: "becomes w3 (w_db w3) w4" by simp
              then have db4: "w_db w4 = d1" "w_now w4 = w_now w" using 3 db2 by (simp_all add: becomes_def)
              have sync4: "in_sync w4 i" for i
                using 3(3) [of i] w4 by (simp add: in_sync_def becomes_def)
              show ?case
                by (rule wp_undo_resync [where U = "restored_but_note k None (w_db w)"])
                  (use fleet1 db4 sync4 undo [OF db4] delete_promise_failed in \<open>auto simp: wp_step\<close>)
            next
              case (2 a w4)
              then have w4: "becomes w3 (delete_user_db k d1) w4" using 3 db2 by simp
              have "in_sync w4 i" for i
                by (rule in_sync_cong [OF 3(3) [of i]])
                  (use w4 3 db2 none served_delete_user [of k d1] in \<open>auto simp: becomes_def delete_user_db_def\<close>)
              then show ?case
                using w4 delete_after_edit
                by (simp add: wp_step delete_promise_def rolled_back_def becomes_def d1_def k_def)
            qed
          next
            case (4 w3)
            show ?case using undo [of w3] 4 db2 by simp
          next
            case (5 e w4)
            show ?case by (rule delete_promise_failed)
          next
            case (6 e w4)
            then show ?case by (auto simp: delete_promise_def k_def)
          qed
        qed
      qed
    qed
  qed
qed

end

section \<open>Resetting the traffic of a user\<close>

definition reset_row :: "string \<Rightarrow> user \<Rightarrow> user" where
  "reset_row now u = u\<lparr>u_used := 0, u_up := 0, u_down := 0, u_updated := now\<rparr>"

definition restore_traffic_row :: "user \<Rightarrow> string \<Rightarrow> user \<Rightarrow> user" where
  "restore_traffic_row old now u = u\<lparr>u_used := u_used old, u_up := u_up old, u_down := u_down old,
     u_last_reset := u_last_reset old, u_updated := now\<rparr>"

lemma reset_post: "wp (UserStore_ResetTraffic k) (\<lambda>r w'. (\<forall>a. r = Inr a \<longrightarrow>
    becomes w (upd_user k (reset_row (FormatDateTime (w_now w))) (w_db w)) w')) w"
  unfolding UserStore_ResetTraffic_def wp_bind wp_get_now_text
  by (rule wp_db_exec) (auto simp: set_user_def upd_user_def reset_row_def [abs_def])

lemma restore_traffic_post: "wp (UserStore_RestoreTraffic old) (\<lambda>r w'. (\<forall>a. r = Inr a \<longrightarrow>
    becomes w (upd_user (u_id old) (restore_traffic_row old (FormatDateTime (w_now w))) (w_db w)) w')) w"
  unfolding UserStore_RestoreTraffic_def wp_bind wp_get_now_text
  by (rule wp_db_exec) (auto simp: set_user_def upd_user_def restore_traffic_row_def [abs_def])

definition reset_promise :: "request \<Rightarrow> world \<Rightarrow> response \<Rightarrow> world \<Rightarrow> bool" where
  "reset_promise r w rp w' \<longleftrightarrow>
     (rp_status rp = 200 \<longrightarrow> (\<forall>i. in_sync w' i) \<and>
        w_db w' = upd_user (parseID (r_path r) ''/api/users/'') (reset_row (FormatDateTime (w_now w))) (w_db w)) \<and>
     (rolled_back ''traffic reset was rolled back: '' rp \<longrightarrow> (\<forall>i. in_sync w' i) \<and>
        restored_but_note (parseID (r_path r) ''/api/users/'') None (w_db w) (w_db w'))"

lemma reset_promise_error [simp]: "st \<noteq> 200 \<Longrightarrow> st \<noteq> 502 \<Longrightarrow>
    reset_promise r w \<lparr>rp_status = st, rp_payload = p\<rparr> w'"
  by (simp add: reset_promise_def rolled_back_def)

lemma reset_promise_failed: "reset_promise r w \<lparr>rp_status = 502,
    rp_payload = PError (''traffic reset was rolled back, but restoring one or more nodes failed: '' @ e)\<rparr> w'"
  by (simp add: reset_promise_def rolled_back_def)

lemma undo_reset:
  fixes now :: string
  assumes ok: "db_ok d" and u: "sel_row u_id k (d_users d) = Some u"
  defines "d2 \<equiv> upd_user k (restore_traffic_row (scan_user u) now) (upd_user k (reset_row now) d)"
  shows "restored_but_note k None d d2" and "same_for i d d2" and "d_nodes d2 = d_nodes d"
    and "map u_id (d_users d2) = map u_id (d_users d)"
proof -
  note dist = db_ok_user_ids [OF ok]
  have rows: "d_users d2 = upd_row u_id k (\<lambda>x. x\<lparr>u_updated := now\<rparr>) (d_users d)"
    unfolding d2_def d_nodes_upd_user
    by (subst upd_upd_row) (auto simp: reset_row_def restore_traffic_row_def intro: upd_row_cong [OF u dist])
  show "restored_but_note k None d d2"
    unfolding restored_but_note_def using rows by (auto simp: d2_def upd_user_def)
  show "same_for i d d2"
    by (rule same_for_upd_user [OF u dist, where f = "\<lambda>x. x\<lparr>u_updated := now\<rparr>"])
      (use rows in \<open>auto simp: same_rights_def d2_def\<close>)
  show "d_nodes d2 = d_nodes d" "map u_id (d_users d2) = map u_id (d_users d)"
    by (simp_all add: d2_def keys_upd_row reset_row_def restore_traffic_row_def)
qed

lemma same_for_reset: "(k, i) \<notin> set (d_access d) \<Longrightarrow> same_for i d (upd_user k (reset_row now) d)"
  by (rule same_for_edit [where f = "\<lambda>x. if u_id x = k then reset_row now x else x"])
    (auto simp: upd_row_def reset_row_def)

context node_synchronizer
begin

lemma wp_resetTraffic:
  assumes ok: "db_ok (w_db w)" "fleet_ok (w_db w)" and sync: "\<And>i. in_sync w i"
  shows "wp (UserHandler_resetTraffic (Some SyncNodes) r) (reset_promise r w) w"
proof -
  define k where "k = parseID (r_path r) ''/api/users/''"
  define now where "now = FormatDateTime (w_now w)"
  define d1 where "d1 = upd_user k (reset_row now) (w_db w)"
  show ?thesis
  proof (cases "k = 0")
    case True
    then show ?thesis by (simp add: UserHandler_resetTraffic_def k_def wp_step)
  next
    case k: False
    show ?thesis
      unfolding UserHandler_resetTraffic_def Let_def k_def [symmetric] if_not_P [OF k]
    proof (rule wp_attemptI [OF get_post], goal_cases)
      case (2 before w0)
      then obtain u where w0: "becomes w (w_db w) w0" and u: "sel_row u_id k (d_users (w_db w)) = Some u"
        and before: "before = scan_user u" by auto
      note undo = undo_reset [OF ok(1) u, where now = now, folded d1_def]
      have uid: "u_id u = k" using sel_row_SomeD [OF u] by simp
      show ?case
      proof (rule wp_attemptI [OF ids_post], goal_cases)
        case (2 B w1)
        then have w1: "becomes w (w_db w) w1" and B: "B = nodes_of_user k (w_db w)"
          using w0 by (auto simp: becomes_def)
        have alike: "same_for i (w_db w) d1" if "i \<notin> set B" for i
          unfolding d1_def by (rule same_for_reset) (use that in \<open>simp add: B set_nodes_of_user\<close>)
        show ?case
        proof (rule wp_attemptI [OF reset_post], goal_cases)
          case (2 a w2)
          then have w2: "becomes w d1 w2" using w1 by (simp add: d1_def now_def becomes_def)
          show ?case
          proof (rule wp_attemptI [OF get_post], goal_cases)
            case (1 e w3)
            show ?case
              unfolding wp_bind by (rule wp_mono [OF restore_traffic_post]) (simp add: wp_step)
          next
            case (2 user w3)
            then have w3: "w_db w3 = d1" "w_now w3 = w_now w" "w_fleet w3 = w_fleet w"
              using w2 by (auto simp: becomes_def)
            have fleet1: "fleet_ok d1"
              by (rule fleet_ok_users [OF ok(2)])
                (use ok(2) in \<open>auto simp: d1_def keys_upd_row reset_row_def fleet_ok_def\<close>)
            show ?case
            proof (rule wp_sync_or_undo [where U = "restored_but_note k None (w_db w)"], goal_cases)
              case 1
              show ?case using fleet1 w3 by simp
            next
              case (2 i)
              show ?case by (rule in_sync_same_for [OF sync alike [folded w3(1)]]) (use 2 w3 in simp_all)
            next
              case (3 rs w4)
              then show ?case
                using w3 by (simp add: wp_step reset_promise_def rolled_back_def k_def d1_def now_def)
            next
              case (4 w4)
              let ?d = "upd_user k (restore_traffic_row (scan_user u) now) d1"
              have "fleet_ok ?d"
                by (rule fleet_ok_users [OF ok(2) undo(3)]) (use ok(2) undo(4) in \<open>simp add: fleet_ok_def\<close>)
              moreover have "same_for i d1 ?d" if "i \<notin> set B" for i
                using same_for_trans [OF same_for_sym [OF alike [OF that]] undo(2)] .
              ultimately show ?case
                using undo(1) 4 w3 before uid
                by (intro wp_mono [OF restore_traffic_post]) (auto simp: now_def)
            next
              case (5 e w4)
              show ?case by (rule reset_promise_failed)
            next
              case (6 e w4)
              then show ?case by (auto simp: reset_promise_def k_def)
            qed
          qed
        qed (simp add: wp_step)
      qed (simp add: wp_step)
    qed (simp add: wp_step)
  qed
qed

end

end
