(* ===== verification/Preservation.thy ===== *)
theory Preservation
  imports Panel NodeSync AccessSync UserSync "HOL-Library.Multiset"
begin

text \<open>
  The well-formedness of the database is kept by every operation of the panel, whatever
  statements and pushes fail on the way: a small calculus of the operations that keep a
  property of the database, and its application to the stores and the handlers.
\<close>

section \<open>Operations that keep a property of the database\<close>

named_theorems kept \<open>operations that keep the database well-formed\<close>

definition keeps :: "(db \<Rightarrow> bool) \<Rightarrow> 'a io \<Rightarrow> bool" where
  "keeps I m \<longleftrightarrow> (\<forall>w. I (w_db w) \<longrightarrow> wp m (\<lambda>r w'. I (w_db w')) w)"

lemma keepsD: "keeps I m \<Longrightarrow> I (w_db w) \<Longrightarrow> wp m (\<lambda>r w'. I (w_db w')) w"
  by (simp add: keeps_def)

lemma keepsI: "(\<And>w. I (w_db w) \<Longrightarrow> wp m (\<lambda>r w'. I (w_db w')) w) \<Longrightarrow> keeps I m"
  by (simp add: keeps_def)

lemma keeps_return [kept]: "keeps I (State_Monad.return a)"
  by (simp add: keeps_def wp_step)

lemma keeps_bind [kept]: "keeps I m \<Longrightarrow> (\<And>a. keeps I (k a)) \<Longrightarrow> keeps I (State_Monad.bind m k)"
  unfolding keeps_def wp_bind by (blast intro: wp_mono)

lemma keeps_attempt [kept]:
  "keeps I m \<Longrightarrow> (\<And>e. keeps I (h e)) \<Longrightarrow> (\<And>a. keeps I (k a)) \<Longrightarrow> keeps I (attempt m h k)"
  unfolding keeps_def wp_attempt by (blast intro: wp_mono)

lemma keeps_and_then [kept]: "keeps I m \<Longrightarrow> (\<And>a. keeps I (k a)) \<Longrightarrow> keeps I (and_then m k)"
  unfolding and_then_def by (intro keeps_attempt keeps_return)

lemma keeps_if [kept]: "keeps I m \<Longrightarrow> keeps I n \<Longrightarrow> keeps I (if b then m else n)"
  by simp

lemma keeps_let [kept]: "(\<And>x. keeps I (m x)) \<Longrightarrow> keeps I (let x = e in m x)"
  by simp

lemma keeps_option [kept]: "keeps I m \<Longrightarrow> (\<And>y. keeps I (n y)) \<Longrightarrow> keeps I (case x of None \<Rightarrow> m | Some y \<Rightarrow> n y)"
  by (cases x) simp_all

lemma keeps_sum [kept]: "(\<And>y. keeps I (m y)) \<Longrightarrow> (\<And>y. keeps I (n y)) \<Longrightarrow> keeps I (case x of Inl y \<Rightarrow> m y | Inr y \<Rightarrow> n y)"
  by (cases x) simp_all

lemma keeps_prod [kept]: "(\<And>a b. keeps I (m a b)) \<Longrightarrow> keeps I (case x of (a, b) \<Rightarrow> m a b)"
  by (cases x) simp

lemma keeps_list [kept]: "keeps I m \<Longrightarrow> (\<And>y ys. keeps I (n y ys)) \<Longrightarrow> keeps I (case x of [] \<Rightarrow> m | y # ys \<Rightarrow> n y ys)"
  by (cases x) simp_all

lemma keeps_query [kept]: "keeps I (db_query q)"
  by (auto simp: keeps_def becomes_db intro!: wp_db_query)

lemma keeps_exec:
  "(\<And>d a d'. I d \<Longrightarrow> f d = Inr (a, d') \<Longrightarrow> I d') \<Longrightarrow> keeps I (db_exec f)"
  by (auto simp: keeps_def becomes_db intro!: wp_db_exec)

lemma keeps_map_each [kept]: "(\<And>x. keeps I (f x)) \<Longrightarrow> keeps I (map_each f xs)"
  by (induction xs) (auto intro!: kept)

lemma keeps_for_each [kept]: "(\<And>x. keeps I (f x)) \<Longrightarrow> keeps I (for_each f xs)"
  by (induction xs) (auto intro!: kept)

text \<open>A transaction that fails is back at the database it began with.\<close>

lemma keeps_transaction:
  assumes "does m f P" "\<And>now d a. I d \<Longrightarrow> P now d a \<Longrightarrow> I (f now d)"
  shows "keeps I (transaction m)"
  by (rule keepsI, rule wp_transaction_does [OF assms(1)]) (auto simp: becomes_db assms(2))

lemma keeps_fail [kept]: "keeps I (fail e)" and keeps_ok [kept]: "keeps I (ok a)"
  by (simp_all add: fail_def ok_def kept)

lemma keeps_now [kept]: "keeps I get_now" "keeps I get_now_text"
  by (simp_all add: keeps_def wp_step)

lemma keeps_token [kept]: "keeps I generateToken" "keeps I NewString"
  by (auto simp: keeps_def becomes_db intro!: wp_rule)

lemma keeps_write [kept]: "keeps I (writeJSON st p)" "keeps I (writeError st e)" "keeps I NotFound" "keeps I panicked"
  by (simp_all add: keeps_def wp_step)

lemma keeps_SyncNodes [kept]: "keeps I (SyncNodes ids)"
  unfolding keeps_def by (auto simp: same_db_def intro: wp_mono [OF cfg.frame])

lemma keeps_syncNodes [kept]: "keeps I (syncNodes (Some SyncNodes) ids)"
  unfolding syncNodes_def by (auto intro!: kept)

lemma keeps_remote [kept]: "keeps I next_remote" "keeps I (on_machine addr f)"
  by (auto simp: keeps_def next_remote_def on_machine_def wp_step next_tick_def split: prod.splits)

section \<open>Rows of users\<close>

lemma db_okI: "users_ok d \<Longrightarrow> nodes_ok d \<Longrightarrow> inbounds_ok d \<Longrightarrow> access_ok d \<Longrightarrow> logs_ok d \<Longrightarrow> db_ok d"
  by (simp add: db_ok_def)

text \<open>An update of a user that keeps its unique columns.\<close>

definition same_keys :: "user \<Rightarrow> user \<Rightarrow> bool" where
  "same_keys u v \<longleftrightarrow> u_id v = u_id u \<and> u_name v = u_name u \<and> u_uuid v = u_uuid u \<and> u_sub_token v = u_sub_token u"

lemma map_upd_user_same: "(\<And>u. f (g u) = f u) \<Longrightarrow> map f (upd_row u_id i g us) = map f us"
  by (simp add: upd_row_def)

lemma ids_upd_user: "(\<And>u. u_id (g u) = u_id u) \<Longrightarrow> u_id ` set (upd_row u_id i g us) = u_id ` set us"
  using map_upd_user_same [of u_id g i us] by (metis list.set_map)

lemma db_ok_users_frame:
  assumes "db_ok d" "users_ok d'" "u_id ` set (d_users d') = u_id ` set (d_users d)"
    and "d_nodes d' = d_nodes d" "d_inbounds d' = d_inbounds d" "d_access d' = d_access d" "d_logs d' = d_logs d"
    and "d_node_seq d' = d_node_seq d" "d_inbound_seq d' = d_inbound_seq d"
  shows "db_ok d'"
  using assms by (simp add: db_ok_def nodes_ok_def inbounds_ok_def access_ok_def logs_ok_def)

lemma users_ok_iff: "users_ok d \<longleftrightarrow> table_ok u_id (d_users d) \<and> u_id ` set (d_users d) \<subseteq> {0<..d_user_seq d}
     \<and> distinct (map u_name (d_users d)) \<and> distinct (map u_uuid (d_users d))
     \<and> distinct (map u_sub_token (d_users d)) \<and> 0 \<le> d_user_seq d"
  by (auto simp: users_ok_def)

lemma db_ok_upd_same:
  assumes "db_ok d" "\<And>u. same_keys u (g u)"
  shows "db_ok (upd_user i g d)"
proof (rule db_ok_users_frame [OF assms(1)])
  have same: "u_id (g u) = u_id u" "u_name (g u) = u_name u" "u_uuid (g u) = u_uuid u"
    "u_sub_token (g u) = u_sub_token u" for u using assms(2) by (simp_all add: same_keys_def)
  note maps = map_upd_user_same [of u_name g, OF same(2)] map_upd_user_same [of u_uuid g, OF same(3)]
    map_upd_user_same [of u_sub_token g, OF same(4)]
  show "users_ok (upd_user i g d)"
    using assms(1)
    by (simp add: db_ok_def users_ok_iff maps table_ok_upd same(1) upd_user_def ids_upd_user)
  show "u_id ` set (d_users (upd_user i g d)) = u_id ` set (d_users d)"
    by (simp add: ids_upd_user same(1))
qed (simp_all add: upd_user_def)

lemma distinct_upd_row:
  assumes "distinct (map key rows)" "distinct (map f rows)"
    and "\<And>r s. r \<in> set rows \<Longrightarrow> s \<in> set rows \<Longrightarrow> key r = i \<Longrightarrow> key s \<noteq> i \<Longrightarrow> f s \<noteq> f (g r)"
  shows "distinct (map f (upd_row key i g rows))"
  using assms
proof (induction rows)
  case (Cons a rows)
  have IH: "distinct (map f (upd_row key i g rows))" by (rule Cons.IH) (use Cons.prems in auto)
  show ?case
  proof (cases "key a = i")
    case True
    then have "\<forall>r \<in> set rows. key r \<noteq> i" using Cons.prems(1) by (auto simp: image_iff)
    then have same: "upd_row key i g rows = rows" by (intro upd_row_id) auto
    have "f (g a) \<noteq> f s" if "s \<in> set rows" for s
      using Cons.prems(3) [of a s] True \<open>\<forall>r \<in> set rows. key r \<noteq> i\<close> that by force
    then show ?thesis using True Cons.prems(2) same by (auto simp: upd_row_def image_iff)
  next
    case False
    have "f a \<noteq> f (if key r = i then g r else r)" if "r \<in> set rows" for r
      using Cons.prems(2,3) False that by (auto simp: image_iff)
    then show ?thesis using False IH by (auto simp: upd_row_def image_iff)
  qed
qed (simp add: upd_row_def)

lemma edited_name: "u_name (edited req now u) = (case uu_name req of None \<Rightarrow> u_name u | Some v \<Rightarrow> v)"
  by (simp add: edited_def opt_edit_def split: option.splits)

lemma db_ok_edit:
  assumes "db_ok d" "name_free k (uu_name req) d"
  shows "db_ok (upd_user k (edited req now) d)"
proof (rule db_ok_users_frame [OF assms(1)])
  note ids = db_ok_user_ids [OF assms(1)]
  have "distinct (map u_name (upd_row u_id k (edited req now) (d_users d)))"
  proof (cases "uu_name req")
    case None
    then show ?thesis
      using assms(1) by (simp add: map_upd_user_same edited_name db_ok_def users_ok_def)
  next
    case (Some v)
    show ?thesis
      by (rule distinct_upd_row [OF ids])
        (use assms Some in \<open>auto simp: edited_name name_free_def db_ok_def users_ok_def\<close>)
  qed
  then show "users_ok (upd_user k (edited req now) d)"
    using assms(1)
    by (simp add: db_ok_def users_ok_iff map_upd_user_same table_ok_upd upd_user_def ids_upd_user)
qed (simp_all add: upd_user_def ids_upd_user)

lemma db_ok_set_access:
  assumes "db_ok d" "k \<in> u_id ` set (d_users d)" "set ids \<subseteq> n_id ` set (d_nodes d)" "distinct ids"
  shows "db_ok (set_access k ids d)"
proof -
  have "distinct (d_access (set_access k ids d))"
    using assms by (auto simp: set_access_def del_rows_def db_ok_def access_ok_def distinct_map inj_on_def)
  moreover have "\<forall>a \<in> set (d_access (set_access k ids d)).
      fst a \<in> u_id ` set (d_users d) \<and> snd a \<in> n_id ` set (d_nodes d)"
    using assms by (auto simp: set_access_def del_rows_def db_ok_def access_ok_def)
  ultimately show ?thesis
    using assms(1) by (auto simp: db_ok_def users_ok_def nodes_ok_def inbounds_ok_def access_ok_def
        logs_ok_def set_access_def)
qed

lemma db_ok_edit_access:
  assumes "db_ok d" "edit_valid k req ids d"
  shows "db_ok (edit_access k req ids now d)"
  unfolding edit_access_def
proof (rule db_ok_set_access)
  show "db_ok (upd_user k (edited req (FormatDateTime now)) d)"
    by (rule db_ok_edit) (use assms in \<open>auto simp: edit_valid_def\<close>)
qed (use assms(2) in \<open>auto simp: edit_valid_def ids_upd_user distinct_uniqueSortedIDs\<close>)

lemma keeps_UpdateWithAccess [kept]: "keeps db_ok (UserStore_UpdateWithAccess k req ids)"
  by (rule keepsI, rule wp_UserStore_UpdateWithAccess)
    (auto simp: becomes_db intro: db_ok_edit_access)

lemma keeps_Update [kept]: "keeps db_ok (UserStore_Update k req)"
  by (rule keepsI, rule wp_UserStore_Update) (auto simp: becomes_db intro: db_ok_edit)

lemma db_ok_insert_user:
  assumes "db_ok d" "insert_user u d = Inr (i, d')"
  shows "db_ok d'"
proof -
  let ?u = "u\<lparr>u_id := d_user_seq d + 1\<rparr>"
  have fresh: "u_name u \<notin> u_name ` set (d_users d)" "u_uuid u \<notin> u_uuid ` set (d_users d)"
    "u_sub_token u \<notin> u_sub_token ` set (d_users d)"
    and d': "d' = d\<lparr>d_users := ins_row u_id ?u (d_users d), d_user_seq := d_user_seq d + 1\<rparr>"
    using assms(2) by (auto simp: insert_user_def list_ex_iff Let_def split: if_splits)
  have ok: "users_ok d" using assms(1) by (simp add: db_ok_def)
  have "table_ok u_id (ins_row u_id ?u (d_users d))"
    by (rule table_ok_ins) (use ok in \<open>auto simp: users_ok_def\<close>)
  moreover have "distinct (map f (ins_row u_id ?u (d_users d)))"
    if "distinct (map f (d_users d))" "f ?u \<notin> f ` set (d_users d)" for f :: "user \<Rightarrow> string"
  proof -
    have "mset (map f (ins_row u_id ?u (d_users d))) = mset (map f (?u # d_users d))"
      by (simp add: ins_row_def mset_map mset_insort)
    then have "distinct (map f (ins_row u_id ?u (d_users d))) = distinct (map f (?u # d_users d))"
      by (rule mset_eq_imp_distinct_iff)
    with that show ?thesis by simp
  qed
  ultimately have "users_ok d'"
    using ok fresh by (auto simp: users_ok_def d' set_ins_row)
  moreover have "u_id ` set (d_users d) \<subseteq> u_id ` set (d_users d')"
    by (auto simp: d' set_ins_row)
  ultimately show ?thesis
    using assms(1)
    by (auto simp: db_ok_def nodes_ok_def inbounds_ok_def access_ok_def logs_ok_def d' set_ins_row)
qed

lemma keeps_UserStore_Get [kept]: "keeps I (UserStore_Get k)"
  unfolding UserStore_Get_def by (rule kept)

lemma keeps_Create [kept]: "keeps db_ok (UserStore_Create req)"
  unfolding UserStore_Create_def
  by (intro kept keeps_exec) (auto dest: db_ok_insert_user)

lemma keeps_CreateWithPassword [kept]: "keeps db_ok (UserStore_CreateWithPassword name hash)"
  unfolding UserStore_CreateWithPassword_def
  by (intro kept keeps_exec) (auto dest: db_ok_insert_user)

lemma db_ok_delete_user:
  assumes "db_ok d"
  shows "db_ok (delete_user_db k d)"
proof -
  have "distinct (map f (del_rows p us))" if "distinct (map f us)" for f :: "user \<Rightarrow> string" and p us
    using that by (auto simp: del_rows_def distinct_map inj_on_def)
  then show ?thesis
    using assms table_ok_del [of u_id "d_users d" "\<lambda>u. u_id u = k"]
    by (auto simp: delete_user_db_def db_ok_def users_ok_def nodes_ok_def inbounds_ok_def access_ok_def
        logs_ok_def set_del_rows) (auto simp: del_rows_def)
qed

lemma keeps_DeleteWithRelatedData [kept]: "keeps db_ok (UserStore_DeleteWithRelatedData k)"
proof (rule keepsI, rule wp_mono [OF does_DeleteWithRelatedData])
  fix w r w'
  assume "db_ok (w_db w)" and "(r = Inr () \<longrightarrow> becomes w (delete_user_db k (w_db w)) w') \<and>
    (\<forall>e. r = Inl e \<longrightarrow> becomes w (w_db w) w')"
  then show "db_ok (w_db w')"
    by (cases r) (auto simp: becomes_db db_ok_delete_user)
qed

text \<open>The updates that leave the unique columns alone.\<close>

lemma keeps_set_user: "(\<And>u. same_keys u (g u)) \<Longrightarrow> keeps db_ok (db_exec (set_user k g))"
  by (rule keeps_exec) (auto simp: set_user_def simp flip: upd_user_def intro: db_ok_upd_same)

lemma keeps_AddTraffic [kept]: "keeps db_ok (UserStore_AddTraffic k up down)"
  unfolding UserStore_AddTraffic_def
  by (intro kept keeps_set_user) (simp add: same_keys_def add_user_traffic_def)

lemma keeps_ResetTraffic [kept]: "keeps db_ok (UserStore_ResetTraffic k)"
  unfolding UserStore_ResetTraffic_def by (intro kept keeps_set_user) (simp add: same_keys_def)

lemma keeps_RestoreTraffic [kept]: "keeps db_ok (UserStore_RestoreTraffic old)"
  unfolding UserStore_RestoreTraffic_def by (intro kept keeps_set_user) (simp add: same_keys_def)

lemma keeps_CheckTrafficReset [kept]: "keeps db_ok (UserStore_CheckTrafficReset u)"
  unfolding UserStore_CheckTrafficReset_def by (intro kept keeps_set_user) (simp add: same_keys_def)

lemma keeps_ResetSubToken [kept]: "keeps db_ok (UserStore_ResetSubToken k)"
  unfolding UserStore_ResetSubToken_def
proof (intro kept keeps_exec, goal_cases)
  case (1 token now d a d')
  let ?g = "\<lambda>u. u\<lparr>u_sub_token := token, u_updated := now\<rparr>"
  have free: "\<not> ((\<exists>u \<in> set (d_users d). u_id u = k) \<and> (\<exists>u \<in> set (d_users d). u_id u \<noteq> k \<and> u_sub_token u = token))"
    and d': "d' = upd_user k ?g d"
    using 1(2) by (auto simp: set_user_def upd_user_def list_ex_iff split: if_splits)
  have "distinct (map u_sub_token (upd_row u_id k ?g (d_users d)))"
    by (rule distinct_upd_row [OF db_ok_user_ids [OF 1(1)]]) (use 1(1) free in \<open>auto simp: db_ok_def users_ok_def\<close>)
  then have "users_ok d'"
    using 1(1) by (simp add: d' db_ok_def users_ok_iff map_upd_user_same table_ok_upd upd_user_def ids_upd_user)
  then show ?case
    by (rule db_ok_users_frame [OF 1(1)]) (simp_all add: d' upd_user_def ids_upd_user)
qed

section \<open>Assignments and traffic\<close>

lemma db_ok_only_access:
  assumes "db_ok d" "only_access k d new d'" "distinct (d_access d')"
    and "\<And>i. (k, i) \<in> new \<Longrightarrow> k \<in> u_id ` set (d_users d) \<and> i \<in> n_id ` set (d_nodes d)"
  shows "db_ok d'"
proof -
  obtain acc where d': "d' = d\<lparr>d_access := acc\<rparr>" "set acc = new"
    using assms(2) by (auto simp: only_access_def)
  have "fst a \<in> u_id ` set (d_users d) \<and> snd a \<in> n_id ` set (d_nodes d)" if "a \<in> new" for a
  proof (cases "fst a = k")
    case True
    then show ?thesis using assms(4) that by (metis prod.collapse)
  next
    case False
    then have "a \<in> set (d_access d)"
      using assms(2) that by (metis only_access_def prod.collapse)
    then show ?thesis using assms(1) by (auto simp: db_ok_def access_ok_def)
  qed
  then have "access_ok d'" using assms(3) d' by (simp add: access_ok_def)
  then show ?thesis
    using assms(1) by (simp add: db_ok_def users_ok_def nodes_ok_def inbounds_ok_def logs_ok_def d'(1))
qed

lemma distinct_add_access: "distinct rows \<Longrightarrow> distinct (add_access p rows)"
  by (auto simp: add_access_def)

lemma distinct_fold_add_access: "distinct rows \<Longrightarrow> distinct (fold add_access ps rows)"
  by (induction ps arbitrary: rows) (auto simp: distinct_add_access)

lemma db_ok_access: "db_ok d \<Longrightarrow> distinct acc \<Longrightarrow>
    (\<And>a. a \<in> set acc \<Longrightarrow> fst a \<in> u_id ` set (d_users d) \<and> snd a \<in> n_id ` set (d_nodes d)) \<Longrightarrow>
    db_ok (d\<lparr>d_access := acc\<rparr>)"
  by (simp add: db_ok_def users_ok_def nodes_ok_def inbounds_ok_def access_ok_def logs_ok_def)

lemma db_ok_accessD: "db_ok d \<Longrightarrow> distinct (d_access d)"
  "db_ok d \<Longrightarrow> (j, i) \<in> set (d_access d) \<Longrightarrow> j \<in> u_id ` set (d_users d)"
  "db_ok d \<Longrightarrow> (j, i) \<in> set (d_access d) \<Longrightarrow> i \<in> n_id ` set (d_nodes d)"
  by (auto simp: db_ok_def access_ok_def)

lemma does_validateUserAndNode: "does (validateUserAndNode k n) (\<lambda>now d. d)
    (\<lambda>now d _. k \<in> u_id ` set (d_users d) \<and> n \<in> n_id ` set (d_nodes d))"
  unfolding validateUserAndNode_def
  by (rule does_weaken, rule does_and_then [OF does_validateUser does_require_node]) auto

text \<open>A check that only reads, followed by a statement.\<close>

lemma keeps_checked:
  assumes check: "does m (\<lambda>now d. d) (\<lambda>now d _. C d)" "\<And>I. keeps I m"
    and step: "\<And>d a d'. I d \<Longrightarrow> C d \<Longrightarrow> f d = Inr (a, d') \<Longrightarrow> I d'"
  shows "keeps I (and_then m (\<lambda>_. db_exec f))"
proof (rule keepsI)
  fix w :: world assume I: "I (w_db w)"
  have both: "wp m (\<lambda>r w'. I (w_db w') \<and> (\<forall>a. r = Inr a \<longrightarrow> C (w_db w'))) w"
    using keepsD [where I = I, OF check(2) I] check(1) [unfolded does_def, rule_format, of w]
    by (auto simp: wp_def split: prod.splits)
  show "wp (and_then m (\<lambda>_. db_exec f)) (\<lambda>r w'. I (w_db w')) w"
    unfolding wp_and_then
    by (rule wp_mono [OF both]) (auto simp: becomes_db intro!: wp_db_exec dest: step)
qed

lemma keeps_validate [kept]: "keeps I (validateUser k)" "keeps I (require_node n)" "keeps I (validateUserAndNode k n)"
  unfolding validateUserAndNode_def validateUser_def require_node_def count_users_def count_nodes_def
  by (intro kept)+

lemma keeps_Grant [kept]: "keeps db_ok (AccessStore_Grant k n)"
  unfolding AccessStore_Grant_def
  by (rule keeps_checked [OF does_validateUserAndNode])
    (auto intro!: kept db_ok_access intro: db_ok_accessD distinct_add_access)

lemma keeps_GrantAll [kept]: "keeps db_ok (AccessStore_GrantAll k)"
  unfolding AccessStore_GrantAll_def
  by (rule keeps_checked [OF does_validateUser])
    (auto intro!: kept db_ok_access intro: db_ok_accessD distinct_fold_add_access simp: set_fold_add_access)

lemma keeps_Revoke [kept]: "keeps db_ok (AccessStore_Revoke k n)"
  unfolding AccessStore_Revoke_def
  by (rule keeps_exec) (auto intro!: db_ok_access intro: db_ok_accessD distinct_filter simp: del_rows_def)

lemma keeps_delete_access [kept]: "keeps db_ok (delete_access_of_user k)"
  unfolding delete_access_of_user_def
  by (rule keeps_exec) (auto intro!: db_ok_access intro: db_ok_accessD distinct_filter simp: del_rows_def)

lemma keeps_RevokeAll [kept]: "keeps db_ok (AccessStore_RevokeAll k)"
  unfolding AccessStore_RevokeAll_def by (rule kept)

lemma does_Replace_body: "does (and_then (for_each require_node ids) (\<lambda>_.
       and_then (delete_access_of_user k) (\<lambda>_. for_each (insert_access k) ids)))
    (\<lambda>now. set_access k ids) (\<lambda>now d _. set ids \<subseteq> n_id ` set (d_nodes d))"
  by (rule does_weaken, rule does_and_then [OF does_require_nodes does_replace_access]) auto

lemma keeps_Replace [kept]: "keeps db_ok (AccessStore_Replace k ids)"
proof (rule keepsI)
  fix w :: world assume ok: "db_ok (w_db w)"
  have tx: "wp (transaction (and_then (for_each require_node (uniqueSortedIDs ids)) (\<lambda>_.
       and_then (delete_access_of_user k) (\<lambda>_. for_each (insert_access k) (uniqueSortedIDs ids)))))
     (\<lambda>r w'. db_ok (w_db w')) w1"
    if "db_ok (w_db w1)" "k \<in> u_id ` set (d_users (w_db w1))" for w1
    by (rule wp_transaction_does [OF does_Replace_body])
      (use that in \<open>auto simp: becomes_db distinct_uniqueSortedIDs intro!: db_ok_set_access\<close>)
  show "wp (AccessStore_Replace k ids) (\<lambda>r w'. db_ok (w_db w')) w"
    unfolding AccessStore_Replace_def validateUser_def count_users_def fail_def ok_def Let_def
      and_then_def [of "and_then _ _"]
  proof (rule wp_attemptI [where R = "\<lambda>r w'. db_ok (w_db w') \<and>
      (\<forall>a. r = Inr a \<longrightarrow> k \<in> u_id ` set (d_users (w_db w')))"], goal_cases)
    case 1
    show ?case
      using ok by (auto simp: wp_step becomes_db count_rows_pos intro!: wp_db_query)
  next
    case (2 e t)
    then show ?case by (simp add: wp_return)
  next
    case (3 a t)
    then show ?case using tx by simp
  qed
qed

lemma keeps_Record:
  assumes "\<And>d. I d \<Longrightarrow> db_ok d \<and> u \<in> u_id ` set (d_users d) \<and> n \<in> n_id ` set (d_nodes d)"
    and "\<And>d ts. I d \<Longrightarrow> I (d\<lparr>d_logs := ts\<rparr>) = db_ok (d\<lparr>d_logs := ts\<rparr>)"
  shows "keeps I (TrafficStore_Record n u up down)"
  unfolding TrafficStore_Record_def
  by (intro kept keeps_exec)
    (use assms in \<open>fastforce simp: db_ok_def users_ok_def nodes_ok_def inbounds_ok_def access_ok_def logs_ok_def\<close>)

lemma keeps_Prune [kept]: "keeps db_ok (TrafficStore_Prune loc)"
  unfolding TrafficStore_Prune_def
  by (intro kept keeps_exec)
    (auto simp: db_ok_def users_ok_def nodes_ok_def inbounds_ok_def access_ok_def logs_ok_def set_del_rows)

section \<open>Rows of nodes\<close>

definition db_only :: "'a io \<Rightarrow> bool" where
  "db_only m \<longleftrightarrow> (\<forall>w. wp m (\<lambda>r w'. \<exists>d. becomes w d w') w)"

lemma db_only_query: "db_only (db_query q)"
  by (auto simp: db_only_def intro!: wp_db_query)

lemma db_only_exec: "db_only (db_exec f)"
  by (auto simp: db_only_def intro!: wp_db_exec)

lemma db_only_return: "db_only (State_Monad.return a)"
  by (auto simp: db_only_def wp_step becomes_def)

lemma db_only_and_then:
  assumes "db_only m" "\<And>a. db_only (k a)"
  shows "db_only (and_then m k)"
  unfolding db_only_def wp_and_then
proof
  fix w
  show "wp m (\<lambda>r t. (\<forall>e. r = Inl e \<longrightarrow> (\<exists>d. becomes w d t)) \<and>
      (\<forall>a. r = Inr a \<longrightarrow> wp (k a) (\<lambda>r w'. \<exists>d. becomes w d w') t)) w"
    by (rule wp_mono [OF assms(1) [unfolded db_only_def, rule_format]])
      (auto intro: wp_mono [OF assms(2) [unfolded db_only_def, rule_format]] simp: becomes_def)
qed

lemma db_only_when_given: "(\<And>v. db_only (f v)) \<Longrightarrow> db_only (when_given x f)"
  by (cases x) (simp_all add: when_given_def db_only_return)

lemma db_only_if: "db_only m \<Longrightarrow> db_only n \<Longrightarrow> db_only (if b then m else n)"
  by simp

lemma db_only_for_each: "(\<And>x. db_only (f x)) \<Longrightarrow> db_only (for_each f xs)"
  by (induction xs) (auto simp: db_only_return intro: db_only_and_then)

lemma db_only_fail: "db_only (fail e)" and db_only_ok: "db_only (ok a)"
  by (simp_all add: fail_def ok_def db_only_return)

lemmas db_only_rules = db_only_query db_only_exec db_only_return db_only_and_then db_only_when_given
  db_only_if db_only_for_each db_only_fail db_only_ok

lemma wp_conj: "wp m P w \<Longrightarrow> wp m Q w \<Longrightarrow> wp m (\<lambda>r t. P r t \<and> Q r t) w"
  by (auto simp: wp_def split: prod.splits)

lemma keeps_tx:
  assumes "db_only m" "keeps I m"
  shows "keeps I (transaction m)"
proof (rule keepsI, rule wp_transaction)
  fix w w0 assume I: "I (w_db w)" and w0: "becomes w (w_db w) w0"
  then have "I (w_db w0)" by (simp add: becomes_db)
  then have "wp m (\<lambda>r w1. (\<exists>d. becomes w0 d w1) \<and> I (w_db w1)) w0"
    using keepsD [OF assms(2)] assms(1) by (intro wp_conj) (auto simp: db_only_def)
  then show "wp m (\<lambda>r w1. (\<exists>d. becomes w d w1) \<and>
      (\<forall>a w'. r = Inr a \<longrightarrow> becomes w (w_db w1) w' \<longrightarrow> I (w_db w'))) w0"
    by (rule wp_mono) (use w0 in \<open>auto simp: becomes_def\<close>)
qed (simp add: becomes_db)

lemma keeps_when_given [kept]: "(\<And>v. keeps I (f v)) \<Longrightarrow> keeps I (when_given x f)"
  by (cases x) (simp_all add: when_given_def kept)

lemma nodes_ok_iff: "nodes_ok d \<longleftrightarrow> table_ok n_id (d_nodes d) \<and> n_id ` set (d_nodes d) \<subseteq> {0<..d_node_seq d}
     \<and> distinct (map n_name (d_nodes d)) \<and> 0 \<le> d_node_seq d"
  by (auto simp: nodes_ok_def)

lemma db_ok_nodes_frame:
  assumes "db_ok d" "nodes_ok d'" "n_id ` set (d_nodes d') = n_id ` set (d_nodes d)"
    and "d_users d' = d_users d" "d_inbounds d' = d_inbounds d" "d_access d' = d_access d" "d_logs d' = d_logs d"
    and "d_user_seq d' = d_user_seq d" "d_inbound_seq d' = d_inbound_seq d"
  shows "db_ok d'"
  using assms by (simp add: db_ok_def users_ok_def inbounds_ok_def access_ok_def logs_ok_def)

lemma map_upd_row_same: "(\<And>r. f (g r) = f r) \<Longrightarrow> map f (upd_row key i g rows) = map f rows"
  by (simp add: upd_row_def)

lemma keys_upd_row_set: "(\<And>r. key (g r) = key r) \<Longrightarrow> key ` set (upd_row key i g rows) = key ` set rows"
  using map_upd_row_same [of key g key i rows] by (metis list.set_map)

lemma db_ok_upd_node:
  assumes "db_ok d" "\<And>n. n_id (g n) = n_id n \<and> n_name (g n) = n_name n"
  shows "db_ok (d\<lparr>d_nodes := upd_row n_id i g (d_nodes d)\<rparr>)"
  by (rule db_ok_nodes_frame [OF assms(1)])
    (use assms in \<open>simp_all add: nodes_ok_iff map_upd_row_same keys_upd_row_set table_ok_upd db_ok_def\<close>)

lemma keeps_set_node: "(\<And>n. n_id (g n) = n_id n \<and> n_name (g n) = n_name n) \<Longrightarrow>
    keeps db_ok (db_exec (set_node i g))"
  by (rule keeps_exec) (auto simp: set_node_def intro: db_ok_upd_node)

lemma keeps_set_node_name: "keeps db_ok (db_exec (set_node_name i v))"
proof (rule keeps_exec)
  fix d a d' assume ok: "db_ok d" and "set_node_name i v d = Inr (a, d')"
  then have free: "\<not> ((\<exists>n \<in> set (d_nodes d). n_id n = i) \<and> (\<exists>n \<in> set (d_nodes d). n_id n \<noteq> i \<and> n_name n = v))"
    and d': "d' = d\<lparr>d_nodes := upd_row n_id i (\<lambda>n. n\<lparr>n_name := v\<rparr>) (d_nodes d)\<rparr>"
    by (auto simp: set_node_name_def set_node_def list_ex_iff split: if_splits)
  have "distinct (map n_name (upd_row n_id i (\<lambda>n. n\<lparr>n_name := v\<rparr>) (d_nodes d)))"
    by (rule distinct_upd_row) (use ok free in \<open>auto simp: db_ok_def nodes_ok_def table_ok_def\<close>)
  then show "db_ok d'"
    by (intro db_ok_nodes_frame [OF ok])
      (use ok in \<open>simp_all add: d' nodes_ok_iff keys_upd_row_set table_ok_upd db_ok_def\<close>)
qed

lemma keeps_NodeStore_Get [kept]: "keeps I (NodeStore_Get i)"
  unfolding NodeStore_Get_def by (rule kept)

lemma keeps_NodeStore_Update [kept]: "keeps db_ok (NodeStore_Update i req)"
  unfolding NodeStore_Update_def count_nodes_def
  by (intro kept keeps_tx db_only_rules keeps_set_node keeps_set_node_name) simp_all

lemma mset_distinct_ins: "distinct (map f (ins_row key r rows)) = (f r \<notin> f ` set rows \<and> distinct (map f rows))"
proof -
  have "mset (map f (ins_row key r rows)) = mset (map f (r # rows))"
    by (simp add: ins_row_def mset_map mset_insort)
  then have "distinct (map f (ins_row key r rows)) = distinct (map f (r # rows))"
    by (rule mset_eq_imp_distinct_iff)
  then show ?thesis by simp
qed

lemma db_ok_insert_node:
  assumes "db_ok d" "insert_node n d = Inr (i, d')"
  shows "db_ok d'"
proof -
  let ?n = "n\<lparr>n_id := d_node_seq d + 1\<rparr>"
  have fresh: "n_name n \<notin> n_name ` set (d_nodes d)"
    and d': "d' = d\<lparr>d_nodes := ins_row n_id ?n (d_nodes d), d_node_seq := d_node_seq d + 1\<rparr>"
    using assms(2) by (auto simp: insert_node_def list_ex_iff Let_def split: if_splits)
  have ok: "nodes_ok d" using assms(1) by (simp add: db_ok_def)
  have "table_ok n_id (ins_row n_id ?n (d_nodes d))"
    by (rule table_ok_ins) (use ok in \<open>auto simp: nodes_ok_def\<close>)
  then have "nodes_ok d'"
    using ok fresh by (auto simp: nodes_ok_def d' set_ins_row mset_distinct_ins)
  then show ?thesis
    using assms(1) by (auto simp: db_ok_def users_ok_def inbounds_ok_def access_ok_def logs_ok_def d' set_ins_row)
qed

lemma keeps_NodeStore_Create [kept]: "keeps db_ok (NodeStore_Create req)"
  unfolding NodeStore_Create_def
  by (intro kept keeps_exec) (auto dest: db_ok_insert_node)

lemma db_ok_delete_node:
  assumes "db_ok d"
  shows "db_ok (delete_node_db k d)"
proof -
  have "distinct (map n_name (del_rows (\<lambda>n. n_id n = k) (d_nodes d)))"
    using assms by (auto simp: del_rows_def db_ok_def nodes_ok_def distinct_map inj_on_def)
  moreover have "distinct (del_rows (\<lambda>a. snd a = k) (d_access d))"
    using assms by (simp add: del_rows_def db_ok_def access_ok_def)
  ultimately show ?thesis
    using assms table_ok_del [of n_id "d_nodes d"] table_ok_del [of ib_id "d_inbounds d"]
    by (auto simp: delete_node_db_def db_ok_def users_ok_def nodes_ok_def inbounds_ok_def access_ok_def
        logs_ok_def set_del_rows)
qed

lemma does_delete_node: "does (and_then (db_exec (\<lambda>d. Inr ((), d\<lparr>d_inbounds := del_rows (\<lambda>b. ib_node b = k) (d_inbounds d)\<rparr>))) (\<lambda>_.
     and_then (db_exec (\<lambda>d. Inr ((), d\<lparr>d_access := del_rows (\<lambda>a. snd a = k) (d_access d)\<rparr>))) (\<lambda>_.
     and_then (db_exec (\<lambda>d. Inr ((), d\<lparr>d_logs := del_rows (\<lambda>t. t_node t = k) (d_logs d)\<rparr>))) (\<lambda>_.
     db_exec (\<lambda>d. Inr ((), d\<lparr>d_nodes := del_rows (\<lambda>n. n_id n = k) (d_nodes d)\<rparr>))))))
     (\<lambda>now. delete_node_db k) (\<lambda>now d _. True)"
proof -
  have ex: "does (db_exec (\<lambda>d. Inr ((), f d))) (\<lambda>now d. f d) (\<lambda>now d _. True)" for f
    by (rule does_weaken [OF does_exec]) auto
  show ?thesis
    by (rule does_weaken, rule does_and_then [OF ex], rule does_and_then [OF ex],
        rule does_and_then [OF ex], rule ex) (simp add: delete_node_db_def)
qed

lemma keeps_NodeStore_Delete [kept]: "keeps db_ok (NodeStore_Delete k)"
  unfolding NodeStore_Delete_def
  by (rule keeps_transaction [OF does_delete_node]) (simp add: db_ok_delete_node)

lemma keeps_ReorderNodes [kept]: "keeps db_ok (NodeStore_ReorderNodes items)"
proof -
  have "keeps db_ok (db_exec (\<lambda>d. Inr (count_rows (\<lambda>n. n_id n = i) (d_nodes d),
      d\<lparr>d_nodes := upd_row n_id i (\<lambda>n. n\<lparr>n_sort_order := so\<rparr>) (d_nodes d)\<rparr>)))" for i so
    by (rule keeps_exec) (auto intro: db_ok_upd_node)
  then show ?thesis
    unfolding NodeStore_ReorderNodes_def reorder_node_def
    by (intro kept keeps_tx db_only_rules)
qed

section \<open>Rows of inbounds\<close>

lemma db_ok_map_inbounds:
  assumes "db_ok d" "\<And>b. ib_id (g b) = ib_id b \<and> ib_node (g b) = ib_node b"
  shows "db_ok (d\<lparr>d_inbounds := map g (d_inbounds d)\<rparr>)"
  using assms by (auto simp: db_ok_def users_ok_def nodes_ok_def inbounds_ok_def access_ok_def logs_ok_def
      table_ok_def o_def)

lemma keeps_exec_inbounds [kept]:
  assumes "\<And>b. ib_id (g b) = ib_id b \<and> ib_node (g b) = ib_node b"
  shows "keeps db_ok (exec_inbounds p g)"
  unfolding exec_inbounds_def
  by (rule keeps_exec) (use assms in \<open>auto intro!: db_ok_map_inbounds\<close>)

lemma db_only_exec_inbounds: "db_only (exec_inbounds p g)"
  unfolding exec_inbounds_def by (rule db_only_exec)

lemma keeps_ReorderInbounds [kept]: "keeps db_ok (NodeStore_ReorderInbounds k items)"
  unfolding NodeStore_ReorderInbounds_def reorder_inbound_def
  by (intro kept keeps_tx db_only_rules db_only_exec_inbounds) simp

lemma keeps_GetInbound [kept]: "keeps I (NodeStore_GetInbound i)"
  unfolding NodeStore_GetInbound_def by (rule kept)

lemma keeps_UpdateInbound [kept]: "keeps db_ok (NodeStore_UpdateInbound i req)"
  unfolding NodeStore_UpdateInbound_def by (intro kept) simp

lemma db_ok_drop_inbound: "db_ok d \<Longrightarrow> db_ok (drop_inbound i d)"
  using table_ok_del [of ib_id "d_inbounds d"]
  by (auto simp: drop_inbound_def db_ok_def users_ok_def nodes_ok_def inbounds_ok_def access_ok_def
      logs_ok_def set_del_rows)

lemma keeps_DeleteInbound [kept]: "keeps db_ok (NodeStore_DeleteInbound i)"
  unfolding NodeStore_DeleteInbound_def
  by (intro kept keeps_exec) (auto simp flip: drop_inbound_def intro: db_ok_drop_inbound)

lemma db_ok_add_inbound:
  assumes "db_ok d" "ib_id b \<notin> ib_id ` set (d_inbounds d)" "0 < ib_id b" "ib_node b \<in> n_id ` set (d_nodes d)"
  shows "db_ok (add_inbound b d)"
proof -
  have "table_ok ib_id (ins_row ib_id b (d_inbounds d))"
    by (rule table_ok_ins) (use assms in \<open>auto simp: db_ok_def inbounds_ok_def\<close>)
  then show ?thesis
    using assms by (auto simp: add_inbound_def db_ok_def users_ok_def nodes_ok_def inbounds_ok_def access_ok_def
        logs_ok_def set_ins_row)
qed

end
