(* ===== verification/Quiet.thy ===== *)
theory Quiet
  imports AutoSetup Effects
begin

text \<open>
  Remote work that changes no configuration: a small calculus of the operations that leave
  the database alone and every node on the configuration it runs, whatever the commands
  print. Probes, certificates and the kernel baseline are of this kind.
\<close>

section \<open>The calculus\<close>

named_theorems quiet_rule \<open>operations that change neither the database nor a configuration\<close>

text \<open>The files outside the configurations that the panel writes.\<close>

definition aux_path :: "string \<Rightarrow> bool" where
  "aux_path path \<longleftrightarrow> path = tuneDropInPath \<or> HasPrefix path ''/etc/sing-box/tls/''"

definition calm :: "world \<Rightarrow> world \<Rightarrow> bool" where
  "calm w w' \<longleftrightarrow> w_now w' = w_now w \<and> w_env w' = w_env w \<and>
     (\<forall>a path doc. \<not> aux_path path \<longrightarrow> runs (w_fleet w a) path doc \<longrightarrow> runs (w_fleet w' a) path doc)"

definition quiet :: "'a io \<Rightarrow> bool" where
  "quiet m \<longleftrightarrow> (\<forall>w. wp m (\<lambda>_ w'. w_db w' = w_db w \<and> calm w w') w)"

lemma calm_refl [simp]: "calm w w"
  by (simp add: calm_def)

lemma calm_trans: "calm a b \<Longrightarrow> calm b c \<Longrightarrow> calm a c"
  by (simp add: calm_def)

lemma calm_becomes: "becomes w d w' \<Longrightarrow> calm w w'"
  by (simp add: calm_def becomes_def)

lemma quietD: "quiet m \<Longrightarrow> wp m (\<lambda>_ w'. w_db w' = w_db w \<and> calm w w') w"
  by (simp add: quiet_def)

lemma quiet_return [quiet_rule]: "quiet (State_Monad.return a)"
  by (simp add: quiet_def wp_step)

lemma quiet_bind [quiet_rule]:
  assumes "quiet m" "\<And>a. quiet (k a)"
  shows "quiet (State_Monad.bind m k)"
  unfolding quiet_def wp_bind
proof
  fix w
  show "wp m (\<lambda>a. wp (k a) (\<lambda>_ w'. w_db w' = w_db w \<and> calm w w')) w"
    by (rule wp_mono [OF quietD [OF assms(1)]], rule wp_mono [OF quietD [OF assms(2)]])
      (auto intro: calm_trans)
qed

lemma quiet_attempt [quiet_rule]:
  "quiet m \<Longrightarrow> (\<And>e. quiet (h e)) \<Longrightarrow> (\<And>a. quiet (k a)) \<Longrightarrow> quiet (attempt m h k)"
  unfolding attempt_def by (rule quiet_bind) (auto split: sum.splits)

lemma quiet_and_then [quiet_rule]: "quiet m \<Longrightarrow> (\<And>a. quiet (k a)) \<Longrightarrow> quiet (and_then m k)"
  unfolding and_then_def by (intro quiet_attempt quiet_return)

lemma quiet_if [quiet_rule]: "quiet m \<Longrightarrow> quiet n \<Longrightarrow> quiet (if b then m else n)"
  by simp

lemma quiet_let [quiet_rule]: "(\<And>x. quiet (m x)) \<Longrightarrow> quiet (let x = e in m x)"
  by simp

lemma quiet_option [quiet_rule]: "quiet m \<Longrightarrow> (\<And>y. quiet (n y)) \<Longrightarrow> quiet (case x of None \<Rightarrow> m | Some y \<Rightarrow> n y)"
  by (cases x) simp_all

lemma quiet_sum [quiet_rule]: "(\<And>y. quiet (m y)) \<Longrightarrow> (\<And>y. quiet (n y)) \<Longrightarrow> quiet (case x of Inl y \<Rightarrow> m y | Inr y \<Rightarrow> n y)"
  by (cases x) simp_all

lemma quiet_prod [quiet_rule]: "(\<And>a b. quiet (m a b)) \<Longrightarrow> quiet (case x of (a, b) \<Rightarrow> m a b)"
  by (cases x) simp

lemma quiet_map_each [quiet_rule]: "(\<And>x. quiet (f x)) \<Longrightarrow> quiet (map_each f xs)"
  by (induction xs) (simp_all add: quiet_return quiet_bind)

section \<open>Statements, answers, commands\<close>

lemma quiet_query [quiet_rule]: "quiet (db_query q)"
  by (auto simp: quiet_def becomes_db calm_becomes intro!: wp_db_query)

lemma quiet_answers [quiet_rule]: "quiet (writeJSON st p)" "quiet (writeError st msg)" "quiet NotFound"
  "quiet panicked" "quiet (fail e)" "quiet (ok a)"
  by (simp_all add: quiet_def wp_step fail_def ok_def)

lemma quiet_get_now [quiet_rule]: "quiet get_now"
  by (simp add: quiet_def wp_step)

lemma quiet_ticks [quiet_rule]: "quiet next_remote" "quiet (random_hex n)" "quiet randomPort" "quiet LookupHost"
  by (simp_all add: quiet_def calm_def next_remote_def random_hex_def randomPort_def LookupHost_def next_tick_def wp_step)

lemma quiet_randomHex [quiet_rule]: "quiet (randomHex n)"
  by (simp add: randomHex_def quiet_ticks)

lemma quiet_sshConnect [quiet_rule]: "quiet (sshConnect rs n)"
  unfolding sshConnect_def by (intro quiet_rule)

text \<open>A restart of the service loads the file that is there.\<close>

lemma quiet_sshRun [quiet_rule]: "quiet (sshRun addr command)"
  by (simp add: quiet_def sshRun_def on_machine_def wp_step next_tick_def calm_def runs_reload)

lemma runs_write_file: "path' \<noteq> path \<Longrightarrow> runs m path doc \<Longrightarrow> runs (write_file path' c m) path doc"
  by (simp add: runs_def write_file_def)

lemma quiet_sshWriteText [quiet_rule]:
  assumes "aux_path path"
  shows "quiet (on_machine addr (sshWriteText rs path data))"
  using assms
  by (auto simp: quiet_def on_machine_def wp_step calm_def sshWriteText_def intro: runs_write_file)

section \<open>What is quiet\<close>

lemma quiet_ports [quiet_rule]: "quiet (pickListenPort addr network current reserved)"
  "quiet (selectListenPort addr network current reserved)" "quiet (desired_port addr network p current reserved)"
  unfolding desired_port_def selectListenPort_def pickListenPort_def listeningPorts_def
  by (intro quiet_rule)+

lemma quiet_certs [quiet_rule]: "quiet (readCertStatuses addr ts now)"
  "quiet (renew_blocked host force before t)" "quiet (renew_target addr host now force statuses t)"
  unfolding renew_target_def renew_blocked_def readCertStatuses_def by (intro quiet_rule)+

lemma aux_tune [quiet_rule]: "aux_path tuneDropInPath"
  by (simp add: aux_path_def)

lemma quiet_tuning [quiet_rule]: "quiet (applyKernelTuning addr)"
  unfolding applyKernelTuning_def readMemTotalKB_def read_key_def by (intro quiet_rule)

lemma quiet_choice [quiet_rule]: "quiet (chooseRealitySNI addr stored requested seed)"
  unfolding chooseRealitySNI_def selectRealitySNI_def realityDestStillQualifies_def by (intro quiet_rule)

lemma quiet_hysteriaSettings [quiet_rule]: "quiet (hysteriaSettings old requested domain)"
  unfolding hysteriaSettings_def by (intro quiet_rule)

lemma quiet_plans [quiet_rule]: "quiet (plan_hysteria2 node req domain existing reserved)"
  "quiet (plan_reality node req domain existing reserved)" "quiet (plan_httpupgrade node req domain existing reserved)"
  unfolding plan_hysteria2_def plan_reality_def plan_httpupgrade_def reality_keys_def reality_short_id_def
    reality_address_def by (intro quiet_rule)+

lemma quiet_reads [quiet_rule]: "quiet (NodeStore_Get i)" "quiet (NodeStore_ListInbounds i)"
  by (simp_all add: NodeStore_Get_def NodeStore_ListInbounds_def quiet_query)

lemma quiet_HandleCertRenew: "quiet (HandleCertRenew r)"
  unfolding HandleCertRenew_def by (intro quiet_rule)

lemma aux_tls: "aux_path (''/etc/sing-box/tls'' @ ''/'' @ domain @ suffix)"
  by (simp add: aux_path_def HasPrefix_def)

lemma quiet_HandleCertUpload: "quiet (HandleCertUpload x509 r)"
  unfolding HandleCertUpload_def store_certificate_def Let_def append_assoc by (intro quiet_rule aux_tls)

lemma quiet_HandleRealityTargets: "quiet (HandleRealityTargets r)"
  unfolding HandleRealityTargets_def loadNode_def by (intro quiet_rule)

lemma quiet_HandleSetupAssessment: "quiet (HandleSetupAssessment r)"
  unfolding HandleSetupAssessment_def by (intro quiet_rule)

section \<open>What it means for the nodes\<close>

text \<open>No configuration is kept at a path that remote work writes.\<close>

definition paths_ok :: "db \<Rightarrow> bool" where
  "paths_ok d \<longleftrightarrow> (\<forall>n \<in> set (d_nodes d). \<not> aux_path (n_config_path n))"

lemma in_sync_calm:
  assumes "in_sync w i" "calm w w'" "w_db w' = w_db w" "paths_ok (w_db w)"
  shows "in_sync w' i"
proof -
  have "\<not> aux_path (n_config_path n)" if "sel_row n_id i (d_nodes (w_db w)) = Some n" for n
    using assms(4) sel_row_SomeD [OF that] by (auto simp: paths_ok_def)
  with assms(1-3) show ?thesis by (simp add: in_sync_def calm_def)
qed

lemma quiet_in_sync:
  assumes "quiet m" "paths_ok (w_db w)"
  shows "wp m (\<lambda>_ w'. w_db w' = w_db w \<and> (\<forall>i. in_sync w i \<longrightarrow> in_sync w' i)) w"
  by (rule wp_mono [OF quietD [OF assms(1)]]) (use assms(2) in_sync_calm in auto)

end
