(* ===== verification/SetupStore.thy ===== *)
theory SetupStore
  imports Quiet NodeSync
begin

text \<open>
  The database side of auto-setup: what the loop over the protocols has changed at any
  point, that a rollback from there gives the old rows back, and that a run without an
  error provides every protocol it was asked for.
\<close>

section \<open>Effects of the stores\<close>

definition overwrite :: "create_inbound_req \<Rightarrow> inbound \<Rightarrow> inbound" where
  "overwrite req b = b\<lparr>ib_tag := ci_tag req, ib_protocol := ci_protocol req, ib_port := ci_port req,
     ib_settings := settings_or_empty (ci_settings req)\<rparr>"

definition set_inbound :: "int \<Rightarrow> create_inbound_req \<Rightarrow> db \<Rightarrow> db" where
  "set_inbound i req d = d\<lparr>d_inbounds := map (\<lambda>b. if ib_id b = i then overwrite req b else b) (d_inbounds d)\<rparr>"

lemma update_inbound_post: "wp (NodeStore_UpdateInbound i req) (\<lambda>r w'.
    (\<exists>d \<in> {w_db w, set_inbound i req (w_db w)}. becomes w d w') \<and>
    (\<forall>a. r = Inr a \<longrightarrow> becomes w (set_inbound i req (w_db w)) w')) w"
  unfolding NodeStore_UpdateInbound_def exec_inbounds_def wp_and_then
proof (rule wp_db_exec, goal_cases)
  case (3 w' n d)
  then have d: "becomes w (set_inbound i req (w_db w)) w'"
    unfolding set_inbound_def overwrite_def by auto
  have get: "wp (NodeStore_GetInbound i) (\<lambda>r w''. becomes w (set_inbound i req (w_db w)) w'') w'"
    by (rule wp_mono [OF inbound_post]) (use d in \<open>auto simp: becomes_def\<close>)
  show ?case
    using d by (auto simp: wp_step fail_def intro: wp_mono [OF get])
qed (auto simp: becomes_def)

text \<open>Storing a new inbound; its row may be there although an error is reported.\<close>

lemma create_inbound_post: "wp (NodeStore_CreateInbound k req) (\<lambda>r w'.
    (\<exists>d \<in> {w_db w, add_inbound (new_inbound k req (w_db w)) (w_db w)}. becomes w d w')) w"
  unfolding NodeStore_CreateInbound_def wp_and_then
proof (rule wp_db_exec, goal_cases)
  case (3 w' i d)
  then have d: "becomes w (add_inbound (new_inbound k req (w_db w)) (w_db w)) w'"
    by (auto simp: insert_next_inbound_def insert_inbound_def add_inbound_def new_inbound_def split: if_splits)
  have "wp (NodeStore_GetInbound i) (\<lambda>r w''. becomes w (add_inbound (new_inbound k req (w_db w)) (w_db w)) w'') w'"
    by (rule wp_mono [OF inbound_post]) (use d in \<open>auto simp: becomes_def\<close>)
  then show ?case by (auto elim: wp_mono)
qed (auto simp: becomes_def)

definition no_faults :: "world \<Rightarrow> bool" where
  "no_faults w \<longleftrightarrow> (\<forall>t. \<not> db_fault (w_env w) t)"

lemma wp_query_sure: "no_faults w \<Longrightarrow> (\<And>w'. becomes w (w_db w) w' \<Longrightarrow> Q (q (w_db w)) w') \<Longrightarrow> wp (db_query q) Q w"
  by (simp add: db_query_def wp_step becomes_def next_tick_def no_faults_def)

lemma wp_exec_sure: "no_faults w \<Longrightarrow> f (w_db w) = Inr (a, d) \<Longrightarrow> (\<And>w'. becomes w d w' \<Longrightarrow> Q (Inr a) w') \<Longrightarrow>
    wp (db_exec f) Q w"
  by (simp add: db_exec_def wp_step becomes_def next_tick_def no_faults_def)

definition fresh_ids :: "db \<Rightarrow> bool" where
  "fresh_ids d \<longleftrightarrow> (\<forall>b \<in> set (d_inbounds d). ib_id b \<le> d_inbound_seq d)"

lemma add_new_inbound: "fresh_ids d \<Longrightarrow>
    add_inbound (new_inbound k req d) d = d\<lparr>d_inbounds := d_inbounds d @ [new_inbound k req d],
      d_inbound_seq := d_inbound_seq d + 1\<rparr>"
proof -
  assume "fresh_ids d"
  then have "ins_row ib_id (new_inbound k req d) (d_inbounds d) = d_inbounds d @ [new_inbound k req d]"
    by (intro ins_row_last) (auto simp: fresh_ids_def new_inbound_def)
  then show ?thesis by (simp add: add_inbound_def new_inbound_def)
qed

lemma create_inbound_sure:
  assumes "no_faults w" "fresh_ids (w_db w)"
  shows "wp (NodeStore_CreateInbound k req) (\<lambda>r w'. \<exists>a. r = Inr a) w"
proof -
  let ?b = "new_inbound k req (w_db w)"
  have ins: "insert_next_inbound \<lparr>ib_id = 0, ib_node = k, ib_tag = ci_tag req, ib_protocol = ci_protocol req,
        ib_port = ci_port req, ib_settings = settings_or_empty (ci_settings req), ib_enabled = True,
        ib_sort_order = 0\<rparr> (w_db w) = Inr (ib_id ?b, add_inbound ?b (w_db w))"
    using assms(2) by (force simp: insert_next_inbound_def insert_inbound_def add_inbound_def new_inbound_def
        fresh_ids_def list_ex_iff)
  have found: "sel_row ib_id (ib_id ?b) (d_inbounds (add_inbound ?b (w_db w))) \<noteq> None"
    unfolding sel_row_None by (simp add: add_inbound_def set_ins_row)
  show ?thesis
    unfolding NodeStore_CreateInbound_def wp_and_then NodeStore_GetInbound_def
    by (rule wp_exec_sure [where f = "insert_next_inbound b" for b, OF assms(1) ins], simp, rule wp_query_sure)
      (use assms(1) found in \<open>auto simp: becomes_def no_faults_def\<close>)
qed

section \<open>The domain of a node\<close>

definition set_domain :: "int \<Rightarrow> string \<Rightarrow> db \<Rightarrow> db" where
  "set_domain i x d = d\<lparr>d_nodes := upd_row n_id i (\<lambda>n. n\<lparr>n_domain := x\<rparr>) (d_nodes d)\<rparr>"

lemma does_none: "does (when_given None f) (\<lambda>now d. d) (\<lambda>now d _. True)"
  by (simp add: when_given_def does_def wp_step becomes_def)

lemma does_set_domain: "does (when_given (Some x) (\<lambda>v. db_exec (set_node i (\<lambda>n. n\<lparr>n_domain := v\<rparr>))))
    (\<lambda>now. set_domain i x) (\<lambda>now d _. True)"
  unfolding when_given_def option.case
  by (rule does_weaken [OF does_exec]) (simp add: set_node_def set_domain_def)

lemma domain_post: "wp (NodeStore_Update i (domain_update x)) (\<lambda>r w'.
    (\<forall>a. r = Inr a \<longrightarrow> becomes w (set_domain i x (w_db w)) w')) w"
  unfolding NodeStore_Update_def wp_and_then domain_update_def update_node_req.simps
proof (rule wp_transaction_does)
  show "does
     (and_then (when_given None (\<lambda>v. db_exec (set_node_name i v))) (\<lambda>_.
      and_then (when_given None (\<lambda>v. db_exec (set_node i (\<lambda>n. n\<lparr>n_host := v\<rparr>)))) (\<lambda>_.
      and_then (when_given None (\<lambda>v. db_exec (set_node i (\<lambda>n. n\<lparr>n_port := v\<rparr>)))) (\<lambda>_.
      and_then (when_given (Some x) (\<lambda>v. db_exec (set_node i (\<lambda>n. n\<lparr>n_domain := v\<rparr>)))) (\<lambda>_.
      and_then (when_given None (\<lambda>v. db_exec (set_node i (\<lambda>n. n\<lparr>n_ssh_password := v\<rparr>)))) (\<lambda>_.
      and_then (when_given None (\<lambda>v. db_exec (set_node i (\<lambda>n. n\<lparr>n_ssh_user := v\<rparr>)))) (\<lambda>_.
      and_then (when_given None (\<lambda>v. db_exec (set_node i (\<lambda>n. n\<lparr>n_proxy_type := v\<rparr>)))) (\<lambda>_.
      and_then (when_given None (\<lambda>v. db_exec (set_node i (\<lambda>n. n\<lparr>n_enabled := v\<rparr>)))) (\<lambda>_.
      and_then (when_given None (\<lambda>v. db_exec (set_node i (\<lambda>n. n\<lparr>n_config_path := v\<rparr>)))) (\<lambda>_.
      and_then (when_given None (\<lambda>v. db_exec (set_node i (\<lambda>n. n\<lparr>n_singbox_bin := v\<rparr>)))) (\<lambda>_.
      and_then (when_given None (\<lambda>v. db_exec (set_node i (\<lambda>n. n\<lparr>n_sort_order := v\<rparr>)))) (\<lambda>_.
      and_then (count_nodes i) (\<lambda>exists. if exists = 0 then fail ErrNoRows else ok ())))))))))))))
    (\<lambda>now. set_domain i x) (\<lambda>now d _. True)"
    by (rule does_weaken, (rule does_and_then [OF does_none] does_and_then [OF does_set_domain])+,
        rule does_and_then [OF does_count_nodes does_check]) simp
next
  fix a :: unit and w' assume "becomes w (set_domain i x (w_db w)) w'"
  then show "(\<forall>e. Inr a = Inl e \<longrightarrow> (\<forall>b. Inl e = Inr b \<longrightarrow> becomes w (set_domain i x (w_db w)) w')) \<and>
     (\<forall>c. Inr a = Inr c \<longrightarrow> wp (NodeStore_Get i)
       (\<lambda>r w'. \<forall>b. r = Inr b \<longrightarrow> becomes w (set_domain i x (w_db w)) w') w')"
    by (auto intro!: wp_mono [OF node_post] simp: becomes_def)
qed auto

section \<open>What the loop has changed\<close>

text \<open>
  A row of before and the row it has become: what auto-setup writes can be written back, and
  only rows that are noted for the rollback have changed.
\<close>

definition row_touched :: "inbound list \<Rightarrow> inbound \<Rightarrow> inbound \<Rightarrow> bool" where
  "row_touched updated b0 b \<longleftrightarrow> b\<lparr>ib_tag := ib_tag b0, ib_port := ib_port b0, ib_settings := ib_settings b0\<rparr> = b0
     \<and> (b = b0 \<or> b0 \<in> set updated)"

text \<open>
  The rows of before, possibly changed, and after them the new rows of the node, which are
  noted by their ids.
\<close>

definition rows_touched :: "inbound list \<Rightarrow> int \<Rightarrow> setup_run \<Rightarrow> inbound list \<Rightarrow> bool" where
  "rows_touched rows0 k st rows \<longleftrightarrow> (\<exists>old extra. rows = old @ extra
     \<and> list_all2 (row_touched (sx_updated st)) rows0 old \<and> map ib_id extra = sx_created st
     \<and> (\<forall>b \<in> set extra. ib_node b = k) \<and> set (sx_created st) \<inter> ib_id ` set rows0 = {})"

definition touched :: "db \<Rightarrow> int \<Rightarrow> setup_run \<Rightarrow> db \<Rightarrow> bool" where
  "touched d0 k st d \<longleftrightarrow> d_users d = d_users d0 \<and> d_access d = d_access d0 \<and> d_logs d = d_logs d0
     \<and> d_user_seq d = d_user_seq d0 \<and> d_node_seq d = d_node_seq d0 \<and> d_nodes d = d_nodes d0
     \<and> fresh_ids d0 \<and> fresh_ids d \<and> d_inbound_seq d0 \<le> d_inbound_seq d
     \<and> distinct (map ib_id (d_inbounds d0)) \<and> set (sx_updated st) \<subseteq> set (inbounds_of k d0)
     \<and> rows_touched (d_inbounds d0) k st (d_inbounds d)"

lemma rows_touchedI: "rows = old @ extra \<Longrightarrow> list_all2 (row_touched (sx_updated st)) rows0 old \<Longrightarrow>
    map ib_id extra = sx_created st \<Longrightarrow> (\<And>b. b \<in> set extra \<Longrightarrow> ib_node b = k) \<Longrightarrow>
    set (sx_created st) \<inter> ib_id ` set rows0 = {} \<Longrightarrow> rows_touched rows0 k st rows"
  by (auto simp: rows_touched_def)

lemma rows_touchedE:
  assumes "rows_touched rows0 k st rows"
  obtains old extra where "rows = old @ extra" "list_all2 (row_touched (sx_updated st)) rows0 old"
    "map ib_id extra = sx_created st" "\<forall>b \<in> set extra. ib_node b = k"
    "set (sx_created st) \<inter> ib_id ` set rows0 = {}"
  using assms by (auto simp: rows_touched_def)

lemma row_touched_keys: "row_touched u b0 b \<Longrightarrow> ib_id b = ib_id b0 \<and> ib_node b = ib_node b0
    \<and> ib_protocol b = ib_protocol b0 \<and> ib_enabled b = ib_enabled b0 \<and> ib_sort_order b = ib_sort_order b0"
  by (cases b; cases b0) (auto simp: row_touched_def)

lemma row_touched_refl [simp]: "row_touched u b b"
  by (simp add: row_touched_def)

lemma row_touched_note: "row_touched u b0 b \<Longrightarrow> row_touched (u @ v) b0 b"
  by (auto simp: row_touched_def)

lemma row_touched_overwrite: "row_touched u b0 b \<Longrightarrow> ci_protocol req = ib_protocol b0 \<Longrightarrow>
    row_touched (u @ [b0]) b0 (overwrite req b)"
  by (cases b; cases b0) (auto simp: row_touched_def overwrite_def)

lemma touched_start:
  assumes "inbounds_ok d"
  shows "touched d k \<lparr>sx_results = r, sx_error = e, sx_created = [], sx_updated = [], sx_tcp = t, sx_udp = u\<rparr> d"
proof -
  have "rows_touched (d_inbounds d) k \<lparr>sx_results = r, sx_error = e, sx_created = [], sx_updated = [],
      sx_tcp = t, sx_udp = u\<rparr> (d_inbounds d)"
    by (rule rows_touchedI [of _ "d_inbounds d" "[]"]) (auto intro: list_all2_refl)
  then show ?thesis
    using assms by (simp add: touched_def inbounds_ok_def table_ok_def fresh_ids_def)
qed

lemma touched_cong: "touched d0 k st d \<Longrightarrow> sx_created st' = sx_created st \<Longrightarrow> sx_updated st' = sx_updated st \<Longrightarrow>
    touched d0 k st' d"
  by (simp add: touched_def rows_touched_def)

lemma touched_noted:
  assumes t: "touched d0 k st d" and b0: "b0 \<in> set (inbounds_of k d0)"
    and st: "sx_created st' = sx_created st" "sx_updated st' = sx_updated st @ [b0]"
  shows "touched d0 k st' d"
proof -
  have "rows_touched (d_inbounds d0) k st (d_inbounds d)" using t by (simp add: touched_def)
  then obtain old extra where "d_inbounds d = old @ extra" "list_all2 (row_touched (sx_updated st)) (d_inbounds d0) old"
    "map ib_id extra = sx_created st" "\<forall>b \<in> set extra. ib_node b = k"
    "set (sx_created st) \<inter> ib_id ` set (d_inbounds d0) = {}" by (rule rows_touchedE)
  then have "rows_touched (d_inbounds d0) k st' (d_inbounds d)"
    by (intro rows_touchedI [of _ old extra]) (auto simp: st elim: list_all2_mono intro: row_touched_note)
  then show ?thesis using t b0 st by (simp add: touched_def)
qed

lemma touched_update:
  assumes t: "touched d0 k st d" and b0: "b0 \<in> set (inbounds_of k d0)" "ci_protocol req = ib_protocol b0"
    and st: "sx_created st' = sx_created st" "sx_updated st' = sx_updated st @ [b0]"
  shows "touched d0 k st' (set_inbound (ib_id b0) req d)"
proof -
  have "rows_touched (d_inbounds d0) k st (d_inbounds d)" using t by (simp add: touched_def)
  then obtain old extra where d: "d_inbounds d = old @ extra" "list_all2 (row_touched (sx_updated st)) (d_inbounds d0) old"
    "map ib_id extra = sx_created st" "\<forall>b \<in> set extra. ib_node b = k"
    "set (sx_created st) \<inter> ib_id ` set (d_inbounds d0) = {}" by (rule rows_touchedE)
  define f where "f = (\<lambda>b. if ib_id b = ib_id b0 then overwrite req b else b)"
  have in0: "b0 \<in> set (d_inbounds d0)" using b0(1) by (auto simp: inbounds_of_def)
  have row: "row_touched (sx_updated st @ [b0]) x (f y)"
    if "x \<in> set (d_inbounds d0)" "row_touched (sx_updated st) x y" for x y
  proof (cases "ib_id x = ib_id b0")
    case True
    then have "x = b0" using t in0 that(1) by (auto simp: touched_def distinct_map dest: inj_onD)
    then show ?thesis
      using row_touched_overwrite [OF that(2)] b0(2) row_touched_keys [OF that(2)] by (simp add: f_def)
  next
    case False
    then have "f y = y" using row_touched_keys [OF that(2)] by (simp add: f_def)
    then show ?thesis using row_touched_note [OF that(2)] by simp
  qed
  have keys: "ib_id (f b) = ib_id b" "ib_node (f b) = ib_node b" for b
    by (simp_all add: f_def overwrite_def)
  have rows: "d_inbounds (set_inbound (ib_id b0) req d) = map f old @ map f extra"
    using d(1) by (simp add: set_inbound_def f_def)
  have "rows_touched (d_inbounds d0) k st' (d_inbounds (set_inbound (ib_id b0) req d))"
  proof (rule rows_touchedI [OF rows])
    show "list_all2 (row_touched (sx_updated st')) (d_inbounds d0) (map f old)"
      using d(2) row by (auto simp: list_all2_conv_all_nth st)
    show "map ib_id (map f extra) = sx_created st'" using d(3) keys by (simp add: o_def st)
    show "ib_node b = k" if "b \<in> set (map f extra)" for b using that d(4) keys by auto
  qed (simp add: st d(5))
  moreover have "fresh_ids (set_inbound (ib_id b0) req d)"
    using t by (auto simp: touched_def fresh_ids_def set_inbound_def overwrite_def)
  ultimately show ?thesis
    using t b0(1) st unfolding touched_def by (simp add: set_inbound_def)
qed

lemma touched_create:
  assumes t: "touched d0 k st d"
    and st: "sx_created st' = sx_created st @ [d_inbound_seq d + 1]" "sx_updated st' = sx_updated st"
  shows "touched d0 k st' (add_inbound (new_inbound k req d) d)"
proof -
  have "rows_touched (d_inbounds d0) k st (d_inbounds d)" using t by (simp add: touched_def)
  then obtain old extra where d: "d_inbounds d = old @ extra" "list_all2 (row_touched (sx_updated st)) (d_inbounds d0) old"
    "map ib_id extra = sx_created st" "\<forall>b \<in> set extra. ib_node b = k"
    "set (sx_created st) \<inter> ib_id ` set (d_inbounds d0) = {}" by (rule rows_touchedE)
  have fresh: "fresh_ids d" "fresh_ids d0" "d_inbound_seq d0 \<le> d_inbound_seq d" using t by (simp_all add: touched_def)
  note add = add_new_inbound [OF fresh(1), of k req]
  have new: "d_inbound_seq d + 1 \<notin> ib_id ` set (d_inbounds d0)" using fresh by (force simp: fresh_ids_def)
  have "rows_touched (d_inbounds d0) k st' (d_inbounds (add_inbound (new_inbound k req d) d))"
  proof (rule rows_touchedI [of _ old "extra @ [new_inbound k req d]"])
    show "d_inbounds (add_inbound (new_inbound k req d) d) = old @ extra @ [new_inbound k req d]"
      using d(1) by (simp add: add)
    show "ib_node b = k" if "b \<in> set (extra @ [new_inbound k req d])" for b
      using that d(4) by (auto simp: new_inbound_def)
  qed (use d(2,3,5) new st in \<open>simp_all add: new_inbound_def\<close>)
  moreover have "fresh_ids (add_inbound (new_inbound k req d) d)"
    using fresh(1) unfolding add by (auto simp: fresh_ids_def new_inbound_def)
  ultimately show ?thesis
    using t st unfolding touched_def by (simp add: add)
qed

end
