(* ===== verification/SetupSync.thy ===== *)
theory SetupSync
  imports SetupStore
begin

text \<open>
  What auto-setup (\<open>handler/setup.go\<close>) guarantees: answered with 200, every node runs what the
  database says and the node has an inbound of every requested protocol; answered as failed
  or rolled back, the database and the nodes are as before.
\<close>

section \<open>Undoing\<close>

lemma undo_created_post: "wp (undo_created i) (\<lambda>r w'. r = [] \<longrightarrow> becomes w (drop_inbound i (w_db w)) w') w"
  unfolding undo_created_def by (rule wp_attemptI [OF drop_post]) (simp_all add: wp_step)

definition put_back :: "inbound \<Rightarrow> db \<Rightarrow> db" where
  "put_back b = set_inbound (ib_id b) (with_settings b (ib_settings b))"

lemma undo_updated_post: "wp (undo_updated b) (\<lambda>r w'. r = [] \<longrightarrow> becomes w (put_back b (w_db w)) w') w"
  unfolding undo_updated_def put_back_def
  by (rule wp_attemptI [OF update_inbound_post]) (simp_all add: wp_step)

lemma undo_domain_post: "wp (undo_domain node domain) (\<lambda>r w'. r = [] \<longrightarrow>
    becomes w (if domain = n_domain node then w_db w else set_domain (n_id node) (n_domain node) (w_db w)) w') w"
proof (cases "domain = n_domain node")
  case False
  then show ?thesis
    unfolding undo_domain_def if_not_P [OF False] by (rule_tac wp_attemptI [OF domain_post]) (simp_all add: wp_step)
qed (simp add: undo_domain_def wp_step)

lemma wp_undo_all:
  assumes "\<And>x w. wp (f x) (\<lambda>r w'. r = [] \<longrightarrow> becomes w (g x (w_db w)) w') w"
  shows "wp (map_each f xs) (\<lambda>rs w'. concat rs = [] \<longrightarrow> becomes w (fold g xs (w_db w)) w') w"
proof (induction xs arbitrary: w)
  case (Cons x xs)
  show ?case
    unfolding map_each.simps wp_bind
    by (rule wp_mono [OF assms], rule wp_mono [OF Cons]) (auto simp: wp_step becomes_def)
qed (simp add: wp_step)

definition undo_db :: "node \<Rightarrow> string \<Rightarrow> setup_run \<Rightarrow> db \<Rightarrow> db" where
  "undo_db node domain st d = (let d = fold put_back (sx_updated st) (fold drop_inbound (sx_created st) d) in
     if domain = n_domain node then d else set_domain (n_id node) (n_domain node) d)"

lemma rollback_post: "wp (rollbackDatabase node domain st)
    (\<lambda>r w'. \<forall>a. r = Inr a \<longrightarrow> becomes w (undo_db node domain st (w_db w)) w') w"
  unfolding rollbackDatabase_def wp_bind
proof (rule wp_mono [OF wp_undo_all [OF undo_created_post]], rule wp_mono [OF wp_undo_all [OF undo_updated_post]],
    rule wp_mono [OF undo_domain_post], goal_cases)
  case (1 e1 w1 e2 w2 e3 w3)
  show ?case
  proof (cases "concat e1 @ concat e2 @ e3")
    case Nil
    then have "concat e1 = []" "concat e2 = []" "e3 = []" by (simp_all del: concat_eq_Nil_conv)
    then have "becomes w (undo_db node domain st (w_db w)) w3"
      using 1 by (simp add: undo_db_def Let_def becomes_def del: concat_eq_Nil_conv split: if_splits)
    then show ?thesis unfolding Nil by (simp add: wp_step ok_def)
  next
    case (Cons e es)
    then show ?thesis unfolding Cons by (simp add: wp_step fail_def)
  qed
qed

lemma fold_drop: "fold drop_inbound ids d = d\<lparr>d_inbounds := filter (\<lambda>b. ib_id b \<notin> set ids) (d_inbounds d)\<rparr>"
  by (induction ids arbitrary: d) (auto simp: drop_inbound_def del_rows_def intro!: filter_cong)

definition put_back_row :: "inbound \<Rightarrow> inbound \<Rightarrow> inbound" where
  "put_back_row u b = (if ib_id b = ib_id u then overwrite (with_settings u (ib_settings u)) b else b)"

lemma fold_put_back: "fold put_back us d = d\<lparr>d_inbounds := map (fold put_back_row us) (d_inbounds d)\<rparr>"
proof (induction us arbitrary: d)
  case (Cons u us)
  have "put_back u d = d\<lparr>d_inbounds := map (put_back_row u) (d_inbounds d)\<rparr>"
    by (simp add: put_back_def set_inbound_def put_back_row_def [abs_def])
  then show ?case by (simp add: Cons)
qed simp

text \<open>Stored settings are never empty: the stores write the empty object instead.\<close>

definition settings_stored :: "db \<Rightarrow> bool" where
  "settings_stored d \<longleftrightarrow> (\<forall>b \<in> set (d_inbounds d). ib_settings b \<noteq> RawEmpty)"

lemma settings_or_empty_id: "s \<noteq> RawEmpty \<Longrightarrow> settings_or_empty s = s"
  by (cases s) simp_all

lemma overwrite_back: "row_touched u b0 b \<Longrightarrow> ib_settings b0 \<noteq> RawEmpty \<Longrightarrow>
    overwrite (with_settings b0 (ib_settings b0)) b = b0"
  by (cases b; cases b0) (auto simp: row_touched_def overwrite_def with_settings_def settings_or_empty_id)

lemma fold_put_back_row:
  assumes "inj_on ib_id D" "b0 \<in> D" "set us \<subseteq> D" "ib_settings b0 \<noteq> RawEmpty" "row_touched us b0 b"
  shows "fold put_back_row us b = b0"
  using assms(3,5)
proof (induction us arbitrary: b)
  case Nil
  then show ?case by (simp add: row_touched_def)
next
  case (Cons u us)
  have key: "ib_id b = ib_id b0" using row_touched_keys [OF Cons.prems(2)] by simp
  show ?case
  proof (cases "ib_id u = ib_id b0")
    case True
    then have "u = b0" using assms(1,2) Cons.prems(1) by (auto dest: inj_onD)
    then have "put_back_row u b = b0"
      using overwrite_back [OF Cons.prems(2) assms(4)] key by (simp add: put_back_row_def)
    then show ?thesis using Cons.IH [of b0] Cons.prems(1) by simp
  next
    case False
    then have "put_back_row u b = b" "row_touched us b0 b"
      using key Cons.prems(2) by (auto simp: put_back_row_def row_touched_def)
    then show ?thesis using Cons.IH [of b] Cons.prems(1) by simp
  qed
qed

text \<open>A completed rollback leaves the database of before, but for the sequence of inbound ids.\<close>

definition restored :: "db \<Rightarrow> db \<Rightarrow> bool" where
  "restored d0 d \<longleftrightarrow> d = d0\<lparr>d_inbound_seq := d_inbound_seq d\<rparr>"

lemma undo_rows:
  assumes t: "touched d0 k st d" and s: "settings_stored d0"
  shows "restored d0 (fold put_back (sx_updated st) (fold drop_inbound (sx_created st) d))"
proof -
  have "rows_touched (d_inbounds d0) k st (d_inbounds d)" using t by (simp add: touched_def)
  then obtain old extra where d: "d_inbounds d = old @ extra" "list_all2 (row_touched (sx_updated st)) (d_inbounds d0) old"
    "map ib_id extra = sx_created st" "\<forall>b \<in> set extra. ib_node b = k"
    "set (sx_created st) \<inter> ib_id ` set (d_inbounds d0) = {}" by (rule rows_touchedE)
  have "ib_id b \<notin> set (sx_created st)" if b: "b \<in> set old" for b
  proof -
    obtain i where i: "i < length old" "b = old ! i" using b by (auto simp: in_set_conv_nth)
    then have "ib_id b = ib_id (d_inbounds d0 ! i)" "i < length (d_inbounds d0)"
      using d(2) row_touched_keys by (fastforce simp: list_all2_conv_all_nth)+
    then have "ib_id b \<in> ib_id ` set (d_inbounds d0)" by simp
    then show ?thesis using d(5) by blast
  qed
  moreover have "ib_id b \<in> set (sx_created st)" if "b \<in> set extra" for b
    unfolding d(3) [symmetric] using that by simp
  ultimately have dropped: "filter (\<lambda>b. ib_id b \<notin> set (sx_created st)) (d_inbounds d) = old"
    by (simp add: d(1) filter_empty_conv)
  have inj: "inj_on ib_id (set (d_inbounds d0))" "set (sx_updated st) \<subseteq> set (d_inbounds d0)"
    using t by (auto simp: touched_def distinct_map inbounds_of_def)
  have "fold put_back_row (sx_updated st) (old ! i) = d_inbounds d0 ! i" if "i < length old" for i
  proof (rule fold_put_back_row [OF inj(1) _ inj(2)])
    show "d_inbounds d0 ! i \<in> set (d_inbounds d0)" "row_touched (sx_updated st) (d_inbounds d0 ! i) (old ! i)"
      using that d(2) by (auto simp: list_all2_conv_all_nth)
    then show "ib_settings (d_inbounds d0 ! i) \<noteq> RawEmpty" using s by (auto simp: settings_stored_def)
  qed
  then have "map (fold put_back_row (sx_updated st)) old = d_inbounds d0"
    using d(2) by (auto simp: list_eq_iff_nth_eq list_all2_conv_all_nth)
  then show ?thesis
    using t by (simp add: restored_def fold_drop fold_put_back dropped touched_def)
qed

section \<open>The loop\<close>

definition provided :: "int \<Rightarrow> string \<Rightarrow> db \<Rightarrow> bool" where
  "provided k proto d \<longleftrightarrow> (\<exists>b \<in> set (d_inbounds d). ib_node b = k \<and> ib_protocol b = proto)"

text \<open>Every old row has its successor, and a row with the id of an old one is its successor.\<close>

lemma touched_successor:
  assumes t: "touched d0 k st d" and b0: "b0 \<in> set (d_inbounds d0)"
  shows "\<exists>b \<in> set (d_inbounds d). row_touched (sx_updated st) b0 b"
    and "b \<in> set (d_inbounds d) \<Longrightarrow> ib_id b = ib_id b0 \<Longrightarrow> row_touched (sx_updated st) b0 b"
proof -
  have "rows_touched (d_inbounds d0) k st (d_inbounds d)" using t by (simp add: touched_def)
  then obtain old extra where d: "d_inbounds d = old @ extra" "list_all2 (row_touched (sx_updated st)) (d_inbounds d0) old"
    "map ib_id extra = sx_created st" "\<forall>b \<in> set extra. ib_node b = k"
    "set (sx_created st) \<inter> ib_id ` set (d_inbounds d0) = {}" by (rule rows_touchedE)
  obtain i where i: "i < length (d_inbounds d0)" "b0 = d_inbounds d0 ! i" using b0 by (auto simp: in_set_conv_nth)
  then have "i < length old" "row_touched (sx_updated st) b0 (old ! i)"
    using d(2) by (auto simp: list_all2_conv_all_nth)
  then show "\<exists>b \<in> set (d_inbounds d). row_touched (sx_updated st) b0 b"
    using d(1) by (intro bexI [of _ "old ! i"]) simp_all
  assume b: "b \<in> set (d_inbounds d)" "ib_id b = ib_id b0"
  have "b \<notin> set extra"
  proof
    assume "b \<in> set extra"
    then have "ib_id b \<in> set (map ib_id extra)" by simp
    then show False using d(3,5) b(2) b0 by auto
  qed
  with b(1) obtain j where j: "j < length old" "b = old ! j" using d(1) by (auto simp: in_set_conv_nth)
  then have r: "j < length (d_inbounds d0)" "row_touched (sx_updated st) (d_inbounds d0 ! j) b"
    using d(2) by (auto simp: list_all2_conv_all_nth)
  have "ib_id (d_inbounds d0 ! j) = ib_id b0" using row_touched_keys [OF r(2)] b(2) by simp
  then have "d_inbounds d0 ! j = b0"
    using t b0 r(1) by (auto simp: touched_def distinct_map dest: inj_onD)
  with r(2) show "row_touched (sx_updated st) b0 b" by simp
qed

lemma in_inbounds_of: "b \<in> set (inbounds_of k d) \<longleftrightarrow> b \<in> set (d_inbounds d) \<and> ib_node b = k"
  by (auto simp: inbounds_of_def)

lemma touched_provided: "touched d0 k st d \<Longrightarrow> b0 \<in> set (inbounds_of k d0) \<Longrightarrow> provided k (ib_protocol b0) d"
  using touched_successor(1) [of d0 k st d b0] row_touched_keys
  by (fastforce simp: provided_def in_inbounds_of)

lemma provided_update:
  assumes "touched d0 k st d" "b0 \<in> set (inbounds_of k d0)" "ci_protocol req = ib_protocol b0" "provided k p d"
  shows "provided k p (set_inbound (ib_id b0) req d)"
proof -
  obtain b where b: "b \<in> set (d_inbounds d)" "ib_node b = k" "ib_protocol b = p"
    using assms(4) by (auto simp: provided_def)
  let ?f = "\<lambda>b. if ib_id b = ib_id b0 then overwrite req b else b"
  have "ib_protocol b = ib_protocol b0" if "ib_id b = ib_id b0"
    using row_touched_keys [OF touched_successor(2) [OF assms(1) _ b(1) that]] assms(2) by (simp add: in_inbounds_of)
  then have "ib_node (?f b) = k" "ib_protocol (?f b) = p" using b assms(3) by (auto simp: overwrite_def)
  moreover have "?f b \<in> set (d_inbounds (set_inbound (ib_id b0) req d))" using b(1) by (simp add: set_inbound_def)
  ultimately show ?thesis unfolding provided_def by blast
qed

lemma provided_add: "provided k p d \<Longrightarrow> provided k p (add_inbound b d)"
  "ib_node b = k \<Longrightarrow> provided k (ib_protocol b) (add_inbound b d)"
  by (auto simp: provided_def add_inbound_def set_ins_row)

text \<open>
  While no error is noted, or no statement fails, the database is as the run notes it. An
  insertion that reports an error may have stored its row.
\<close>

definition setup_inv :: "world \<Rightarrow> int \<Rightarrow> setup_run \<Rightarrow> world \<Rightarrow> bool" where
  "setup_inv w0 k st w \<longleftrightarrow> calm w0 w \<and>
     (\<not> sx_error st \<or> no_faults w0 \<longrightarrow> touched (w_db w0) k st (w_db w))"

text \<open>A step of the loop: errors stay, and without one it provides its protocol and keeps the others.\<close>

definition setup_step :: "world \<Rightarrow> int \<Rightarrow> string \<Rightarrow> setup_run \<Rightarrow> world \<Rightarrow> setup_run \<Rightarrow> world \<Rightarrow> bool" where
  "setup_step w0 k proto st w st' w' \<longleftrightarrow> setup_inv w0 k st' w' \<and> (sx_error st \<longrightarrow> sx_error st') \<and>
     map si_protocol (sx_results st') = map si_protocol (sx_results st) @ [proto] \<and>
     (\<not> sx_error st' \<longrightarrow> provided k proto (w_db w') \<and>
        (\<forall>p. provided k p (w_db w) \<longrightarrow> provided k p (w_db w')))"

definition existing_ok :: "world \<Rightarrow> int \<Rightarrow> string \<Rightarrow> inbound option \<Rightarrow> bool" where
  "existing_ok w0 k proto existing \<longleftrightarrow>
     (\<forall>b. existing = Some b \<longrightarrow> b \<in> set (inbounds_of k (w_db w0)) \<and> ib_protocol b = proto)"

lemma existing_inbound_ok: "existing_ok w0 k proto (existing_inbound (inbounds_of k (w_db w0)) proto)"
  by (auto simp: existing_ok_def existing_inbound_def find_Some_iff) (metis nth_mem length_rev set_rev)

lemma no_faults_calm: "calm w0 w \<Longrightarrow> no_faults w = no_faults w0"
  by (simp add: calm_def no_faults_def)

lemma add_result_simps [simp]: "sx_created (add_result r st) = sx_created st" "sx_updated (add_result r st) = sx_updated st"
  "sx_error (add_result r st) \<longleftrightarrow> sx_error st \<or> si_status r = ''error''"
  "sx_results (add_result r st) = sx_results st @ [r]"
  by (simp_all add: add_result_def)

lemma setup_inv_cong: "setup_inv w0 k st w \<Longrightarrow> w_db w' = w_db w \<Longrightarrow> calm w w' \<Longrightarrow>
    sx_created st' = sx_created st \<Longrightarrow> sx_updated st' = sx_updated st \<Longrightarrow> (sx_error st \<Longrightarrow> sx_error st') \<Longrightarrow>
    setup_inv w0 k st' w'"
  by (auto simp: setup_inv_def intro: calm_trans touched_cong)

lemma wp_store_setup:
  assumes inv: "setup_inv w0 k st w" and k: "n_id node = k" and ex: "existing_ok w0 k proto existing"
  shows "wp (store_setup node proto existing port settings d st) (setup_step w0 k proto st w) w"
proof -
  define req where "req = \<lparr>ci_tag = proto, ci_protocol = proto, ci_port = port, ci_settings = RawJson (JObj settings)\<rparr>"
  have calm: "calm w0 w" using inv by (simp add: setup_inv_def)
  have t: "\<not> sx_error st \<or> no_faults w0 \<Longrightarrow> touched (w_db w0) k st (w_db w)" using inv by (simp add: setup_inv_def)
  show ?thesis
  proof (cases existing)
    case (Some b)
    then have b: "b \<in> set (inbounds_of k (w_db w0))" "ci_protocol req = ib_protocol b" "ib_protocol b = proto"
      using ex by (auto simp: existing_ok_def req_def)
    define st1 where "st1 = st\<lparr>sx_updated := sx_updated st @ [b]\<rparr>"
    have st1: "sx_created st1 = sx_created st" "sx_updated st1 = sx_updated st @ [b]" "sx_error st1 = sx_error st"
      "sx_results st1 = sx_results st"
      by (simp_all add: st1_def)
    have step: "setup_step w0 k proto st w (add_result r st1) w'"
      if p: "si_protocol r = proto" and w': "becomes w d' w'" "d' = w_db w \<or> d' = set_inbound (ib_id b) req (w_db w)"
        and r: "si_status r = ''error'' \<or> d' = set_inbound (ib_id b) req (w_db w)" for r d' w'
    proof -
      have t': "touched (w_db w0) k (add_result r st1) (w_db w')" if "\<not> sx_error st \<or> no_faults w0"
        using w' touched_noted [OF t [OF that] b(1), of "add_result r st1"]
          touched_update [OF t [OF that] b(1,2), of "add_result r st1"] st1 by (auto simp: becomes_def)
      have "provided k proto (w_db w')" "provided k p (w_db w) \<longrightarrow> provided k p (w_db w')"
        if "\<not> sx_error (add_result r st1)" for p
        using that r w'(1) touched_provided [OF t' b(1)] b provided_update [OF t b(1,2)] st1
        by (auto simp: becomes_def)
      then show ?thesis
        using t' calm_trans [OF calm calm_becomes [OF w'(1)]] st1 p
        by (auto simp: setup_step_def setup_inv_def)
    qed
    show ?thesis
      unfolding store_setup_def Let_def Some option.case req_def [symmetric] st1_def [symmetric]
    proof (rule wp_attemptI [OF update_inbound_post], goal_cases)
      case (1 e w')
      then show ?case by (auto simp: wp_step stored_result_def intro!: step)
    next
      case (2 a w')
      then show ?case by (auto simp: wp_step stored_result_def intro!: step)
    qed
  next
    case None
    let ?b = "new_inbound k req (w_db w)"
    have error: "setup_step w0 k proto st w (add_result (stored_result proto port ''error'' x) st) w'"
      if "becomes w d' w'" "no_faults w0 \<Longrightarrow> d' = w_db w" for x d' w'
      using that inv calm_trans [OF calm calm_becomes [OF that(1)]]
      by (auto simp: setup_step_def setup_inv_def stored_result_def becomes_def intro: touched_cong)
    have stored: "setup_step w0 k proto st w (add_result (stored_result proto port ''ok'' d)
        (st\<lparr>sx_created := sx_created st @ [ib_id b]\<rparr>)) w'"
      if w': "becomes w (add_inbound ?b (w_db w)) w'" and b: "ib_id b = ib_id ?b" for b w'
    proof -
      have "touched (w_db w0) k (add_result (stored_result proto port ''ok'' d)
          (st\<lparr>sx_created := sx_created st @ [ib_id b]\<rparr>)) (w_db w')" if "\<not> sx_error st \<or> no_faults w0"
        using touched_create [OF t [OF that], of "add_result (stored_result proto port ''ok'' d)
          (st\<lparr>sx_created := sx_created st @ [ib_id b]\<rparr>)" req] b w' by (simp add: becomes_def new_inbound_def)
      moreover have "provided k proto (w_db w')" "provided k p (w_db w) \<Longrightarrow> provided k p (w_db w')" for p
        using provided_add(2) [where b = ?b and k = k and d = "w_db w"] w'
        by (simp_all add: becomes_def provided_add(1)) (simp add: new_inbound_def req_def)
      ultimately show ?thesis
        using calm_trans [OF calm calm_becomes [OF w']] by (auto simp: setup_step_def setup_inv_def stored_result_def)
    qed
    have sure: "\<exists>a. r = Inr a" if "run_state (NodeStore_CreateInbound k req) w = (r, w')" "no_faults w0" for r w'
      by (rule wp_run [OF create_inbound_sure that(1)])
        (use that(2) t calm no_faults_calm [OF calm] in \<open>auto simp: touched_def\<close>)
    have post: "wp (NodeStore_CreateInbound k req) (\<lambda>r w'. (\<exists>d' \<in> {w_db w, add_inbound ?b (w_db w)}. becomes w d' w')
        \<and> (\<forall>a. r = Inr a \<longrightarrow> ib_id a = ib_id ?b \<and> becomes w (add_inbound ?b (w_db w)) w')
        \<and> (\<forall>e. r = Inl e \<longrightarrow> \<not> no_faults w0)) w"
    proof (rule wp_runI, intro conjI, goal_cases)
      case (1 r w')
      then show ?case by (rule wp_run [OF create_inbound_post])
    next
      case (2 r w')
      show ?case using wp_run [OF create_post 2] by blast
    next
      case (3 r w')
      then show ?case using sure by fastforce
    qed
    show ?thesis
      unfolding store_setup_def Let_def None option.case req_def [symmetric] k
    proof (rule wp_attemptI [OF post], goal_cases)
      case (1 e w')
      then show ?case using error [of _ w'] by (auto simp: wp_step)
    next
      case (2 a w')
      then show ?case by (simp add: wp_step stored)
    qed
  qed
qed

text \<open>A plan gives up only with an error, or when the inbound is there already.\<close>

definition yields :: "('a \<Rightarrow> bool) \<Rightarrow> 'a io \<Rightarrow> bool" where
  "yields P m \<longleftrightarrow> (\<forall>w. wp m (\<lambda>r _. P r) w)"

named_theorems yields_rule \<open>what an operation can return\<close>

lemma yields_return [yields_rule]: "P a \<Longrightarrow> yields P (State_Monad.return a)"
  by (simp add: yields_def wp_step)

lemma yields_bind [yields_rule]: "(\<And>a. yields P (k a)) \<Longrightarrow> yields P (State_Monad.bind m k)"
  by (auto simp: yields_def wp_bind intro: wp_runI)

lemma yields_if [yields_rule]: "(b \<Longrightarrow> yields P m) \<Longrightarrow> (\<not> b \<Longrightarrow> yields P n) \<Longrightarrow> yields P (if b then m else n)"
  by simp

lemma yields_let [yields_rule]: "yields P (m e) \<Longrightarrow> yields P (let x = e in m x)"
  by simp

lemma yields_cases [yields_rule]:
  "yields P m \<Longrightarrow> (\<And>y. yields P (n y)) \<Longrightarrow> yields P (case x of None \<Rightarrow> m | Some y \<Rightarrow> n y)"
  "(\<And>y. yields P (f y)) \<Longrightarrow> (\<And>z. yields P (g z)) \<Longrightarrow> yields P (case s of Inl y \<Rightarrow> f y | Inr z \<Rightarrow> g z)"
  "(\<And>a b. yields P (h a b)) \<Longrightarrow> yields P (case p of (a, b) \<Rightarrow> h a b)"
  by (simp_all split: option.splits sum.splits prod.splits)

definition honest :: "string \<Rightarrow> inbound option \<Rightarrow> int list \<times> setup_plan \<Rightarrow> bool" where
  "honest proto existing a \<longleftrightarrow> (\<forall>r. snd a = Stop r \<longrightarrow>
     si_protocol r = proto \<and> (si_status r = ''error'' \<or> existing \<noteq> None))"

lemma honest_simps [simp]: "honest proto existing (l, setup_error proto port msg)"
  "existing \<noteq> None \<Longrightarrow> honest proto existing (l, setup_skipped proto port msg)" "honest proto existing (l, Store port settings d)"
  by (simp_all add: honest_def setup_error_def setup_skipped_def)

lemma honest_plans: "yields (honest ''hysteria2'' existing) (plan_hysteria2 node req domain existing reserved)"
  "yields (honest ''vless-reality'' existing) (plan_reality node req domain existing reserved)"
  "yields (honest ''vless-httpupgrade'' existing) (plan_httpupgrade node req domain existing reserved)"
  unfolding plan_hysteria2_def plan_reality_def plan_httpupgrade_def
  by ((intro yields_rule; simp), (intro yields_rule; simp), (intro yields_rule; simp))

lemma wp_planned:
  assumes q: "quiet m" and y: "yields P m" and k: "\<And>a w'. P a \<Longrightarrow> w_db w' = w_db w \<Longrightarrow> calm w w' \<Longrightarrow> wp (k a) Q w'"
  shows "wp (State_Monad.bind m k) Q w"
proof -
  have "P a \<and> w_db w' = w_db w \<and> calm w w'" if "run_state m w = (a, w')" for a w'
    using wp_run [OF quietD [OF q] that] wp_run [OF y [unfolded yields_def, rule_format] that] by blast
  then show ?thesis unfolding wp_bind by (intro wp_runI k) blast+
qed

lemma wp_finish_setup:
  assumes inv: "setup_inv w0 k st w" and k: "n_id node = k" and ex: "existing_ok w0 k proto existing"
    and h: "honest proto existing (l, plan)"
  shows "wp (finish_setup node proto existing plan st) (setup_step w0 k proto st w) w"
proof (cases plan)
  case (Stop r)
  have "provided k proto (w_db w)" if no_error: "\<not> sx_error (add_result r st)"
  proof -
    have some: "existing \<noteq> None" using no_error h Stop by (simp add: honest_def)
    obtain b where b: "b \<in> set (inbounds_of k (w_db w0))" "ib_protocol b = proto"
      using ex some by (auto simp: existing_ok_def)
    have "touched (w_db w0) k st (w_db w)" using no_error inv by (simp add: setup_inv_def)
    from touched_provided [OF this b(1)] show ?thesis by (simp add: b(2))
  qed
  moreover have "setup_inv w0 k (add_result r st) w" by (rule setup_inv_cong [OF inv]) simp_all
  ultimately show ?thesis using h by (simp add: finish_setup_def Stop wp_step setup_step_def honest_def)
next
  case (Store port settings d)
  then show ?thesis using wp_store_setup [OF inv k ex] by (simp add: finish_setup_def)
qed

lemma setup_step_cong: "setup_step w0 k proto st w' st' w'' \<Longrightarrow> w_db w' = w_db w \<Longrightarrow> sx_error st = sx_error st0 \<Longrightarrow>
    sx_results st = sx_results st0 \<Longrightarrow>
    setup_step w0 k proto st0 w st' w''"
  by (simp add: setup_step_def)

lemma if_cases: "(b \<Longrightarrow> wp m Q w) \<Longrightarrow> (\<not> b \<Longrightarrow> wp n Q w) \<Longrightarrow> wp (if b then m else n) Q w"
  by simp

lemma wp_setup_protocol:
  assumes inv: "setup_inv w0 k st w" and k: "n_id node = k" and ibs: "inbounds = inbounds_of k (w_db w0)"
  shows "wp (setup_protocol node req domain inbounds proto st) (setup_step w0 k proto st w) w"
proof -
  let ?ex = "existing_inbound inbounds proto"
  have ex: "existing_ok w0 k proto ?ex" unfolding ibs by (rule existing_inbound_ok)
  have plan: "wp (State_Monad.bind m (\<lambda>(l, plan). finish_setup node proto ?ex plan (f l)))
      (setup_step w0 k proto st w) w"
    if "quiet m" "yields (honest proto ?ex) m" and f: "\<And>l. sx_created (f l) = sx_created st"
      "\<And>l. sx_updated (f l) = sx_updated st" "\<And>l. sx_error (f l) = sx_error st"
      "\<And>l. sx_results (f l) = sx_results st" for m f
  proof (rule wp_planned [OF that(1,2)])
    fix a w' assume a: "honest proto ?ex a" "w_db w' = w_db w" "calm w w'"
    obtain l plan where lp: "a = (l, plan)" by (cases a) simp
    have inv': "setup_inv w0 k (f l) w'" by (rule setup_inv_cong [OF inv a(2,3)]) (simp_all add: f)
    show "wp (case a of (l, plan) \<Rightarrow> finish_setup node proto ?ex plan (f l)) (setup_step w0 k proto st w) w'"
      unfolding lp prod.case
      by (rule wp_mono [OF wp_finish_setup [OF inv' k ex a(1) [unfolded lp]]], erule setup_step_cong)
        (use a(2) f in simp_all)
  qed
  show ?thesis
    unfolding setup_protocol_def Let_def
    by (intro if_cases)
      (rule plan wp_finish_setup [OF inv k ex, where l = "[]"]; simp add: quiet_plans honest_plans)+
qed

text \<open>The whole loop.\<close>

definition setup_loop :: "world \<Rightarrow> int \<Rightarrow> string list \<Rightarrow> setup_run \<Rightarrow> world \<Rightarrow> setup_run \<Rightarrow> world \<Rightarrow> bool" where
  "setup_loop w0 k protos st w st' w' \<longleftrightarrow> setup_inv w0 k st' w' \<and> (sx_error st \<longrightarrow> sx_error st') \<and>
     map si_protocol (sx_results st') = map si_protocol (sx_results st) @ protos \<and>
     (\<not> sx_error st' \<longrightarrow> (\<forall>p \<in> set protos. provided k p (w_db w')) \<and>
        (\<forall>p. provided k p (w_db w) \<longrightarrow> provided k p (w_db w')))"

lemma wp_setup_protocols:
  assumes "n_id node = k" "inbounds = inbounds_of k (w_db w0)" "setup_inv w0 k st w"
  shows "wp (setup_protocols node req domain inbounds protos st) (setup_loop w0 k protos st w) w"
  using assms(3)
proof (induction protos arbitrary: st w)
  case Nil
  then show ?case by (simp add: wp_step setup_loop_def)
next
  case (Cons p ps)
  show ?case
    unfolding setup_protocols.simps wp_bind
  proof (rule wp_mono [OF wp_setup_protocol [OF Cons.prems assms(1,2)]])
    fix st1 w1 assume s: "setup_step w0 k p st w st1 w1"
    then have "setup_inv w0 k st1 w1" by (simp add: setup_step_def)
    then show "wp (setup_protocols node req domain inbounds ps st1) (setup_loop w0 k (p # ps) st w) w1"
      by (rule wp_mono [OF Cons.IH]) (use s in \<open>auto simp: setup_step_def setup_loop_def\<close>)
  qed
qed

section \<open>What the rest of the fleet sees\<close>

text \<open>Databases that differ, at most, in the inbounds and the domain of node \<open>k\<close>.\<close>

definition only_node :: "int \<Rightarrow> db \<Rightarrow> db \<Rightarrow> bool" where
  "only_node k d d' \<longleftrightarrow> d_users d' = d_users d \<and> d_access d' = d_access d \<and> d_logs d' = d_logs d
     \<and> (\<exists>f. d_nodes d' = map f (d_nodes d) \<and>
          (\<forall>n. f n = n\<lparr>n_domain := n_domain (f n)\<rparr> \<and> (n_id n \<noteq> k \<longrightarrow> f n = n)))
     \<and> (\<forall>i. i \<noteq> k \<longrightarrow> inbounds_of i d' = inbounds_of i d)"

lemma sel_row_map_keys: "(\<And>n. n_id (f n) = n_id n) \<Longrightarrow> sel_row n_id i (map f rows) = map_option f (sel_row n_id i rows)"
  by (induction rows) (simp_all add: sel_row_def)

lemma only_node_same_for: "only_node k d d' \<Longrightarrow> i \<noteq> k \<Longrightarrow> same_for i d d'"
proof -
  assume o: "only_node k d d'" and i: "i \<noteq> k"
  then obtain f where f: "d_nodes d' = map f (d_nodes d)"
    "\<And>n. f n = n\<lparr>n_domain := n_domain (f n)\<rparr>" "\<And>n. n_id n \<noteq> k \<Longrightarrow> f n = n" by (auto simp: only_node_def)
  have id: "n_id (f n) = n_id n" for n by (subst f(2)) simp
  have "sel_row n_id i (d_nodes d') = sel_row n_id i (d_nodes d)"
    unfolding f(1) sel_row_map_keys [OF id]
    by (cases "sel_row n_id i (d_nodes d)") (use f(3) i in \<open>auto dest!: sel_row_SomeD\<close>)
  then show ?thesis using o i by (auto simp: only_node_def same_for_def intro: list_all2_refl)
qed

lemma only_node_fleet: "only_node k d d' \<Longrightarrow> fleet_ok d \<Longrightarrow> fleet_ok d'"
proof -
  assume o: "only_node k d d'" and ok: "fleet_ok d"
  then obtain f where f: "d_nodes d' = map f (d_nodes d)" "\<And>n. f n = n\<lparr>n_domain := n_domain (f n)\<rparr>"
    by (auto simp: only_node_def)
  have "n_id (f n) = n_id n" "sshDialAddr (f n) = sshDialAddr n" "n_config_path (f n) = n_config_path n" for n
    by (subst f(2), simp add: sshDialAddr_def)+
  then show ?thesis using o ok by (simp add: fleet_ok_def only_node_def f(1) o_def)
qed

lemma only_node_paths: "only_node k d d' \<Longrightarrow> paths_ok d \<Longrightarrow> paths_ok d'"
proof -
  assume o: "only_node k d d'" and ok: "paths_ok d"
  then obtain f where f: "d_nodes d' = map f (d_nodes d)" "\<And>n. f n = n\<lparr>n_domain := n_domain (f n)\<rparr>"
    by (auto simp: only_node_def)
  have "n_config_path (f n) = n_config_path n" for n by (subst f(2)) simp
  then show ?thesis using ok by (simp add: paths_ok_def f(1))
qed

lemma only_node_domain: "only_node k d d' \<Longrightarrow> only_node k d (set_domain k x d')"
proof -
  assume o: "only_node k d d'"
  then obtain f where f: "d_nodes d' = map f (d_nodes d)"
    "\<And>n. f n = n\<lparr>n_domain := n_domain (f n)\<rparr>" "\<And>n. n_id n \<noteq> k \<Longrightarrow> f n = n" by (auto simp: only_node_def)
  let ?g = "\<lambda>n. if n_id (f n) = k then (f n)\<lparr>n_domain := x\<rparr> else f n"
  have id: "n_id (f n) = n_id n" for n by (subst f(2)) simp
  have "?g n = n\<lparr>n_domain := n_domain (?g n)\<rparr>" for n
    by (cases "n_id n = k") (simp_all add: id f(3), subst f(2), simp)
  moreover have "n_id n \<noteq> k \<Longrightarrow> ?g n = n" for n by (simp add: id f(3))
  moreover have "d_nodes (set_domain k x d') = map ?g (d_nodes d)"
    by (simp add: set_domain_def upd_row_def f(1))
  ultimately have "\<exists>g. d_nodes (set_domain k x d') = map g (d_nodes d) \<and>
      (\<forall>n. g n = n\<lparr>n_domain := n_domain (g n)\<rparr> \<and> (n_id n \<noteq> k \<longrightarrow> g n = n))" by blast
  then show ?thesis using o by (simp add: only_node_def set_domain_def inbounds_of_def)
qed

lemma touched_only_node: "touched d0 k st d \<Longrightarrow> only_node k d0 d"
proof -
  assume t: "touched d0 k st d"
  then have "rows_touched (d_inbounds d0) k st (d_inbounds d)" by (simp add: touched_def)
  then obtain old extra where d: "d_inbounds d = old @ extra" "list_all2 (row_touched (sx_updated st)) (d_inbounds d0) old"
    "map ib_id extra = sx_created st" "\<forall>b \<in> set extra. ib_node b = k"
    "set (sx_created st) \<inter> ib_id ` set (d_inbounds d0) = {}" by (rule rows_touchedE)
  have "filter (\<lambda>b. ib_node b = i) (d_inbounds d) = filter (\<lambda>b. ib_node b = i) (d_inbounds d0)" if i: "i \<noteq> k" for i
  proof -
    have "row_touched (sx_updated st) b0 b \<Longrightarrow> ib_node b0 = i \<Longrightarrow> b = b0" for b0 b
      using t i by (auto simp: touched_def row_touched_def inbounds_of_def)
    with d(2) have "filter (\<lambda>b. ib_node b = i) old = filter (\<lambda>b. ib_node b = i) (d_inbounds d0)"
      by (induction rule: list_all2_induct) (use row_touched_keys in fastforce)+
    moreover have "filter (\<lambda>b. ib_node b = i) extra = []" using d(4) i by (auto simp: filter_empty_conv)
    ultimately show ?thesis by (simp add: d(1))
  qed
  then have "\<forall>i. i \<noteq> k \<longrightarrow> inbounds_of i d = inbounds_of i d0" by (auto intro: inbounds_of_cong)
  then show ?thesis using t by (auto simp: only_node_def touched_def intro!: exI [of _ id])
qed

lemma restored_only_node: "restored d0 d \<Longrightarrow> only_node k d0 d"
  unfolding restored_def only_node_def inbounds_of_def by (auto intro!: exI [of _ id]) (metis db.ext_inject db.surjective db.update_convs)+

lemma restoredI: "d_users d = d_users d0 \<Longrightarrow> d_nodes d = d_nodes d0 \<Longrightarrow> d_inbounds d = d_inbounds d0 \<Longrightarrow>
    d_access d = d_access d0 \<Longrightarrow> d_logs d = d_logs d0 \<Longrightarrow> d_user_seq d = d_user_seq d0 \<Longrightarrow>
    d_node_seq d = d_node_seq d0 \<Longrightarrow> restored d0 d"
  by (simp add: restored_def)

lemma restored_fields: "restored d0 d \<Longrightarrow> d_users d = d_users d0 \<and> d_nodes d = d_nodes d0 \<and>
    d_inbounds d = d_inbounds d0 \<and> d_access d = d_access d0 \<and> d_logs d = d_logs d0 \<and>
    d_user_seq d = d_user_seq d0 \<and> d_node_seq d = d_node_seq d0"
  unfolding restored_def by (cases d; cases d0) simp

text \<open>The rollback undoes what the loop did, and the change of the domain.\<close>

lemma undo_restores:
  assumes t: "touched d0 k st d1" and s: "settings_stored d0"
    and node: "sel_row n_id k (d_nodes d0) = Some node" "distinct (map n_id (d_nodes d0))"
    and d: "d = d1 \<or> domain \<noteq> n_domain node \<and> d = set_domain k x d1"
  shows "restored d0 (undo_db node domain st d)"
proof -
  let ?undo = "\<lambda>d. fold put_back (sx_updated st) (fold drop_inbound (sx_created st) d)"
  have id: "n_id node = k" and in0: "node \<in> set (d_nodes d0)" using sel_row_SomeD [OF node(1)] by auto
  have one: "n = node" if "n \<in> set (d_nodes d0)" "n_id n = k" for n
    using that node(2) in0 id by (auto simp: distinct_map dest: inj_onD)
  note r = restored_fields [OF undo_rows [OF t s]]
  have nodes: "d_nodes (set_domain k (n_domain node) (?undo d)) = d_nodes d0"
    and same: "d = d1 \<Longrightarrow> restored d0 (?undo d)"
    and rows: "d_inbounds (?undo d) = d_inbounds d0"
  proof -
    have t0: "d_nodes d1 = d_nodes d0" using t by (simp add: touched_def)
    have keep: "n_domain_update (\<lambda>_. n_domain node) n = n" if "n \<in> set (d_nodes d0)" "n_id n = k" for n
      using one [OF that] by simp
    show "d_nodes (set_domain k (n_domain node) (?undo d)) = d_nodes d0"
      using d keep by (auto simp: set_domain_def upd_row_def fold_drop fold_put_back t0 map_idI)
    show "d = d1 \<Longrightarrow> restored d0 (?undo d)" using undo_rows [OF t s] by simp
    show "d_inbounds (?undo d) = d_inbounds d0"
      using d r by (auto simp: set_domain_def fold_drop fold_put_back)
  qed
  show ?thesis
  proof (cases "domain = n_domain node")
    case True
    then show ?thesis using d same by (auto simp: undo_db_def)
  next
    case False
    then have "undo_db node domain st d = set_domain k (n_domain node) (?undo d)"
      by (simp add: undo_db_def id)
    moreover have "restored d0 (set_domain k (n_domain node) (?undo d))"
      by (rule restoredI)
        (use d r nodes rows t in \<open>auto simp: set_domain_def fold_drop fold_put_back touched_def\<close>)
    ultimately show ?thesis by simp
  qed
qed

section \<open>The handler\<close>

text \<open>
  What each answer of auto-setup promises of the node with id \<open>k\<close>. With an error of a
  protocol the promise needs the statements to succeed: a row that is stored and then not
  read back is not noted for the rollback.
\<close>

definition setup_promise :: "int \<Rightarrow> world \<Rightarrow> response \<Rightarrow> world \<Rightarrow> bool" where
  "setup_promise k w rp w' \<longleftrightarrow>
     (200 \<le> rp_status rp \<and> rp_status rp < 300 \<longrightarrow> (\<forall>i. in_sync w' i) \<and> only_node k (w_db w) (w_db w') \<and>
        (\<exists>results pushes name assessment tuning. rp_payload rp = PSetup results pushes name assessment tuning \<and>
           (\<forall>s \<in> set results. provided k (si_protocol s) (w_db w')))) \<and>
     (rp_status rp \<in> {400, 404, 409} \<longrightarrow> (\<forall>i. in_sync w i \<longrightarrow> in_sync w' i) \<and> w_db w' = w_db w) \<and>
     (rp_status rp = 422 \<and> no_faults w \<longrightarrow>
        (\<forall>i. in_sync w i \<longrightarrow> in_sync w' i) \<and> restored (w_db w) (w_db w')) \<and>
     (rolled_back ''push failed; changes rolled back: '' rp \<longrightarrow>
        (\<forall>i. in_sync w' i) \<and> restored (w_db w) (w_db w'))"

lemma setup_promise_500 [simp]: "setup_promise k w \<lparr>rp_status = 500, rp_payload = p\<rparr> w'"
  by (simp add: setup_promise_def rolled_back_def)

lemma setup_promise_502: "setup_promise k w
    \<lparr>rp_status = 502, rp_payload = PError (''changes rolled back, but restoring the previous node config failed: '' @ e)\<rparr> w'"
  by (simp add: setup_promise_def rolled_back_def)

lemma restored_refl [simp]: "restored d d"
  by (simp add: restored_def)

lemma setup_promise_refused:
  assumes "w_db w' = w_db w" "calm w w'" "paths_ok (w_db w)" "st \<in> {400, 404, 409, 422}"
  shows "setup_promise k w \<lparr>rp_status = st, rp_payload = p\<rparr> w'"
  using assms in_sync_calm [OF _ assms(2,1,3)] by (auto simp: setup_promise_def rolled_back_def)

lemma in_sync_restored: "in_sync w i \<Longrightarrow> calm w w' \<Longrightarrow> restored (w_db w) (w_db w') \<Longrightarrow> paths_ok (w_db w) \<Longrightarrow> in_sync w' i"
proof -
  assume a: "in_sync w i" "calm w w'" "restored (w_db w) (w_db w')" "paths_ok (w_db w)"
  note r = restored_fields [OF a(3)]
  have "in_sync (w\<lparr>w_db := w_db w'\<rparr>) i"
    by (rule in_sync_same_for [OF a(1)]) (use r in \<open>auto simp: same_for_def inbounds_of_def intro: list_all2_refl\<close>)
  moreover have "calm (w\<lparr>w_db := w_db w'\<rparr>) w'" using a(2) by (simp add: calm_def)
  moreover have "paths_ok (w_db w')" using a(4) r by (simp add: paths_ok_def)
  ultimately show ?thesis using in_sync_calm [of "w\<lparr>w_db := w_db w'\<rparr>" i w'] by simp
qed

text \<open>Where auto-setup of node \<open>k\<close> starts: a healthy database, the other nodes up to date.\<close>

definition panel_ok :: "db \<Rightarrow> bool" where
  "panel_ok d \<longleftrightarrow> db_ok d \<and> fleet_ok d \<and> paths_ok d \<and> settings_stored d"

definition setup_start :: "int \<Rightarrow> world \<Rightarrow> bool" where
  "setup_start k w \<longleftrightarrow> panel_ok (w_db w) \<and> (\<forall>i. i \<noteq> k \<longrightarrow> in_sync w i)"

lemma wp_push_setup:
  assumes s: "setup_start k w0" and node: "sel_row n_id k (d_nodes (w_db w0)) = Some node"
    and t: "touched (w_db w0) k st d1" and d: "d = d1 \<or> domain \<noteq> n_domain node \<and> d = set_domain k domain d1"
    and w: "w_db w = d" "calm w0 w" and all: "\<And>s. s \<in> set (sx_results st) \<Longrightarrow> provided k (si_protocol s) d"
  shows "wp (push_setup node domain assessment st) (setup_promise k w0) w"
proof -
  have id: "n_id node = k" using sel_row_SomeD [OF node] by simp
  have nodes: "distinct (map n_id (d_nodes (w_db w0)))" using s by (simp add: setup_start_def panel_ok_def fleet_ok_def)
  have start: "paths_ok (w_db w0)" "fleet_ok (w_db w0)" "settings_stored (w_db w0)" "i \<noteq> k \<Longrightarrow> in_sync w0 i" for i
    using s by (simp_all add: setup_start_def panel_ok_def)
  have here: "only_node k (w_db w0) d"
    using d only_node_domain [OF touched_only_node [OF t]] touched_only_node [OF t] by auto
  have undone: "restored (w_db w0) (undo_db node domain st d)"
    by (rule undo_restores [OF t start(3) node nodes d])
  have push: "syncNodes (Some SyncNodes) [k] = SyncNodes [k]" by (simp add: syncNodes_def)
  show ?thesis
    unfolding push_setup_def id push [symmetric]
  proof (rule node_synchronizer.wp_sync_or_undo [OF cfg.node_synchronizer_axioms, where U = "restored (w_db w0)"], goal_cases)
    case 1
    show ?case using only_node_fleet [OF here start(2)] w(1) by simp
  next
    case (2 i)
    have "in_sync (w0\<lparr>w_db := d\<rparr>) i"
      by (rule in_sync_same_for [OF start(4)]) (use only_node_same_for [OF here] 2 in auto)
    moreover have "calm (w0\<lparr>w_db := d\<rparr>) w" using w(2) by (simp add: calm_def)
    ultimately show ?case
      using in_sync_calm [of "w0\<lparr>w_db := d\<rparr>" i w] only_node_paths [OF here start(1)] w(1) by simp
  next
    case (3 rs w2)
    have paths: "paths_ok (w_db w2)" using only_node_paths [OF here start(1)] 3(1) w(1) by simp
    show ?case
      unfolding wp_bind
      by (rule wp_mono [OF quiet_in_sync [OF quiet_tuning paths]])
        (use 3 w(1) here all in \<open>auto simp: wp_step setup_promise_def rolled_back_def\<close>)
  next
    case (4 w2)
    have "fleet_ok (undo_db node domain st d)"
      by (rule only_node_fleet [OF restored_only_node [OF undone] start(2)])
    moreover have "same_for i d (undo_db node domain st d)" if "i \<noteq> k" for i
      by (rule same_for_trans [OF same_for_sym [OF only_node_same_for [OF here that]]
            only_node_same_for [OF restored_only_node [OF undone] that]])
    ultimately show ?case
      using 4 w(1) undone by (intro wp_mono [OF rollback_post]) auto
  next
    case (5 e w4)
    show ?case by (rule setup_promise_502)
  next
    case (6 e w4)
    then show ?case by (simp add: setup_promise_def)
  qed
qed

lemma wp_complete_setup:
  assumes s: "setup_start k w0" and node: "sel_row n_id k (d_nodes (w_db w0)) = Some node"
    and inv: "setup_inv w0 k st w" and all: "\<And>s. \<not> sx_error st \<Longrightarrow> s \<in> set (sx_results st) \<Longrightarrow> provided k (si_protocol s) (w_db w)"
  shows "wp (complete_setup node domain assessment st) (setup_promise k w0) w"
proof -
  have id: "n_id node = k" using sel_row_SomeD [OF node] by simp
  have nodes: "distinct (map n_id (d_nodes (w_db w0)))" using s by (simp add: setup_start_def panel_ok_def fleet_ok_def)
  have start: "paths_ok (w_db w0)" "settings_stored (w_db w0)"
    using s by (simp_all add: setup_start_def panel_ok_def)
  have calm: "calm w0 w" using inv by (simp add: setup_inv_def)
  show ?thesis
  proof (cases "sx_error st")
    case True
    have undone: "no_faults w0 \<Longrightarrow> restored (w_db w0) (undo_db node domain st (w_db w))"
      using inv by (intro undo_restores [OF _ start(2) node nodes]) (auto simp: setup_inv_def)
    show ?thesis
      unfolding complete_setup_def if_P [OF True]
    proof (rule wp_attemptI [OF rollback_post], goal_cases)
      case (2 a w')
      then have w': "becomes w (undo_db node domain st (w_db w)) w'" by simp
      have "(\<forall>i. in_sync w0 i \<longrightarrow> in_sync w' i) \<and> restored (w_db w0) (w_db w')" if "no_faults w0"
        using undone [OF that] w' in_sync_restored [OF _ calm_trans [OF calm calm_becomes [OF w']]] start(1)
        by (simp add: becomes_def)
      then show ?case by (simp add: wp_step setup_promise_def rolled_back_def)
    qed (simp add: wp_step)
  next
    case False
    then have t: "touched (w_db w0) k st (w_db w)" using inv by (simp add: setup_inv_def)
    show ?thesis
    proof (cases "domain = n_domain node")
      case True
      then show ?thesis
        using wp_push_setup [OF s node t _ refl calm all] False by (simp add: complete_setup_def)
    next
      case domain: False
      have provided_domain: "provided k p (set_domain k domain (w_db w)) = provided k p (w_db w)" for p
        by (simp add: provided_def set_domain_def)
      show ?thesis
        unfolding complete_setup_def if_not_P [OF False] if_not_P [OF domain] id
      proof (rule wp_attemptI [OF domain_post], goal_cases)
        case (1 e w')
        show ?case by (rule wp_attemptI [where R = "\<lambda>_ _. True", OF wp_runI]) (simp_all add: wp_step)
      next
        case (2 a w')
        then have w': "becomes w (set_domain k domain (w_db w)) w'" by simp
        show ?case
          by (rule wp_push_setup [OF s node t]) (use w' domain all False calm_trans [OF calm calm_becomes [OF w']] in
            \<open>auto simp: becomes_def provided_domain\<close>)
      qed
    qed
  qed
qed

lemma wp_quiet_attempt:
  assumes "quiet m" "\<And>e w'. w_db w' = w_db w \<Longrightarrow> calm w w' \<Longrightarrow> wp (h e) Q w'"
    "\<And>a w'. w_db w' = w_db w \<Longrightarrow> calm w w' \<Longrightarrow> wp (k a) Q w'"
  shows "wp (attempt m h k) Q w"
  by (rule wp_attemptI [OF quietD [OF assms(1)]]) (use assms(2,3) in auto)

lemma wp_run_setup:
  assumes s: "setup_start k w0" and node: "sel_row n_id k (d_nodes (w_db w0)) = Some node"
    and w: "w_db w = w_db w0" "calm w0 w"
  shows "wp (run_setup node req domain protocols assessment) (setup_promise k w0) w"
  unfolding run_setup_def wp_bind [of next_remote]
proof (rule wp_mono [OF quietD [OF quiet_ticks(1)]])
  have id: "n_id node = k" using sel_row_SomeD [OF node] by simp
  have start: "inbounds_ok (w_db w0)" "paths_ok (w_db w0)"
    using s by (simp_all add: setup_start_def panel_ok_def db_ok_def)
  fix rs w1 assume "w_db w1 = w_db w \<and> calm w w1"
  then have w1: "w_db w1 = w_db w0" "calm w0 w1" using w by (auto intro: calm_trans)
  let ?st = "\<lparr>sx_results = [], sx_error = False, sx_created = [], sx_updated = [], sx_tcp = [], sx_udp = []\<rparr>"
  show "wp (attempt (sshConnect rs node) (\<lambda>e. writeError 500 (''ssh connect failed: '' @ err_text e)) (\<lambda>_.
     attempt (NodeStore_ListInbounds (n_id node)) (\<lambda>e. writeError 500 (err_text e)) (\<lambda>inbounds.
       if domain \<noteq> n_domain node \<and> list_ex (\<lambda>b. domain_bound b \<and> ib_protocol b \<notin> set protocols) inbounds
       then writeError 409 ''domain migration must include every existing domain-bound protocol''
       else do {
         st \<leftarrow> setup_protocols node req domain inbounds protocols ?st;
         complete_setup node domain assessment st }))) (setup_promise k w0) w1"
  proof (rule wp_quiet_attempt [OF quiet_sshConnect], goal_cases)
    case (2 a w2)
    show ?case
      unfolding id
    proof (rule wp_attemptI [OF inbounds_post], goal_cases)
      case (2 inbounds w3)
      then have ibs: "inbounds = inbounds_of k (w_db w0)" and w3: "w_db w3 = w_db w0" "calm w0 w3"
        using \<open>w_db w2 = w_db w1\<close> \<open>calm w1 w2\<close> w1
        by (auto simp: becomes_def calm_def)
      have inv: "setup_inv w0 k ?st w3"
        using w3 touched_start [OF start(1)] by (simp add: setup_inv_def)
      show ?case
      proof (rule if_cases)
        show "wp (writeError 409 ''domain migration must include every existing domain-bound protocol'')
            (setup_promise k w0) w3"
          using setup_promise_refused [OF w3 start(2)] by (simp add: wp_step)
        show "wp (do { st \<leftarrow> setup_protocols node req domain inbounds protocols ?st;
            complete_setup node domain assessment st }) (setup_promise k w0) w3"
          unfolding wp_bind
        proof (rule wp_mono [OF wp_setup_protocols [OF id ibs inv]])
          fix st w4 assume l: "setup_loop w0 k protocols ?st w3 st w4"
          then have "set (map si_protocol (sx_results st)) = set protocols" by (simp add: setup_loop_def)
          then have "provided k (si_protocol s) (w_db w4)" if "\<not> sx_error st" "s \<in> set (sx_results st)" for s
            using l that by (auto simp: setup_loop_def)
          then show "wp (complete_setup node domain assessment st) (setup_promise k w0) w4"
            using l by (intro wp_complete_setup [OF s node]) (auto simp: setup_loop_def)
        qed
      qed
    qed (simp add: wp_step)
  qed (simp add: wp_step)
qed

lemma wp_HandleAutoSetup:
  assumes s: "setup_start (parseNodeIDFromConfigPath (r_path r)) w"
  shows "wp (HandleAutoSetup r) (setup_promise (parseNodeIDFromConfigPath (r_path r)) w) w"
proof -
  let ?k = "parseNodeIDFromConfigPath (r_path r)"
  have start: "paths_ok (w_db w)" using s by (simp add: setup_start_def panel_ok_def)
  have refused: "setup_promise ?k w \<lparr>rp_status = st, rp_payload = p\<rparr> w'"
    if "w_db w' = w_db w" "calm w w'" "st = 400 \<or> st = 404 \<or> st = 409 \<or> st = 422" for st p w'
    using setup_promise_refused [OF that(1,2) start] that(3) by auto
  show ?thesis
  proof (cases "r_method r = ''POST''")
    case False
    then show ?thesis by (simp add: HandleAutoSetup_def wp_step refused)
  next
    case True
    then have post: "\<not> r_method r \<noteq> ''POST''" by simp
    show ?thesis
      unfolding HandleAutoSetup_def if_not_P [OF post]
    proof (rule wp_attemptI [OF node_post], goal_cases)
      case (1 e w')
      then show ?case by (simp add: wp_step refused becomes_def calm_def)
    next
      case (2 node w')
      then have node: "sel_row n_id ?k (d_nodes (w_db w)) = Some node" and w': "w_db w' = w_db w" "calm w w'"
        by (auto simp: becomes_def calm_def)
      have err: "wp (writeError 400 msg) (setup_promise ?k w) w'" for msg
        using refused [OF w'] by (simp add: wp_step)
      show ?case
      proof (rule if_cases [OF err], cases "as_auto_setup (r_body r)", goal_cases)
        case 1
        then show ?case by (simp add: err)
      next
        case (2 req)
        show ?case
          unfolding 2(2) option.case Let_def
        proof (intro if_cases err, unfold wp_bind, rule wp_mono [OF quietD [OF quiet_ticks(4)]], goal_cases)
          case (1 lookup w2)
          then have w2: "w_db w2 = w_db w" "calm w w2" using w' by (auto intro: calm_trans)
          have no: "wp (writeError 400 msg) (setup_promise ?k w) w2" for msg
            using refused [OF w2] by (simp add: wp_step)
          show ?case
            by (auto split: prod.splits option.splits simp: no wp_writeJSON refused w2 wp_run_setup [OF s node w2])
        qed
      qed
    qed
  qed
qed

end
