(* ===== verification/SetupKeeps.thy ===== *)
theory SetupKeeps
  imports Preservation SetupSync
begin

text \<open>
  What the operations on a node keep of the database, whatever they answer: the remote work
  changes no row, and the changes of auto-setup, of a switched Reality target and of a stored
  password keep it well-formed.
\<close>

section \<open>Remote work\<close>

lemma keeps_quiet: "quiet m \<Longrightarrow> keeps I m"
  unfolding keeps_def by (auto intro: wp_mono [OF quietD])

lemmas keeps_remote_work [kept] = quiet_sshConnect [THEN keeps_quiet] quiet_reads [THEN keeps_quiet]
  quiet_ticks [THEN keeps_quiet] quiet_sshRun [THEN keeps_quiet]
  quiet_ports [THEN keeps_quiet] quiet_certs [THEN keeps_quiet] quiet_tuning [THEN keeps_quiet]
  quiet_choice [THEN keeps_quiet] quiet_plans [THEN keeps_quiet]
  quiet_HandleCertRenew [THEN keeps_quiet] quiet_HandleCertUpload [THEN keeps_quiet]
  quiet_HandleRealityTargets [THEN keeps_quiet] quiet_HandleSetupAssessment [THEN keeps_quiet]

section \<open>Changes of auto-setup\<close>

text \<open>A property of the database that the changes of auto-setup on node \<open>k\<close> keep.\<close>

definition setup_closed :: "int \<Rightarrow> (db \<Rightarrow> bool) \<Rightarrow> bool" where
  "setup_closed k I \<longleftrightarrow> (\<forall>d. I d \<longrightarrow> (\<forall>i req. I (set_inbound i req d)) \<and>
     (\<forall>req. I (add_inbound (new_inbound k req d) d)) \<and> (\<forall>i. I (drop_inbound i d)) \<and> (\<forall>x. I (set_domain k x d)))"

lemma closed_conj: "setup_closed k I \<Longrightarrow> setup_closed k J \<Longrightarrow> setup_closed k (\<lambda>d. I d \<and> J d)"
  by (simp add: setup_closed_def)

lemma closed_update: "setup_closed k I \<Longrightarrow> keeps I (NodeStore_UpdateInbound i req)"
  by (rule keepsI, rule wp_mono [OF update_inbound_post]) (auto simp: becomes_db setup_closed_def)

lemma closed_create: "setup_closed k I \<Longrightarrow> keeps I (NodeStore_CreateInbound k req)"
  by (rule keepsI, rule wp_mono [OF create_inbound_post]) (auto simp: becomes_db setup_closed_def)

lemma closed_delete: "setup_closed k I \<Longrightarrow> keeps I (NodeStore_DeleteInbound i)"
  unfolding NodeStore_DeleteInbound_def
  by (intro kept keeps_exec) (auto simp: setup_closed_def simp flip: drop_inbound_def)

lemma closed_domain: "setup_closed k I \<Longrightarrow> keeps I (NodeStore_Update k (domain_update x))"
  unfolding NodeStore_Update_def domain_update_def update_node_req.simps when_given_def option.case count_nodes_def
  by (intro kept keeps_tx db_only_rules keeps_exec)
    (auto simp: setup_closed_def set_node_def simp flip: set_domain_def)

lemmas closed_stores = closed_update closed_create closed_delete closed_domain

lemma keeps_setup_protocols:
  assumes c: "setup_closed k I" and k: "n_id node = k"
  shows "keeps I (setup_protocols node req domain inbounds protos st)"
proof -
  have finish: "keeps I (finish_setup node proto existing plan st)" for proto existing plan st
  proof (cases plan)
    case (Store port settings d)
    show ?thesis
      unfolding finish_setup_def Store setup_plan.case store_setup_def k by (intro kept closed_stores [OF c])
  qed (simp add: finish_setup_def kept)
  have "keeps I (setup_protocol node req domain inbounds proto st)" for proto st
    unfolding setup_protocol_def by (intro kept finish)
  then show ?thesis by (induction protos arbitrary: st) (auto intro!: kept)
qed

lemma keeps_rollbackDatabase:
  assumes c: "setup_closed k I" and k: "n_id node = k"
  shows "keeps I (rollbackDatabase node domain st)"
  unfolding rollbackDatabase_def undo_created_def undo_updated_def undo_domain_def k
  by (intro kept closed_stores [OF c])

lemma keeps_run_setup:
  assumes c: "setup_closed k I" and k: "n_id node = k"
  shows "keeps I (run_setup node req domain protocols assessment)"
  unfolding run_setup_def complete_setup_def push_setup_def k
  by (intro kept closed_stores [OF c] keeps_setup_protocols [OF c k] keeps_rollbackDatabase [OF c k])

lemma keeps_HandleAutoSetup:
  assumes closed: "\<And>k. setup_closed k (\<lambda>d. I d \<and> k \<in> n_id ` set (d_nodes d))"
  shows "keeps I (HandleAutoSetup r)"
proof (rule keepsI)
  fix w :: world assume I: "I (w_db w)"
  let ?k = "parseNodeIDFromConfigPath (r_path r)"
  let ?J = "\<lambda>d. I d \<and> ?k \<in> n_id ` set (d_nodes d)"
  show "wp (HandleAutoSetup r) (\<lambda>r w'. I (w_db w')) w"
    unfolding HandleAutoSetup_def wp_if
  proof (intro conjI impI, simp add: wp_step I, rule wp_attemptI [OF node_post], goal_cases)
    case (1 e t)
    then show ?case using I by (simp add: wp_step becomes_def)
  next
    case (2 node t)
    then have id: "n_id node = ?k" and row: "node \<in> set (d_nodes (w_db t))" "I (w_db t)"
      using I by (auto simp: becomes_def dest!: sel_row_SomeD)
    have t: "?J (w_db t)" using row by (simp add: id [symmetric])
    show ?case
      by (rule wp_mono [OF keepsD [where I = ?J, OF _ t]])
        (intro kept keeps_run_setup [OF closed id], simp)
  qed
qed

section \<open>Switching a target, storing a password\<close>

lemma keeps_HandleRealityTarget: "(\<And>i req. keeps I (NodeStore_UpdateInbound i req)) \<Longrightarrow> keeps I (HandleRealityTarget r)"
  unfolding HandleRealityTarget_def loadNode_def switch_target_def store_target_def
  by (intro kept)

lemma keeps_install: "keeps I (NodeOpsHandler_install r)"
  unfolding NodeOpsHandler_install_def install_release_def ensure_unit_def resolve_version_def by (intro kept)

lemma keeps_setupSSH: "keeps db_ok (NodeOpsHandler_setupSSH key r)"
  unfolding NodeOpsHandler_setupSSH_def by (intro kept keeps_set_node) simp

lemma keeps_reports: "keeps I (NodeOpsHandler_getVersion r)" "keeps I (NodeOpsHandler_tune r)" "keeps I (NodeOpsHandler_getStatus r)"
  unfolding NodeOpsHandler_getVersion_def NodeOpsHandler_tune_def NodeOpsHandler_getStatus_def by (intro kept)+

section \<open>The well-formedness of the database\<close>

lemma db_ok_closed: "setup_closed k (\<lambda>d. db_ok d \<and> k \<in> n_id ` set (d_nodes d))"
proof -
  have "db_ok (set_inbound i req d)" if "db_ok d" for i req d
    unfolding set_inbound_def by (rule db_ok_map_inbounds [OF that]) (simp add: overwrite_def)
  moreover have "db_ok (add_inbound (new_inbound k req d) d)" if "db_ok d" "k \<in> n_id ` set (d_nodes d)" for req d
    by (rule db_ok_add_inbound) (use that in \<open>force simp: new_inbound_def db_ok_def inbounds_ok_def\<close>)+
  moreover have "db_ok (set_domain k x d)" if "db_ok d" for x d
    unfolding set_domain_def by (rule db_ok_upd_node [OF that]) simp
  moreover have "k \<in> n_id ` set (d_nodes (set_domain k x d))" if "k \<in> n_id ` set (d_nodes d)" for x d
    using that by (simp add: set_domain_def keys_upd_row_set)
  ultimately show ?thesis
    by (simp add: setup_closed_def db_ok_drop_inbound) (simp add: set_inbound_def add_inbound_def drop_inbound_def)
qed

lemma keeps_auto_setup [kept]: "keeps db_ok (HandleAutoSetup r)"
  by (rule keeps_HandleAutoSetup) (rule db_ok_closed)

lemma keeps_node_ops [kept]: "keeps db_ok (NodeOpsHandler_ServeHTTP key r)"
  unfolding NodeOpsHandler_ServeHTTP_def
  by (intro kept keeps_setupSSH keeps_install keeps_reports keeps_HandleRealityTarget)

lemma keeps_HandleReprovision:
  assumes "\<And>r. keeps I (HandleAutoSetup r)"
  shows "keeps I (HandleReprovision r)"
  unfolding HandleReprovision_def reprovisionNode_def setup_node_def NodeStore_ListEnabled_def
  by (intro kept keeps_install assms)

lemmas keeps_reprovision [kept] = keeps_HandleReprovision [OF keeps_auto_setup]

lemma keeps_process [kept]: "keeps I (serve_health r)" "keeps I (serve_version b r)" "keeps I (serve_ready r)"
  "keeps I (spaHandler a r)"
  unfolding serve_health_def serve_version_def serve_ready_def spaHandler_def by (intro kept)+

end
