(* ===== verification/StatsCodec.thy ===== *)
theory StatsCodec
  imports GoStrings "HOL-Library.Word"
begin

text \<open>
  \<open>handler/v2raystats.go\<close>: the messages of the node's statistics service. The functions of
  the package \<open>protowire\<close> are a parameter, with the laws the codec relies on as a locale.
  A slice of bytes is a \<open>string\<close>; a result is \<open>None\<close> where the code panics or never returns.
\<close>

section \<open>The library\<close>

record protowire =
  pw_bytes_type :: int
  pw_varint_type :: int
  pw_append_tag :: "string \<Rightarrow> int \<Rightarrow> int \<Rightarrow> string"
  pw_append_string :: "string \<Rightarrow> string \<Rightarrow> string"
  pw_append_varint :: "string \<Rightarrow> 64 word \<Rightarrow> string"
  pw_consume_tag :: "string \<Rightarrow> int \<times> int \<times> int"
  pw_consume_field :: "int \<Rightarrow> int \<Rightarrow> string \<Rightarrow> int"
  pw_consume_bytes :: "string \<Rightarrow> string \<times> int"
  pw_consume_string :: "string \<Rightarrow> string \<times> int"
  pw_consume_varint :: "string \<Rightarrow> 64 word \<times> int"
  pw_parse_error :: "int \<Rightarrow> string"

section \<open>The codec\<close>

record query_request =
  qr_pattern :: string
  qr_reset :: bool

record stat =
  st_name :: string
  st_value :: "64 word"

definition Marshal :: "protowire \<Rightarrow> query_request \<Rightarrow> string" where
  "Marshal pw req =
    (let b = (if qr_pattern req \<noteq> '''' then pw_append_string pw (pw_append_tag pw [] 1 (pw_bytes_type pw)) (qr_pattern req) else []) in
     if qr_reset req then pw_append_varint pw (pw_append_tag pw b 2 (pw_varint_type pw)) 1 else b)"

text \<open>\<open>data[n:]\<close>, which panics behind the end.\<close>

definition slice_from :: "int \<Rightarrow> string \<Rightarrow> string option" where
  "slice_from n data = (if 0 \<le> n \<and> n \<le> int (length data) then Some (drop (nat n) data) else None)"

partial_function (option) parse_stat :: "protowire \<Rightarrow> stat \<Rightarrow> string \<Rightarrow> (string + stat) option" where
  "parse_stat pw s data =
    (if data = [] then Some (Inr s)
     else let (num, wt, n) = pw_consume_tag pw data in
     if n < 0 then Some (Inl (pw_parse_error pw n))
     else Option.bind (slice_from n data) (\<lambda>data.
       if num = 1 \<and> wt = pw_bytes_type pw then
         (let (name, n) = pw_consume_string pw data in
          if n < 0 then Some (Inl (pw_parse_error pw n))
          else Option.bind (slice_from n data) (\<lambda>data. parse_stat pw (s\<lparr>st_name := name\<rparr>) data))
       else if num = 2 \<and> wt = pw_varint_type pw then
         (let (val, n) = pw_consume_varint pw data in
          if n < 0 then Some (Inl (pw_parse_error pw n))
          else Option.bind (slice_from n data) (\<lambda>data. parse_stat pw (s\<lparr>st_value := val\<rparr>) data))
       else
         (let n = pw_consume_field pw num wt data in
          if n < 0 then Some (Inl (pw_parse_error pw n))
          else Option.bind (slice_from n data) (\<lambda>data. parse_stat pw s data))))"

definition parseStat :: "protowire \<Rightarrow> string \<Rightarrow> (string + stat) option" where
  "parseStat pw data = parse_stat pw \<lparr>st_name = '''', st_value = 0\<rparr> data"

text \<open>\<open>resp.stats\<close> grows at its end; after an error the caller does not look at it.\<close>

partial_function (option) unmarshal_stats :: "protowire \<Rightarrow> stat list \<Rightarrow> string \<Rightarrow> (string + stat list) option" where
  "unmarshal_stats pw stats data =
    (if data = [] then Some (Inr stats)
     else let (num, wt, n) = pw_consume_tag pw data in
     if n < 0 then Some (Inl (pw_parse_error pw n))
     else Option.bind (slice_from n data) (\<lambda>data.
       if num \<noteq> 1 \<or> wt \<noteq> pw_bytes_type pw then
         (let n = pw_consume_field pw num wt data in
          if n < 0 then Some (Inl (pw_parse_error pw n))
          else Option.bind (slice_from n data) (\<lambda>data. unmarshal_stats pw stats data))
       else
         (let (msg, n) = pw_consume_bytes pw data in
          if n < 0 then Some (Inl (pw_parse_error pw n))
          else Option.bind (slice_from n data) (\<lambda>data.
            Option.bind (parseStat pw msg) (\<lambda>r. case r of
              Inl e \<Rightarrow> Some (Inl e)
            | Inr s \<Rightarrow> unmarshal_stats pw (stats @ [s]) data)))))"

definition Unmarshal :: "protowire \<Rightarrow> string \<Rightarrow> (string + stat list) option" where
  "Unmarshal pw data = unmarshal_stats pw [] data"

section \<open>The wire format\<close>

text \<open>
  What the documentation of the package promises: the append functions extend their
  argument; a consume function reads back what was appended and reports its length, a
  negative length for an error, never more than there is, and a tag has at least one byte.
\<close>

definition field_key :: "int \<Rightarrow> int \<Rightarrow> bool" where
  "field_key num wt \<longleftrightarrow> 1 \<le> num \<and> num < 2 ^ 29 \<and> 0 \<le> wt \<and> wt < 8"

definition fits :: "string \<Rightarrow> bool" where
  "fits s \<longleftrightarrow> length s < 2 ^ 63"

locale wire_format =
  fixes pw :: protowire
  assumes append_tag: "pw_append_tag pw b num wt = b @ pw_append_tag pw [] num wt"
    and append_string: "pw_append_string pw b s = b @ pw_append_string pw [] s"
    and append_varint: "pw_append_varint pw b v = b @ pw_append_varint pw [] v"
    and types: "field_key 1 (pw_bytes_type pw)" "field_key 2 (pw_varint_type pw)"
    and tag_back: "field_key num wt \<Longrightarrow> pw_consume_tag pw (pw_append_tag pw [] num wt @ rest)
      = (num, wt, int (length (pw_append_tag pw [] num wt)))"
    and string_back: "fits s \<Longrightarrow> pw_consume_string pw (pw_append_string pw [] s @ rest)
      = (s, int (length (pw_append_string pw [] s)))"
    and bytes_back: "fits s \<Longrightarrow> pw_consume_bytes pw (pw_append_string pw [] s @ rest)
      = (s, int (length (pw_append_string pw [] s)))"
    and varint_back: "pw_consume_varint pw (pw_append_varint pw [] v @ rest)
      = (v, int (length (pw_append_varint pw [] v)))"
    and tag_length: "pw_consume_tag pw data = (num, wt, n) \<Longrightarrow> 0 \<le> n \<Longrightarrow> 0 < n \<and> n \<le> int (length data)"
    and string_length: "snd (pw_consume_string pw data) \<le> int (length data)"
    and bytes_length: "snd (pw_consume_bytes pw data) \<le> int (length data)"
    and varint_length: "snd (pw_consume_varint pw data) \<le> int (length data)"
    and field_length: "pw_consume_field pw num wt data \<le> int (length data)"
begin

lemma slice_from_le: "0 \<le> n \<Longrightarrow> n \<le> int (length data) \<Longrightarrow> slice_from n data = Some (drop (nat n) data)"
  by (simp add: slice_from_def)

lemma slice_from_append [simp]: "slice_from (int (length a)) (a @ b) = Some b"
  by (simp add: slice_from_def)

text \<open>A step of a loop: what is left is shorter, or the step ends the loop.\<close>

lemma if_returns: "\<exists>r. a = Some r \<Longrightarrow> \<exists>r. b = Some r \<Longrightarrow> \<exists>r. (if c then a else b) = Some r"
  by simp

lemma slice_returns:
  assumes "n \<le> int (length data)" "\<And>rest. length rest \<le> length data \<Longrightarrow> \<exists>r. k rest = Some r"
  shows "\<exists>r. (if n < 0 then Some e else Option.bind (slice_from n data) k) = Some r"
  using assms by (auto simp: slice_from_le)

lemma tag_returns:
  assumes "\<And>num wt rest. length rest < length data \<Longrightarrow> \<exists>r. k num wt rest = Some r"
  shows "\<exists>r. (let (num, wt, n) = pw_consume_tag pw data in
      if n < 0 then Some (e n) else Option.bind (slice_from n data) (k num wt)) = Some r"
proof -
  obtain num wt n where tag: "pw_consume_tag pw data = (num, wt, n)" by (cases "pw_consume_tag pw data")
  show ?thesis
  proof (cases "n < 0")
    case False
    then have n: "0 < n \<and> n \<le> int (length data)" using tag_length [OF tag] by simp
    then have "length (drop (nat n) data) < length data" by auto
    with n show ?thesis using assms [of "drop (nat n) data" num wt] by (simp add: tag slice_from_le)
  qed (simp add: tag)
qed

lemma parse_stat_returns: "\<exists>r. parse_stat pw s data = Some r"
proof (induction data arbitrary: s rule: length_induct)
  case (1 data)
  show ?case
  proof (subst parse_stat.simps, cases "data = []", simp, simp only: if_False, rule tag_returns, goal_cases)
    case (1 num wt rest)
    have go: "\<exists>r. parse_stat pw s' left = Some r" if "length left \<le> length rest" for s' left
      using "1.IH" 1(2) that by simp
    show ?case
      unfolding Let_def split_beta
      by (intro if_returns slice_returns go string_length varint_length field_length)
  qed
qed

lemma unmarshal_returns: "\<exists>r. unmarshal_stats pw stats data = Some r"
proof (induction data arbitrary: stats rule: length_induct)
  case (1 data)
  show ?case
  proof (subst unmarshal_stats.simps, cases "data = []", simp, simp only: if_False, rule tag_returns, goal_cases)
    case (1 num wt rest)
    have go: "\<exists>r. unmarshal_stats pw stats' left = Some r" if "length left \<le> length rest" for stats' left
      using "1.IH" 1(2) that by simp
    have entry: "\<exists>r. Option.bind (parseStat pw msg) (\<lambda>r. case r of Inl e \<Rightarrow> Some (Inl e)
        | Inr s \<Rightarrow> unmarshal_stats pw (stats @ [s]) left) = Some r"
      if "length left \<le> length rest" for msg left
    proof -
      obtain r where "parseStat pw msg = Some r" using parse_stat_returns by (auto simp: parseStat_def)
      then show ?thesis using go [OF that] by (cases r) auto
    qed
    show ?case
      unfolding Let_def split_beta
      by (intro if_returns slice_returns go entry bytes_length field_length)
  qed
qed

end

section \<open>What a node sends\<close>

text \<open>The fields of a message in any order and number, known ones and others.\<close>

datatype stat_field = FName string | FValue "64 word" | FOther int int string

datatype stats_entry = EStat "stat_field list" | EOther int int string

definition encode_other :: "protowire \<Rightarrow> int \<Rightarrow> int \<Rightarrow> string \<Rightarrow> string" where
  "encode_other pw num wt v = pw_append_tag pw [] num wt @ v"

fun encode_field :: "protowire \<Rightarrow> stat_field \<Rightarrow> string" where
  "encode_field pw (FName s) = pw_append_string pw (pw_append_tag pw [] 1 (pw_bytes_type pw)) s"
| "encode_field pw (FValue v) = pw_append_varint pw (pw_append_tag pw [] 2 (pw_varint_type pw)) v"
| "encode_field pw (FOther num wt v) = encode_other pw num wt v"

definition encode_stat :: "protowire \<Rightarrow> stat_field list \<Rightarrow> string" where
  "encode_stat pw fs = concat (map (encode_field pw) fs)"

fun encode_entry :: "protowire \<Rightarrow> stats_entry \<Rightarrow> string" where
  "encode_entry pw (EStat fs) = pw_append_string pw (pw_append_tag pw [] 1 (pw_bytes_type pw)) (encode_stat pw fs)"
| "encode_entry pw (EOther num wt v) = encode_other pw num wt v"

text \<open>A field whose value the library can skip.\<close>

definition skippable :: "protowire \<Rightarrow> int \<Rightarrow> int \<Rightarrow> string \<Rightarrow> bool" where
  "skippable pw num wt v \<longleftrightarrow> field_key num wt \<and> (\<forall>rest. pw_consume_field pw num wt (v @ rest) = int (length v))"

fun field_ok :: "protowire \<Rightarrow> stat_field \<Rightarrow> bool" where
  "field_ok pw (FName s) = fits s"
| "field_ok pw (FValue v) = True"
| "field_ok pw (FOther num wt v) = (skippable pw num wt v \<and> \<not> (num = 1 \<and> wt = pw_bytes_type pw)
     \<and> \<not> (num = 2 \<and> wt = pw_varint_type pw))"

fun entry_ok :: "protowire \<Rightarrow> stats_entry \<Rightarrow> bool" where
  "entry_ok pw (EStat fs) = (list_all (field_ok pw) fs \<and> fits (encode_stat pw fs))"
| "entry_ok pw (EOther num wt v) = (skippable pw num wt v \<and> \<not> (num = 1 \<and> wt = pw_bytes_type pw))"

text \<open>What the fields mean: the last name and the last value, others are ignored.\<close>

fun apply_field :: "stat \<Rightarrow> stat_field \<Rightarrow> stat" where
  "apply_field s (FName name) = s\<lparr>st_name := name\<rparr>"
| "apply_field s (FValue v) = s\<lparr>st_value := v\<rparr>"
| "apply_field s (FOther num wt v) = s"

definition stat_of :: "stat_field list \<Rightarrow> stat" where
  "stat_of fs = foldl apply_field \<lparr>st_name = '''', st_value = 0\<rparr> fs"

definition stats_of :: "stats_entry list \<Rightarrow> stat list" where
  "stats_of es = List.map_filter (\<lambda>e. case e of EStat fs \<Rightarrow> Some (stat_of fs) | EOther _ _ _ \<Rightarrow> None) es"

context wire_format
begin

lemma tag_nonempty: "field_key num wt \<Longrightarrow> pw_append_tag pw [] num wt \<noteq> []"
  using tag_length [OF tag_back] by force

text \<open>Both loops after the tag of a field.\<close>

lemma parse_tag: "field_key num wt \<Longrightarrow> parse_stat pw s (pw_append_tag pw [] num wt @ data) =
    (if num = 1 \<and> wt = pw_bytes_type pw then
       (let (name, n) = pw_consume_string pw data in
        if n < 0 then Some (Inl (pw_parse_error pw n))
        else Option.bind (slice_from n data) (\<lambda>data. parse_stat pw (s\<lparr>st_name := name\<rparr>) data))
     else if num = 2 \<and> wt = pw_varint_type pw then
       (let (val, n) = pw_consume_varint pw data in
        if n < 0 then Some (Inl (pw_parse_error pw n))
        else Option.bind (slice_from n data) (\<lambda>data. parse_stat pw (s\<lparr>st_value := val\<rparr>) data))
     else
       (let n = pw_consume_field pw num wt data in
        if n < 0 then Some (Inl (pw_parse_error pw n))
        else Option.bind (slice_from n data) (\<lambda>data. parse_stat pw s data)))"
  by (subst parse_stat.simps) (simp add: tag_nonempty tag_back)

lemma unmarshal_tag: "field_key num wt \<Longrightarrow> unmarshal_stats pw stats (pw_append_tag pw [] num wt @ data) =
    (if num \<noteq> 1 \<or> wt \<noteq> pw_bytes_type pw then
       (let n = pw_consume_field pw num wt data in
        if n < 0 then Some (Inl (pw_parse_error pw n))
        else Option.bind (slice_from n data) (\<lambda>data. unmarshal_stats pw stats data))
     else
       (let (msg, n) = pw_consume_bytes pw data in
        if n < 0 then Some (Inl (pw_parse_error pw n))
        else Option.bind (slice_from n data) (\<lambda>data.
          Option.bind (parseStat pw msg) (\<lambda>r. case r of
            Inl e \<Rightarrow> Some (Inl e)
          | Inr s \<Rightarrow> unmarshal_stats pw (stats @ [s]) data))))"
  by (subst unmarshal_stats.simps) (simp add: tag_nonempty tag_back)

lemma parse_field:
  assumes "field_ok pw f"
  shows "parse_stat pw s (encode_field pw f @ rest) = parse_stat pw (apply_field s f) rest"
proof (cases f)
  case (FName name)
  then show ?thesis
    using assms by (simp add: append_string [of "pw_append_tag pw [] 1 _"] parse_tag types string_back)
next
  case (FValue v)
  then show ?thesis
    by (simp add: append_varint [of "pw_append_tag pw [] 2 _"] parse_tag types varint_back)
next
  case (FOther num wt v)
  then have key: "field_key num wt" and skip: "pw_consume_field pw num wt (v @ rest) = int (length v)"
    using assms by (simp_all add: skippable_def)
  from assms FOther show ?thesis by (auto simp: encode_other_def parse_tag [OF key] skip)
qed

lemma parse_fields: "list_all (field_ok pw) fs \<Longrightarrow>
    parse_stat pw s (encode_stat pw fs) = Some (Inr (foldl apply_field s fs))"
proof (induction fs arbitrary: s)
  case Nil
  show ?case by (subst parse_stat.simps) (simp add: encode_stat_def)
next
  case (Cons f fs)
  then show ?case using parse_field [of f s "encode_stat pw fs"] by (simp add: encode_stat_def)
qed

lemma unmarshal_entries: "list_all (entry_ok pw) es \<Longrightarrow>
    unmarshal_stats pw stats (concat (map (encode_entry pw) es)) = Some (Inr (stats @ stats_of es))"
proof (induction es arbitrary: stats)
  case Nil
  show ?case by (subst unmarshal_stats.simps) (simp add: stats_of_def List.map_filter_def)
next
  case (Cons e es)
  let ?rest = "concat (map (encode_entry pw) es)"
  show ?case
  proof (cases e)
    case (EStat fs)
    then have ok: "list_all (field_ok pw) fs" "fits (encode_stat pw fs)" using Cons.prems by simp_all
    have msg: "parseStat pw (encode_stat pw fs) = Some (Inr (stat_of fs))"
      unfolding parseStat_def stat_of_def by (rule parse_fields [OF ok(1)])
    have "unmarshal_stats pw stats (encode_entry pw e @ ?rest) = unmarshal_stats pw (stats @ [stat_of fs]) ?rest"
      by (simp add: EStat append_string [of "pw_append_tag pw [] 1 _"] unmarshal_tag types bytes_back [OF ok(2)] msg)
    then show ?thesis using Cons by (simp add: EStat stats_of_def List.map_filter_def)
  next
    case (EOther num wt v)
    then have key: "field_key num wt" and skip: "pw_consume_field pw num wt (v @ ?rest) = int (length v)"
      and other: "num \<noteq> 1 \<or> wt \<noteq> pw_bytes_type pw"
      using Cons.prems by (auto simp add: skippable_def)
    have "unmarshal_stats pw stats (encode_entry pw e @ ?rest) = unmarshal_stats pw stats ?rest"
      using other by (simp add: EOther encode_other_def unmarshal_tag [OF key] skip)
    then show ?thesis using Cons by (simp add: EOther stats_of_def List.map_filter_def)
  qed
qed

end

end
