(* ===== verification/UserStats.thy ===== *)
theory UserStats
  imports StatsCodec "HOL-Library.AList"
begin

text \<open>
  The rest of \<open>handler/v2raystats.go\<close>: the query of the statistics service, whose names
  carry the user, and the sum of the counters per user.
\<close>

section \<open>Names\<close>

text \<open>\<open>strings.Split\<close> with a separator of several bytes.\<close>

fun split_from :: "string \<Rightarrow> string \<Rightarrow> string \<Rightarrow> string list" where
  "split_from sep cur [] = [cur]"
| "split_from sep cur (c # cs) =
    (if HasPrefix (c # cs) sep then cur # split_from sep [] (drop (length sep - 1) cs)
     else split_from sep (cur @ [c]) cs)"

definition Split :: "string \<Rightarrow> string \<Rightarrow> string list" where
  "Split s sep = split_from sep [] s"

definition statsUserPrefix :: string where
  "statsUserPrefix = ''user>>>''"

definition parseUserStatName :: "string \<Rightarrow> (string \<times> string) option" where
  "parseUserStatName name =
    (if \<not> HasPrefix name statsUserPrefix then None
     else case Split name ''>>>'' of
       [_, user, traffic, kind] \<Rightarrow> if traffic = ''traffic'' then Some (user, kind) else None
     | _ \<Rightarrow> None)"

section \<open>The query\<close>

definition statsServiceQueryStats :: string where
  "statsServiceQueryStats = ''/v2ray.core.app.stats.command.StatsService/QueryStats''"

definition statsListenAddr :: string where
  "statsListenAddr = ''127.0.0.1:10085''"

record user_traffic =
  ut_up :: "64 word"
  ut_down :: "64 word"

definition traffic_of :: "(string \<times> user_traffic) list \<Rightarrow> string \<Rightarrow> user_traffic" where
  "traffic_of result name = (case map_of result name of None \<Rightarrow> \<lparr>ut_up = 0, ut_down = 0\<rparr> | Some t \<Rightarrow> t)"

text \<open>The map of the result as a list, in the order of the first counter of each user.\<close>

definition count_stat :: "(string \<times> user_traffic) list \<Rightarrow> stat \<Rightarrow> (string \<times> user_traffic) list" where
  "count_stat result s = (case parseUserStatName (st_name s) of
     None \<Rightarrow> result
   | Some (name, kind) \<Rightarrow>
       let t = traffic_of result name;
           t = (if kind = ''uplink'' then t\<lparr>ut_up := ut_up t + st_value s\<rparr>
                else if kind = ''downlink'' then t\<lparr>ut_down := ut_down t + st_value s\<rparr> else t) in
       AList.update name t result)"

definition user_stats :: "stat list \<Rightarrow> (string \<times> user_traffic) list" where
  "user_stats stats = foldl count_stat [] stats"

text \<open>
  The transport carries the request to the service's address on the node and brings an error
  or the bytes of the answer.
\<close>

type_synonym transport = "string \<Rightarrow> string \<Rightarrow> string \<Rightarrow> string + string"

definition queryUserStats :: "protowire \<Rightarrow> transport \<Rightarrow> bool \<Rightarrow> (string + (string \<times> user_traffic) list) option" where
  "queryUserStats pw invoke reset =
    (case invoke statsListenAddr statsServiceQueryStats (Marshal pw \<lparr>qr_pattern = statsUserPrefix, qr_reset = reset\<rparr>) of
       Inl e \<Rightarrow> Some (Inl e)
     | Inr data \<Rightarrow> Option.bind (Unmarshal pw data) (\<lambda>r. Some (case r of
         Inl e \<Rightarrow> Inl e
       | Inr stats \<Rightarrow> Inr (user_stats stats))))"

section \<open>Reading names back\<close>

lemma split_from_none: "\<not> Contains s sep \<Longrightarrow> split_from sep cur s = [cur @ s]"
  by (induction s arbitrary: cur) auto

lemma split_from_nonempty [simp]: "split_from sep cur s \<noteq> []"
  by (induction sep cur s rule: split_from.induct) auto

text \<open>Whether a separator starts at a position depends on as many bytes as it has.\<close>

lemma prefix_cut: "sep \<noteq> [] \<Longrightarrow> HasPrefix (c # a @ sep @ b) sep = HasPrefix (c # a @ butlast sep) sep"
  by (cases sep rule: rev_cases) (simp_all add: HasPrefix_def)

text \<open>The first separator ends the first part.\<close>

lemma split_from_first: "\<not> Contains (a @ butlast sep) sep \<Longrightarrow> sep \<noteq> [] \<Longrightarrow>
    split_from sep cur (a @ sep @ b) = (cur @ a) # split_from sep [] b"
proof (induction a arbitrary: cur)
  case Nil
  obtain c cs where sep: "sep = c # cs" using Nil.prems(2) by (cases sep) auto
  show ?case by (simp add: sep HasPrefix_def)
next
  case (Cons c a)
  then show ?case using prefix_cut [of sep c a b] by simp
qed

lemma Contains_length: "Contains s p \<Longrightarrow> length p \<le> length s"
  by (induction s) (auto simp: HasPrefix_def dest: arg_cong [of _ _ length])

lemma Contains_append: "Contains s p \<Longrightarrow> Contains (s @ t) p" "Contains t p \<Longrightarrow> Contains (s @ t) p"
proof -
  show "Contains (s @ t) p" if "Contains s p"
    using that
  proof (induction s)
    case Nil
    then show ?case by (cases t) (simp_all add: HasPrefix_def)
  next
    case (Cons c s)
    have "HasPrefix (c # s @ t) p" if "HasPrefix (c # s) p"
      using that by (metis HasPrefix_def append_Cons append_assoc append_eq_conv_conj append_take_drop_id)
    with Cons show ?case by auto
  qed
  show "Contains (s @ t) p" if "Contains t p" using that by (induction s) auto
qed

lemma first_occurrence:
  assumes "Contains s sep" "sep \<noteq> []"
  obtains a b where "s = a @ sep @ b" "\<not> Contains (a @ butlast sep) sep"
  using assms
proof (induction s arbitrary: thesis)
  case (Cons c s)
  show ?case
  proof (cases "HasPrefix (c # s) sep")
    case True
    then have "c # s = [] @ sep @ drop (length sep) (c # s)"
      by (metis HasPrefix_def append_Nil append_take_drop_id)
    moreover have "\<not> Contains ([] @ butlast sep) sep"
      using Contains_length [of "butlast sep" sep] Cons.prems(3) by (cases sep rule: rev_cases) auto
    ultimately show ?thesis by (rule Cons.prems(1))
  next
    case False
    with Cons obtain a b where ab: "s = a @ sep @ b" "\<not> Contains (a @ butlast sep) sep" by auto
    then show ?thesis using False prefix_cut [OF Cons.prems(3), of c a b] Cons.prems(1) [of "c # a" b] by simp
  qed
qed simp

lemma split_parts: "sep \<noteq> [] \<Longrightarrow> p \<in> set (split_from sep [] s) \<Longrightarrow> \<not> Contains p sep"
proof (induction s rule: length_induct)
  case (1 s)
  show ?case
  proof (cases "Contains s sep")
    case True
    from first_occurrence [OF this 1(2)] obtain a b where s: "s = a @ sep @ b" "\<not> Contains (a @ butlast sep) sep" .
    then have "p = a \<or> p \<in> set (split_from sep [] b)" using 1(2,3) split_from_first [of a sep "[]" b] by simp
    then show ?thesis using 1 s Contains_append(1) by auto
  next
    case False
    then show ?thesis using 1(3) by (simp add: split_from_none)
  qed
qed

lemma join_split: "sep \<noteq> [] \<Longrightarrow> Join (split_from sep [] s) sep = s"
proof (induction s rule: length_induct)
  case (1 s)
  show ?case
  proof (cases "Contains s sep")
    case True
    from first_occurrence [OF this 1(2)] obtain a b where s: "s = a @ sep @ b" "\<not> Contains (a @ butlast sep) sep" .
    then have "Join (split_from sep [] b) sep = b" using 1 by simp
    then show ?thesis using s split_from_first [of a sep "[]" b] 1(2)
      by (cases "split_from sep [] b") simp_all
  qed (simp add: split_from_none)
qed

section \<open>Whose counter it is\<close>

text \<open>How the node names the counters of a user.\<close>

definition stat_name :: "string \<Rightarrow> string \<Rightarrow> string" where
  "stat_name user kind = ''user>>>'' @ user @ ''>>>traffic>>>'' @ kind"

definition splits_name :: "string \<Rightarrow> bool" where
  "splits_name user \<longleftrightarrow> Contains (user @ ''>>'') ''>>>''"

lemma split_stat_name: "Split (stat_name user kind) ''>>>'' = ''user'' # split_from ''>>>'' [] (user @ ''>>>traffic>>>'' @ kind)"
  using split_from_first [of "''user''" "''>>>''" "[]" "user @ ''>>>traffic>>>'' @ kind"]
  by (simp add: Split_def stat_name_def HasPrefix_def)

lemma counted: "\<not> splits_name user \<Longrightarrow> \<not> Contains kind ''>>>'' \<Longrightarrow> parseUserStatName (stat_name user kind) = Some (user, kind)"
  using split_from_first [of user "''>>>''" "[]" "''traffic>>>'' @ kind"]
    split_from_first [of "''traffic''" "''>>>''" "[]" kind]
  by (simp add: parseUserStatName_def split_stat_name splits_name_def split_from_none)
    (simp add: stat_name_def statsUserPrefix_def HasPrefix_def)

lemma tail_shift:
  assumes "m @ ''>>>traffic>>>'' = ''>>>traffic>>>'' @ x" "x \<noteq> []"
  shows "Contains x ''>>>''"
proof -
  obtain x1 c1 where x1: "x = x1 @ [c1]" using assms(2) by (cases x rule: rev_cases) auto
  show ?thesis
  proof (cases x1 rule: rev_cases)
    case Nil
    then show ?thesis using assms(1) arg_cong [OF assms(1), of rev] by (simp add: x1)
  next
    case (snoc x2 c2)
    show ?thesis
    proof (cases x2 rule: rev_cases)
      case Nil
      then show ?thesis using arg_cong [OF assms(1), of rev] by (simp add: x1 snoc)
    next
      case (snoc x3 c3)
      then have "x = x3 @ ''>>>''" using arg_cong [OF assms(1), of rev] by (auto simp: x1 \<open>x1 = x2 @ [c2]\<close>)
      then show ?thesis using Contains_append(2) [of "''>>>''" "''>>>''" x3] by (simp add: HasPrefix_def)
    qed
  qed
qed

lemma lost:
  assumes "splits_name user"
  shows "parseUserStatName (stat_name user kind) = None"
proof (rule ccontr)
  let ?tail = "''>>>traffic>>>''"
  assume "parseUserStatName (stat_name user kind) \<noteq> None"
  then obtain u k where parts: "split_from ''>>>'' [] (user @ ?tail @ kind) = [u, ''traffic'', k]"
    by (auto simp: parseUserStatName_def split_stat_name split: if_splits list.splits)
  have k: "\<not> Contains k ''>>>''"
    using split_parts [of "''>>>''" k "user @ ?tail @ kind"] unfolding parts by simp
  have eq: "user @ ?tail @ kind = u @ ?tail @ k"
    using join_split [of "''>>>''" "user @ ?tail @ kind"] unfolding parts by simp
  obtain a b where ab: "user @ ''>>'' = a @ ''>>>'' @ b" "\<not> Contains (a @ butlast ''>>>'') ''>>>''"
    by (rule first_occurrence [OF assms(1) [unfolded splits_name_def]]) simp
  have split: "user @ ?tail @ kind = a @ ''>>>'' @ b @ ''>traffic>>>'' @ kind"
    using arg_cong [OF ab(1), of "\<lambda>s. s @ ''>traffic>>>'' @ kind"] by simp
  have u: "u = a"
    using split_from_first [OF ab(2), of "[]" "b @ ''>traffic>>>'' @ kind"] unfolding split [symmetric] parts by simp
  have "length a < length user" using arg_cong [OF ab(1), of length] by simp
  then obtain m where m: "user = a @ m" "m \<noteq> []"
    using eq unfolding u by (auto simp: append_eq_append_conv2)
  have m_eq: "(m @ ?tail) @ kind = ?tail @ k" using eq unfolding u m(1) by simp
  then obtain x where x: "k = x @ kind" "m @ ?tail = ?tail @ x"
    by (auto simp only: append_eq_append_conv2 append_assoc) (use m(2) in \<open>auto dest: arg_cong [of _ _ length]\<close>)
  then have "x \<noteq> []" using m(2) arg_cong [OF x(2), of length] by auto
  then have "Contains x ''>>>''" using tail_shift [OF x(2)] by simp
  then show False using k Contains_append(1) unfolding x(1) by blast
qed

section \<open>Sums\<close>

definition counter_sum :: "stat list \<Rightarrow> string \<Rightarrow> string \<Rightarrow> 64 word" where
  "counter_sum stats name kind =
     sum_list (map st_value (filter (\<lambda>s. parseUserStatName (st_name s) = Some (name, kind)) stats))"

lemma traffic_of_update [simp]: "traffic_of (AList.update k t result) name = (if name = k then t else traffic_of result name)"
  by (simp add: traffic_of_def update_conv)

lemma counted_traffic:
  "ut_up (traffic_of (foldl count_stat result stats) name) = ut_up (traffic_of result name) + counter_sum stats name ''uplink''"
  "ut_down (traffic_of (foldl count_stat result stats) name) = ut_down (traffic_of result name) + counter_sum stats name ''downlink''"
  by (induction stats arbitrary: result)
    (auto simp: counter_sum_def count_stat_def Let_def split: option.splits prod.splits)

lemma user_stats_sums: "traffic_of (user_stats stats) name
    = \<lparr>ut_up = counter_sum stats name ''uplink'', ut_down = counter_sum stats name ''downlink''\<rparr>"
  using counted_traffic [of "[]" stats name] by (cases "traffic_of (user_stats stats) name") (simp add: user_stats_def traffic_of_def)

lemma distinct_user_stats: "distinct (map fst (user_stats stats))"
proof -
  have "distinct (map fst result) \<Longrightarrow> distinct (map fst (foldl count_stat result stats))" for result
    by (induction stats arbitrary: result)
      (auto simp: count_stat_def Let_def distinct_update split: option.splits prod.splits)
  then show ?thesis by (simp add: user_stats_def)
qed

end
