(* ===== verification/SSHPool.thy ===== *)
theory SSHPool
  imports NodeStore "HOL-Library.AList"
begin

text \<open>
  \<open>handler/sshpool.go\<close>: the pool of connections of the traffic poller. The operations are
  functions on the pool; \<open>get\<close> holds the lock only in parts, so its threads are also a step
  relation, in which they interleave with each other, with \<open>drop\<close> and with \<open>Close\<close>.
\<close>

section \<open>The pool\<close>

text \<open>A connection, numbered, with the target it was dialled for.\<close>

record client =
  cl_id :: nat
  cl_target :: string

record pool =
  pl_entries :: "(int \<times> client \<times> string) list"
  pl_closed :: "nat list"
  pl_next :: nat

definition newSSHPool :: pool where
  "newSSHPool = \<lparr>pl_entries = [], pl_closed = [], pl_next = 0\<rparr>"

definition pl_entry :: "pool \<Rightarrow> int \<Rightarrow> (client \<times> string) option" where
  "pl_entry p i = map_of (pl_entries p) i"

definition sshTarget :: "node \<Rightarrow> string" where
  "sshTarget node = n_ssh_user node @ ''@'' @ n_host node @ '':'' @ Itoa (n_port node)"

definition close_client :: "client \<Rightarrow> pool \<Rightarrow> pool" where
  "close_client c p = p\<lparr>pl_closed := cl_id c # pl_closed p\<rparr>"

definition pool_drop :: "int \<Rightarrow> pool \<Rightarrow> pool" where
  "pool_drop i p = (let q = p\<lparr>pl_entries := AList.delete i (pl_entries p)\<rparr> in
     case pl_entry p i of None \<Rightarrow> q | Some (c, target) \<Rightarrow> close_client c q)"

definition pool_Close :: "pool \<Rightarrow> pool" where
  "pool_Close p = p\<lparr>pl_entries := [],
     pl_closed := map (\<lambda>(i, c, target). cl_id c) (pl_entries p) @ pl_closed p\<rparr>"

definition pool_dial :: "node \<Rightarrow> pool \<Rightarrow> client \<times> pool" where
  "pool_dial node p = (\<lparr>cl_id = pl_next p, cl_target = sshTarget node\<rparr>, p\<lparr>pl_next := pl_next p + 1\<rparr>)"

text \<open>The second part under the lock: the first connection stays.\<close>

definition pool_store :: "node \<Rightarrow> client \<Rightarrow> pool \<Rightarrow> client \<times> pool" where
  "pool_store node c p = (case pl_entry p (n_id node) of
     Some (e, target) \<Rightarrow>
       if target = sshTarget node then (e, close_client c p)
       else (c, p\<lparr>pl_entries := AList.update (n_id node) (c, sshTarget node) (pl_entries p)\<rparr>)
   | None \<Rightarrow> (c, p\<lparr>pl_entries := AList.update (n_id node) (c, sshTarget node) (pl_entries p)\<rparr>))"

text \<open>
  \<open>get\<close> on its own, with what the environment answers: whether a connection is alive, and the
  outcome of the dial, an error, no error and no client, or a client.
\<close>

definition pool_redial :: "string + bool \<Rightarrow> node \<Rightarrow> pool \<Rightarrow> (string + client) \<times> pool" where
  "pool_redial outcome node p = (case outcome of
     Inl e \<Rightarrow> (Inl e, p)
   | Inr False \<Rightarrow> (Inl ''ssh dial returned no client'', p)
   | Inr True \<Rightarrow> (case pool_dial node p of (c, p) \<Rightarrow> case pool_store node c p of (d, p) \<Rightarrow> (Inr d, p)))"

definition pool_get :: "(client \<Rightarrow> bool) \<Rightarrow> string + bool \<Rightarrow> node \<Rightarrow> pool \<Rightarrow> (string + client) \<times> pool" where
  "pool_get sshAlive outcome node p = (case pl_entry p (n_id node) of
     None \<Rightarrow> pool_redial outcome node p
   | Some (c, target) \<Rightarrow>
       if target = sshTarget node \<and> sshAlive c then (Inr c, p)
       else pool_redial outcome node (pool_drop (n_id node) p))"

section \<open>Threads\<close>

datatype thread =
    Reading node
  | Probing node client string
  | Dropping node
  | Dialling node
  | Storing node client
  | Returned node "string + client"

record sys =
  sy_pool :: pool
  sy_threads :: "nat \<Rightarrow> thread option"

definition goto :: "nat \<Rightarrow> thread \<Rightarrow> pool \<Rightarrow> sys \<Rightarrow> sys" where
  "goto k th p s = s\<lparr>sy_pool := p, sy_threads := (sy_threads s)(k := Some th)\<rparr>"

text \<open>
  One step of one thread; \<open>called n\<close> says which nodes are asked for. A connection may die at
  any time, so a thread may find the one it probes dead.
\<close>

inductive pool_step :: "(node \<Rightarrow> bool) \<Rightarrow> sys \<Rightarrow> sys \<Rightarrow> bool" for called where
  call: "called n \<Longrightarrow> sy_threads s k = None \<Longrightarrow> pool_step called s (goto k (Reading n) (sy_pool s) s)"
| miss: "sy_threads s k = Some (Reading n) \<Longrightarrow> pl_entry (sy_pool s) (n_id n) = None
    \<Longrightarrow> pool_step called s (goto k (Dialling n) (sy_pool s) s)"
| hit: "sy_threads s k = Some (Reading n) \<Longrightarrow> pl_entry (sy_pool s) (n_id n) = Some (c, target)
    \<Longrightarrow> pool_step called s (goto k (Probing n c target) (sy_pool s) s)"
| alive: "sy_threads s k = Some (Probing n c target) \<Longrightarrow> target = sshTarget n
    \<Longrightarrow> pool_step called s (goto k (Returned n (Inr c)) (sy_pool s) s)"
| stale: "sy_threads s k = Some (Probing n c target)
    \<Longrightarrow> pool_step called s (goto k (Dropping n) (sy_pool s) s)"
| discard: "sy_threads s k = Some (Dropping n)
    \<Longrightarrow> pool_step called s (goto k (Dialling n) (pool_drop (n_id n) (sy_pool s)) s)"
| refused: "sy_threads s k = Some (Dialling n)
    \<Longrightarrow> pool_step called s (goto k (Returned n (Inl e)) (sy_pool s) s)"
| dialled: "sy_threads s k = Some (Dialling n) \<Longrightarrow> pool_dial n (sy_pool s) = (c, p)
    \<Longrightarrow> pool_step called s (goto k (Storing n c) p s)"
| store: "sy_threads s k = Some (Storing n c) \<Longrightarrow> pool_store n c (sy_pool s) = (d, p)
    \<Longrightarrow> pool_step called s (goto k (Returned n (Inr d)) p s)"
| drop: "pool_step called s (s\<lparr>sy_pool := pool_drop i (sy_pool s)\<rparr>)"
| Close: "pool_step called s (s\<lparr>sy_pool := pool_Close (sy_pool s)\<rparr>)"

inductive_cases pool_stepE: "pool_step called s s'"

definition pool_start :: sys where
  "pool_start = \<lparr>sy_pool = newSSHPool, sy_threads = (\<lambda>_. None)\<rparr>"

inductive pool_reachable :: "(node \<Rightarrow> bool) \<Rightarrow> sys \<Rightarrow> bool" for called where
  start: "pool_reachable called pool_start"
| step: "pool_reachable called s \<Longrightarrow> pool_step called s s' \<Longrightarrow> pool_reachable called s'"

section \<open>Who holds a connection\<close>

text \<open>A node's entry or a thread that has dialled and not stored yet.\<close>

definition held :: "sys \<Rightarrow> int + nat \<Rightarrow> client option" where
  "held s a = (case a of
     Inl i \<Rightarrow> map_option fst (pl_entry (sy_pool s) i)
   | Inr k \<Rightarrow> (case sy_threads s k of Some (Storing n c) \<Rightarrow> Some c | _ \<Rightarrow> None))"

text \<open>What is held is open, by one holder only.\<close>

definition books :: "(int + nat \<Rightarrow> client option) \<Rightarrow> nat list \<Rightarrow> nat \<Rightarrow> bool" where
  "books h cl m \<longleftrightarrow> (\<forall>a c. h a = Some c \<longrightarrow> cl_id c < m \<and> cl_id c \<notin> set cl) \<and>
     (\<forall>a b c d. h a = Some c \<longrightarrow> h b = Some d \<longrightarrow> cl_id c = cl_id d \<longrightarrow> a = b) \<and> (\<forall>x \<in> set cl. x < m)"

text \<open>Whatever was dialled is closed or held.\<close>

definition balanced :: "(int + nat \<Rightarrow> client option) \<Rightarrow> nat list \<Rightarrow> nat \<Rightarrow> bool" where
  "balanced h cl m \<longleftrightarrow> (\<forall>x < m. x \<in> set cl \<or> (\<exists>a c. h a = Some c \<and> cl_id c = x))"

lemma books_release: "books h cl m \<Longrightarrow> h a = Some c \<Longrightarrow> books (h(a := None)) (cl_id c # cl) m"
  by (auto simp: books_def)

lemma balanced_release: "balanced h cl m \<Longrightarrow> h a = Some c \<Longrightarrow> balanced (h(a := None)) (cl_id c # cl) m"
  unfolding balanced_def by (metis fun_upd_apply list.set(2) insert_iff option.inject)

lemma books_take: "books h cl m \<Longrightarrow> books (h(a := Some \<lparr>cl_id = m, cl_target = t\<rparr>)) cl (m + 1)"
  by (fastforce simp: books_def)

lemma balanced_take: "balanced h cl m \<Longrightarrow> h a = None \<Longrightarrow>
    balanced (h(a := Some \<lparr>cl_id = m, cl_target = t\<rparr>)) cl (m + 1)"
  unfolding balanced_def by (metis Suc_eq_plus1 client.select_convs(1) fun_upd_apply less_SucE option.distinct(1))

lemma books_move: "books h cl m \<Longrightarrow> h a = Some c \<Longrightarrow> a \<noteq> b \<Longrightarrow> books (h(a := None, b := Some c)) cl m"
  by (auto simp: books_def)

lemma balanced_move: "balanced h cl m \<Longrightarrow> h a = Some c \<Longrightarrow> a \<noteq> b \<Longrightarrow> h b = None \<Longrightarrow>
    balanced (h(a := None, b := Some c)) cl m"
  unfolding balanced_def by (metis fun_upd_apply option.distinct(1) option.inject)

lemma map_of_delete: "map_of (AList.delete k es) = (map_of es)(k := None)"
  by (rule ext) (simp add: AList.delete_conv)

lemma pl_entry_simps [simp]:
  "pl_entry (pool_drop i p) = (pl_entry p)(i := None)" "pl_entry (pool_Close p) = (\<lambda>_. None)"
  "pl_entry (close_client c p) = pl_entry p" "pl_entry (p\<lparr>pl_next := m\<rparr>) = pl_entry p"
  "pl_entry (p\<lparr>pl_entries := AList.update i e (pl_entries p)\<rparr>) = (pl_entry p)(i := Some e)"
  "pl_entry (p\<lparr>pl_entries := AList.delete i (pl_entries p)\<rparr>) = (pl_entry p)(i := None)"
  by (auto simp: fun_eq_iff pl_entry_def pool_drop_def pool_Close_def close_client_def Let_def map_of_delete update_conv
      split: option.splits prod.splits)

lemma pool_drop_simps [simp]:
  "pl_next (pool_drop i p) = pl_next p"
  "pl_closed (pool_drop i p) = (case pl_entry p i of None \<Rightarrow> pl_closed p | Some (c, target) \<Rightarrow> cl_id c # pl_closed p)"
  by (auto simp: pool_drop_def close_client_def Let_def split: option.splits prod.splits)

lemma held_goto: "held (goto k th p s) = (\<lambda>a. case a of
    Inl i \<Rightarrow> map_option fst (pl_entry p i)
  | Inr j \<Rightarrow> if j = k then (case th of Storing n c \<Rightarrow> Some c | _ \<Rightarrow> None) else held s (Inr j))"
  by (auto simp: fun_eq_iff held_def goto_def split: sum.splits)

lemma held_pool: "held (s\<lparr>sy_pool := p\<rparr>) = (\<lambda>a. case a of
    Inl i \<Rightarrow> map_option fst (pl_entry p i) | Inr j \<Rightarrow> held s (Inr j))"
  by (auto simp: fun_eq_iff held_def split: sum.splits)

text \<open>What the steps do to the holders.\<close>

lemma held_same:
  assumes "sy_threads s k = None \<or> sy_threads s k = Some th" "\<And>n c. th \<noteq> Storing n c" "\<And>n c. th' \<noteq> Storing n c"
  shows "held (goto k th' (sy_pool s) s) = held s"
  using assms by (auto simp: fun_eq_iff held_goto held_def split: sum.splits thread.splits)

lemma held_drop: "held (s\<lparr>sy_pool := pool_drop i (sy_pool s)\<rparr>) = (held s)(Inl i := None)"
  by (auto simp: fun_eq_iff held_pool held_def split: sum.splits)

lemma held_discard:
  assumes "sy_threads s k = Some (Dropping n)"
  shows "held (goto k (Dialling n) (pool_drop i (sy_pool s)) s) = (held s)(Inl i := None)"
  using assms by (auto simp: fun_eq_iff held_goto held_def split: sum.splits)

lemma held_dialled:
  assumes "sy_threads s k = Some (Dialling n)" "pool_dial n (sy_pool s) = (c, p)"
  shows "held (goto k (Storing n c) p s) = (held s)(Inr k := Some c)"
  using assms by (auto simp: fun_eq_iff held_goto held_def pool_dial_def split: sum.splits)

lemma held_storing: "sy_threads s k = Some (Storing n c) \<Longrightarrow> held s (Inr k) = Some c"
  by (simp add: held_def)

text \<open>Dropping and closing as a whole.\<close>

lemma books_drop:
  assumes "books (held s) (pl_closed (sy_pool s)) m"
  shows "books ((held s)(Inl i := None)) (pl_closed (pool_drop i (sy_pool s))) m"
proof (cases "pl_entry (sy_pool s) i")
  case None
  then have "(held s)(Inl i := None) = held s" by (simp add: fun_upd_idem held_def)
  with assms None show ?thesis by simp
next
  case (Some e)
  then show ?thesis using books_release [OF assms, of "Inl i"] by (cases e) (simp add: held_def)
qed

lemma balanced_drop:
  assumes "balanced (held s) (pl_closed (sy_pool s)) m"
  shows "balanced ((held s)(Inl i := None)) (pl_closed (pool_drop i (sy_pool s))) m"
proof (cases "pl_entry (sy_pool s) i")
  case None
  then have "(held s)(Inl i := None) = held s" by (simp add: fun_upd_idem held_def)
  with assms None show ?thesis by simp
next
  case (Some e)
  then show ?thesis using balanced_release [OF assms, of "Inl i"] by (cases e) (simp add: held_def)
qed

lemma closed_pool_Close:
  assumes "distinct (map fst (pl_entries p))"
  shows "set (pl_closed (pool_Close p)) = {cl_id c |i c t. pl_entry p i = Some (c, t)} \<union> set (pl_closed p)"
  using assms by (force simp: pool_Close_def pl_entry_def map_of_eq_Some_iff)

section \<open>Every connection goes where it should\<close>

fun thread_ok :: "thread \<Rightarrow> bool" where
  "thread_ok (Probing n c target) = (cl_target c = target)"
| "thread_ok (Storing n c) = (cl_target c = sshTarget n)"
| "thread_ok (Returned n (Inr c)) = (cl_target c = sshTarget n)"
| "thread_ok _ = True"

definition pool_ok :: "pool \<Rightarrow> bool" where
  "pool_ok p \<longleftrightarrow> distinct (map fst (pl_entries p)) \<and> (\<forall>i c target. pl_entry p i = Some (c, target) \<longrightarrow> cl_target c = target)"

definition pool_inv :: "sys \<Rightarrow> bool" where
  "pool_inv s \<longleftrightarrow> pool_ok (sy_pool s) \<and> (\<forall>k th. sy_threads s k = Some th \<longrightarrow> thread_ok th)
     \<and> books (held s) (pl_closed (sy_pool s)) (pl_next (sy_pool s))"

lemma pool_ok_ops: "pool_ok p \<Longrightarrow> pool_ok (pool_drop i p)" "pool_ok p \<Longrightarrow> pool_ok (pool_Close p)"
  "pool_ok p \<Longrightarrow> pool_ok (close_client c p)" "pool_ok p \<Longrightarrow> pool_ok (p\<lparr>pl_next := m\<rparr>)"
  "pool_ok p \<Longrightarrow> cl_target c = target \<Longrightarrow> pool_ok (p\<lparr>pl_entries := AList.update i (c, target) (pl_entries p)\<rparr>)"
  by (simp_all add: pool_ok_def distinct_update)
    (auto simp: pool_Close_def pool_drop_def Let_def close_client_def distinct_delete split: option.splits)

lemma threads_goto: "(\<forall>j th'. sy_threads (goto k th p s) j = Some th' \<longrightarrow> P th') \<longleftrightarrow>
    P th \<and> (\<forall>j th'. j \<noteq> k \<longrightarrow> sy_threads s j = Some th' \<longrightarrow> P th')"
  by (auto simp: goto_def)

lemma pool_goto [simp]: "sy_pool (goto k th p s) = p"
  by (simp add: goto_def)

lemma pool_store_cases:
  assumes "pool_store n c p = (d, q)"
  obtains e where "pl_entry p (n_id n) = Some (e, sshTarget n)" "d = e" "q = close_client c p"
  | "d = c" "q = p\<lparr>pl_entries := AList.update (n_id n) (c, sshTarget n) (pl_entries p)\<rparr>"
    "\<And>e target. pl_entry p (n_id n) = Some (e, target) \<Longrightarrow> target \<noteq> sshTarget n"
  using assms by (auto simp: pool_store_def split: option.splits prod.splits if_splits)

lemma held_kept:
  assumes "sy_threads s k = Some (Storing n c)"
  shows "held (goto k (Returned n r) (close_client x (sy_pool s)) s) = (held s)(Inr k := None)"
  using assms by (auto simp: fun_eq_iff held_goto held_def split: sum.splits)

lemma held_stored:
  assumes "sy_threads s k = Some (Storing n c)"
  shows "held (goto k (Returned n r) ((sy_pool s)\<lparr>pl_entries := AList.update i (c, t) (pl_entries (sy_pool s))\<rparr>) s)
    = (held s)(Inr k := None, Inl i := Some c)"
  using assms by (auto simp: fun_eq_iff held_goto held_def split: sum.splits)

lemma books_Close: "books (held s) (pl_closed (sy_pool s)) m \<Longrightarrow> distinct (map fst (pl_entries (sy_pool s))) \<Longrightarrow>
    books (held (s\<lparr>sy_pool := pool_Close (sy_pool s)\<rparr>)) (pl_closed (pool_Close (sy_pool s))) m"
proof -
  assume b: "books (held s) (pl_closed (sy_pool s)) m" and "distinct (map fst (pl_entries (sy_pool s)))"
  note closed = closed_pool_Close [OF this(2)]
  have inl: "held s (Inl i) = Some c \<longleftrightarrow> (\<exists>t. pl_entry (sy_pool s) i = Some (c, t))" for i c
    by (auto simp: held_def)
  let ?h = "held (s\<lparr>sy_pool := pool_Close (sy_pool s)\<rparr>)"
  have h: "?h a = (case a of Inl i \<Rightarrow> None | Inr j \<Rightarrow> held s a)" for a
    by (simp add: held_pool split: sum.splits)
  show ?thesis
    unfolding books_def closed
  proof (intro conjI allI impI ballI, goal_cases)
    case (1 a c)
    then show ?case using b by (auto simp: h books_def split: sum.splits)
  next
    case (2 a c)
    then obtain j where a: "a = Inr j" "held s (Inr j) = Some c" by (auto simp: h split: sum.splits)
    have "cl_id d \<noteq> cl_id c" if "pl_entry (sy_pool s) i = Some (d, t)" for i d t
      using b a(2) inl [of i d] that unfolding books_def by blast
    then show ?case using b a(2) by (auto simp: books_def) metis
  next
    case (3 a b' c d)
    then have "held s a = Some c" "held s b' = Some d" by (auto simp: h split: sum.splits)
    with b 3(3) show ?case unfolding books_def by blast
  next
    case (4 x)
    then show ?case using b inl unfolding books_def by blast
  qed
qed

lemma pool_inv_step:
  assumes "pool_step called s s'" "pool_inv s"
  shows "pool_inv s'"
  using assms(1)
proof (rule pool_stepE)
  have ok: "pool_ok (sy_pool s)" and b: "books (held s) (pl_closed (sy_pool s)) (pl_next (sy_pool s))"
    and ths: "\<And>k th. sy_threads s k = Some th \<Longrightarrow> thread_ok th"
    using assms(2) by (auto simp: pool_inv_def)
  have quiet: "pool_inv (goto k th' (sy_pool s) s)"
    if "sy_threads s k = None \<or> sy_threads s k = Some th" "\<And>n c. th \<noteq> Storing n c" "\<And>n c. th' \<noteq> Storing n c" "thread_ok th'"
    for k th th'
    using that(4) ok ths b by (auto simp: pool_inv_def threads_goto held_same [OF that(1-3)])
  show "pool_inv s'" if "s' = goto k (Reading n) (sy_pool s) s" "called n" "sy_threads s k = None" for n k
    unfolding that(1) by (rule quiet) (use that in auto)
  show "pool_inv s'" if "s' = goto k (Dialling n) (sy_pool s) s" "sy_threads s k = Some (Reading n)" for k n
    unfolding that(1) by (rule quiet) (use that in auto)
  show "pool_inv s'" if "s' = goto k (Probing n c t) (sy_pool s) s" "sy_threads s k = Some (Reading n)"
    "pl_entry (sy_pool s) (n_id n) = Some (c, t)" for k n c t
    unfolding that(1) by (rule quiet) (use that ok in \<open>auto simp: pool_ok_def\<close>)
  show "pool_inv s'" if "s' = goto k (Returned n (Inr c)) (sy_pool s) s" "sy_threads s k = Some (Probing n c (sshTarget n))" for k n c
    unfolding that(1) by (rule quiet) (use that ths [OF that(2)] in auto)
  show "pool_inv s'" if "s' = goto k (Dropping n) (sy_pool s) s" "sy_threads s k = Some (Probing n c t)" for k n c t
    unfolding that(1) by (rule quiet) (use that in auto)
  show "pool_inv s'" if "s' = goto k (Returned n (Inl e)) (sy_pool s) s" "sy_threads s k = Some (Dialling n)" for k n e
    unfolding that(1) by (rule quiet) (use that in auto)
  show "pool_inv s'" if "s' = goto k (Dialling n) (pool_drop (n_id n) (sy_pool s)) s" "sy_threads s k = Some (Dropping n)" for k n
    using that ok ths books_drop [OF b]
    by (auto simp: pool_inv_def threads_goto held_discard pool_ok_ops simp del: pool_drop_simps(2))
  show "pool_inv s'" if "s' = goto k (Storing n c) p s" "sy_threads s k = Some (Dialling n)" "pool_dial n (sy_pool s) = (c, p)" for k n c p
    using that ok ths books_take [OF b]
    by (auto simp: pool_inv_def threads_goto held_dialled [OF that(2,3)] pool_ok_ops) (auto simp: pool_dial_def pool_ok_ops)
  show "pool_inv s'" if "s' = s\<lparr>sy_pool := pool_drop i (sy_pool s)\<rparr>" for i
    using that ok ths books_drop [OF b] by (auto simp: pool_inv_def held_drop pool_ok_ops simp del: pool_drop_simps(2))
  show "pool_inv s'" if "s' = s\<lparr>sy_pool := pool_Close (sy_pool s)\<rparr>"
    using that ok ths books_Close [OF b] by (auto simp: pool_inv_def pool_ok_ops pool_ok_def [of "sy_pool s"]) (simp add: pool_Close_def)
  show "pool_inv s'" if s': "s' = goto k (Returned n (Inr d)) p s" and th: "sy_threads s k = Some (Storing n c)"
    and store: "pool_store n c (sy_pool s) = (d, p)" for k n c d p
    using store
  proof (rule pool_store_cases, goal_cases)
    case (1 e)
    then show ?thesis
      using s' ok ths ths [OF th] books_release [OF b held_storing [OF th]]
      by (auto simp: pool_inv_def threads_goto held_kept [OF th] pool_ok_ops pool_ok_def [of "sy_pool s"]) (simp_all add: close_client_def)
  next
    case 2
    then show ?thesis
      using s' ok ths ths [OF th] books_move [OF b held_storing [OF th], of "Inl (n_id n)"]
      by (auto simp: pool_inv_def threads_goto held_stored [OF th] pool_ok_ops)
  qed
qed

lemma pool_reachable_inv:
  assumes "pool_reachable called s"
  shows "pool_inv s"
  using assms
proof induction
  case start
  show ?case by (auto simp: pool_inv_def pool_start_def newSSHPool_def pool_ok_def pl_entry_def held_def books_def split: sum.splits)
qed (rule pool_inv_step)

section \<open>No connection is lost\<close>

text \<open>The node a thread works for; two calls for one node agree on its target unless it was edited.\<close>

fun node_of :: "thread \<Rightarrow> node" where
  "node_of (Reading n) = n"
| "node_of (Probing n c target) = n"
| "node_of (Dropping n) = n"
| "node_of (Dialling n) = n"
| "node_of (Storing n c) = n"
| "node_of (Returned n r) = n"

definition unedited :: "(node \<Rightarrow> bool) \<Rightarrow> bool" where
  "unedited called \<longleftrightarrow> (\<forall>m n. called m \<longrightarrow> called n \<longrightarrow> n_id m = n_id n \<longrightarrow> sshTarget m = sshTarget n)"

definition entries_called :: "(node \<Rightarrow> bool) \<Rightarrow> pool \<Rightarrow> bool" where
  "entries_called called p \<longleftrightarrow> (\<forall>i c target. pl_entry p i = Some (c, target) \<longrightarrow>
     (\<exists>n. called n \<and> n_id n = i \<and> target = sshTarget n))"

definition accounted :: "(node \<Rightarrow> bool) \<Rightarrow> sys \<Rightarrow> bool" where
  "accounted called s \<longleftrightarrow> entries_called called (sy_pool s) \<and> (\<forall>k th. sy_threads s k = Some th \<longrightarrow> called (node_of th))
     \<and> balanced (held s) (pl_closed (sy_pool s)) (pl_next (sy_pool s))"

lemma entries_called_ops: "entries_called called p \<Longrightarrow> entries_called called (pool_drop i p)"
  "entries_called called p \<Longrightarrow> entries_called called (pool_Close p)"
  "entries_called called p \<Longrightarrow> entries_called called (close_client c p)"
  "entries_called called p \<Longrightarrow> entries_called called (p\<lparr>pl_next := m\<rparr>)"
  "entries_called called p \<Longrightarrow> called n \<Longrightarrow>
     entries_called called (p\<lparr>pl_entries := AList.update (n_id n) (c, sshTarget n) (pl_entries p)\<rparr>)"
  by (auto simp: entries_called_def split: if_splits)

lemma balanced_Close:
  assumes "balanced (held s) (pl_closed (sy_pool s)) m" "distinct (map fst (pl_entries (sy_pool s)))"
  shows "balanced (held (s\<lparr>sy_pool := pool_Close (sy_pool s)\<rparr>)) (pl_closed (pool_Close (sy_pool s))) m"
  unfolding balanced_def closed_pool_Close [OF assms(2)]
proof (intro allI impI)
  fix x assume "x < m"
  then consider "x \<in> set (pl_closed (sy_pool s))" | a c where "held s a = Some c" "cl_id c = x"
    using assms(1) unfolding balanced_def by blast
  then show "x \<in> {cl_id c |i c t. pl_entry (sy_pool s) i = Some (c, t)} \<union> set (pl_closed (sy_pool s)) \<or>
      (\<exists>a c. held (s\<lparr>sy_pool := pool_Close (sy_pool s)\<rparr>) a = Some c \<and> cl_id c = x)"
  proof cases
    case (2 a c)
    then show ?thesis
    proof (cases a)
      case (Inl i)
      with 2 show ?thesis by (auto simp: held_def)
    next
      case (Inr k)
      with 2 have "held (s\<lparr>sy_pool := pool_Close (sy_pool s)\<rparr>) (Inr k) = Some c" by (simp add: held_pool)
      with 2 show ?thesis by blast
    qed
  qed simp
qed

lemma accounted_step:
  assumes "pool_step called s s'" "unedited called" "pool_inv s" "accounted called s"
  shows "accounted called s'"
  using assms(1)
proof (rule pool_stepE)
  have ent: "entries_called called (sy_pool s)" and b: "balanced (held s) (pl_closed (sy_pool s)) (pl_next (sy_pool s))"
    and ths: "\<And>k th. sy_threads s k = Some th \<Longrightarrow> called (node_of th)"
    using assms(4) by (auto simp: accounted_def)
  have keys: "distinct (map fst (pl_entries (sy_pool s)))" using assms(3) by (simp add: pool_inv_def pool_ok_def)
  have quiet: "accounted called (goto k th' (sy_pool s) s)"
    if "sy_threads s k = None \<or> sy_threads s k = Some th" "\<And>n c. th \<noteq> Storing n c" "\<And>n c. th' \<noteq> Storing n c" "called (node_of th')"
    for k th th'
    using that(4) ent ths b by (auto simp: accounted_def threads_goto held_same [OF that(1-3)])
  show "accounted called s'" if "s' = goto k (Reading n) (sy_pool s) s" "called n" "sy_threads s k = None" for n k
    unfolding that(1) by (rule quiet) (use that in auto)
  show "accounted called s'" if "s' = goto k (Dialling n) (sy_pool s) s" "sy_threads s k = Some (Reading n)" for k n
    unfolding that(1) by (rule quiet) (use that ths [OF that(2)] in auto)
  show "accounted called s'" if "s' = goto k (Probing n c t) (sy_pool s) s" "sy_threads s k = Some (Reading n)" for k n c t
    unfolding that(1) by (rule quiet) (use that ths [OF that(2)] in auto)
  show "accounted called s'" if "s' = goto k (Returned n (Inr c)) (sy_pool s) s" "sy_threads s k = Some (Probing n c (sshTarget n))" for k n c
    unfolding that(1) by (rule quiet) (use that ths [OF that(2)] in auto)
  show "accounted called s'" if "s' = goto k (Dropping n) (sy_pool s) s" "sy_threads s k = Some (Probing n c t)" for k n c t
    unfolding that(1) by (rule quiet) (use that ths [OF that(2)] in auto)
  show "accounted called s'" if "s' = goto k (Returned n (Inl e)) (sy_pool s) s" "sy_threads s k = Some (Dialling n)" for k n e
    unfolding that(1) by (rule quiet) (use that ths [OF that(2)] in auto)
  show "accounted called s'" if "s' = goto k (Dialling n) (pool_drop (n_id n) (sy_pool s)) s" "sy_threads s k = Some (Dropping n)" for k n
    using that ent ths ths [OF that(2)] balanced_drop [OF b]
    by (auto simp: accounted_def threads_goto held_discard entries_called_ops simp del: pool_drop_simps(2))
  show "accounted called s'" if "s' = goto k (Storing n c) p s" "sy_threads s k = Some (Dialling n)" "pool_dial n (sy_pool s) = (c, p)" for k n c p
  proof -
    have "held s (Inr k) = None" using that by (simp add: held_def)
    then show ?thesis
      using that ent ths ths [OF that(2)] balanced_take [OF b]
      by (auto simp: accounted_def threads_goto held_dialled [OF that(2,3)] entries_called_ops)
        (auto simp: pool_dial_def entries_called_ops)
  qed
  show "accounted called s'" if "s' = s\<lparr>sy_pool := pool_drop i (sy_pool s)\<rparr>" for i
    using that ent ths balanced_drop [OF b]
    by (auto simp: accounted_def held_drop entries_called_ops simp del: pool_drop_simps(2))
  show "accounted called s'" if "s' = s\<lparr>sy_pool := pool_Close (sy_pool s)\<rparr>"
    using that ent ths balanced_Close [OF b keys] by (auto simp: accounted_def entries_called_ops) (simp add: pool_Close_def)
  show "accounted called s'" if s': "s' = goto k (Returned n (Inr d)) p s" and th: "sy_threads s k = Some (Storing n c)"
    and store: "pool_store n c (sy_pool s) = (d, p)" for k n c d p
    using store
  proof (rule pool_store_cases, goal_cases)
    case (1 e)
    then show ?thesis
      unfolding s' accounted_def pool_goto threads_goto 1(3) held_kept [OF th]
      using ent ths ths [OF th] balanced_release [OF b held_storing [OF th]]
      by (intro conjI entries_called_ops allI impI) (simp_all add: close_client_def)
  next
    case 2
    have "held s (Inl (n_id n)) = None"
    proof (cases "pl_entry (sy_pool s) (n_id n)")
      case (Some e)
      obtain x t where e: "e = (x, t)" by (cases e)
      obtain m where "called m" "n_id m = n_id n" "t = sshTarget m" using ent Some e unfolding entries_called_def by blast
      moreover have "called n" using ths [OF th] by simp
      ultimately have "t = sshTarget n" using assms(2) unfolding unedited_def by metis
      with 2(3) Some e show ?thesis by simp
    qed (simp add: held_def)
    then show ?thesis
      unfolding s' accounted_def pool_goto threads_goto 2(2) held_stored [OF th]
      using ent ths ths [OF th] balanced_move [OF b held_storing [OF th], of "Inl (n_id n)"]
      by (intro conjI entries_called_ops allI impI) simp_all
  qed
qed

lemma pool_reachable_accounted:
  assumes "pool_reachable called s" "unedited called"
  shows "accounted called s"
  using assms(1)
proof induction
  case start
  show ?case by (auto simp: accounted_def pool_start_def newSSHPool_def entries_called_def pl_entry_def balanced_def)
next
  case (step s s')
  then show ?case using accounted_step [OF step(2) assms(2) pool_reachable_inv [OF step(1)]] by blast
qed

section \<open>One call on its own\<close>

lemma goto_goto [simp]: "goto k th p (goto k th' q s) = goto k th p s"
  by (simp add: goto_def)

lemma thread_goto [simp]: "sy_threads (goto k th p s) k = Some th"
  by (simp add: goto_def)

lemma redial_run:
  assumes "sy_threads s k = Some (Dialling n)" "pool_redial outcome n (sy_pool s) = (r, q)"
  shows "(pool_step called)\<^sup>*\<^sup>* s (goto k (Returned n r) q s)"
proof (cases "\<exists>e. r = Inl e")
  case True
  then have "q = sy_pool s" using assms(2) by (auto simp: pool_redial_def split: sum.splits bool.splits prod.splits)
  with True pool_step.refused [OF assms(1)] show ?thesis by blast
next
  case False
  then obtain c p d where dial: "pool_dial n (sy_pool s) = (c, p)" and store: "pool_store n c p = (d, q)" and r: "r = Inr d"
    using assms(2) by (auto simp: pool_redial_def split: sum.splits bool.splits prod.splits)
  have "pool_step called (goto k (Storing n c) p s) (goto k (Returned n (Inr d)) q s)"
    using pool_step.store [of "goto k (Storing n c) p s" k n c d q] store by simp
  with pool_step.dialled [OF assms(1) dial] show ?thesis unfolding r by (meson converse_rtranclp_into_rtranclp r_into_rtranclp)
qed

text \<open>The function is a run of the threads in which only one moves.\<close>

lemma pool_get_run:
  assumes "called n" "sy_threads s k = None" "pool_get sshAlive outcome n (sy_pool s) = (r, q)"
  shows "(pool_step called)\<^sup>*\<^sup>* s (goto k (Returned n r) q s)"
proof -
  let ?s1 = "goto k (Reading n) (sy_pool s) s"
  have call: "pool_step called s ?s1" by (rule pool_step.call, rule assms(1), rule assms(2))
  have "(pool_step called)\<^sup>*\<^sup>* ?s1 (goto k (Returned n r) q s)"
  proof (cases "pl_entry (sy_pool s) (n_id n)")
    case None
    have "pool_step called ?s1 (goto k (Dialling n) (sy_pool s) s)"
      using pool_step.miss [of ?s1 k n called] None by simp
    moreover have "(pool_step called)\<^sup>*\<^sup>* (goto k (Dialling n) (sy_pool s) s) (goto k (Returned n r) q s)"
      using redial_run [of "goto k (Dialling n) (sy_pool s) s" k n outcome r q called] assms(3) None
      by (simp add: pool_get_def)
    ultimately show ?thesis by (rule converse_rtranclp_into_rtranclp)
  next
    case (Some e)
    obtain c target where e: "e = (c, target)" by (cases e)
    let ?s2 = "goto k (Probing n c target) (sy_pool s) s"
    have hit: "pool_step called ?s1 ?s2" using pool_step.hit [of ?s1 k n c target called] Some e by simp
    have "(pool_step called)\<^sup>*\<^sup>* ?s2 (goto k (Returned n r) q s)"
    proof (cases "target = sshTarget n \<and> sshAlive c")
      case True
      then show ?thesis
        using pool_step.alive [of ?s2 k n c target called] assms(3) Some e by (simp add: pool_get_def)
    next
      case False
      have "pool_step called ?s2 (goto k (Dropping n) (sy_pool s) s)"
        using pool_step.stale [of ?s2 k n c target called] by simp
      moreover have "pool_step called (goto k (Dropping n) (sy_pool s) s) (goto k (Dialling n) (pool_drop (n_id n) (sy_pool s)) s)"
        using pool_step.discard [of "goto k (Dropping n) (sy_pool s) s" k n called] by simp
      moreover have "(pool_step called)\<^sup>*\<^sup>* (goto k (Dialling n) (pool_drop (n_id n) (sy_pool s)) s) (goto k (Returned n r) q s)"
        using redial_run [of "goto k (Dialling n) (pool_drop (n_id n) (sy_pool s)) s" k n outcome r q called] assms(3) Some e False
        by (auto simp: pool_get_def)
      ultimately show ?thesis by (meson converse_rtranclp_into_rtranclp)
    qed
    with hit show ?thesis by (rule converse_rtranclp_into_rtranclp)
  qed
  with call show ?thesis by (rule converse_rtranclp_into_rtranclp)
qed

section \<open>The edited node\<close>

text \<open>
  Two calls that overlap while the node is edited: the second finds the entry of the first
  with another target and overwrites it, and the first connection is never closed.
\<close>

lemma edited_node_leaks:
  assumes "called m" "called n" "n_id m = n_id n" "sshTarget m \<noteq> sshTarget n"
  shows "\<exists>s. pool_reachable called s \<and> \<not> balanced (held s) (pl_closed (sy_pool s)) (pl_next (sy_pool s))"
proof -
  let ?c = "\<lparr>cl_id = 0, cl_target = sshTarget m\<rparr>" and ?d = "\<lparr>cl_id = 1, cl_target = sshTarget n\<rparr>"
  define p1 where "p1 = newSSHPool\<lparr>pl_next := 1\<rparr>"
  define p2 where "p2 = \<lparr>pl_entries = [(n_id m, ?c, sshTarget m)], pl_closed = [], pl_next = 1\<rparr>"
  define p3 where "p3 = p2\<lparr>pl_next := 2\<rparr>"
  define p4 where "p4 = \<lparr>pl_entries = [(n_id n, ?d, sshTarget n)], pl_closed = [], pl_next = 2\<rparr>"
  let ?s1 = "goto 0 (Reading m) newSSHPool pool_start"
  let ?s2 = "goto 1 (Reading n) newSSHPool ?s1"
  let ?s3 = "goto 0 (Dialling m) newSSHPool ?s2"
  let ?s4 = "goto 1 (Dialling n) newSSHPool ?s3"
  let ?s5 = "goto 0 (Storing m ?c) p1 ?s4"
  let ?s6 = "goto 0 (Returned m (Inr ?c)) p2 ?s5"
  let ?s7 = "goto 1 (Storing n ?d) p3 ?s6"
  let ?s8 = "goto 1 (Returned n (Inr ?d)) p4 ?s7"
  have empty: "pl_entry newSSHPool i = None" for i by (simp add: newSSHPool_def pl_entry_def)
  have start: "sy_pool pool_start = newSSHPool" "sy_threads pool_start k = None" for k by (simp_all add: pool_start_def)
  have other: "sy_threads (goto j th p s) k = sy_threads s k" if "j \<noteq> k" for j k th p s
    using that by (simp add: goto_def)
  note go = pool_reachable.step and facts = start empty other
  have "pool_reachable called ?s1"
    using go [OF pool_reachable.start pool_step.call [of called m pool_start 0]] assms(1) by (simp add: facts)
  then have "pool_reachable called ?s2"
    by (rule go) (use pool_step.call [of called n ?s1 1] assms(2) in \<open>simp add: facts\<close>)
  then have "pool_reachable called ?s3"
    by (rule go) (use pool_step.miss [of ?s2 0 m called] in \<open>simp add: facts\<close>)
  then have "pool_reachable called ?s4"
    by (rule go) (use pool_step.miss [of ?s3 1 n called] in \<open>simp add: facts\<close>)
  then have "pool_reachable called ?s5"
    by (rule go) (use pool_step.dialled [of ?s4 0 m ?c p1 called] in \<open>simp add: facts pool_dial_def p1_def newSSHPool_def\<close>)
  then have "pool_reachable called ?s6"
    by (rule go) (use pool_step.store [of ?s5 0 m ?c ?c p2 called] in
      \<open>simp add: facts pool_store_def p1_def p2_def newSSHPool_def pl_entry_def\<close>)
  then have "pool_reachable called ?s7"
    by (rule go) (use pool_step.dialled [of ?s6 1 n ?d p3 called] in \<open>simp add: facts pool_dial_def p2_def p3_def\<close>)
  then have "pool_reachable called ?s8"
    by (rule go) (use pool_step.store [of ?s7 1 n ?d ?d p4 called] assms(3,4) in
      \<open>simp add: facts pool_store_def p2_def p3_def p4_def pl_entry_def\<close>)
  moreover have "held ?s8 a \<noteq> None \<Longrightarrow> held ?s8 a = Some ?d" for a
    by (auto simp: held_def goto_def pool_start_def p4_def pl_entry_def split: sum.splits if_splits)
  then have "\<not> balanced (held ?s8) (pl_closed (sy_pool ?s8)) (pl_next (sy_pool ?s8))"
    by (auto simp: balanced_def p4_def intro!: exI [of _ 0]) force
  ultimately show ?thesis by blast
qed

end
