(* ===== verification/TrafficPoller.thy ===== *)
theory TrafficPoller
  imports UserStats SSHPool ConfigHandler
begin

text \<open>
  \<open>handler/traffic.go\<close>: once a minute the counters of every enabled sing-box node are read
  over its pooled connection and added to the users they name. The nodes of a cycle are
  polled one after another here, in the order of the list.
\<close>

section \<open>State and environment\<close>

datatype health_event = Unhealthy string string | Recovered string

text \<open>\<open>TrafficPoller\<close>: the pool, the last outcome per node, and what was logged about it.\<close>

record poller =
  po_pool :: pool
  po_health :: "int \<Rightarrow> bool option"
  po_log :: "(int \<times> health_event) list"

definition poller_Start :: poller where
  "poller_Start = \<lparr>po_pool = newSSHPool, po_health = (\<lambda>_. None), po_log = []\<rparr>"

definition poller_Close :: "poller \<Rightarrow> poller" where
  "poller_Close po = po\<lparr>po_pool := pool_Close (po_pool po)\<rparr>"

text \<open>
  What a poll meets: whether a connection answers the keepalive, the service behind a
  connection, and whether the deadline passes first; an abandoned poll may still have
  accounted what it read.
\<close>

record poll_env =
  pe_alive :: "client \<Rightarrow> bool"
  pe_invoke :: "client \<Rightarrow> transport"
  pe_timeout :: "bool option"

section \<open>Polling\<close>

datatype poll_end = Polled | PollError string | Panicked

definition recordHealth :: "node \<Rightarrow> string option \<Rightarrow> poller \<Rightarrow> poller" where
  "recordHealth node err po =
    (let prev = po_health po (n_id node);
         po = po\<lparr>po_health := (po_health po)(n_id node := Some (err = None))\<rparr> in
     case err of
       Some e \<Rightarrow> if prev \<noteq> Some False then po\<lparr>po_log := po_log po @ [(n_id node, Unhealthy (n_name node) e)]\<rparr> else po
     | None \<Rightarrow> if prev = Some False then po\<lparr>po_log := po_log po @ [(n_id node, Recovered (n_name node))]\<rparr> else po)"

text \<open>\<open>pool.get\<close>, dialling with \<open>sshConnect\<close>.\<close>

definition poller_get :: "poll_env \<Rightarrow> node \<Rightarrow> poller \<Rightarrow> ((string + client) \<times> poller) io" where
  "poller_get env node po = do {
     rs \<leftarrow> next_remote;
     conn \<leftarrow> sshConnect rs node;
     let outcome = (case conn of Inl e \<Rightarrow> Inl (err_text e) | Inr _ \<Rightarrow> Inr True);
     (case pool_get (pe_alive env) outcome node (po_pool po) of (r, q) \<Rightarrow>
        State_Monad.return (r, po\<lparr>po_pool := q\<rparr>)) }"

definition account_user :: "int \<Rightarrow> (string \<rightharpoonup> int) \<Rightarrow> string \<times> user_traffic \<Rightarrow> unit io" where
  "account_user nodeID nameToUser entry = (case entry of (name, t) \<Rightarrow>
     if ut_up t = 0 \<and> ut_down t = 0 then State_Monad.return ()
     else case nameToUser name of
       None \<Rightarrow> State_Monad.return ()
     | Some userID \<Rightarrow> do {
         UserStore_AddTraffic userID (sint (ut_up t)) (sint (ut_down t));
         TrafficStore_Record nodeID userID (sint (ut_up t)) (sint (ut_down t)) })"

definition pollNode :: "protowire \<Rightarrow> poll_env \<Rightarrow> (string \<rightharpoonup> int) \<Rightarrow> node \<Rightarrow> poller \<Rightarrow> (poll_end \<times> poller) io" where
  "pollNode pw env nameToUser node po = do {
     got \<leftarrow> poller_get env node po;
     (case got of (r, po) \<Rightarrow> case r of
        Inl e \<Rightarrow> State_Monad.return (PollError e, po)
      | Inr client \<Rightarrow> (case queryUserStats pw (pe_invoke env client) True of
            None \<Rightarrow> State_Monad.return (Panicked, po)
          | Some (Inl e) \<Rightarrow> State_Monad.return (PollError e, po\<lparr>po_pool := pool_drop (n_id node) (po_pool po)\<rparr>)
          | Some (Inr stats) \<Rightarrow> do {
              map_each (account_user (n_id node) nameToUser) stats;
              State_Monad.return (Polled, po) })) }"

definition outcome_error :: "poll_end \<Rightarrow> string option" where
  "outcome_error e = (case e of PollError s \<Rightarrow> Some s | _ \<Rightarrow> None)"

definition pollNodeGuarded :: "protowire \<Rightarrow> poll_env \<Rightarrow> (string \<rightharpoonup> int) \<Rightarrow> node \<Rightarrow> poller \<Rightarrow> poller io" where
  "pollNodeGuarded pw env nameToUser node po = (case pe_timeout env of
     None \<Rightarrow> do {
       result \<leftarrow> pollNode pw env nameToUser node po;
       (case result of (e, po) \<Rightarrow>
          State_Monad.return (if e = Panicked then po else recordHealth node (outcome_error e) po)) }
   | Some late \<Rightarrow> do {
       po \<leftarrow> (if late then do { result \<leftarrow> pollNode pw env nameToUser node po; State_Monad.return (snd result) }
             else State_Monad.return po);
       State_Monad.return (recordHealth node (Some ''poll timed out after 30s'')
         (po\<lparr>po_pool := pool_drop (n_id node) (po_pool po)\<rparr>)) })"

fun poll_nodes :: "protowire \<Rightarrow> (int \<Rightarrow> poll_env) \<Rightarrow> (string \<rightharpoonup> int) \<Rightarrow> node list \<Rightarrow> poller \<Rightarrow> poller io" where
  "poll_nodes pw env nameToUser [] po = State_Monad.return po"
| "poll_nodes pw env nameToUser (n # ns) po = do {
     po \<leftarrow> pollNodeGuarded pw (env (n_id n)) nameToUser n po;
     poll_nodes pw env nameToUser ns po }"

definition name_to_user :: "user list \<Rightarrow> string \<rightharpoonup> int" where
  "name_to_user users = map_of (rev (map (\<lambda>u. (u_name u, u_id u)) users))"

definition pollAll :: "protowire \<Rightarrow> (int \<Rightarrow> poll_env) \<Rightarrow> poller \<Rightarrow> poller io" where
  "pollAll pw env po =
     attempt NodeStore_ListEnabled (\<lambda>_. State_Monad.return po) (\<lambda>nodes.
     attempt UserStore_List (\<lambda>_. State_Monad.return po) (\<lambda>users.
     poll_nodes pw env (name_to_user users) (filter (\<lambda>n. n_proxy_type n = ''singbox'') nodes) po))"

section \<open>The log\<close>

text \<open>The events of a node alternate, beginning with its first failure, and agree with what is remembered.\<close>

definition is_down :: "health_event \<Rightarrow> bool" where
  "is_down e = (case e of Unhealthy _ _ \<Rightarrow> True | Recovered _ \<Rightarrow> False)"

fun alternates :: "bool \<Rightarrow> bool list \<Rightarrow> bool" where
  "alternates b [] = True"
| "alternates b (x # xs) = (x = b \<and> alternates (\<not> b) xs)"

definition events_of :: "int \<Rightarrow> poller \<Rightarrow> bool list" where
  "events_of i po = map (is_down \<circ> snd) (filter (\<lambda>e. fst e = i) (po_log po))"

definition log_ok :: "poller \<Rightarrow> bool" where
  "log_ok po \<longleftrightarrow> (\<forall>i. alternates True (events_of i po) \<and>
     (po_health po i = Some False \<longleftrightarrow> events_of i po \<noteq> [] \<and> last (events_of i po)))"

lemma alternates_snoc: "alternates b (xs @ [x]) \<longleftrightarrow> alternates b xs \<and> x = (if xs = [] then b else \<not> last xs)"
  by (induction b xs rule: alternates.induct) auto

lemma log_ok_recordHealth: "log_ok po \<Longrightarrow> log_ok (recordHealth node err po)"
  by (auto simp: log_ok_def events_of_def recordHealth_def Let_def alternates_snoc is_down_def split: option.splits)

lemma log_ok_pool [simp]: "log_ok (po\<lparr>po_pool := q\<rparr>) = log_ok po"
  by (simp add: log_ok_def events_of_def)

end
