(* ===== verification/Reachable.thy ===== *)
theory Reachable
  imports SetupKeeps TrafficPoller
begin

text \<open>
  The well-formedness of the database over the whole life of the panel: every handler keeps
  it, so do the router and the background tasks, hence it holds in every reachable world.
\<close>

section \<open>Inbounds of an existing node\<close>

definition ok_with_node :: "int \<Rightarrow> db \<Rightarrow> bool" where
  "ok_with_node k d \<longleftrightarrow> db_ok d \<and> k \<in> n_id ` set (d_nodes d)"

lemma sel_row_mem: "sel_row key i rows = Some r \<Longrightarrow> i \<in> key ` set rows"
  using sel_row_SomeD [of key i rows r] by auto

lemma keeps_weaken:
  assumes "keeps I m" "I (w_db w)" "\<And>d. I d \<Longrightarrow> J d"
  shows "wp m (\<lambda>r w'. J (w_db w')) w"
  using assms by (auto simp: keeps_def wp_def split: prod.splits)

lemma keeps_CreateInbound: "keeps (ok_with_node k) (NodeStore_CreateInbound k req)"
  unfolding NodeStore_CreateInbound_def
proof (intro kept keeps_exec)
  fix d a d'
  let ?b = "new_inbound k req d"
  assume ok: "ok_with_node k d" and "insert_next_inbound \<lparr>ib_id = 0, ib_node = k, ib_tag = ci_tag req,
        ib_protocol = ci_protocol req, ib_port = ci_port req,
        ib_settings = settings_or_empty (ci_settings req), ib_enabled = True, ib_sort_order = 0\<rparr> d = Inr (a, d')"
  then have d': "d' = add_inbound ?b d" and fresh: "ib_id ?b \<notin> ib_id ` set (d_inbounds d)"
    by (auto simp: insert_next_inbound_def insert_inbound_def add_inbound_def new_inbound_def
        list_ex_iff split: if_splits)
  have "db_ok d'"
    unfolding d' by (rule db_ok_add_inbound)
      (use ok fresh in \<open>auto simp: ok_with_node_def new_inbound_def db_ok_def inbounds_ok_def\<close>)
  then show "ok_with_node k d'" using ok by (simp add: ok_with_node_def d' add_inbound_def)
qed

lemma keeps_DeleteInbound_node: "keeps (ok_with_node k) (NodeStore_DeleteInbound i)"
  unfolding NodeStore_DeleteInbound_def
  by (intro kept keeps_exec)
    (auto simp: ok_with_node_def simp flip: drop_inbound_def intro: db_ok_drop_inbound, auto simp: drop_inbound_def)

text \<open>A step after which a stronger property is known.\<close>

lemma wp_attempt_keeps:
  assumes "wp m R w" "\<And>e t. R (Inl e) t \<Longrightarrow> I (w_db t)" "\<And>e. keeps I (h e)"
    and "\<And>a t. R (Inr a) t \<Longrightarrow> wp (k a) (\<lambda>r w'. I (w_db w')) t"
  shows "wp (attempt m h k) (\<lambda>r w'. I (w_db w')) w"
  by (rule wp_attemptI [OF assms(1)]) (use assms(2-4) in \<open>auto simp: keeps_def\<close>)

lemma keeps_createInbound [kept]: "keeps db_ok (NodeHandler_createInbound (Some SyncNodes) r)"
proof (rule keepsI)
  fix w :: world assume ok: "db_ok (w_db w)"
  show "wp (NodeHandler_createInbound (Some SyncNodes) r) (\<lambda>r w'. db_ok (w_db w')) w"
    unfolding NodeHandler_createInbound_def Let_def wp_if
  proof (intro conjI impI, goal_cases)
    case 1
    show ?case by (rule keepsD [where I = db_ok, OF _ ok]) (rule kept)
  next
    case 2
    show ?case by (rule keepsD [where I = db_ok, OF _ ok]) (rule kept)
  next
    case 3
    show ?case
    proof (rule wp_attempt_keeps [where I = db_ok, OF node_post], goal_cases)
      case (1 e t)
      then show ?case using ok by (simp add: becomes_db)
    next
      case (2 e)
      show ?case by (rule kept)
    next
      case (3 n t)
      let ?k = "parseID (''/api/nodes/'' @ SplitByte (CHR ''/'') (TrimPrefix (r_path r) ''/api/nodes/'') ! 0) ''/api/nodes/''"
      have "ok_with_node ?k (w_db t)"
        using 3 ok sel_row_mem [of n_id ?k "d_nodes (w_db w)" n] by (auto simp: becomes_db ok_with_node_def)
      then show ?case
        by (rule keeps_weaken [where I = "ok_with_node ?k" and J = db_ok, rotated])
          (auto simp: ok_with_node_def [of _ "_ :: db"] intro!: kept keeps_CreateInbound keeps_DeleteInbound_node)
    qed
  qed
qed

definition ok_without :: "inbound \<Rightarrow> db \<Rightarrow> bool" where
  "ok_without b d \<longleftrightarrow> db_ok d \<and> ib_id b \<notin> ib_id ` set (d_inbounds d) \<and> 0 < ib_id b
     \<and> ib_id b \<le> d_inbound_seq d \<and> ib_node b \<in> n_id ` set (d_nodes d)"

lemma drop_ok:
  assumes "db_ok (w_db w)" "sel_row ib_id j (d_inbounds (w_db w)) = Some b"
  shows "wp (NodeStore_DeleteInbound j) (\<lambda>r w'. db_ok (w_db w') \<and> (\<forall>a. r = Inr a \<longrightarrow> ok_without b (w_db w'))) w"
proof -
  have "b \<in> set (d_inbounds (w_db w))" "ib_id b = j" using sel_row_SomeD [OF assms(2)] by auto
  then have "ok_without b (drop_inbound j (w_db w))"
    using assms(1) db_ok_drop_inbound [OF assms(1), of j]
    by (auto simp: ok_without_def drop_inbound_def set_del_rows db_ok_def inbounds_ok_def)
  then show ?thesis
    using keepsD [where I = db_ok, OF keeps_DeleteInbound assms(1), of j] drop_post [of j w]
    by (auto simp: wp_def becomes_db split: prod.splits)
qed

lemma restore_ok: "ok_without b (w_db w) \<Longrightarrow> wp (NodeStore_RestoreInbound b) (\<lambda>r w'. db_ok (w_db w')) w"
proof -
  assume b: "ok_without b (w_db w)"
  have "max (d_inbound_seq (w_db w)) (ib_id b) = d_inbound_seq (w_db w)"
    using b by (simp add: ok_without_def)
  then have "db_ok (add_inbound b (w_db w))"
    using db_ok_add_inbound [of "w_db w" b] b by (simp add: ok_without_def)
  then show "wp (NodeStore_RestoreInbound b) (\<lambda>r w'. db_ok (w_db w')) w"
    unfolding NodeStore_RestoreInbound_def wp_and_then
    using b by (intro wp_db_exec)
      (auto simp: becomes_db insert_inbound_def add_inbound_def ok_without_def split: if_splits
        intro!: keepsD [where I = db_ok, OF keeps_GetInbound])
qed

text \<open>A push, then an answer or the restoration.\<close>

lemma keeps_then_restore:
  assumes "ok_without b (w_db w)"
  shows "wp (do { results \<leftarrow> syncNodes (Some SyncNodes) ids;
       (case syncFailure results of
          Some err \<Rightarrow> attempt (NodeStore_RestoreInbound b) (\<lambda>e. writeError 500 (m1 @ err_text e))
              (\<lambda>_. do { restoreResults \<leftarrow> syncNodes (Some SyncNodes) ids;
                 (case syncFailure restoreResults of
                    Some restoreErr \<Rightarrow> writeError 502 (m2 @ restoreErr)
                  | None \<Rightarrow> writeError 502 (m3 @ err)) })
        | None \<Rightarrow> writeJSON 200 (p results)) }) (\<lambda>r w'. db_ok (w_db w')) w"
  unfolding wp_bind [of "syncNodes _ _"]
proof (rule wp_mono [OF keepsD [where I = "ok_without b", OF keeps_syncNodes assms]])
  fix rs and t :: world assume t: "ok_without b (w_db t)"
  show "wp (case syncFailure rs of None \<Rightarrow> writeJSON 200 (p rs)
      | Some err \<Rightarrow> attempt (NodeStore_RestoreInbound b) (\<lambda>e. writeError 500 (m1 @ err_text e))
          (\<lambda>_. do { restoreResults \<leftarrow> syncNodes (Some SyncNodes) ids;
             (case syncFailure restoreResults of
                None \<Rightarrow> writeError 502 (m3 @ err)
              | Some restoreErr \<Rightarrow> writeError 502 (m2 @ restoreErr)) })) (\<lambda>r w'. db_ok (w_db w')) t"
  proof (cases "syncFailure rs")
    case None
    then show ?thesis using t by (simp add: wp_writeJSON ok_without_def)
  next
    case (Some err)
    show ?thesis
      unfolding Some option.case
      by (rule wp_attempt_keeps [where I = db_ok, OF restore_ok [OF t]])
        (assumption | rule keepsD [where I = db_ok] kept)+
  qed
qed

lemma keeps_deleteInbound [kept]: "keeps db_ok (NodeHandler_deleteInbound (Some SyncNodes) r)"
proof (rule keepsI)
  fix w :: world assume ok: "db_ok (w_db w)"
  let ?j = "parseID (r_path r) ''/api/inbounds/''"
  show "wp (NodeHandler_deleteInbound (Some SyncNodes) r) (\<lambda>r w'. db_ok (w_db w')) w"
    unfolding NodeHandler_deleteInbound_def Let_def wp_if
  proof (intro conjI impI, goal_cases)
    case 1
    show ?case by (rule keepsD [where I = db_ok, OF _ ok]) (rule kept)
  next
    case 2
    show ?case
    proof (rule wp_attempt_keeps [where I = db_ok, OF inbound_post], goal_cases)
      case (1 e t)
      then show ?case using ok by (simp add: becomes_db)
    next
      case (2 e)
      show ?case by (rule kept)
    next
      case (3 b t)
      then have t: "db_ok (w_db t)" "sel_row ib_id ?j (d_inbounds (w_db t)) = Some b"
        using ok by (auto simp: becomes_db)
      show ?case
      proof (rule wp_attempt_keeps [where I = db_ok, OF node_post], goal_cases)
        case (1 e u)
        then show ?case using t by (simp add: becomes_db)
      next
        case (2 e)
        show ?case by (rule kept)
      next
        case (3 n u)
        then have u: "db_ok (w_db u)" "sel_row ib_id ?j (d_inbounds (w_db u)) = Some b"
          using t by (auto simp: becomes_db)
        show ?case
          unfolding wp_if
        proof (intro conjI impI, goal_cases)
          case 1
          show ?case by (rule keepsD [where I = db_ok, OF _ u(1)]) (rule kept)
        next
          case 2
          show ?case
          proof (rule wp_attempt_keeps [where I = db_ok, OF drop_ok [OF u]], goal_cases)
            case (1 e v)
            then show ?case by simp
          next
            case (2 e)
            show ?case by (rule kept)
          next
            case (3 a v)
            then have v: "ok_without b (w_db v)" by simp
            show ?case
              by (rule keeps_then_restore [OF v])
          qed
        qed
      qed
    qed
  qed
qed

section \<open>The other handlers\<close>

lemmas keep_handler = keeps_if keeps_let keeps_attempt keeps_option keeps_bind

lemma keeps_reads [kept]: "keeps I UserStore_List" "keeps I UserStore_ListEnabled" "keeps I (UserStore_GetBySubToken s)"
  "keeps I (UserStore_GetByUsername s)" "keeps I NodeStore_List" "keeps I NodeStore_ListEnabled"
  "keeps I (NodeStore_GetByToken s)" "keeps I (NodeStore_ListInbounds i)" "keeps I (AccessStore_ListNodeIDs i)"
  "keeps I (AccessStore_CountForNode i)" "keeps I (AccessStore_UsersForNode i)" "keeps I TrafficStore_NodeTotals"
  "keeps I (TrafficStore_Usage loc q)"
  unfolding UserStore_List_def UserStore_ListEnabled_def UserStore_GetBySubToken_def UserStore_GetByUsername_def
    NodeStore_List_def NodeStore_ListEnabled_def NodeStore_GetByToken_def NodeStore_ListInbounds_def
    AccessStore_ListNodeIDs_def AccessStore_CountForNode_def AccessStore_UsersForNode_def
    TrafficStore_NodeTotals_def TrafficStore_Usage_def Let_def
  by (intro kept)+

lemma keeps_GetWithInbounds [kept]: "keeps I (NodeStore_GetWithInbounds i)"
  unfolding NodeStore_GetWithInbounds_def by (intro kept)

lemma keeps_generate [kept]: "keeps I (generateConfig i)"
  unfolding generateConfig_def by (intro kept)

lemma keeps_sshConnect [kept]: "keeps I (sshConnect rs n)"
  unfolding sshConnect_def by (intro kept)

lemma keeps_ConfigHandler [kept]: "keeps I (ConfigHandler_ServeHTTP r)"
  unfolding ConfigHandler_ServeHTTP_def ConfigHandler_generate_def ConfigHandler_push_def
    ConfigHandler_getRawConfig_def
  by (intro kept)

lemma keeps_restoreUser [kept]: "keeps db_ok (restoreUser u ids)"
  unfolding restoreUser_def by (intro kept)

lemma keeps_UserHandler [kept]: "keeps db_ok (UserHandler_ServeHTTP (Some SyncNodes) r)"
  unfolding UserHandler_ServeHTTP_def UserHandler_list_def UserHandler_create_def UserHandler_get_def
    UserHandler_update_def UserHandler_delete_def UserHandler_resetTraffic_def UserHandler_resetSubToken_def
  by (intro kept)

lemma keeps_AccessHandler [kept]: "keeps db_ok (AccessHandler_ServeHTTP (Some SyncNodes) r)"
  unfolding AccessHandler_ServeHTTP_def AccessHandler_listAccess_def AccessHandler_grantAccess_def
    AccessHandler_revokeAccess_def AccessHandler_replaceAccess_def change_access_def
    completeAccessChange_def nodes_by_id_def
  by (intro kept)

lemma keeps_NodeHandler [kept]: "keeps db_ok (NodeHandler_ServeHTTP (Some SyncNodes) r)"
  unfolding NodeHandler_ServeHTTP_def NodeHandler_list_def NodeHandler_create_def NodeHandler_get_def
    NodeHandler_update_def NodeHandler_delete_def store_node_update_def
  by (intro kept)

lemma keeps_Reorder [kept]: "keeps db_ok (NodeHandler_Reorder r)"
  "keeps db_ok (NodeHandler_ReorderInbounds (Some SyncNodes) r)"
  unfolding NodeHandler_Reorder_def NodeHandler_ReorderInbounds_def
  by (intro kept)+

lemma keeps_Stats [kept]: "keeps I (HandleUsage loc r)" "keeps I (HandleMyUsage loc r)"
  "keeps I HandleUserStats" "keeps I HandleNodeStats" "keeps I (HandleMeta loc)"
  unfolding HandleUsage_def HandleMyUsage_def HandleUserStats_def HandleNodeStats_def HandleMeta_def
    usage_response_def
  by (intro kept)+

lemma keeps_HandleMe [kept]: "keeps I (HandleMe r)" "keeps I (HandleMyNodes r)"
  unfolding HandleMe_def HandleMyNodes_def my_node_def by (intro kept)+

lemma keeps_hash [kept]: "keeps I (GenerateFromPassword lib s)"
  by (simp add: GenerateFromPassword_def keeps_def wp_step next_tick_def)

lemma keeps_jwt [kept]: "keeps I (generateJWT lib h i role name)"
  unfolding generateJWT_def by (intro kept)

lemma keeps_login [kept]: "keeps db_ok (HandleLogin lib h r)" "keeps db_ok (HandleRegister lib r)"
  unfolding HandleLogin_def HandleRegister_def Let_def by (intro kept)+

lemma keeps_middleware [kept]:
  assumes "\<And>r. keeps I (k r)"
  shows "keeps I (JWTAuth lib h k r)" and "keeps I (AdminOnly lib h k r)"
  unfolding AdminOnly_def JWTAuth_def Let_def by (intro kept assms)+

lemma keeps_batch [kept]: "keeps I (PushAll r)" "keeps I ApplyTemplate"
  unfolding PushAll_def ApplyTemplate_def by (intro kept)+

lemma keeps_Subscription [kept]: "keeps db_ok (Subscription_ServeHTTP r)"
  unfolding Subscription_ServeHTTP_def subscription_nodes_def accessible_node_def subscription_text_def
  by (intro kept)

section \<open>Traffic reports\<close>

definition known :: "int set \<Rightarrow> int set \<Rightarrow> db \<Rightarrow> bool" where
  "known ns us d \<longleftrightarrow> db_ok d \<and> ns \<subseteq> n_id ` set (d_nodes d) \<and> us \<subseteq> u_id ` set (d_users d)"

lemma keeps_known_traffic:
  assumes "n \<in> ns" "u \<in> us"
  shows "keeps (known ns us) (UserStore_AddTraffic u up down)" "keeps (known ns us) (TrafficStore_Record n u up down)"
proof -
  have "known ns us (upd_user u (add_user_traffic up down now) d)" if "known ns us d" for now d
    using that db_ok_upd_same [of d "add_user_traffic up down now" u]
    by (simp add: known_def same_keys_def add_user_traffic_def ids_upd_user)
  then show "keeps (known ns us) (UserStore_AddTraffic u up down)"
    unfolding UserStore_AddTraffic_def
    by (intro kept keeps_exec) (auto simp: set_user_def simp flip: upd_user_def)
  show "keeps (known ns us) (TrafficStore_Record n u up down)"
    by (rule keeps_Record) (use assms in \<open>auto simp: known_def\<close>)
qed

lemma find_in: "Some x = List.find P xs \<Longrightarrow> x \<in> set xs" "List.find P xs = Some x \<Longrightarrow> x \<in> set xs"
  by (auto simp: find_Some_iff eq_commute [of "Some x"])

lemma reported_user_in: "reported_user users key = Some u \<Longrightarrow> u \<in> set users"
  by (auto simp: reported_user_def find_Some_iff split: option.splits) (metis nth_mem set_rev length_rev)+

lemma keeps_account: "keeps (known {n_id node} (u_id ` set users)) (account_traffic node users e)"
proof (cases e)
  case (fields key up down)
  show ?thesis
  proof (cases "reported_user users key")
    case None
    then show ?thesis by (simp add: fields account_traffic_def kept)
  next
    case (Some u)
    then have "u_id u \<in> u_id ` set users" by (simp add: reported_user_in)
    then show ?thesis
      by (auto simp: fields account_traffic_def Some intro!: kept keeps_known_traffic)
  qed
qed

lemma listed_users: "wp UserStore_List (\<lambda>r w'. becomes w (w_db w) w' \<and>
    (\<forall>us. r = Inr us \<longrightarrow> u_id ` set us = u_id ` set (d_users (w_db w)))) w"
  unfolding UserStore_List_def by (rule wp_db_query) (auto simp: scan_user_def image_image)

lemma keeps_report [kept]: "keeps db_ok (HandleTrafficReport r)"
proof (rule keepsI)
  fix w :: world assume ok: "db_ok (w_db w)"
  show "wp (HandleTrafficReport r) (\<lambda>r w'. db_ok (w_db w')) w"
  proof (cases "as_traffic (r_body r)")
    case None
    then show ?thesis using ok by (simp add: HandleTrafficReport_def wp_step)
  next
    case (Some entries)
    have tok: "wp (NodeStore_GetByToken t) (\<lambda>r w'. becomes w (w_db w) w' \<and>
        (\<forall>n. r = Inr n \<longrightarrow> n \<in> set (d_nodes (w_db w)))) w" for t
      by (auto simp: NodeStore_GetByToken_def fail_def wp_step becomes_def
          intro!: wp_db_query elim!: row_or_none.elims dest!: find_in)
    show ?thesis
      unfolding HandleTrafficReport_def Let_def Some option.case
    proof (rule wp_attempt_keeps [where I = db_ok, OF tok], goal_cases)
      case (1 e t)
      then show ?case using ok by (simp add: becomes_db)
    next
      case (2 e)
      show ?case by (rule kept)
    next
      case (3 n t)
      then have t: "w_db t = w_db w" "n \<in> set (d_nodes (w_db w))" by (simp_all add: becomes_def)
      show ?case
      proof (rule wp_attempt_keeps [where I = db_ok, OF listed_users], goal_cases)
        case (1 e u)
        then show ?case using ok t by (simp add: becomes_db)
      next
        case (2 e)
        show ?case by (rule kept)
      next
        case (3 us u)
        then have "known {n_id n} (u_id ` set us) (w_db u)"
          using ok t by (simp add: becomes_def known_def)
        then show ?case
          by (rule keeps_weaken [where I = "known {n_id n} (u_id ` set us)" and J = db_ok, rotated])
            (auto simp: known_def [of _ _ "_ :: db"] intro!: kept keeps_account)
      qed
    qed
  qed
qed

section \<open>Polling\<close>

lemma keeps_account_user:
  assumes "n \<in> ns" "\<And>name u. names name = Some u \<Longrightarrow> u \<in> us"
  shows "keeps (known ns us) (account_user n names e)"
  unfolding account_user_def
  by (cases e) (auto split: option.splits intro!: kept keeps_known_traffic [OF assms(1)] assms(2))

lemma keeps_pollNode:
  assumes "n_id n \<in> ns" "\<And>name u. names name = Some u \<Longrightarrow> u \<in> us"
  shows "keeps (known ns us) (pollNodeGuarded pw env names n po)"
proof -
  have "keeps (known ns us) (pollNode pw env names n po)" for po
    unfolding pollNode_def poller_get_def Let_def
    by (intro kept keeps_account_user [OF assms])
  then show ?thesis unfolding pollNodeGuarded_def by (intro kept)
qed

lemma keeps_poll_nodes: "(\<And>name u. names name = Some u \<Longrightarrow> u \<in> us) \<Longrightarrow> n_id ` set nodes \<subseteq> ns \<Longrightarrow>
    keeps (known ns us) (poll_nodes pw env names nodes po)"
  by (induction nodes arbitrary: po) (auto intro!: kept keeps_pollNode)

lemma name_to_user_ids: "name_to_user us name = Some i \<Longrightarrow> i \<in> u_id ` set us"
  by (auto simp: name_to_user_def dest!: map_of_SomeD)

lemma keeps_pollAll: "keeps db_ok (pollAll pw env po)"
proof (rule keepsI)
  fix w :: world assume ok: "db_ok (w_db w)"
  have nodes: "wp NodeStore_ListEnabled (\<lambda>r w'. becomes w (w_db w) w' \<and>
      (\<forall>ns. r = Inr ns \<longrightarrow> set ns \<subseteq> set (d_nodes (w_db w)))) w"
    unfolding NodeStore_ListEnabled_def by (rule wp_db_query) auto
  show "wp (pollAll pw env po) (\<lambda>r w'. db_ok (w_db w')) w"
    unfolding pollAll_def
  proof (rule wp_attempt_keeps [where I = db_ok, OF nodes], goal_cases)
    case (1 e t)
    then show ?case using ok by (simp add: becomes_db)
  next
    case (2 e)
    show ?case by (rule kept)
  next
    case (3 ns t)
    then have t: "w_db t = w_db w" "set ns \<subseteq> set (d_nodes (w_db w))" by (simp_all add: becomes_def)
    show ?case
    proof (rule wp_attempt_keeps [where I = db_ok, OF listed_users], goal_cases)
      case (1 e u)
      then show ?case using ok t by (simp add: becomes_db)
    next
      case (2 e)
      show ?case by (rule kept)
    next
      case (3 us u)
      let ?I = "known (n_id ` set ns) (u_id ` set us)"
      have "?I (w_db u)" using 3 ok t by (auto simp: becomes_def known_def)
      then show ?case
        by (rule keeps_weaken [where I = ?I and J = db_ok, rotated])
          (auto simp: known_def [of _ _ "_ :: db"] intro!: keeps_poll_nodes dest: name_to_user_ids)
    qed
  qed
qed

section \<open>The panel\<close>

lemma longest_in: "longest path rs = Some (pat, h) \<Longrightarrow> (pat, h) \<in> set rs"
  by (induction path rs arbitrary: pat h rule: longest.induct) (auto split: if_splits option.splits)

lemma keeps_routes:
  assumes "(pat, h) \<in> set (routes p)"
  shows "keeps db_ok (h r)"
  using assms
  by (auto simp: routes_def public_routes_def session_routes_def admin_routes_def user_routes_def
      node_routes_def Let_def intro!: kept)

lemma keeps_serve:
  assumes "\<And>pat h. (pat, h) \<in> set (routes p) \<Longrightarrow> keeps I (h r)"
  shows "keeps I (panel_serve p r)"
proof (cases "longest (r_path r) (routes p)")
  case None
  then show ?thesis by (simp add: panel_serve_def kept)
next
  case (Some ph)
  obtain pat h where ph: "ph = (pat, h)" by (cases ph)
  from longest_in [OF Some [unfolded ph]] show ?thesis
    by (simp add: panel_serve_def Some ph assms)
qed

text \<open>
  A step of the panel: a request is served, old samples are pruned, the nodes are polled, or
  something outside the panel happens (time passes, a machine changes), which leaves the
  database alone.
\<close>

inductive panel_step :: "panel \<Rightarrow> world \<Rightarrow> world \<Rightarrow> bool" for p where
  serve: "run_state (panel_serve p r) w = (rp, w') \<Longrightarrow> panel_step p w w'"
| prune: "run_state (TrafficStore_Prune (pn_loc p)) w = (n, w') \<Longrightarrow> panel_step p w w'"
| poll: "run_state (pollAll pw env po) w = (po', w') \<Longrightarrow> panel_step p w w'"
| outside: "w_db w' = w_db w \<Longrightarrow> panel_step p w w'"

inductive reachable :: "panel \<Rightarrow> world \<Rightarrow> bool" for p where
  start: "w_db w = empty_db \<Longrightarrow> reachable p w"
| step: "reachable p w \<Longrightarrow> panel_step p w w' \<Longrightarrow> reachable p w'"

inductive_cases panel_stepE: "panel_step p w w'"

text \<open>What every step keeps and the empty database satisfies holds in every reachable world.\<close>

lemma panel_step_keeps:
  assumes "panel_step p w w'" "I (w_db w)"
    and "\<And>r pat h. (pat, h) \<in> set (routes p) \<Longrightarrow> keeps I (h r)" "keeps I (TrafficStore_Prune (pn_loc p))"
    and "\<And>pw env po. keeps I (pollAll pw env po)"
  shows "I (w_db w')"
  using assms(1)
proof (rule panel_stepE)
  fix r rp assume run: "run_state (panel_serve p r) w = (rp, w')"
  have "keeps I (panel_serve p r)" by (rule keeps_serve) (rule assms(3))
  from wp_run [OF keepsD [where I = I, OF this assms(2)] run] show ?thesis .
next
  fix n assume "run_state (TrafficStore_Prune (pn_loc p)) w = (n, w')"
  from wp_run [OF keepsD [where I = I, OF assms(4,2)] this] show ?thesis .
next
  fix pw env po po' assume "run_state (pollAll pw env po) w = (po', w')"
  from wp_run [OF keepsD [where I = I, OF assms(5,2)] this] show ?thesis .
qed (use assms(2) in simp)

lemma reachable_keeps:
  assumes "reachable p w" "I empty_db"
    and "\<And>r pat h. (pat, h) \<in> set (routes p) \<Longrightarrow> keeps I (h r)" "keeps I (TrafficStore_Prune (pn_loc p))"
    and "\<And>pw env po. keeps I (pollAll pw env po)"
  shows "I (w_db w)"
  using assms(1)
proof induction
  case (step w w')
  then show ?case using panel_step_keeps [of p w w' I] assms(3-5) by blast
qed (simp add: assms(2))

lemma reachable_ok: "reachable p w \<Longrightarrow> db_ok (w_db w)"
  by (erule reachable_keeps [where I = db_ok])
    (assumption | rule db_ok_empty keeps_Prune keeps_pollAll | erule keeps_routes)+

end
