(* ===== verification/Liveness.thy ===== *)
theory Liveness
  imports Reachable
begin

text \<open>
  What the panel achieves when nothing fails: the nodes that are pushed are reached, and a
  valid change of a user or of its nodes is answered with success.
\<close>

section \<open>An environment without failures\<close>

definition remote_works :: "remote_script \<Rightarrow> bool" where
  "remote_works rs \<longleftrightarrow> rs_key_usable rs \<and> rs_dial rs \<and> rs_write rs \<and> rs_check rs \<and> rs_mkdir rs
     \<and> rs_backup rs \<and> rs_copy rs \<and> rs_rm_tmp rs \<and> rs_restart rs \<and> rs_rm_backup rs"

definition reliable :: "env \<Rightarrow> bool" where
  "reliable e \<longleftrightarrow> (\<forall>t. \<not> db_fault e t) \<and> (\<forall>t. remote_works (remote e t))"

lemma reliable_becomes: "becomes w d w' \<Longrightarrow> reliable (w_env w) \<Longrightarrow> reliable (w_env w')"
  by (simp add: becomes_def)

lemma wp_query_reliable:
  assumes "reliable (w_env w)" "\<And>w'. becomes w (w_db w) w' \<Longrightarrow> Q (q (w_db w)) w'"
  shows "wp (db_query q) Q w"
  using assms by (simp add: db_query_def wp_step becomes_def next_tick_def reliable_def)

section \<open>Pushing\<close>

lemma deploy_script_works:
  assumes "remote_works rs" "m_files m tmpPath \<noteq> None"
  shows "snd (deploy_script rs path m)"
  using assms
  by (auto simp: remote_works_def deploy_script_def deploy_restart_def sh_then_def cp_def rm_f_def
      systemctl_restart_def write_file_def Let_def split: option.splits)

lemma wp_push_reliable:
  assumes "reliable (w_env w)"
  shows "wp (pushViaSSHUnlocked n doc) (\<lambda>r w'. r = Inr () \<and> same_db w w') w"
proof -
  have works: "remote_works (remote (w_env w) t)" for t using assms by (simp add: reliable_def)
  have dep: "snd (deploy_script (remote (w_env w) t) p (write_file tmpPath (Some (RawJson doc)) m))" for t p m
    by (rule deploy_script_works [OF works]) (simp add: write_file_def)
  have st: "st" if "deploy_script (remote (w_env w) t) p (write_file tmpPath (Some (RawJson doc)) m) = (m', st)"
    for t p m m' st using dep [of t p m] that by simp
  note parts = works [unfolded remote_works_def]
  show ?thesis
    unfolding pushViaSSHUnlocked_def next_remote_def sshConnect_def fail_def ok_def
    using parts by (auto simp: wp_step next_tick_def same_db_def sshWriteFile_def
        intro!: wp_on_machine split: if_splits) (erule st)+
qed

text \<open>The nodes that can be pushed.\<close>

definition pushable :: "int \<Rightarrow> db \<Rightarrow> bool" where
  "pushable i d \<longleftrightarrow> (\<exists>n. sel_row n_id i (d_nodes d) = Some n \<and> n_proxy_type n = ''singbox'')"

lemma wp_generateConfig_reliable:
  assumes "reliable (w_env w)"
  shows "wp (generateConfig i) (\<lambda>r w'. \<exists>doc. r = Inr doc \<and> same_db w w') w"
  using assms
  unfolding generateConfig_def AccessStore_UsersForNode_def UserStore_ListEnabled_def
    NodeStore_ListInbounds_def ok_def Let_def
  by (auto simp: wp_step becomes_def same_db_def intro!: wp_query_reliable)

lemma wp_syncNode_reliable:
  assumes "reliable (w_env w)" "pushable i (w_db w)"
  shows "wp (syncNode i) (\<lambda>r w'. sr_status r = ''pushed'' \<and> same_db w w') w"
proof -
  obtain n where n: "sel_row n_id i (d_nodes (w_db w)) = Some n" "n_proxy_type n = ''singbox''"
    using assms(2) by (auto simp: pushable_def)
  show ?thesis
    unfolding syncNode_def NodeStore_Get_def wp_attempt
  proof (rule wp_query_reliable [OF assms(1)], goal_cases)
    case (1 w0)
    then have w0: "reliable (w_env w0)" "same_db w w0"
      using assms(1) by (simp_all add: becomes_def same_db_def)
    have push: "wp (attempt (pushViaSSHUnlocked n doc) (\<lambda>e. sync_error i (n_name n) ''error'' (''push: '' @ err_text e))
        (\<lambda>_. sync_error i (n_name n) ''pushed'' [])) (\<lambda>r w'. sr_status r = ''pushed'' \<and> same_db w w') w1"
      if "same_db w0 w1" for w1 doc
      unfolding wp_attempt
      by (rule wp_mono [OF wp_push_reliable])
        (use that w0 in \<open>auto simp: sync_error_def wp_step same_db_def\<close>)
    have "wp (attempt (generateConfig i)
        (\<lambda>e. sync_error i (n_name n) ''error'' (''generate: '' @ err_text e))
        (\<lambda>config. attempt (pushViaSSHUnlocked n config)
          (\<lambda>e. sync_error i (n_name n) ''error'' (''push: '' @ err_text e))
          (\<lambda>_. sync_error i (n_name n) ''pushed'' []))) (\<lambda>r w'. sr_status r = ''pushed'' \<and> same_db w w') w0"
      unfolding wp_attempt [of "generateConfig i"]
    proof (rule wp_mono [OF wp_generateConfig_reliable [OF w0(1)]], elim exE conjE, intro conjI allI impI, goal_cases)
      case (1 r t doc e)
      then show ?case by simp
    next
      case (2 r t doc config)
      from push [OF 2(2)] show ?case .
    qed
    with n show ?case by simp
  qed
qed

lemma wp_map_syncNode_reliable:
  assumes "reliable (w_env w)" "\<forall>i \<in> set ids. pushable i (w_db w)"
  shows "wp (map_each syncNode ids) (\<lambda>rs w'. (\<forall>r \<in> set rs. sr_status r = ''pushed'') \<and> same_db w w') w"
  using assms
proof (induction ids arbitrary: w)
  case Nil
  then show ?case by (simp add: wp_step same_db_def)
next
  case (Cons i ids)
  show ?case
    unfolding map_each.simps wp_bind
  proof (rule wp_mono [OF wp_syncNode_reliable [OF Cons.prems(1)]])
    show "pushable i (w_db w)" using Cons.prems(2) by simp
    fix r :: sync_result and w1 assume r: "sr_status r = ''pushed'' \<and> same_db w w1"
    then have "reliable (w_env w1)" "\<forall>i \<in> set ids. pushable i (w_db w1)"
      using Cons.prems by (simp_all add: same_db_def)
    from Cons.IH [OF this] show "wp (map_each syncNode ids) (\<lambda>rs. wp (State_Monad.return (r # rs))
      (\<lambda>rs w'. (\<forall>r \<in> set rs. sr_status r = ''pushed'') \<and> same_db w w')) w1"
      by (rule wp_mono) (use r in \<open>auto simp: wp_step same_db_def\<close>)
  qed
qed

lemma wp_SyncNodes_reliable:
  assumes "reliable (w_env w)" "\<And>i. i \<in> set ids \<Longrightarrow> 0 < i \<Longrightarrow> pushable i (w_db w)"
  shows "wp (SyncNodes ids) (\<lambda>rs w'. syncFailure rs = None \<and> same_db w w') w"
  unfolding SyncNodes_def
  by (rule wp_mono [OF wp_map_syncNode_reliable [OF assms(1)]])
    (use assms(2) in \<open>auto simp: syncFailure_None uniqueNodeIDs_eq set_uniqueSortedIDs\<close>)

lemma wp_syncNodes_reliable:
  assumes "reliable (w_env w)" "\<And>i. i \<in> set ids \<Longrightarrow> 0 < i \<Longrightarrow> pushable i (w_db w)"
  shows "wp (syncNodes (Some SyncNodes) ids) (\<lambda>rs w'. syncFailure rs = None \<and> same_db w w') w"
proof (cases "ids = []")
  case True
  then show ?thesis by (simp add: syncNodes_def wp_step same_db_def syncFailure_def)
next
  case False
  then show ?thesis using wp_SyncNodes_reliable [OF assms] by (simp add: syncNodes_def)
qed

section \<open>Statements that succeed\<close>

text \<open>\<open>sure m P\<close>: where \<open>P\<close> holds of the database, \<open>m\<close> succeeds in a reliable environment.\<close>

definition sure :: "'a res \<Rightarrow> (db \<Rightarrow> bool) \<Rightarrow> bool" where
  "sure m P \<longleftrightarrow> (\<forall>w. reliable (w_env w) \<longrightarrow> P (w_db w) \<longrightarrow> wp m (\<lambda>r w'. \<exists>a. r = Inr a) w)"

lemma sureD: "sure m P \<Longrightarrow> reliable (w_env w) \<Longrightarrow> P (w_db w) \<Longrightarrow> wp m (\<lambda>r w'. \<exists>a. r = Inr a) w"
  by (simp add: sure_def)

lemma sure_weaken: "sure m P \<Longrightarrow> (\<And>d. R d \<Longrightarrow> P d) \<Longrightarrow> sure m R"
  by (auto simp: sure_def)

lemma sure_query: "sure (db_query q) (\<lambda>d. \<exists>a. q d = Inr a)"
  by (auto simp: sure_def intro!: wp_query_reliable)

lemma sure_exec: "sure (db_exec f) (\<lambda>d. \<exists>p. f d = Inr p)"
proof -
  have "wp (db_exec f) (\<lambda>r w'. \<exists>a. r = Inr a) w" if "reliable (w_env w)" "\<exists>p. f (w_db w) = Inr p" for w
    using that by (auto simp: db_exec_def wp_step next_tick_def reliable_def split: prod.splits)
  then show ?thesis by (simp add: sure_def)
qed

lemma sure_ok: "sure (ok a) (\<lambda>d. True)"
  by (simp add: sure_def ok_def wp_step)

lemma wp_both: "wp m P w \<Longrightarrow> wp m Q w \<Longrightarrow> wp m (\<lambda>r w'. P r w' \<and> Q r w') w"
  by (auto simp: wp_def split: prod.splits)

lemma sure_and_then:
  assumes "does m f M" "sure m P" "\<And>a. sure (k a) (R a)"
    and "\<And>now d a. P d \<Longrightarrow> M now d a \<Longrightarrow> R a (f now d)"
  shows "sure (and_then m k) P"
  unfolding sure_def
proof (intro allI impI)
  fix w :: world assume w: "reliable (w_env w)" "P (w_db w)"
  note both = wp_both [OF sureD [OF assms(2) w] assms(1) [unfolded does_def, rule_format, of w]]
  show "wp (and_then m k) (\<lambda>r w'. \<exists>a. r = Inr a) w"
    unfolding wp_and_then
  proof (rule wp_mono [OF both], goal_cases)
    case (1 r w1)
    then obtain a where a: "r = Inr a" and w1: "w_db w1 = f (w_now w) (w_db w)" "M (w_now w) (w_db w) a"
      "w_env w1 = w_env w" by (auto simp: becomes_def)
    then have "wp (k a) (\<lambda>r w'. \<exists>b. r = Inr b) w1"
      using sureD [OF assms(3), of w1 a] w assms(4) [OF w(2) w1(2)] by simp
    with a show ?case by simp
  qed
qed

lemma sure_if: "sure m P \<Longrightarrow> sure (if c then fail e else m) (\<lambda>d. \<not> c \<and> P d)"
  by (cases c) (auto simp: sure_def)

lemma sure_for_each:
  assumes "\<And>x. does (f x) (g x) (\<lambda>now d _. True)" "\<And>x. sure (f x) (P x)"
    and "\<And>x y now d. x \<noteq> y \<Longrightarrow> P y d \<Longrightarrow> P y (g x now d)" "distinct xs"
  shows "sure (for_each f xs) (\<lambda>d. \<forall>x \<in> set xs. P x d)"
  using assms(4)
proof (induction xs)
  case Nil
  then show ?case by (simp add: sure_def wp_step)
next
  case (Cons x xs)
  then have IH: "sure (for_each f xs) (\<lambda>d. \<forall>x \<in> set xs. P x d)" by simp
  show ?case
    unfolding for_each.simps
  proof (rule sure_and_then [OF assms(1) _ IH])
    show "sure (f x) (\<lambda>d. \<forall>y \<in> set (x # xs). P y d)"
      by (rule sure_weaken [OF assms(2)]) simp
    show "\<forall>y \<in> set xs. P y (g x now d)" if "\<forall>y \<in> set (x # xs). P y d" for now d
      using that Cons.prems assms(3) [of x] by (metis distinct.simps(2) list.set_intros(2))
  qed
qed

lemma sure_transaction:
  assumes "does m f M" "sure m P"
  shows "sure (transaction m) P"
  unfolding sure_def
proof (intro allI impI)
  fix w :: world assume w: "reliable (w_env w)" "P (w_db w)"
  show "wp (transaction m) (\<lambda>r w'. \<exists>a. r = Inr a) w"
    unfolding transaction_def wp_and_then
  proof (rule wp_query_reliable [OF w(1)]; clarsimp)
    fix w0 assume w0: "becomes w (w_db w) w0"
    have "wp m (\<lambda>r w1. (\<exists>a. r = Inr a) \<and> reliable (w_env w1)) w0"
      by (rule wp_mono [OF wp_both [OF sureD [OF assms(2)] assms(1) [unfolded does_def, rule_format]]])
        (use w w0 in \<open>auto simp: becomes_def\<close>)
    then show "wp (attempt m (\<lambda>e. rollback_to (w_db w) \<bind> (\<lambda>_. State_Monad.return (Inl e)))
        (\<lambda>a. attempt (db_query (\<lambda>_. Inr ())) (\<lambda>e. rollback_to (w_db w) \<bind> (\<lambda>_. State_Monad.return (Inl e)))
          (\<lambda>_. State_Monad.return (Inr a)))) (\<lambda>r w'. \<exists>a. r = Inr a) w0"
      unfolding wp_attempt [of m] by (rule wp_mono) (auto simp: wp_step intro!: wp_query_reliable)
  qed
qed

section \<open>A valid edit of a user\<close>

lemma sure_when_given: "(\<And>v. sure (f v) (P v)) \<Longrightarrow> sure (when_given x f) (\<lambda>d. \<forall>v. x = Some v \<longrightarrow> P v d)"
  by (cases x) (auto simp: when_given_def sure_def wp_step)

lemma sure_set_user: "sure (db_exec (set_user i g)) (\<lambda>d. True)"
  by (rule sure_weaken [OF sure_exec]) (simp add: set_user_def)

lemma sure_set_user_name: "sure (db_exec (set_user_name i v now)) (name_free i (Some v))"
  by (rule sure_weaken [OF sure_exec])
    (auto simp: set_user_name_def set_user_def name_free_def list_ex_iff)

lemma sure_applyUserUpdate: "sure (applyUserUpdate i req) (name_free i (uu_name req))"
proof -
  have set: "sure (when_given x (\<lambda>v. db_exec (set_user i (g v)))) (\<lambda>d. True)"
    for x :: "'x option" and g
    by (rule sure_weaken [OF sure_when_given [OF sure_set_user]]) simp
  have name: "sure (when_given (uu_name req) (\<lambda>v. db_exec (set_user_name i v now))) (name_free i (uu_name req))" for now
    by (rule sure_weaken [OF sure_when_given [OF sure_set_user_name]]) auto
  have now: "sure (do { now \<leftarrow> get_now_text; k now }) P" if "\<And>now. sure (k now) P" for k :: "string \<Rightarrow> unit res" and P
    using that by (simp add: sure_def wp_step)
  show ?thesis
    unfolding applyUserUpdate_def
    by (rule now, rule sure_and_then [OF does_set_user_name name],
        (rule sure_and_then [OF does_when_set_user set])+, rule set) simp_all
qed

lemma sure_count_users: "sure (count_users i) (\<lambda>d. True)" and sure_count_nodes: "sure (count_nodes i) (\<lambda>d. True)"
  unfolding count_users_def count_nodes_def by (rule sure_weaken [OF sure_query], simp)+

lemma sure_fail_if: "sure (if c then fail e else ok a) (\<lambda>d. \<not> c)"
  by (rule sure_weaken [OF sure_if [OF sure_ok]]) simp

lemma sure_require_node: "sure (require_node i) (\<lambda>d. i \<in> n_id ` set (d_nodes d))"
  unfolding require_node_def
  by (rule sure_and_then [OF does_count_nodes sure_weaken [OF sure_count_nodes] sure_fail_if])
    (auto simp: count_rows_zero)

lemma sure_require_nodes: "distinct ids \<Longrightarrow> sure (for_each require_node ids) (\<lambda>d. \<forall>i \<in> set ids. i \<in> n_id ` set (d_nodes d))"
  by (rule sure_for_each [where g = "\<lambda>x now d. d"])
    (auto intro: does_weaken [OF does_require_node] sure_require_node)

lemma sure_insert_accesses: "distinct ids \<Longrightarrow> sure (for_each (insert_access i) ids) (\<lambda>d. \<forall>k \<in> set ids. (i, k) \<notin> set (d_access d))"
proof (rule sure_for_each)
  show "does (insert_access i k) (\<lambda>now d. d\<lparr>d_access := d_access d @ [(i, k)]\<rparr>) (\<lambda>now d _. True)" for k
    by (rule does_weaken [OF does_insert_access]) simp
  show "sure (insert_access i k) (\<lambda>d. (i, k) \<notin> set (d_access d))" for k
    unfolding insert_access_def by (rule sure_weaken [OF sure_exec]) auto
qed auto

lemma sure_replace_access: "distinct ids \<Longrightarrow>
    sure (and_then (delete_access_of_user i) (\<lambda>_. for_each (insert_access i) ids)) (\<lambda>d. True)"
proof (rule sure_and_then [OF does_delete_access])
  show "sure (delete_access_of_user i) (\<lambda>d. True)"
    unfolding delete_access_of_user_def by (rule sure_weaken [OF sure_exec]) auto
  show "distinct ids \<Longrightarrow> sure (for_each (insert_access i) ids) (\<lambda>d. \<forall>k \<in> set ids. (i, k) \<notin> set (d_access d))" for a
    by (rule sure_insert_accesses)
qed simp

text \<open>The transactions of the edit with and without an assignment, and the final \<open>Get\<close>.\<close>

definition valid_edit :: "int \<Rightarrow> update_user_req \<Rightarrow> int list option \<Rightarrow> db \<Rightarrow> bool" where
  "valid_edit k req ids d \<longleftrightarrow> k \<in> u_id ` set (d_users d) \<and> name_free k (uu_name req) d
     \<and> (\<forall>l. ids = Some l \<longrightarrow> (\<forall>i \<in> set l. 0 < i \<longrightarrow> i \<in> n_id ` set (d_nodes d)))"

lemma sure_Get: "sure (UserStore_Get k) (\<lambda>d. k \<in> u_id ` set (d_users d))"
  unfolding UserStore_Get_def
  by (rule sure_weaken [OF sure_query])
    (metis option.exhaust option.simps(9) row_or_none.simps(2) sel_row_None)

lemma does_transaction: "does m f P \<Longrightarrow> does (transaction m) f P"
  unfolding does_def [of "transaction m"]
  by (intro allI, erule wp_transaction_does) (auto simp: becomes_def)

lemma sure_Update: "sure (UserStore_Update k req) (valid_edit k req None)"
proof -
  note does = does_and_then [OF does_applyUserUpdate does_and_then [OF does_count_users does_check]]
  have body: "sure (and_then (applyUserUpdate k req) (\<lambda>_. and_then (count_users k)
      (\<lambda>exists. if exists = 0 then fail ErrNoRows else ok ()))) (valid_edit k req None)"
  proof (rule sure_and_then [OF does_applyUserUpdate sure_weaken [OF sure_applyUserUpdate]])
    show "sure (and_then (count_users k) (\<lambda>exists. if exists = 0 then fail ErrNoRows else ok ()))
        (\<lambda>d. k \<in> u_id ` set (d_users d))" for a
      by (rule sure_and_then [OF does_count_users sure_weaken [OF sure_count_users] sure_fail_if])
        (auto simp: count_rows_zero)
  qed (auto simp: valid_edit_def ids_upd_user)
  show ?thesis
    unfolding UserStore_Update_def
    by (rule sure_and_then [OF does_transaction [OF does] sure_transaction [OF does body] sure_Get])
      (auto simp: valid_edit_def ids_upd_user)
qed

lemma sure_UpdateWithAccess: "sure (UserStore_UpdateWithAccess k req ids) (valid_edit k req (Some ids))"
proof -
  note distinct = distinct_uniqueSortedIDs [of ids]
  note does_rest = does_and_then [OF does_require_nodes [of "uniqueSortedIDs ids"]
      does_and_then [OF does_applyUserUpdate [of k req] does_replace_access [of k "uniqueSortedIDs ids"]]]
  note does = does_and_then [OF does_count_users does_if [OF does_rest]]
  have rest: "sure (and_then (for_each require_node (uniqueSortedIDs ids)) (\<lambda>_.
         and_then (applyUserUpdate k req) (\<lambda>_.
         and_then (delete_access_of_user k) (\<lambda>_. for_each (insert_access k) (uniqueSortedIDs ids)))))
      (valid_edit k req (Some ids))"
    by (rule sure_and_then [OF does_require_nodes sure_weaken [OF sure_require_nodes [OF distinct]]
          sure_and_then [OF does_applyUserUpdate sure_applyUserUpdate sure_replace_access [OF distinct]]])
      (auto simp: valid_edit_def set_uniqueSortedIDs)
  have body: "sure (and_then (count_users k) (\<lambda>exists. if exists = 0 then fail ErrNoRows
       else and_then (for_each require_node (uniqueSortedIDs ids)) (\<lambda>_.
         and_then (applyUserUpdate k req) (\<lambda>_.
         and_then (delete_access_of_user k) (\<lambda>_. for_each (insert_access k) (uniqueSortedIDs ids))))))
      (valid_edit k req (Some ids))"
    by (rule sure_and_then [OF does_count_users sure_weaken [OF sure_count_users] sure_if [OF rest]])
      (auto simp: valid_edit_def count_rows_zero)
  show ?thesis
    unfolding UserStore_UpdateWithAccess_def Let_def
    by (rule sure_and_then [OF does_transaction [OF does] sure_transaction [OF does body] sure_Get])
      (auto simp: valid_edit_def ids_upd_user set_access_def upd_user_def)
qed

lemma sure_ListNodeIDs: "sure (AccessStore_ListNodeIDs k) (\<lambda>d. True)"
  unfolding AccessStore_ListNodeIDs_def by (rule sure_weaken [OF sure_query]) simp

text \<open>Every node is managed by sing-box, so every node can be pushed.\<close>

definition all_singbox :: "db \<Rightarrow> bool" where
  "all_singbox d \<longleftrightarrow> (\<forall>n \<in> set (d_nodes d). n_proxy_type n = ''singbox'')"

lemma pushable_node: "all_singbox d \<Longrightarrow> i \<in> n_id ` set (d_nodes d) \<Longrightarrow> pushable i d"
  using sel_row_None [of n_id i "d_nodes d"] sel_row_SomeD [of n_id i "d_nodes d"]
  by (cases "sel_row n_id i (d_nodes d)") (auto simp: pushable_def all_singbox_def)

lemma wp_sure:
  assumes "sure m P" "reliable (w_env w)" "P (w_db w)" "wp m R w"
    and "\<And>a t. R (Inr a) t \<Longrightarrow> wp (k a) Q t"
  shows "wp (attempt m h k) Q w"
  unfolding wp_attempt
  by (rule wp_mono [OF wp_both [OF sureD [OF assms(1-3)] assms(4)]]) (use assms(5) in auto)

lemma wp_update_reliable:
  assumes env: "reliable (w_env w)" and ok: "db_ok (w_db w)" "all_singbox (w_db w)"
    and body: "as_update_user (r_body r) = Some (req, ids)"
    and k: "parseID (r_path r) ''/api/users/'' = k" "k \<noteq> 0" and valid: "valid_edit k req ids (w_db w)"
  shows "wp (UserHandler_update (Some SyncNodes) r) (\<lambda>rp w'. rp_status rp = 200) w"
proof -
  let ?d = "edit_db k req ids (w_now w) (w_db w)"
  have nodes: "i \<in> n_id ` set (d_nodes (w_db w))" if "(j, i) \<in> set (d_access (w_db w))" for i j
    using ok(1) that by (auto simp: db_ok_def access_ok_def)
  have targets: "pushable i ?d" if "i \<in> set (nodes_of_user k (w_db w)) \<union> set (nodes_of_user k ?d)" "0 < i" for i
  proof (rule pushable_node)
    show "all_singbox ?d" using ok(2) by (simp add: all_singbox_def)
    show "i \<in> n_id ` set (d_nodes ?d)"
      using that valid nodes [of k i]
      by (auto simp: set_nodes_of_user valid_edit_def edit_db_def edit_access_def set_uniqueSortedIDs
          split: option.splits)
  qed
  have user: "k \<in> u_id ` set (d_users (w_db w))" using valid by (simp add: valid_edit_def)
  have edit: "sure (case ids of Some ids \<Rightarrow> UserStore_UpdateWithAccess k req ids | None \<Rightarrow> UserStore_Update k req)
      (valid_edit k req ids)"
    by (cases ids) (simp_all add: sure_Update sure_UpdateWithAccess)
  have sync: "wp (do { results \<leftarrow> syncNodes (Some SyncNodes) targets;
       (case syncFailure results of Some e \<Rightarrow> h results e | None \<Rightarrow> writeJSON 200 (PUserSync user results)) })
      (\<lambda>rp w'. rp_status rp = 200) t"
    if "reliable (w_env t)" "w_db t = ?d" "set targets \<subseteq> set (nodes_of_user k (w_db w)) \<union> set (nodes_of_user k ?d)"
    for t targets h user
    unfolding wp_bind
    by (rule wp_mono [OF wp_syncNodes_reliable [OF that(1)]]) (use targets that in \<open>auto simp: wp_step\<close>)
  show ?thesis
    unfolding UserHandler_update_def Let_def k(1) if_not_P [OF k(2)]
  proof (rule wp_sure [OF sure_Get env user get_post], goal_cases)
    case (1 before t)
    then have t: "reliable (w_env t)" "w_db t = w_db w" "w_now t = w_now w"
      using env by (simp_all add: becomes_def)
    show ?case
    proof (rule wp_sure [OF sure_ListNodeIDs t(1) TrueI ids_post], goal_cases)
      case (1 ids0 t2)
      then have t2: "reliable (w_env t2)" "w_db t2 = w_db w" "w_now t2 = w_now w" "ids0 = nodes_of_user k (w_db w)"
        using t by (simp_all add: becomes_def)
      have valid2: "valid_edit k req ids (w_db t2)" using valid t2 by simp
      show ?case
        unfolding body option.case prod.case
      proof (rule wp_sure [OF edit t2(1) valid2 edit_post], goal_cases)
        case (1 user t3)
        then have t3: "reliable (w_env t3)" "w_db t3 = ?d" using t2 by (auto simp: becomes_def)
        show ?case
        proof (rule wp_sure [OF sure_ListNodeIDs t3(1) TrueI ids_post], goal_cases)
          case (1 ids1 t4)
          then have t4: "reliable (w_env t4)" "w_db t4 = ?d" "ids1 = nodes_of_user k ?d"
            using t3 by (simp_all add: becomes_def)
          show ?case
            by (rule sync [OF t4(1,2)]) (use t2(4) t4(3) in \<open>auto simp: set_unionIDs set_changedIDs\<close>)
        qed
      qed
    qed
  qed
qed

end
