(* ===== verification/Success.thy ===== *)
theory Success
  imports Liveness
begin

text \<open>
  The other changes of the administrator, in an environment without failures: a valid request
  is answered with success.
\<close>

section \<open>Pushing after a change\<close>

lemma wp_synced_success:
  assumes "reliable (w_env w)" "\<And>i. i \<in> set ids \<Longrightarrow> 0 < i \<Longrightarrow> pushable i (w_db w)"
    and "\<And>rs t. same_db w t \<Longrightarrow> wp (success rs) Q t"
  shows "wp (do { results \<leftarrow> syncNodes (Some SyncNodes) ids;
     (case syncFailure results of Some e \<Rightarrow> h results e | None \<Rightarrow> success results) }) Q w"
  unfolding wp_bind [of "syncNodes _ _"]
  by (rule wp_mono [OF wp_syncNodes_reliable [OF assms(1,2)]]) (use assms(3) in auto)

lemma pushable_access:
  assumes "db_ok d" "all_singbox d'" "d_nodes d' = d_nodes d" "i \<in> set (nodes_of_user k d)"
  shows "pushable i d'"
  by (rule pushable_node) (use assms in \<open>auto simp: set_nodes_of_user db_ok_def access_ok_def\<close>)

section \<open>Assignments\<close>

lemma sure_validateUser: "sure (validateUser k) (\<lambda>d. k \<in> u_id ` set (d_users d))"
  unfolding validateUser_def
  by (rule sure_and_then [OF does_count_users sure_weaken [OF sure_count_users] sure_fail_if])
    (auto simp: count_rows_zero)

lemma sure_Grant: "sure (AccessStore_Grant k n) (\<lambda>d. k \<in> u_id ` set (d_users d) \<and> n \<in> n_id ` set (d_nodes d))"
proof -
  have valid: "sure (validateUserAndNode k n) (\<lambda>d. k \<in> u_id ` set (d_users d) \<and> n \<in> n_id ` set (d_nodes d))"
    unfolding validateUserAndNode_def
    by (rule sure_and_then [OF does_validateUser sure_weaken [OF sure_validateUser] sure_require_node]) auto
  show ?thesis
    unfolding AccessStore_Grant_def
    by (rule sure_and_then [OF does_validateUserAndNode valid sure_exec]) auto
qed

lemma sure_Revoke: "sure (AccessStore_Revoke k n) (\<lambda>d. True)"
  unfolding AccessStore_Revoke_def by (rule sure_weaken [OF sure_exec]) auto

lemma sure_Replace: "sure (AccessStore_Replace k ids) (\<lambda>d. k \<in> u_id ` set (d_users d)
    \<and> (\<forall>i \<in> set ids. 0 < i \<longrightarrow> i \<in> n_id ` set (d_nodes d)))"
proof -
  note distinct = distinct_uniqueSortedIDs [of ids]
  have body: "sure (and_then (for_each require_node (uniqueSortedIDs ids)) (\<lambda>_.
       and_then (delete_access_of_user k) (\<lambda>_. for_each (insert_access k) (uniqueSortedIDs ids))))
     (\<lambda>d. \<forall>i \<in> set ids. 0 < i \<longrightarrow> i \<in> n_id ` set (d_nodes d))"
    by (rule sure_and_then [OF does_require_nodes sure_weaken [OF sure_require_nodes [OF distinct]]
          sure_replace_access [OF distinct]]) (auto simp: set_uniqueSortedIDs)
  show ?thesis
    unfolding AccessStore_Replace_def Let_def
    by (rule sure_and_then [OF does_validateUser sure_weaken [OF sure_validateUser]
          sure_transaction [OF does_Replace_body body]]) auto
qed

lemma wp_change_access_reliable:
  assumes env: "reliable (w_env w)" and ok: "db_ok (w_db w)" "all_singbox (w_db w)"
    and op: "sure op P" "P (w_db w)" "changes_access k new op" "keeps db_ok op"
    and w0: "becomes w (w_db w) w0"
  shows "wp (change_access (Some SyncNodes) k op st (nodes_of_user k (w_db w))) (\<lambda>rp w'. rp_status rp = 200) w0"
proof -
  have env0: "reliable (w_env w0)" "P (w_db w0)" "db_ok (w_db w0)"
    using env ok op(2) w0 by (simp_all add: becomes_def)
  note effect = wp_both [OF op(3) [unfolded changes_access_def, rule_format, of w0]
      keepsD [where I = db_ok, OF op(4) env0(3)]]
  show ?thesis
    unfolding change_access_def
  proof (rule wp_sure [OF op(1) env0(1,2) effect], goal_cases)
    case (1 a w1)
    then obtain d1 where w1: "becomes w0 d1 w1" "only_access k (w_db w) (new (w_db w)) d1" "db_ok d1"
      using w0 by (auto simp: becomes_def)
    then have frame: "d_nodes d1 = d_nodes (w_db w)" "all_singbox d1"
      using ok(2) by (auto simp: only_access_def all_singbox_def)
    have env1: "reliable (w_env w1)" using w1(1) env0(1) by (simp add: becomes_def)
    show ?case
    proof (rule wp_sure [OF sure_ListNodeIDs env1 TrueI ids_post], goal_cases)
      case (1 A w2)
      then have w2: "w_db w2 = d1" "reliable (w_env w2)" "A = nodes_of_user k d1"
        using w1(1) env1 by (simp_all add: becomes_def)
      have "pushable i (w_db w2)" if "i \<in> set (changedIDs (nodes_of_user k (w_db w)) A)" for i
        using that pushable_access [OF ok(1) frame(2,1)] pushable_access [OF w1(3) frame(2) refl]
        by (auto simp: w2 set_changedIDs)
      then show ?case
        unfolding completeAccessChange_def Let_def
        by (intro wp_synced_success w2(2)) (auto simp: wp_step)
    qed
  qed
qed

lemma wp_grant_reliable:
  assumes env: "reliable (w_env w)" and ok: "db_ok (w_db w)" "all_singbox (w_db w)"
    and req: "as_access (r_body r) = Some q" "\<not> ar_all q" "0 < ar_node q"
    and k: "extractUserID (r_path r) = k" "k \<noteq> 0" "k \<in> u_id ` set (d_users (w_db w))"
    and n: "ar_node q \<in> n_id ` set (d_nodes (w_db w))"
  shows "wp (AccessHandler_grantAccess (Some SyncNodes) r) (\<lambda>rp w'. rp_status rp = 200) w"
  unfolding AccessHandler_grantAccess_def Let_def k(1) if_not_P [OF k(2)] req(1) option.case
    if_not_P [OF req(2)] if_P [OF req(3)]
proof (rule wp_sure [OF sure_ListNodeIDs env TrueI ids_post], goal_cases)
  case (1 A w0)
  then show ?case
    using wp_change_access_reliable [OF env ok sure_Grant _ changes_Grant keeps_Grant, of k "ar_node q" w0] k n by simp
qed

lemma wp_revoke_reliable:
  assumes env: "reliable (w_env w)" and ok: "db_ok (w_db w)" "all_singbox (w_db w)"
    and req: "as_access (r_body r) = Some q" "\<not> ar_all q" "0 < ar_node q"
    and k: "extractUserID (r_path r) = k" "k \<noteq> 0"
  shows "wp (AccessHandler_revokeAccess (Some SyncNodes) r) (\<lambda>rp w'. rp_status rp = 200) w"
  unfolding AccessHandler_revokeAccess_def Let_def k(1) if_not_P [OF k(2)] req(1) option.case
    if_not_P [OF req(2)] if_P [OF req(3)]
proof (rule wp_sure [OF sure_ListNodeIDs env TrueI ids_post], goal_cases)
  case (1 A w0)
  then show ?case
    using wp_change_access_reliable [OF env ok sure_Revoke _ changes_Revoke keeps_Revoke, of w0 k "ar_node q"] by simp
qed

lemma wp_replace_reliable:
  assumes env: "reliable (w_env w)" and ok: "db_ok (w_db w)" "all_singbox (w_db w)"
    and req: "as_node_ids (r_body r) = Some ids" "\<And>i. i \<in> set ids \<Longrightarrow> 0 < i \<Longrightarrow> i \<in> n_id ` set (d_nodes (w_db w))"
    and k: "extractUserID (r_path r) = k" "k \<noteq> 0" "k \<in> u_id ` set (d_users (w_db w))"
  shows "wp (AccessHandler_replaceAccess (Some SyncNodes) r) (\<lambda>rp w'. rp_status rp = 200) w"
  unfolding AccessHandler_replaceAccess_def Let_def k(1) if_not_P [OF k(2)] req(1) option.case
proof (rule wp_sure [OF sure_ListNodeIDs env TrueI ids_post], goal_cases)
  case (1 A w0)
  then show ?case
    using wp_change_access_reliable [OF env ok sure_Replace _ changes_Replace keeps_Replace, of k ids w0] k req(2) by simp
qed

section \<open>Resetting and deleting a user\<close>

lemma wp_reset_reliable:
  assumes env: "reliable (w_env w)" and ok: "db_ok (w_db w)" "all_singbox (w_db w)"
    and k: "parseID (r_path r) ''/api/users/'' = k" "k \<noteq> 0" "k \<in> u_id ` set (d_users (w_db w))"
  shows "wp (UserHandler_resetTraffic (Some SyncNodes) r) (\<lambda>rp w'. rp_status rp = 200) w"
proof -
  have reset: "sure (UserStore_ResetTraffic k) (\<lambda>d. True)"
    by (simp add: UserStore_ResetTraffic_def sure_def wp_step)
      (use sure_set_user in \<open>auto simp: sure_def\<close>)
  have effect: "wp (UserStore_ResetTraffic k) (\<lambda>r w'. becomes w (w_db w) w' \<or>
      becomes w (upd_user k (reset_row (FormatDateTime (w_now w))) (w_db w)) w') w" for w
    unfolding UserStore_ResetTraffic_def wp_bind wp_get_now_text
    by (rule wp_db_exec) (auto simp: set_user_def upd_user_def reset_row_def [abs_def])
  show ?thesis
    unfolding UserHandler_resetTraffic_def Let_def k(1) if_not_P [OF k(2)]
  proof (rule wp_sure [OF sure_Get env k(3) get_post], goal_cases)
    case (1 before w1)
    then have w1: "reliable (w_env w1)" "w_db w1 = w_db w" using env by (simp_all add: becomes_def)
    show ?case
    proof (rule wp_sure [OF sure_ListNodeIDs w1(1) TrueI ids_post], goal_cases)
      case (1 A w2)
      then have w2: "reliable (w_env w2)" "w_db w2 = w_db w" "A = nodes_of_user k (w_db w)"
        using w1 by (simp_all add: becomes_def)
      show ?case
      proof (rule wp_sure [OF reset w2(1) TrueI effect], goal_cases)
        case (1 a w3)
        then have w3: "reliable (w_env w3)" "d_nodes (w_db w3) = d_nodes (w_db w)"
          "u_id ` set (d_users (w_db w3)) = u_id ` set (d_users (w_db w))"
          using w2 ids_upd_user [of "reset_row (FormatDateTime (w_now w2))" k "d_users (w_db w)"]
          by (auto simp: becomes_def reset_row_def upd_user_def simp del: image_insert)
        then have user: "k \<in> u_id ` set (d_users (w_db w3))" using k(3) by simp
        show ?case
        proof (rule wp_sure [OF sure_Get w3(1) user get_post], goal_cases)
          case (1 u w4)
          then have w4: "reliable (w_env w4)" "d_nodes (w_db w4) = d_nodes (w_db w)"
            using w3 by (simp_all add: becomes_def)
          then have box: "all_singbox (w_db w4)" using ok(2) by (simp add: all_singbox_def)
          show ?case
            by (rule wp_synced_success [OF w4(1) pushable_access [OF ok(1) box w4(2)]])
              (auto simp: w2(3) wp_step)
        qed
      qed
    qed
  qed
qed

lemma sure_deleted: "sure (if c then fail e else ok ()) (\<lambda>d. \<not> c)"
  by (rule sure_fail_if)

lemma count_one: "table_ok key rows \<Longrightarrow> i \<in> key ` set rows \<Longrightarrow> count_rows (\<lambda>r. key r = i) rows = 1"
proof (induction rows)
  case (Cons r rows)
  show ?case
  proof (cases "key r = i")
    case True
    then have "\<forall>x \<in> set rows. key x \<noteq> i" using Cons.prems(1) by (auto simp: table_ok_def image_iff)
    then show ?thesis using True by (simp add: count_rows_def filter_empty_conv)
  next
    case False
    then show ?thesis using Cons by (auto simp: count_rows_def table_ok_def)
  qed
qed simp

lemma sure_DeleteWithRelatedData: "sure (UserStore_DeleteWithRelatedData k)
    (\<lambda>d. users_ok d \<and> k \<in> u_id ` set (d_users d))"
proof -
  have ex: "does (db_exec (\<lambda>d. Inr (g d, f d))) (\<lambda>now d. f d) (\<lambda>now d a. a = g d)"
    "sure (db_exec (\<lambda>d. Inr (g d, f d))) (\<lambda>d. True)" for f and g :: "db \<Rightarrow> 'x"
    by (rule does_weaken [OF does_exec]; auto) (rule sure_weaken [OF sure_exec]; simp)
  have logs: "sure (and_then (db_exec (\<lambda>d. Inr (count_rows (\<lambda>u. u_id u = k) (d_users d),
         d\<lparr>d_users := del_rows (\<lambda>u. u_id u = k) (d_users d)\<rparr>))) (\<lambda>deleted.
     if deleted \<noteq> 1 then fail ErrNoRows else ok ())) (\<lambda>d. users_ok d \<and> k \<in> u_id ` set (d_users d))"
    by (rule sure_and_then [OF ex(1) sure_weaken [OF ex(2)] sure_fail_if])
      (auto simp: users_ok_def count_one)
  have access: "sure (delete_access_of_user k) (\<lambda>d. True)"
    unfolding delete_access_of_user_def by (rule sure_weaken [OF sure_exec]) auto
  have rest: "sure (and_then (db_exec (\<lambda>d. Inr ((), d\<lparr>d_logs := del_rows (\<lambda>t. t_user t = k) (d_logs d)\<rparr>))) (\<lambda>_.
     and_then (db_exec (\<lambda>d. Inr (count_rows (\<lambda>u. u_id u = k) (d_users d),
         d\<lparr>d_users := del_rows (\<lambda>u. u_id u = k) (d_users d)\<rparr>))) (\<lambda>deleted.
     if deleted \<noteq> 1 then fail ErrNoRows else ok ()))) (\<lambda>d. users_ok d \<and> k \<in> u_id ` set (d_users d))"
    by (rule sure_and_then [OF ex(1) sure_weaken [OF ex(2)] logs]) (auto simp: users_ok_def)
  have "sure (and_then (delete_access_of_user k) (\<lambda>_.
     and_then (db_exec (\<lambda>d. Inr ((), d\<lparr>d_logs := del_rows (\<lambda>t. t_user t = k) (d_logs d)\<rparr>))) (\<lambda>_.
     and_then (db_exec (\<lambda>d. Inr (count_rows (\<lambda>u. u_id u = k) (d_users d),
         d\<lparr>d_users := del_rows (\<lambda>u. u_id u = k) (d_users d)\<rparr>))) (\<lambda>deleted.
     if deleted \<noteq> 1 then fail ErrNoRows else ok ())))) (\<lambda>d. users_ok d \<and> k \<in> u_id ` set (d_users d))"
    by (rule sure_and_then [OF does_delete_access sure_weaken [OF access] rest])
      (auto simp: users_ok_def set_access_def)
  then show ?thesis
    unfolding UserStore_DeleteWithRelatedData_def
    by (rule sure_transaction [rotated, OF _ does_and_then [OF does_delete_access does_and_then [OF ex(1)
          does_and_then [OF ex(1) does_check]]]])
qed

lemma keeps_nodes_UpdateWithAccess: "keeps (\<lambda>d. d_nodes d = ns) (UserStore_UpdateWithAccess k req ids)"
  by (rule keepsI, rule wp_UserStore_UpdateWithAccess) (auto simp: becomes_db edit_access_def)

lemma wp_UpdateWithAccess_effect: "wp (UserStore_UpdateWithAccess k req ids) (\<lambda>r w'. becomes w (w_db w) w' \<or>
    becomes w (edit_access k req ids (w_now w) (w_db w)) w' \<and> edit_valid k req ids (w_db w)) w"
  by (rule wp_UserStore_UpdateWithAccess) auto

lemma wp_delete_reliable:
  assumes env: "reliable (w_env w)" and ok: "db_ok (w_db w)" "all_singbox (w_db w)"
    and k: "parseID (r_path r) ''/api/users/'' = k" "k \<noteq> 0" "k \<in> u_id ` set (d_users (w_db w))"
  shows "wp (UserHandler_delete (Some SyncNodes) r) (\<lambda>rp w'. rp_status rp = 200) w"
  unfolding UserHandler_delete_def Let_def k(1) if_not_P [OF k(2)]
proof (rule wp_sure [OF sure_Get env k(3) get_post], goal_cases)
  case (1 before w1)
  then have w1: "reliable (w_env w1)" "w_db w1 = w_db w" using env by (simp_all add: becomes_def)
  show ?case
  proof (rule wp_sure [OF sure_ListNodeIDs w1(1) TrueI ids_post], goal_cases)
    case (1 A w2)
    then have w2: "reliable (w_env w2)" "w_db w2 = w_db w" "A = nodes_of_user k (w_db w)"
      using w1 by (simp_all add: becomes_def)
    have valid: "valid_edit k disable_req (Some []) (w_db w2)"
      using k(3) w2 by (simp add: valid_edit_def name_free_def disable_req_def)
    show ?case
    proof (rule wp_sure [OF sure_UpdateWithAccess w2(1) valid wp_UpdateWithAccess_effect], goal_cases)
      case (1 a w3)
      then have "db_ok (w_db w3) \<and> d_nodes (w_db w3) = d_nodes (w_db w)
          \<and> u_id ` set (d_users (w_db w3)) = u_id ` set (d_users (w_db w))"
        using w2 ok(1) db_ok_edit_access [of "w_db w" k disable_req "[]"]
          ids_upd_user [of "edited disable_req (FormatDateTime (w_now w2))" k "d_users (w_db w)"]
        by (auto simp: becomes_def edit_access_def simp del: image_insert)
      then have w3: "reliable (w_env w3)" "db_ok (w_db w3)" "d_nodes (w_db w3) = d_nodes (w_db w)"
        "k \<in> u_id ` set (d_users (w_db w3))" "all_singbox (w_db w3)"
        using 1 w2 k(3) ok(2) by (auto simp: becomes_def all_singbox_def)
      show ?case
      proof (rule wp_synced_success [OF w3(1) pushable_access [where k = k, OF ok(1) w3(5,3)]], goal_cases)
        case (1 i)
        then show ?case by (simp add: w2(3))
      next
        case (2 rs t)
        then have t: "reliable (w_env t)" "users_ok (w_db t) \<and> k \<in> u_id ` set (d_users (w_db t))"
          using w3 by (simp_all add: same_db_def db_ok_def)
        show ?case
          by (rule wp_sure [OF sure_DeleteWithRelatedData t does_DeleteWithRelatedData]) (simp add: wp_step)
      qed
    qed
  qed
qed

section \<open>Inbounds and nodes\<close>

lemma sure_row: "sure (db_query (\<lambda>d. row_or_none (sel_row key i (t d)))) (\<lambda>d. i \<in> key ` set (t d))"
  by (rule sure_weaken [OF sure_query])
    (metis option.exhaust row_or_none.simps(2) sel_row_None)

lemma sure_NodeStore_Get: "sure (NodeStore_Get i) (\<lambda>d. i \<in> n_id ` set (d_nodes d))"
  unfolding NodeStore_Get_def by (rule sure_row)

lemma sure_GetInbound: "sure (NodeStore_GetInbound i) (\<lambda>d. i \<in> ib_id ` set (d_inbounds d))"
  unfolding NodeStore_GetInbound_def by (rule sure_row)

lemma sure_ListInbounds: "sure (NodeStore_ListInbounds i) (\<lambda>d. True)"
  unfolding NodeStore_ListInbounds_def by (rule sure_weaken [OF sure_query]) simp

lemma sure_CreateInbound: "sure (NodeStore_CreateInbound k req) inbounds_ok"
proof -
  let ?b = "\<lparr>ib_id = 0, ib_node = k, ib_tag = ci_tag req, ib_protocol = ci_protocol req,
     ib_port = ci_port req, ib_settings = settings_or_empty (ci_settings req), ib_enabled = True, ib_sort_order = 0\<rparr>"
  have fresh: "d_inbound_seq d + 1 \<notin> ib_id ` set (d_inbounds d)" if "inbounds_ok d" for d
    using that by (fastforce simp: inbounds_ok_def)
  have ins: "insert_next_inbound ?b d = Inr (d_inbound_seq d + 1, add_inbound (new_inbound k req d) d)"
    if "inbounds_ok d" for d
    using fresh [OF that]
    by (force simp: insert_next_inbound_def insert_inbound_def add_inbound_def new_inbound_def list_ex_iff)
  have does: "does (db_exec (insert_next_inbound ?b))
      (\<lambda>now d. case insert_next_inbound ?b d of Inl _ \<Rightarrow> d | Inr p \<Rightarrow> snd p)
      (\<lambda>now d a. \<exists>d'. insert_next_inbound ?b d = Inr (a, d'))" by (rule does_exec)
  have sure: "sure (db_exec (insert_next_inbound ?b)) inbounds_ok"
    by (rule sure_weaken [OF sure_exec]) (simp add: ins)
  show ?thesis
    unfolding NodeStore_CreateInbound_def
    by (rule sure_and_then [OF does sure sure_GetInbound])
      (auto simp: ins add_inbound_def new_inbound_def set_ins_row)
qed

lemma sure_DeleteInbound: "sure (NodeStore_DeleteInbound i) (\<lambda>d. inbounds_ok d \<and> i \<in> ib_id ` set (d_inbounds d))"
proof -
  have ex: "does (db_exec (\<lambda>d. Inr (count_rows (\<lambda>b. ib_id b = i) (d_inbounds d),
       d\<lparr>d_inbounds := del_rows (\<lambda>b. ib_id b = i) (d_inbounds d)\<rparr>)))
     (\<lambda>now. drop_inbound i) (\<lambda>now d a. a = count_rows (\<lambda>b. ib_id b = i) (d_inbounds d))"
    by (rule does_weaken [OF does_exec]) (auto simp: drop_inbound_def)
  show ?thesis
    unfolding NodeStore_DeleteInbound_def
    by (rule sure_and_then [OF ex sure_weaken [OF sure_exec] sure_fail_if])
      (auto simp: inbounds_ok_def count_one)
qed

text \<open>A request for an inbound that the handler accepts.\<close>

definition valid_inbound_req :: "create_inbound_req \<Rightarrow> bool" where
  "valid_inbound_req req \<longleftrightarrow> 1 \<le> ci_port req \<and> ci_port req \<le> 65535 \<and> ci_protocol req \<noteq> ''''
     \<and> (\<exists>s. settings_object (ci_settings req) = Some s \<and> missing_settings (ci_protocol req) s = None)"

lemma pushable_same_nodes: "pushable i d \<Longrightarrow> d_nodes d' = d_nodes d \<Longrightarrow> pushable i d'"
  by (simp add: pushable_def)

lemma pushable_in: "pushable i d \<Longrightarrow> i \<in> n_id ` set (d_nodes d)"
  by (auto simp: pushable_def dest: sel_row_mem)

lemma wp_createInbound_reliable:
  assumes env: "reliable (w_env w)" and ok: "db_ok (w_db w)"
    and req: "as_create_inbound (r_body r) = Some req" "valid_inbound_req req"
    and path: "SplitByte (CHR ''/'') (TrimPrefix (r_path r) ''/api/nodes/'') = [p, ''inbounds'']"
    and k: "parseID (''/api/nodes/'' @ p) ''/api/nodes/'' = k" "k \<noteq> 0" "pushable k (w_db w)"
  shows "wp (NodeHandler_createInbound (Some SyncNodes) r) (\<lambda>rp w'. rp_status rp = 201) w"
proof -
  obtain s where s: "settings_object (ci_settings req) = Some s" "missing_settings (ci_protocol req) s = None"
    and g: "\<not> (ci_protocol req = '''' \<or> ci_port req < 1 \<or> ci_port req > 65535)"
    using req(2) by (auto simp: valid_inbound_req_def)
  have p: "\<not> length [p, ''inbounds''] < 2" "[p, ''inbounds''] ! 0 = p" by simp_all
  show ?thesis
    unfolding NodeHandler_createInbound_def path Let_def if_not_P [OF p(1)] p(2) k(1) if_not_P [OF k(2)]
  proof (rule wp_sure [OF sure_NodeStore_Get env pushable_in [OF k(3)] node_post], goal_cases)
    case (1 n w1)
    then have n: "\<not> n_proxy_type n \<noteq> ''singbox''" and w1: "reliable (w_env w1)" "w_db w1 = w_db w"
      using env k(3) by (auto simp: becomes_def pushable_def)
    have inb: "inbounds_ok (w_db w1)" using ok w1 by (simp add: db_ok_def)
    show ?case
      unfolding if_not_P [OF n] req(1) option.case if_not_P [OF g] s
    proof (rule wp_sure [OF sure_CreateInbound w1(1) inb create_post], goal_cases)
      case (1 b w2)
      then have w2: "reliable (w_env w2)" "d_nodes (w_db w2) = d_nodes (w_db w)"
        using w1 by (auto simp: becomes_def add_inbound_def)
      show ?case
        by (rule wp_synced_success [OF w2(1)]) (use pushable_same_nodes [OF k(3) w2(2)] in \<open>auto simp: wp_step\<close>)
    qed
  qed
qed

lemma wp_deleteInbound_reliable:
  assumes env: "reliable (w_env w)" and ok: "db_ok (w_db w)" "all_singbox (w_db w)"
    and k: "parseID (r_path r) ''/api/inbounds/'' = k" "k \<noteq> 0" "k \<in> ib_id ` set (d_inbounds (w_db w))"
  shows "wp (NodeHandler_deleteInbound (Some SyncNodes) r) (\<lambda>rp w'. rp_status rp = 200) w"
  unfolding NodeHandler_deleteInbound_def Let_def k(1) if_not_P [OF k(2)]
proof (rule wp_sure [OF sure_GetInbound env k(3) inbound_post], goal_cases)
  case (1 b w1)
  then have b: "b \<in> set (d_inbounds (w_db w))" and w1: "reliable (w_env w1)" "w_db w1 = w_db w"
    using env by (auto simp: becomes_def dest: sel_row_SomeD)
  have node: "ib_node b \<in> n_id ` set (d_nodes (w_db w))"
    using ok(1) b by (simp add: db_ok_def inbounds_ok_def)
  then have node1: "ib_node b \<in> n_id ` set (d_nodes (w_db w1))" using w1 by simp
  show ?case
  proof (rule wp_sure [OF sure_NodeStore_Get w1(1) node1 node_post], goal_cases)
    case (1 n w2)
    then have n: "\<not> n_proxy_type n \<noteq> ''singbox''" and w2: "reliable (w_env w2)" "w_db w2 = w_db w"
      using w1 ok(2) by (auto simp: becomes_def all_singbox_def dest!: sel_row_SomeD)
    have inb: "inbounds_ok (w_db w2) \<and> k \<in> ib_id ` set (d_inbounds (w_db w2))"
      using ok(1) k(3) w2 by (simp add: db_ok_def)
    show ?case
      unfolding if_not_P [OF n]
    proof (rule wp_sure [OF sure_DeleteInbound w2(1) inb drop_post], goal_cases)
      case (1 a w3)
      then have w3: "reliable (w_env w3)" "d_nodes (w_db w3) = d_nodes (w_db w)"
        using w2 by (auto simp: becomes_def drop_inbound_def)
      show ?case
        by (rule wp_synced_success [OF w3(1)])
          (use pushable_same_nodes [OF pushable_node [OF ok(2) node] w3(2)] in \<open>auto simp: wp_step\<close>)
    qed
  qed
qed

lemma count_one_if: "table_ok key rows \<Longrightarrow> r \<in> set rows \<Longrightarrow> q r \<Longrightarrow> count_rows (\<lambda>x. key x = key r \<and> q x) rows = 1"
proof -
  assume t: "table_ok key rows" "r \<in> set rows" "q r"
  then have "x = r" if "x \<in> set rows" "key x = key r" for x
    using that by (auto simp: table_ok_def distinct_map dest: inj_onD)
  then have "filter (\<lambda>x. key x = key r \<and> q x) rows = filter (\<lambda>x. key x = key r) rows"
    using t(3) by (auto intro!: filter_cong)
  then show ?thesis using count_one [OF t(1), of "key r"] t(2) by (simp add: count_rows_def)
qed

lemma sure_reorder_inbound: "sure (reorder_inbound k item) (\<lambda>d. inbounds_ok d \<and>
    (\<exists>b \<in> set (d_inbounds d). ib_id b = ri_id item \<and> ib_node b = k))"
proof -
  have ex: "does (exec_inbounds p g) (\<lambda>now d. d\<lparr>d_inbounds := map (\<lambda>b. if p b then g b else b) (d_inbounds d)\<rparr>)
      (\<lambda>now d a. a = count_rows p (d_inbounds d))" "sure (exec_inbounds p g) (\<lambda>d. True)" for p g
    unfolding exec_inbounds_def
    by (rule does_weaken [OF does_exec], force) (rule sure_weaken [OF sure_exec], simp)
  have one: "count_rows (\<lambda>x. ib_id x = i \<and> ib_node x = k) (d_inbounds d) = 1"
    if "inbounds_ok d \<and> (\<exists>b \<in> set (d_inbounds d). ib_id b = i \<and> ib_node b = k)" for d i
    using that count_one_if [of ib_id "d_inbounds d" _ "\<lambda>x. ib_node x = k"] by (auto simp: inbounds_ok_def)
  show ?thesis
    unfolding reorder_inbound_def
    by (rule sure_and_then [OF ex(1) sure_weaken [OF ex(2)] sure_fail_if])
      (simp_all only: one not_not simp_thms)
qed

lemma sure_ReorderInbounds:
  assumes "distinct items"
  shows "sure (NodeStore_ReorderInbounds k items) (\<lambda>d. inbounds_ok d \<and>
    (\<forall>item \<in> set items. \<exists>b \<in> set (d_inbounds d). ib_id b = ri_id item \<and> ib_node b = k))"
proof -
  have keep: "inbounds_ok (d\<lparr>d_inbounds := map (reorder_one k x) (d_inbounds d)\<rparr>) \<and>
      (\<exists>b \<in> set (map (reorder_one k x) (d_inbounds d)). ib_id b = i \<and> ib_node b = k)"
    if "inbounds_ok d \<and> (\<exists>b \<in> set (d_inbounds d). ib_id b = i \<and> ib_node b = k)" for d x i
    using that by (auto simp: inbounds_ok_def table_ok_def o_def)
  have each: "sure (for_each (reorder_inbound k) items) (\<lambda>d. \<forall>item \<in> set items. inbounds_ok d \<and>
      (\<exists>b \<in> set (d_inbounds d). ib_id b = ri_id item \<and> ib_node b = k))"
    by (rule sure_for_each [OF does_reorder_inbound sure_reorder_inbound _ assms]) (use keep in simp)
  have "does (for_each (reorder_inbound k) items)
      (\<lambda>now d. fold (\<lambda>item d. d\<lparr>d_inbounds := map (reorder_one k item) (d_inbounds d)\<rparr>) items d)
      (\<lambda>now d _. True)"
    by (rule does_weaken [OF does_for_each [OF does_reorder_inbound]]) simp
  from sure_transaction [OF this each] show ?thesis
    unfolding NodeStore_ReorderInbounds_def by (rule sure_weaken) simp
qed

lemma wp_ReorderInbounds_reliable:
  assumes env: "reliable (w_env w)" and ok: "db_ok (w_db w)"
    and req: "r_method r = ''PUT''" "as_reorder (r_body r) = Some items" "distinct items"
    and k: "parseID (r_path r) ''/api/nodes/'' = k" "k \<noteq> 0" "pushable k (w_db w)"
    and items: "\<And>item. item \<in> set items \<Longrightarrow> \<exists>b \<in> set (d_inbounds (w_db w)). ib_id b = ri_id item \<and> ib_node b = k"
  shows "wp (NodeHandler_ReorderInbounds (Some SyncNodes) r) (\<lambda>rp w'. rp_status rp = 200) w"
proof -
  have m: "\<not> r_method r \<noteq> ''PUT''" using req(1) by simp
  show ?thesis
    unfolding NodeHandler_ReorderInbounds_def if_not_P [OF m] req(2) option.case Let_def k(1) if_not_P [OF k(2)]
  proof (rule wp_sure [OF sure_NodeStore_Get env pushable_in [OF k(3)] node_post], goal_cases)
    case (1 n w1)
    then have n: "\<not> n_proxy_type n \<noteq> ''singbox''" and w1: "reliable (w_env w1)" "w_db w1 = w_db w"
      using env k(3) by (auto simp: becomes_def pushable_def)
    show ?case
      unfolding if_not_P [OF n]
    proof (rule wp_sure [OF sure_ListInbounds w1(1) TrueI inbounds_post], goal_cases)
      case (1 before w2)
      then have w2: "reliable (w_env w2)" "w_db w2 = w_db w" using w1 by (simp_all add: becomes_def)
      have pre: "inbounds_ok (w_db w2) \<and> (\<forall>item \<in> set items. \<exists>b \<in> set (d_inbounds (w_db w2)).
          ib_id b = ri_id item \<and> ib_node b = k)" using ok items w2 by (simp add: db_ok_def)
      show ?case
      proof (rule wp_sure [OF sure_ReorderInbounds [OF req(3)] w2(1) pre reorder_post], goal_cases)
        case (1 a w3)
        then have w3: "reliable (w_env w3)" "d_nodes (w_db w3) = d_nodes (w_db w)"
          using w2 by (auto simp: becomes_def reorder_db_def)
        show ?case
          by (rule wp_synced_success [OF w3(1)])
            (use pushable_same_nodes [OF k(3) w3(2)] in \<open>auto simp: wp_step\<close>)
      qed
    qed
  qed
qed

lemma sure_CountForNode: "sure (AccessStore_CountForNode i) (\<lambda>d. True)"
  unfolding AccessStore_CountForNode_def by (rule sure_weaken [OF sure_query]) simp

lemma sure_NodeStore_Delete: "sure (NodeStore_Delete k) (\<lambda>d. True)"
proof -
  have ex: "does (db_exec (\<lambda>d. Inr ((), f d))) (\<lambda>now d. f d) (\<lambda>now d a. True)"
    "sure (db_exec (\<lambda>d. Inr ((), f d))) (\<lambda>d. True)" for f
    by (rule does_weaken [OF does_exec]; auto) (rule sure_weaken [OF sure_exec]; simp)
  show ?thesis
    unfolding NodeStore_Delete_def
    by (rule sure_transaction [OF does_delete_node],
        (rule sure_and_then [OF ex(1) ex(2)])+, rule ex(2)) simp_all
qed

lemma wp_delete_node_reliable:
  assumes env: "reliable (w_env w)"
    and k: "parseID (r_path r) ''/api/nodes/'' = k" "k \<noteq> 0" "pushable k (w_db w)"
    and empty: "inbounds_of k (w_db w) = []" "\<And>u. (u, k) \<notin> set (d_access (w_db w))"
  shows "wp (NodeHandler_delete (Some SyncNodes) r) (\<lambda>rp w'. rp_status rp = 200) w"
  unfolding NodeHandler_delete_def Let_def k(1) if_not_P [OF k(2)]
proof (rule wp_sure [OF sure_NodeStore_Get env pushable_in [OF k(3)] node_post], goal_cases)
  case (1 n w1)
  then have n: "\<not> n_proxy_type n \<noteq> ''singbox''" and w1: "reliable (w_env w1)" "w_db w1 = w_db w"
    using env k(3) by (auto simp: becomes_def pushable_def)
  show ?case
    unfolding if_not_P [OF n]
  proof (rule wp_sure [OF sure_ListInbounds w1(1) TrueI inbounds_post], goal_cases)
    case (1 bs w2)
    then have w2: "reliable (w_env w2)" "w_db w2 = w_db w" "bs = []"
      using w1 empty(1) by (simp_all add: becomes_def)
    show ?case
    proof (rule wp_sure [OF sure_CountForNode w2(1) TrueI count_post], goal_cases)
      case (1 c w3)
      have "count_rows (\<lambda>a. snd a = k) (d_access (w_db w)) = 0" using empty(2) by (auto simp: count_rows_zero)
      then have c: "\<not> (length bs > 0 \<or> c > 0)" and w3: "reliable (w_env w3)" "w_db w3 = w_db w"
        using 1 w2 by (auto simp: becomes_def)
      show ?case
        unfolding if_not_P [OF c]
      proof (rule wp_synced_success [OF w3(1)], goal_cases)
        case (1 i)
        then show ?case using k(3) w3 by simp
      next
        case (2 rs t)
        then have t: "reliable (w_env t)" using w3 by (simp add: same_db_def)
        show ?case by (rule wp_sure [OF sure_NodeStore_Delete t TrueI delete_node_post]) (simp add: wp_step)
      qed
    qed
  qed
qed

end
