(* ===== verification/Usage.thy ===== *)
theory Usage
  imports Stats "HOL-Library.Multiset"
begin

text \<open>
  Laws of the usage statistics: no traffic is lost or counted twice by grouping, a query for
  one user depends on this user's samples only, an accepted query stays inside the retained
  window, and pruning does not change the answer to an accepted query.
\<close>

section \<open>Grouping keeps the sums\<close>

definition usage_keys :: "usage_query \<Rightarrow> int \<Rightarrow> sample list \<Rightarrow> (string \<times> int \<times> int) list" where
  "usage_keys q offset ts =
    (if q_by_day q \<or> q_by_user q \<or> q_by_node q
     then remdups (map (group_key q offset) (filter (selected q offset) ts)) else [('''', 0, 0)])"

lemma mset_usage_rows:
  assumes "q_max_rows q \<le> 0"
  shows "mset (usage_rows q offset d) = mset (map (usage_row_of q offset d) (usage_keys q offset (d_logs d)))"
  using assms by (auto simp: usage_rows_def usage_keys_def Let_def)

lemma usage_keys_complete:
  assumes "t \<in> set ts" "selected q offset t"
  shows "group_key q offset t \<in> set (usage_keys q offset ts)"
  using assms by (auto simp: usage_keys_def group_key_def)

lemma distinct_usage_keys: "distinct (usage_keys q offset ts)"
  by (simp add: usage_keys_def)

lemma sum_partition:
  fixes f :: "'t \<Rightarrow> int"
  assumes "distinct ks" "\<And>t. t \<in> set ts \<Longrightarrow> p t \<Longrightarrow> g t \<in> set ks"
  shows "(\<Sum>k \<leftarrow> ks. sum_list (map f (filter (\<lambda>t. p t \<and> g t = k) ts))) = sum_list (map f (filter p ts))"
  using assms(2)
proof (induction ts)
  case Nil
  have "(\<Sum>k \<leftarrow> ks. 0) = (0 :: int)" by (induction ks) auto
  then show ?case by simp
next
  case (Cons t ts)
  have IH: "(\<Sum>k \<leftarrow> ks. sum_list (map f (filter (\<lambda>t. p t \<and> g t = k) ts))) = sum_list (map f (filter p ts))"
    by (rule Cons.IH) (use Cons.prems in simp)
  show ?case
  proof (cases "p t")
    case False
    then show ?thesis using IH by simp
  next
    case True
    then have "g t \<in> set ks" using Cons.prems by simp
    then have one: "(\<Sum>k \<leftarrow> ks. if g t = k then f t else 0) = f t"
      using assms(1) by (simp add: sum_list_distinct_conv_sum_set)
    have "(\<Sum>k \<leftarrow> ks. sum_list (map f (filter (\<lambda>t. p t \<and> g t = k) (t # ts))))
        = (\<Sum>k \<leftarrow> ks. (if g t = k then f t else 0) + sum_list (map f (filter (\<lambda>t. p t \<and> g t = k) ts)))"
      by (rule arg_cong [where f = sum_list]) (auto simp: True)
    also have "\<dots> = f t + sum_list (map f (filter p ts))"
      using IH one by (simp add: sum_list_addf)
    finally show ?thesis using True by simp
  qed
qed

lemma usage_rows_sums:
  assumes "q_max_rows q \<le> 0"
  shows "sum_list (map ur_up (usage_rows q offset d)) = sum_up (filter (selected q offset) (d_logs d))"
    and "sum_list (map ur_down (usage_rows q offset d)) = sum_down (filter (selected q offset) (d_logs d))"
proof -
  note part = sum_partition [OF distinct_usage_keys usage_keys_complete]
  have rows: "sum_list (map f (usage_rows q offset d))
      = (\<Sum>k \<leftarrow> usage_keys q offset (d_logs d). f (usage_row_of q offset d k))" for f :: "usage_row \<Rightarrow> int"
  proof -
    have "mset (map f (usage_rows q offset d))
        = mset (map f (map (usage_row_of q offset d) (usage_keys q offset (d_logs d))))"
      unfolding mset_map mset_usage_rows [OF assms] ..
    from arg_cong [OF this, of sum_mset] show ?thesis
      unfolding sum_mset_sum_list by (simp add: comp_def)
  qed
  show "sum_list (map ur_up (usage_rows q offset d)) = sum_up (filter (selected q offset) (d_logs d))"
    unfolding rows by (simp add: usage_row_of_def Let_def sum_up_def part)
  show "sum_list (map ur_down (usage_rows q offset d)) = sum_down (filter (selected q offset) (d_logs d))"
    unfolding rows by (simp add: usage_row_of_def Let_def sum_down_def part)
qed

section \<open>A query reads the samples it selects\<close>

lemma usage_row_of_cong:
  assumes "filter (selected q offset) (d_logs d) = filter (selected q offset) (d_logs d')"
    and "q_by_user q \<Longrightarrow> d_users d = d_users d'" "d_nodes d = d_nodes d'"
  shows "usage_row_of q offset d k = usage_row_of q offset d' k"
proof -
  have "filter (\<lambda>t. selected q offset t \<and> group_key q offset t = k) (d_logs d)
      = filter (\<lambda>t. selected q offset t \<and> group_key q offset t = k) (d_logs d')"
    using arg_cong [OF assms(1), of "filter (\<lambda>t. group_key q offset t = k)"] by (simp add: conj_commute)
  then show ?thesis using assms(2,3) by (simp add: usage_row_of_def)
qed

lemma usage_rows_cong:
  assumes "filter (selected q offset) (d_logs d) = filter (selected q offset) (d_logs d')"
    and "q_by_user q \<Longrightarrow> d_users d = d_users d'" "d_nodes d = d_nodes d'"
  shows "usage_rows q offset d = usage_rows q offset d'"
proof -
  have "usage_row_of q offset d = usage_row_of q offset d'"
    by (rule ext) (rule usage_row_of_cong [OF assms])
  then show ?thesis by (simp only: usage_rows_def assms(1))
qed

section \<open>Accepted queries\<close>

lemma parse_dims_frame: "parse_dims names q = Inr q' \<Longrightarrow> q_from q' = q_from q \<and> q_to q' = q_to q
    \<and> q_max_rows q' = q_max_rows q"
proof (induction names arbitrary: q)
  case (Cons name names)
  then show ?case
    unfolding parse_dims.simps Let_def
    by (simp only: split: if_splits) ((drule Cons.IH, simp) | simp)+
qed simp

lemma or_error_Inr: "or_error m k = Inr b \<longleftrightarrow> (\<exists>a. m = Inr a \<and> k a = Inr b)"
  by (cases m) (simp_all add: or_error_def)

lemma if_Inl: "(if c then Inl e else m) = Inr b \<longleftrightarrow> \<not> c \<and> m = Inr b"
  by simp

lemma parseUsageQuery_window:
  assumes "parseUsageQuery loc now query n = Inr q"
  shows "RetentionStart loc now \<le> q_from q" "q_from q \<le> q_to q" "q_to q \<le> Today loc now" "q_max_rows q = 0"
proof -
  define R T where "R = RetentionStart loc now" and "T = Today loc now"
  obtain x y q0 where to_day: "\<not> (if x > T then T else x) < R"
    and from_day: "\<not> (if y < R then R else y) > (if x > T then T else x)"
    and dims: "parse_dims (SplitByte (CHR '','') (query ''group''))
       \<lparr>q_from = (if y < R then R else y), q_to = (if x > T then T else x),
        q_user = 0, q_node = 0, q_by_day = False, q_by_user = False, q_by_node = False, q_max_rows = 0\<rparr> = Inr q0"
    and q: "q0\<lparr>q_user := fst (Atoi (query ''user_id'')), q_node := fst (Atoi (query ''node_id''))\<rparr> = q"
    using assms unfolding parseUsageQuery_def Let_def or_error_Inr if_Inl sum.inject R_def T_def by blast
  have fields: "q_from q = (if y < R then R else y)" "q_to q = (if x > T then T else x)" "q_max_rows q = 0"
    using parse_dims_frame [OF dims] by (simp_all flip: q)
  show "RetentionStart loc now \<le> q_from q" "q_to q \<le> Today loc now" "q_max_rows q = 0"
    using fields by (auto simp: not_less R_def T_def)
  show "q_from q \<le> q_to q" using from_day unfolding fields not_less .
qed

section \<open>Pruning\<close>

lemma digit_code: "is_digit c \<Longrightarrow> 48 \<le> (of_char c :: nat)" "is_digit c \<Longrightarrow> (of_char c :: nat) \<le> 57"
  by (simp_all add: is_digit_def less_eq_char_def)

lemma digit_of_val: "is_digit c \<Longrightarrow> digit (int (digit_val c)) = c"
proof -
  assume "is_digit c"
  from digit_code [OF this] have "48 + nat (int (of_char c - 48 :: nat)) = (of_char c :: nat)" by simp
  then show ?thesis by (simp only: digit_def digit_val_def char_of_char)
qed

lemma digit_val_le: "is_digit c \<Longrightarrow> digit_val c \<le> 9"
  using digit_code [of c] by (simp add: digit_val_def)

lemma pad2_read:
  assumes "is_digit a" "is_digit b"
  shows "pad2 (two_digits [a, b]) = [a, b]"
proof -
  have n: "two_digits [a, b] = 10 * int (digit_val a) + int (digit_val b)"
    by (simp add: two_digits_def read_nat_def)
  have "(10 * int (digit_val a) + int (digit_val b)) div 10 mod 10 = int (digit_val a)"
    "(10 * int (digit_val a) + int (digit_val b)) mod 10 = int (digit_val b)"
    using digit_val_le [OF assms(1)] digit_val_le [OF assms(2)] by simp_all
  then show ?thesis by (simp add: pad2_def n digit_of_val assms)
qed

lemma base_100: "0 \<le> (y :: int) \<Longrightarrow> y < 100 \<Longrightarrow> (100 * x + y) div 100 = x \<and> (100 * x + y) mod 100 = y"
  by simp

lemma pad4_read:
  assumes "is_digit a" "is_digit b" "is_digit c" "is_digit e"
  shows "pad4 (two_digits [a, b, c, e]) = [a, b, c, e]"
proof -
  have n: "two_digits [a, b, c, e] = 100 * two_digits [a, b] + two_digits [c, e]"
    by (simp add: two_digits_def read_nat_def)
  have "0 \<le> two_digits [c, e]" "two_digits [c, e] < 100"
    using digit_val_le [OF assms(3)] digit_val_le [OF assms(4)] by (simp_all add: two_digits_def read_nat_def)
  from base_100 [OF this, of "two_digits [a, b]"]
  have "two_digits [a, b, c, e] div 100 = two_digits [a, b]" "two_digits [a, b, c, e] mod 100 = two_digits [c, e]"
    unfolding n by simp_all
  then show ?thesis by (simp add: pad4_def pad2_read assms)
qed

text \<open>A text that reads as a time is the text of that time, and as a day in UTC its first ten bytes.\<close>

lemma drop_split: "drop i s = take n (drop i s) @ drop (i + n) s"
  by (metis add.commute append_take_drop_id drop_drop)

lemma pad2_read': "length s = 2 \<Longrightarrow> list_all is_digit s \<Longrightarrow> pad2 (two_digits s) = s"
  by (auto simp: length_Suc_conv numeral_2_eq_2 pad2_read)

lemma pad4_read': "length s = 4 \<Longrightarrow> list_all is_digit s \<Longrightarrow> pad4 (two_digits s) = s"
  by (auto simp: length_Suc_conv eval_nat_numeral pad4_read)

lemma ParseDateTime_text:
  assumes "ParseDateTime s = Some t"
  shows "s = FormatDateTime t" and "valid_clock t"
proof -
  define f where "f = (\<lambda>i n. take n (drop i s))"
  have len: "length s = 19" and digits: "list_all is_digit (f 0 4)" "list_all is_digit (f 5 2)"
      "list_all is_digit (f 8 2)" "list_all is_digit (f 11 2)" "list_all is_digit (f 14 2)" "list_all is_digit (f 17 2)"
    and seps: "f 4 1 = ''-''" "f 7 1 = ''-''" "f 10 1 = '' ''" "f 13 1 = '':''" "f 16 1 = '':''"
    and t: "t = mk_time (two_digits (f 0 4)) (two_digits (f 5 2)) (two_digits (f 8 2))
      (two_digits (f 11 2)) (two_digits (f 14 2)) (two_digits (f 17 2))" and "valid_clock t"
    using assms by (simp_all only: ParseDateTime_def Let_def f_def list_all_append split: if_splits) simp_all
  have s: "s = f 0 4 @ f 4 1 @ f 5 2 @ f 7 1 @ f 8 2 @ f 10 1 @ f 11 2 @ f 13 1 @ f 14 2 @ f 16 1 @ f 17 2"
    using drop_split [of 0 s 4] drop_split [of 4 s 1] drop_split [of 5 s 2] drop_split [of 7 s 1]
      drop_split [of 8 s 2] drop_split [of 10 s 1] drop_split [of 11 s 2] drop_split [of 13 s 1]
      drop_split [of 14 s 2] drop_split [of 16 s 1] drop_split [of 17 s 2] len
    by (simp add: f_def)
  have "FormatDateTime t = f 0 4 @ ''-'' @ f 5 2 @ ''-'' @ f 8 2 @ '' '' @ f 11 2 @ '':'' @ f 14 2 @ '':'' @ f 17 2"
    using digits len by (simp add: t mk_time_def FormatDateTime_def FormatDay_def pad2_read' pad4_read' f_def)
  also have "\<dots> = s"
    using s by (simp only: seps)
  finally show "s = FormatDateTime t" ..
  show "valid_clock t" by fact
qed

lemma add_seconds_0: "valid_clock t \<Longrightarrow> add_seconds 0 t = t"
proof -
  assume v: "valid_clock t"
  define m s where "m = 60 * hh t + mi t" and "s = 3600 * hh t + 60 * mi t + sc t"
  have s: "s = 60 * m + sc t" "0 \<le> m" "m < 1440" "0 \<le> sc t" "sc t < 60" "0 \<le> mi t" "mi t < 60"
    using v by (simp_all add: m_def s_def valid_clock_def)
  have base: "0 \<le> (y :: int) \<Longrightarrow> y < 60 \<Longrightarrow> (60 * x + y) div 60 = x \<and> (60 * x + y) mod 60 = y" for x y :: int
    by simp
  have div: "s div 60 = m" "s mod 60 = sc t" "m div 60 = hh t" "m mod 60 = mi t"
    using base [of "sc t" m] base [of "mi t" "hh t"] s by (simp_all only: m_def)
  have h: "s div 3600 = m div 60" unfolding div(1) [symmetric] using zdiv_zmult2_eq [of 60 s 60] by simp
  have z: "s div 86400 = 0" "s mod 86400 = s" using s by simp_all
  have "add_seconds 0 t = t\<lparr>hh := hh t, mi := mi t, sc := sc t\<rparr>"
    unfolding add_seconds_def Let_def add_0_right s_def [symmetric] z h div
    by (simp add: add_days_def)
  then show ?thesis by simp
qed

lemma sql_date_UTC: "sql_date 0 s = Some day \<Longrightarrow> \<exists>t. s = FormatDateTime t \<and> day = FormatDay t"
  using ParseDateTime_text [of s] by (auto simp: sql_date_def add_seconds_0)

lemma pad2_min: "pad2 0 \<le> pad2 n"
proof -
  have "0 \<le> n div 10 mod 10" "0 \<le> n mod 10" by simp_all
  then show ?thesis by (auto simp: pad2_def digit_def less_eq_char_def less_char_def)
qed

lemma append_le_iff:
  fixes a b u v :: "'a :: linorder list"
  shows "length a = length b \<Longrightarrow> (a @ u \<le> b @ v) = (a < b \<or> a = b \<and> u \<le> v)"
  by (auto simp: append_less_iff le_less)

lemma midnight_first: "FormatDateTime (t\<lparr>hh := 0, mi := 0, sc := 0\<rparr>) \<le> FormatDateTime t"
  using pad2_min [of "hh t"] pad2_min [of "mi t"] pad2_min [of "sc t"]
  by (auto simp: FormatDateTime_def FormatDay_def append_le_iff append_less_iff le_less)

text \<open>A sample from before the cutoff lies on a day before the first retained one.\<close>

lemma pruned_day:
  assumes "sql_date 0 (t_at x) = Some day" "t_at x < FormatDateTime c" "hh c = 0" "mi c = 0" "sc c = 0"
  shows "day < FormatDay c"
proof -
  obtain t where t: "t_at x = FormatDateTime t" "day = FormatDay t" using sql_date_UTC [OF assms(1)] by auto
  have "FormatDateTime (t\<lparr>hh := 0, mi := 0, sc := 0\<rparr>) < FormatDateTime c"
    using midnight_first [of t] assms(2) t(1) by simp
  then show ?thesis
    using assms(3-5) t(2) by (auto simp: FormatDateTime_def append_less_iff FormatDay_def)
qed

definition pruned :: "location option \<Rightarrow> datetime \<Rightarrow> db \<Rightarrow> db" where
  "pruned loc now d = d\<lparr>d_logs := del_rows (\<lambda>t. t_at t <
     FormatDateTime (local_to_utc (store_location loc) (retention_first loc now))) (d_logs d)\<rparr>"

lemma run_Prune: "wp (TrafficStore_Prune loc) (\<lambda>r w'. (\<forall>n. r = Inr n \<longrightarrow> w_db w' = pruned loc (w_now w) (w_db w)) \<and>
    (\<forall>e. r = Inl e \<longrightarrow> w_db w' = w_db w) \<and> w_now w' = w_now w) w"
  unfolding TrafficStore_Prune_def Let_def wp_bind wp_get_now
  by (rule wp_db_exec) (auto simp: becomes_def pruned_def)

lemma usage_rows_pruned:
  assumes "RetentionStart None now \<le> q_from q"
  shows "usage_rows q 0 (pruned None now d) = usage_rows q 0 d"
proof (rule usage_rows_cong)
  let ?c = "retention_first None now"
  have c: "local_to_utc UTC ?c = ?c" "hh ?c = 0" "mi ?c = 0" "sc ?c = 0"
    by (simp_all add: local_to_utc_def UTC_def retention_first_def Let_def add_months_def mk_time_def)
  have "\<not> selected q 0 x" if "t_at x < FormatDateTime ?c" for x
  proof (cases "sql_date 0 (t_at x)")
    case None
    then show ?thesis by (simp add: selected_def)
  next
    case (Some day)
    from pruned_day [OF Some that c(2-4)] assms have "day < q_from q"
      by (simp add: RetentionStart_def)
    then show ?thesis using Some by (auto simp: selected_def)
  qed
  then show "filter (selected q 0) (d_logs (pruned None now d)) = filter (selected q 0) (d_logs d)"
    by (auto simp: pruned_def del_rows_def c(1) intro!: filter_cong)
qed (simp_all add: pruned_def)

end
