(* ===== verification/Guards.thy ===== *)
theory Guards
  imports Reachable
begin

text \<open>
  Which handler a path reaches, and what the middleware makes of a request that is not an
  administrator's: the routes below the administrator's patterns are closed to it.
\<close>

section \<open>The longest match\<close>

lemma longest_None: "longest path rs = None \<Longrightarrow> (pat, h) \<in> set rs \<Longrightarrow> \<not> mux_match path pat"
proof (induction rs)
  case (Cons x xs)
  obtain pat0 h0 where x: "x = (pat0, h0)" by (cases x)
  have rest: "\<not> mux_match path pat0 \<and> longest path xs = None"
    using Cons.prems(1) by (simp add: x split: if_splits option.splits prod.splits)
  from Cons.prems(2) consider "pat = pat0" | "(pat, h) \<in> set xs" by (auto simp: x)
  then show ?case using rest Cons.IH by cases simp_all
qed simp

lemma longest_Some: "longest path rs = Some (pat, h) \<Longrightarrow>
    mux_match path pat \<and> (\<forall>x \<in> set rs. mux_match path (fst x) \<longrightarrow> length (fst x) \<le> length pat)"
proof (induction rs arbitrary: pat h)
  case (Cons x xs)
  obtain pat0 h0 where x: "x = (pat0, h0)" by (cases x)
  show ?case
  proof (cases "mux_match path pat0")
    case False
    then show ?thesis using Cons by (simp add: x)
  next
    case True
    show ?thesis
    proof (cases "longest path xs")
      case None
      then have "pat = pat0" using Cons.prems True by (simp add: x)
      moreover have "\<not> mux_match path (fst y)" if "y \<in> set xs" for y
        using longest_None [OF None, of "fst y" "snd y"] that by simp
      ultimately show ?thesis using True by (auto simp: x)
    next
      case (Some y)
      obtain pat1 h1 where y: "y = (pat1, h1)" by (cases y)
      have "mux_match path pat1 \<and> (\<forall>x \<in> set xs. mux_match path (fst x) \<longrightarrow> length (fst x) \<le> length pat1)"
        using Cons.IH Some y by blast
      moreover have "pat = (if length pat1 > length pat0 then pat1 else pat0)"
        using Cons.prems True Some y by (simp add: x split: if_splits)
      ultimately show ?thesis using True by (auto simp: x split: if_splits intro: order_trans)
    qed
  qed
qed simp

section \<open>Patterns\<close>

definition admin_patterns :: "string list" where
  "admin_patterns = [''/api/users'', ''/api/users/'', ''/api/nodes'', ''/api/nodes/reorder'', ''/api/nodes/'',
     ''/api/inbounds/'', ''/api/batch/push-all'', ''/api/batch/reprovision'', ''/api/batch/template'',
     ''/api/stats/meta'', ''/api/stats/usage'', ''/api/stats/users'', ''/api/stats/nodes'']"

definition session_patterns :: "string list" where
  "session_patterns = [''/api/me'', ''/api/me/nodes'', ''/api/me/usage'']"

definition public_patterns :: "string list" where
  "public_patterns = [''/'', ''/api/health'', ''/api/version'', ''/api/ready'', ''/api/login'', ''/api/register'',
     ''/api/node/report'', ''/sub/'']"

lemma patterns: "map fst (admin_routes p) = admin_patterns" "map fst (session_routes p) = session_patterns"
  "map fst (public_routes p) = public_patterns"
  by (simp_all add: admin_routes_def session_routes_def public_routes_def admin_patterns_def
      session_patterns_def public_patterns_def)

lemma routes_cases:
  assumes "(pat, h) \<in> set (routes p)"
  obtains "pat \<in> set public_patterns"
  | k where "pat \<in> set session_patterns" "(pat, k) \<in> set (session_routes p)" "h = JWTAuth (pn_lib p) (pn_auth p) k"
  | k where "pat \<in> set admin_patterns" "(pat, k) \<in> set (admin_routes p)" "h = AdminOnly (pn_lib p) (pn_auth p) k"
  using assms unfolding routes_def patterns [of p, symmetric]
  by (auto simp: image_iff) force+

lemma route_exists:
  assumes "pat \<in> set admin_patterns \<union> set session_patterns"
  shows "\<exists>h. (pat, h) \<in> set (routes p)"
proof -
  have "map fst (routes p) = public_patterns @ session_patterns @ admin_patterns"
    by (simp add: routes_def patterns [of p, symmetric] case_prod_unfold o_def)
  then have "set (map fst (routes p)) = set (public_patterns @ session_patterns @ admin_patterns)" by simp
  with assms have "pat \<in> set (map fst (routes p))" by auto
  then have "pat \<in> fst ` set (routes p)" by simp
  then obtain x where "pat = fst x" "x \<in> set (routes p)" by (rule imageE)
  then have "(pat, snd x) \<in> set (routes p)" by simp
  then show ?thesis by (intro exI)
qed

text \<open>Two patterns that match one path, decided on the patterns.\<close>

definition clash :: "string \<Rightarrow> string \<Rightarrow> bool" where
  "clash a b = (if HasSuffix a ''/'' then if HasSuffix b ''/'' then HasPrefix a b \<or> HasPrefix b a else HasPrefix b a
     else if HasSuffix b ''/'' then HasPrefix a b else a = b)"

lemma HasPrefix_both: "HasPrefix path a \<Longrightarrow> HasPrefix path b \<Longrightarrow> HasPrefix a b \<or> HasPrefix b a"
  by (auto simp: HasPrefix_iff append_eq_append_conv2)

lemma match_clash: "mux_match path a \<Longrightarrow> mux_match path b \<Longrightarrow> clash a b"
  by (auto simp: mux_match_def clash_def split: if_splits dest: HasPrefix_both)

lemma admin_longer: "\<forall>a \<in> set admin_patterns. \<forall>b \<in> set (public_patterns @ session_patterns). clash a b \<longrightarrow> length b < length a"
  by (simp add: clash_def admin_patterns_def public_patterns_def session_patterns_def HasPrefix_def HasSuffix_def)

lemma session_longer: "\<forall>a \<in> set session_patterns. \<forall>b \<in> set public_patterns. clash a b \<longrightarrow> length b < length a"
  by code_simp

section \<open>Closed routes\<close>

lemma top_route:
  assumes "pat \<in> set admin_patterns \<union> set session_patterns" "mux_match path pat"
  obtains pat' h where "longest path (routes p) = Some (pat', h)" "(pat', h) \<in> set (routes p)"
    "clash pat pat'" "length pat \<le> length pat'"
proof -
  obtain h0 where in_routes: "(pat, h0) \<in> set (routes p)" using route_exists assms(1) by blast
  then have "longest path (routes p) \<noteq> None"
    using longest_None [of path "routes p" pat h0] assms(2) in_routes by (intro notI) simp
  then obtain pat' h where top: "longest path (routes p) = Some (pat', h)"
    by (cases "longest path (routes p)") auto
  have best: "mux_match path pat'" "\<forall>x \<in> set (routes p). mux_match path (fst x) \<longrightarrow> length (fst x) \<le> length pat'"
    using longest_Some [OF top] by blast+
  have "length pat \<le> length pat'" using bspec [OF best(2) in_routes] assms(2) by simp
  from that [OF top longest_in [OF top] match_clash [OF assms(2) best(1)] this] show ?thesis .
qed

lemma admin_route:
  assumes "pat \<in> set admin_patterns" "mux_match path pat"
  obtains pat' k where "longest path (routes p) = Some (pat', AdminOnly (pn_lib p) (pn_auth p) k)"
    "(pat', k) \<in> set (admin_routes p)"
proof -
  obtain pat' h where top: "longest path (routes p) = Some (pat', h)" "(pat', h) \<in> set (routes p)"
    "clash pat pat'" "length pat \<le> length pat'" by (rule top_route [of pat path p]) (use assms in auto)
  have "pat' \<notin> set public_patterns \<union> set session_patterns"
    using bspec [OF bspec [OF admin_longer assms(1)], of pat'] top(3,4) by auto
  with top show ?thesis
    by (elim routes_cases) (use that in auto)
qed

lemma session_route:
  assumes "pat \<in> set session_patterns" "mux_match path pat"
  obtains pat' k where "longest path (routes p) = Some (pat', JWTAuth (pn_lib p) (pn_auth p) k)"
proof -
  obtain pat' h where top: "longest path (routes p) = Some (pat', h)" "(pat', h) \<in> set (routes p)"
    "clash pat pat'" "length pat \<le> length pat'" by (rule top_route [of pat path p]) (use assms in auto)
  have "pat' \<notin> set public_patterns"
    using bspec [OF bspec [OF session_longer assms(1)], of pat'] top(3,4) by auto
  with top show ?thesis
    by (elim routes_cases) (use that in \<open>auto simp: AdminOnly_def\<close>)
qed

end
