(* ===== verification/Demo.thy ===== *)
theory Demo
  imports Success Usage Guards
begin

text \<open>
  A concrete panel for the witnesses: one node with one inbound and one user that may use it,
  in an environment where everything works, one where the node cannot be reached and one
  where its service does not restart. The node runs what the panel last generated for it.
\<close>

definition demo_now :: datetime where
  "demo_now = mk_time 2025 3 10 12 0 0"

definition demo_user :: user where
  "demo_user = \<lparr>u_id = 1, u_name = ''ann'', u_uuid = ''a1'', u_sub_token = ''tok'', u_password = ''h'',
     u_enabled = True, u_limit = 0, u_used = 30, u_up = 10, u_down = 20, u_reset_day = 1,
     u_last_reset = ''2025-03-01'', u_note = ''old'', u_expire = '''', u_created = ''2025-01-01 00:00:00'',
     u_updated = ''2025-01-01 00:00:00''\<rparr>"

definition demo_node :: node where
  "demo_node = \<lparr>n_id = 1, n_name = ''n1'', n_host = ''h1'', n_port = 22, n_domain = ''a.b'', n_ssh_user = ''root'',
     n_ssh_password = ''pw'', n_proxy_type = ''singbox'', n_config_path = ''/c'', n_singbox_bin = ''/s'',
     n_agent_token = ''agent'', n_enabled = True, n_sort_order = 0, n_created = ''2025-01-01 00:00:00''\<rparr>"

definition demo_inbound :: inbound where
  "demo_inbound = \<lparr>ib_id = 1, ib_node = 1, ib_tag = ''in'', ib_protocol = ''vless-httpupgrade'', ib_port = 443,
     ib_settings = RawJson (JObj [(''domain'', JStr ''a.b''), (''cert_path'', JStr ''/k''), (''key_path'', JStr ''/l'')]),
     ib_enabled = True, ib_sort_order = 0\<rparr>"

definition demo_db :: db where
  "demo_db = \<lparr>d_users = [demo_user], d_nodes = [demo_node], d_inbounds = [demo_inbound], d_access = [(1, 1)],
     d_logs = [\<lparr>t_user = 1, t_node = 1, t_up = 10, t_down = 20, t_at = ''2025-03-09 08:00:00''\<rparr>],
     d_user_seq = 1, d_node_seq = 1, d_inbound_seq = 1\<rparr>"

definition works :: remote_script where
  "works = \<lparr>rs_key_usable = True, rs_dial = True, rs_write = True, rs_check = True, rs_mkdir = True,
     rs_backup = True, rs_copy = True, rs_rm_tmp = True, rs_restart = True, rs_rm_backup = True,
     rs_restore = True, rs_restart_again = True, rs_cat = True, rs_torn = None\<rparr>"

definition demo_env :: "(nat \<Rightarrow> remote_script) \<Rightarrow> env" where
  "demo_env r = \<lparr>db_fault = (\<lambda>_. False), rand_byte = (\<lambda>t i. t + i), new_uuid = (\<lambda>t. ''uuid'' @ show_nat t),
     remote = r, ssh_run = (\<lambda>_ _. ([], True)), ssh_reload = (\<lambda>_. False), lookup_host = (\<lambda>_ _. None)\<rparr>"

definition demo_fleet :: "db \<Rightarrow> string \<Rightarrow> machine" where
  "demo_fleet d = (\<lambda>_. \<lparr>m_files = (\<lambda>p. if p = ''/c'' then Some (RawJson (gen_doc demo_now 1 d)) else None),
     m_unit_path = ''/c'', m_loaded = Some (RawJson (gen_doc demo_now 1 d))\<rparr>)"

definition world_with :: "db \<Rightarrow> (nat \<Rightarrow> remote_script) \<Rightarrow> world" where
  "world_with d r = \<lparr>w_db = d, w_fleet = demo_fleet d, w_now = demo_now, w_env = demo_env r, w_tick = 0\<rparr>"

definition good_world :: world where
  "good_world = world_with demo_db (\<lambda>_. works)"

text \<open>The first push of the run fails at the restart, the later ones work.\<close>

definition flaky_world :: "nat \<Rightarrow> world" where
  "flaky_world n = world_with demo_db (\<lambda>t. if t < n then works\<lparr>rs_restart := False\<rparr> else works)"

definition no_body :: body where
  "no_body = \<lparr>as_create_user = None, as_update_user = None, as_create_node = None, as_update_node = None,
     as_create_inbound = None, as_reorder = None, as_access = None, as_node_ids = None,
     as_credentials = None, as_traffic = None, as_auto_setup = None,
     as_reality_target = None, as_reprovision = None, as_cert_renew = ('''', False), as_install = None,
     as_setup_ssh = '''', as_upload_cert = None\<rparr>"

definition demo_request :: "string \<Rightarrow> string \<Rightarrow> body \<Rightarrow> request" where
  "demo_request m p b = \<lparr>r_method = m, r_path = p, r_query = (\<lambda>_. ''''), r_values = (\<lambda>_. []), r_header = (\<lambda>_. ''''),
     r_body = b, r_has_body = True, r_role = '''', r_user = 0\<rparr>"

definition limit_req :: update_user_req where
  "limit_req = \<lparr>uu_name = None, uu_enabled = None, uu_limit = Some 5, uu_reset_day = None, uu_expire = None,
     uu_note = Some ''new''\<rparr>"

definition put_user :: request where
  "put_user = demo_request ''PUT'' ''/api/users/1'' (no_body\<lparr>as_update_user := Some (limit_req, None)\<rparr>)"

lemma demo_fields [simp]: "w_db (world_with d r) = d" "w_now (world_with d r) = demo_now"
  "w_fleet (world_with d r) = demo_fleet d" "w_env (world_with d r) = demo_env r"
  by (simp_all add: world_with_def)

lemma demo_ok: "db_ok demo_db"
  by (simp add: db_ok_def users_ok_def nodes_ok_def inbounds_ok_def access_ok_def logs_ok_def table_ok_def
      demo_db_def demo_user_def demo_node_def demo_inbound_def)

lemma demo_fleet_ok: "fleet_ok demo_db"
  by (simp add: fleet_ok_def demo_db_def demo_user_def demo_node_def tmpPath_def backupPath_def)

lemma demo_in_sync: "d_nodes d = [demo_node] \<Longrightarrow> in_sync (world_with d r) i"
  by (auto simp: in_sync_def sel_row_def runs_def demo_fleet_def demo_node_def split: if_splits)

lemma demo_sync: "in_sync (world_with demo_db r) i"
  by (rule demo_in_sync) (simp add: demo_db_def)

lemma demo_reliable: "reliable (demo_env (\<lambda>_. works))"
  by (simp add: reliable_def demo_env_def remote_works_def works_def)

lemma good_fields [simp]: "w_db good_world = demo_db" "w_now good_world = demo_now"
  "w_env good_world = demo_env (\<lambda>_. works)"
  by (simp_all add: good_world_def)

lemma flaky_fields [simp]: "w_db (flaky_world n) = demo_db" "w_now (flaky_world n) = demo_now"
  by (simp_all add: flaky_world_def)

lemma good_sync: "in_sync good_world i" and flaky_sync: "in_sync (flaky_world n) i"
  by (simp_all add: good_world_def flaky_world_def demo_sync)

lemma demo_box: "all_singbox demo_db"
  by (simp add: all_singbox_def demo_db_def demo_node_def)

lemma good_reliable: "reliable (w_env good_world)"
  by (simp add: demo_reliable)

lemmas good = good_reliable demo_ok [folded good_fields(1)] demo_box [folded good_fields(1)]
lemmas calm = demo_ok [folded good_fields(1)] demo_fleet_ok [folded good_fields(1)] good_sync

lemma run_wp: "wp m Q w \<Longrightarrow> \<exists>a t. run_state m w = (a, t) \<and> Q a t"
  by (auto simp: wp_def split: prod.splits)

text \<open>The requests of the witnesses.\<close>

definition on_user :: "string \<Rightarrow> string \<Rightarrow> body \<Rightarrow> request" where
  "on_user m sub b = demo_request m (''/api/users/'' @ Itoa 1 @ CHR ''/'' # sub) b"

lemma on_user [simp]: "parseID (r_path (on_user m sub b)) ''/api/users/'' = 1"
  "extractUserID (r_path (on_user m sub b)) = 1" "r_body (on_user m sub b) = b" "r_method (on_user m sub b) = m"
  using parseID_path(2) [of 1 "''/api/users/''" sub]
  by (simp_all only: on_user_def demo_request_def request.simps extractUserID_parseID) simp_all

definition on_node :: "string \<Rightarrow> string \<Rightarrow> body \<Rightarrow> request" where
  "on_node m sub b = demo_request m (''/api/nodes/'' @ Itoa 1 @ CHR ''/'' # sub) b"

lemma on_node [simp]: "parseID (r_path (on_node m sub b)) ''/api/nodes/'' = 1"
  "r_body (on_node m sub b) = b" "r_method (on_node m sub b) = m"
  using parseID_path(2) [of 1 "''/api/nodes/''" sub]
  by (simp_all only: on_node_def demo_request_def request.simps) simp_all

lemma on_node_parts: "SplitByte (CHR ''/'') (TrimPrefix (r_path (on_node m ''inbounds'' b)) ''/api/nodes/'')
    = [Itoa 1, ''inbounds'']"
  by (simp add: on_node_def demo_request_def slash_not_in_Itoa SplitByte_append_sep
      del: append.append_Cons TrimPrefix_def)

definition on_inbound :: "string \<Rightarrow> body \<Rightarrow> request" where
  "on_inbound m b = demo_request m (''/api/inbounds/'' @ Itoa 1) b"

lemma on_inbound [simp]: "parseID (r_path (on_inbound m b)) ''/api/inbounds/'' = 1"
  "r_body (on_inbound m b) = b" "r_method (on_inbound m b) = m"
  using parseID_path(1) [of 1 "''/api/inbounds/''"]
  by (simp_all only: on_inbound_def demo_request_def request.simps) simp_all

lemma demo_rows [simp]: "d_users demo_db = [demo_user]" "d_nodes demo_db = [demo_node]"
  "d_inbounds demo_db = [demo_inbound]" "d_access demo_db = [(1, 1)]" "u_id demo_user = 1" "n_id demo_node = 1"
  "ib_id demo_inbound = 1" "ib_node demo_inbound = 1" "n_proxy_type demo_node = ''singbox''" "u_name demo_user = ''ann''"
  by (simp_all add: demo_db_def demo_user_def demo_node_def demo_inbound_def)

lemma demo_pushable: "pushable 1 demo_db"
  by (simp add: pushable_def sel_row_def)

definition add_inbound_req :: create_inbound_req where
  "add_inbound_req = \<lparr>ci_tag = '''', ci_protocol = ''vless-reality'', ci_port = 8443, ci_settings =
     RawJson (JObj [(''sni'', JStr ''www.bing.com''), (''private_key'', JStr ''k''), (''public_key'', JStr ''p'')])\<rparr>"

lemma add_inbound_valid: "valid_inbound_req add_inbound_req"
proof -
  have "validDomainName ''www.bing.com''" by code_simp
  then show ?thesis
    by (simp add: valid_inbound_req_def add_inbound_req_def missing_settings_def str_field_def field_def)
qed

text \<open>A node without inbounds that nobody may use.\<close>

definition bare_db :: db where
  "bare_db = demo_db\<lparr>d_inbounds := [], d_access := []\<rparr>"

definition bare_world :: world where
  "bare_world = world_with bare_db (\<lambda>_. works)"

lemma bare_ok: "db_ok bare_db" "fleet_ok bare_db"
  using demo_ok demo_fleet_ok
  by (simp_all add: bare_db_def db_ok_def users_ok_def nodes_ok_def inbounds_ok_def access_ok_def logs_ok_def
      fleet_ok_def table_ok_def)

lemma bare_fields [simp]: "w_db bare_world = bare_db" "d_users bare_db = [demo_user]" "w_env bare_world = demo_env (\<lambda>_. works)"
  "d_nodes bare_db = [demo_node]" "d_inbounds bare_db = []" "d_access bare_db = []"
  by (simp_all add: bare_world_def bare_db_def)

lemma bare_sync: "in_sync bare_world i"
  unfolding bare_world_def by (rule demo_in_sync) simp

text \<open>A panel whose libraries know two tokens, and requests to it.\<close>

definition demo_lib :: crypto where
  "demo_lib = \<lparr>jwt_sign = (\<lambda>s c. cl_role c),
     jwt_parse = (\<lambda>s now t. if s \<noteq> ''key'' then None
        else if t = ''root'' then Some \<lparr>cl_user_id = 0, cl_role = ''admin'', cl_username = ''admin'', cl_exp = now\<rparr>
        else if t = ''ann'' then Some \<lparr>cl_user_id = 1, cl_role = ''user'', cl_username = ''ann'', cl_exp = now\<rparr>
        else None),
     bcrypt_compare = (\<lambda>h p. h = p), bcrypt_hash = (\<lambda>p t. Some p)\<rparr>"

definition demo_panel :: panel where
  "demo_panel = \<lparr>pn_lib = demo_lib, pn_auth = \<lparr>au_admin_user = ''admin'', au_admin_pass = ''root'', au_secret = ''key''\<rparr>,
     pn_loc = None, pn_x509 = (\<lambda>_ _. None), pn_pub_key = None,
     pn_build = \<lparr>bi_version = '''', bi_commit = '''', bi_date = '''', bi_dirty = False\<rparr>,
     pn_assets = \<lparr>ax_index = None, ax_is_file = (\<lambda>_. False),
       ax_serve = (\<lambda>_. \<lparr>rp_status = 404, rp_payload = PNotFound\<rparr>)\<rparr>\<rparr>"

definition with_token :: "string \<Rightarrow> string \<Rightarrow> string \<Rightarrow> request" where
  "with_token m p t = (demo_request m p no_body)\<lparr>r_header := (\<lambda>h. if h = ''Authorization'' then ''Bearer '' @ t else '''')\<rparr>"

text \<open>A query without parameters, on the day of the demo.\<close>

definition demo_query :: usage_query where
  "demo_query = \<lparr>q_from = ''2025-03-04'', q_to = ''2025-03-10'', q_user = 0, q_node = 0, q_by_day = False,
     q_by_user = False, q_by_node = False, q_max_rows = 0\<rparr>"

lemma demo_query: "parseUsageQuery None demo_now (\<lambda>_. '''') 7 = Inr demo_query"
  by code_simp

lemma demo_selected: "filter (selected demo_query 0) (d_logs demo_db) = d_logs demo_db"
  by code_simp

lemma demo_fault [simp]: "\<not> db_fault (demo_env r) t"
  by (simp add: demo_env_def)

end
