(* ===== verification/StoredRows.thy ===== *)
theory StoredRows
  imports Reachable
begin

text \<open>
  What the rows of nodes and inbounds carry over the whole life of the panel: a node's domain
  is empty or has passed \<open>validDomainName\<close>, and an inbound has the settings its protocol
  needs. The operations on users, assignments and traffic keep any property of these two
  tables, which is a locale here; those that write the tables are followed with what they
  read and what they were asked for.
\<close>

section \<open>Properties of nodes and inbounds only\<close>

locale table_property =
  fixes I :: "db \<Rightarrow> bool"
  assumes frame: "I d \<Longrightarrow> d_nodes d' = d_nodes d \<Longrightarrow> d_inbounds d' = d_inbounds d \<Longrightarrow> I d'"
begin

lemma exec_elsewhere:
  assumes "\<And>d a d'. f d = Inr (a, d') \<Longrightarrow> d_nodes d' = d_nodes d \<and> d_inbounds d' = d_inbounds d"
  shows "keeps I (db_exec f)"
  by (rule keeps_exec) (use assms frame in blast)

lemma on_users: "keeps I (db_exec (set_user k g))" "keeps I (db_exec (insert_user u))"
  by (rule exec_elsewhere, force simp: set_user_def insert_user_def Let_def split: if_splits)+

lemma on_users_tables: "keeps I (UserStore_Create req)" "keeps I (UserStore_CreateWithPassword name hash)"
  "keeps I (UserStore_AddTraffic k up down)" "keeps I (UserStore_ResetTraffic k)"
  "keeps I (UserStore_RestoreTraffic old)" "keeps I (UserStore_CheckTrafficReset u)"
  unfolding UserStore_Create_def UserStore_CreateWithPassword_def UserStore_AddTraffic_def
    UserStore_ResetTraffic_def UserStore_RestoreTraffic_def UserStore_CheckTrafficReset_def
  by (intro kept on_users)+

lemma on_token: "keeps I (UserStore_ResetSubToken k)"
  unfolding UserStore_ResetSubToken_def
  by (intro kept exec_elsewhere) (auto simp: set_user_def split: if_splits)

lemma on_edit: "keeps I (UserStore_Update k req)" "keeps I (UserStore_UpdateWithAccess k req ids)"
  by (rule keepsI, rule wp_UserStore_Update, auto simp: becomes_db upd_user_def elim: frame)
    (rule keepsI, rule wp_UserStore_UpdateWithAccess,
      auto simp: becomes_db edit_access_def set_access_def upd_user_def elim: frame)

lemma on_deletion: "keeps I (UserStore_DeleteWithRelatedData k)"
proof (rule keepsI, rule wp_mono [OF does_DeleteWithRelatedData])
  fix w r w'
  assume "I (w_db w)" and "(r = Inr () \<longrightarrow> becomes w (delete_user_db k (w_db w)) w') \<and>
    (\<forall>e. r = Inl e \<longrightarrow> becomes w (w_db w) w')"
  then show "I (w_db w')"
    by (cases r) (auto simp: becomes_db delete_user_db_def elim: frame)
qed

lemma on_access: "keeps I (AccessStore_Grant k n)" "keeps I (AccessStore_GrantAll k)" "keeps I (AccessStore_Revoke k n)"
  "keeps I (AccessStore_RevokeAll k)" "keeps I (AccessStore_Replace k ids)"
  unfolding AccessStore_Grant_def AccessStore_GrantAll_def AccessStore_Revoke_def AccessStore_RevokeAll_def
    AccessStore_Replace_def delete_access_of_user_def insert_access_def require_node_def count_nodes_def
  by ((intro kept keeps_tx db_only_rules exec_elsewhere; force split: if_splits)+)

lemma on_samples: "keeps I (TrafficStore_Record n u up down)" "keeps I (TrafficStore_Prune loc)"
  unfolding TrafficStore_Record_def TrafficStore_Prune_def
  by ((intro kept exec_elsewhere; force)+)

lemmas elsewhere = on_users_tables on_token on_edit on_deletion on_access on_samples

lemma on_user_handlers: "keeps I (UserHandler_ServeHTTP (Some SyncNodes) r)"
  unfolding UserHandler_ServeHTTP_def UserHandler_list_def UserHandler_create_def UserHandler_get_def
    UserHandler_update_def UserHandler_delete_def UserHandler_resetTraffic_def UserHandler_resetSubToken_def
    restoreUser_def
  by (intro kept elsewhere)

lemma on_access_handlers: "keeps I (AccessHandler_ServeHTTP (Some SyncNodes) r)"
  unfolding AccessHandler_ServeHTTP_def AccessHandler_listAccess_def AccessHandler_grantAccess_def
    AccessHandler_revokeAccess_def AccessHandler_replaceAccess_def change_access_def
    completeAccessChange_def nodes_by_id_def
  by (intro kept elsewhere)

lemma on_logins: "keeps I (HandleLogin lib h r)" "keeps I (HandleRegister lib r)" "keeps I (Subscription_ServeHTTP r)"
  unfolding HandleLogin_def HandleRegister_def Subscription_ServeHTTP_def subscription_nodes_def
    accessible_node_def subscription_text_def Let_def
  by (intro kept elsewhere)+

lemma on_report: "keeps I (HandleTrafficReport r)"
proof -
  have "keeps I (account_traffic node users e)" for node users e
    by (cases e) (auto simp: account_traffic_def intro!: kept elsewhere split: option.splits)
  then show ?thesis unfolding HandleTrafficReport_def by (intro kept)
qed

lemma on_polling: "keeps I (pollAll pw env po)"
proof -
  have account: "keeps I (account_user n names e)" for n names e
    unfolding account_user_def by (cases e) (auto split: option.splits intro!: kept elsewhere)
  have "keeps I (pollNode pw e names n po)" for e names n po
    unfolding pollNode_def poller_get_def Let_def by (intro kept account)
  then have "keeps I (pollNodeGuarded pw e names n po)" for e names n po
    unfolding pollNodeGuarded_def by (intro kept)
  then have "keeps I (poll_nodes pw env names nodes po)" for names nodes po
    by (induction nodes arbitrary: po) (auto intro!: kept)
  then show ?thesis unfolding pollAll_def by (intro kept)
qed

end

section \<open>What a row has to carry\<close>

definition domain_or_none :: "string \<Rightarrow> bool" where
  "domain_or_none x \<longleftrightarrow> x = '''' \<or> validDomainName x"

definition well_set :: "string \<Rightarrow> raw_message \<Rightarrow> bool" where
  "well_set protocol m \<longleftrightarrow> (\<exists>s. settings_object m = Some s \<and> missing_settings protocol s = None)"

definition well_set_row :: "inbound \<Rightarrow> bool" where
  "well_set_row b \<longleftrightarrow> well_set (ib_protocol b) (ib_settings b)"

definition rows_ok :: "db \<Rightarrow> bool" where
  "rows_ok d \<longleftrightarrow> (\<forall>n \<in> set (d_nodes d). domain_or_none (n_domain n)) \<and> (\<forall>b \<in> set (d_inbounds d). well_set_row b)"

interpretation rows: table_property rows_ok
  by unfold_locales (simp add: rows_ok_def)

lemma well_set_cases:
  assumes "well_set protocol m"
  shows "missing_settings protocol (settings_map m) = None" "settings_or_empty m = m"
    "settings_object m = Some (settings_map m)"
  using assms by (auto simp: well_set_def elim!: settings_object.elims)

lemma well_set_object [simp]: "well_set protocol (RawJson (JObj s)) \<longleftrightarrow> missing_settings protocol s = None"
  by (simp add: well_set_def)

section \<open>Following what an operation returns\<close>

text \<open>The operation keeps \<open>I\<close>, and a result without an error satisfies \<open>P\<close>.\<close>

definition supplies :: "(db \<Rightarrow> bool) \<Rightarrow> ('a \<Rightarrow> bool) \<Rightarrow> 'a io \<Rightarrow> bool" where
  "supplies I P m \<longleftrightarrow> (\<forall>w. I (w_db w) \<longrightarrow> wp m (\<lambda>r w'. I (w_db w') \<and> P r) w)"

abbreviation supplies_row :: "(db \<Rightarrow> bool) \<Rightarrow> ('a \<Rightarrow> bool) \<Rightarrow> 'a res \<Rightarrow> bool" where
  "supplies_row I P \<equiv> supplies I (\<lambda>r. \<forall>a. r = Inr a \<longrightarrow> P a)"

lemma suppliesD: "supplies I P m \<Longrightarrow> I (w_db w) \<Longrightarrow> wp m (\<lambda>r w'. I (w_db w') \<and> P r) w"
  by (simp add: supplies_def)

lemma supplies_keeps: "supplies I P m \<Longrightarrow> keeps I m"
  by (auto simp: supplies_def keeps_def intro: wp_mono)

lemma supplies_quiet: "quiet m \<Longrightarrow> yields P m \<Longrightarrow> supplies I P m"
  unfolding supplies_def
proof (intro allI impI wp_conj)
  fix w :: world assume "quiet m" "yields P m" "I (w_db w)"
  then show "wp m (\<lambda>r w'. I (w_db w')) w" "wp m (\<lambda>r w'. P r) w"
    by (simp_all add: keepsD [OF keeps_quiet] yields_def)
qed

lemma supplies_return: "P a \<Longrightarrow> supplies I P (State_Monad.return a)"
  by (simp add: supplies_def wp_step)

lemma supplies_bind: "supplies I P m \<Longrightarrow> (\<And>a. P a \<Longrightarrow> supplies I Q (k a)) \<Longrightarrow> supplies I Q (State_Monad.bind m k)"
  unfolding supplies_def wp_bind by (blast intro: wp_mono)

lemma supplies_attempt: "supplies_row I P m \<Longrightarrow> (\<And>e. supplies I Q (h e)) \<Longrightarrow> (\<And>a. P a \<Longrightarrow> supplies I Q (k a)) \<Longrightarrow>
    supplies I Q (attempt m h k)"
  unfolding supplies_def [of I Q]
  by (intro allI impI, rule wp_attemptI [OF suppliesD [where I = I and P = "\<lambda>r. \<forall>a. r = Inr a \<longrightarrow> P a"]])
    (auto intro: suppliesD)

lemma keeps_supplies: "keeps I m \<longleftrightarrow> supplies I (\<lambda>_. True) m"
  by (simp add: keeps_def supplies_def)

lemma keeps_bind_of: "supplies I P m \<Longrightarrow> (\<And>a. P a \<Longrightarrow> keeps I (k a)) \<Longrightarrow> keeps I (State_Monad.bind m k)"
  unfolding keeps_supplies by (rule supplies_bind)

lemma keeps_attempt_of: "supplies_row I P m \<Longrightarrow> (\<And>e. keeps I (h e)) \<Longrightarrow> (\<And>a. P a \<Longrightarrow> keeps I (k a)) \<Longrightarrow>
    keeps I (attempt m h k)"
  unfolding keeps_supplies by (rule supplies_attempt)

lemma keeps_if_of: "(b \<Longrightarrow> keeps I m) \<Longrightarrow> (\<not> b \<Longrightarrow> keeps I n) \<Longrightarrow> keeps I (if b then m else n)"
  by simp

lemma keeps_option_of: "(x = None \<Longrightarrow> keeps I m) \<Longrightarrow> (\<And>y. x = Some y \<Longrightarrow> keeps I (n y)) \<Longrightarrow>
    keeps I (case x of None \<Rightarrow> m | Some y \<Rightarrow> n y)"
  by (cases x) simp_all

lemma supplies_query: "(\<And>d a. I d \<Longrightarrow> q d = Inr a \<Longrightarrow> P a) \<Longrightarrow> supplies_row I P (db_query q)"
  by (auto simp: supplies_def becomes_db intro!: wp_db_query)

section \<open>The rows that are read\<close>

lemma read_node: "supplies_row rows_ok (\<lambda>n. domain_or_none (n_domain n)) (NodeStore_Get i)"
  unfolding NodeStore_Get_def
  by (rule supplies_query) (auto simp: rows_ok_def elim!: row_or_none.elims dest!: sel_row_SomeD)

lemma read_inbound: "supplies_row rows_ok well_set_row (NodeStore_GetInbound i)"
  unfolding NodeStore_GetInbound_def
  by (rule supplies_query) (auto simp: rows_ok_def elim!: row_or_none.elims dest!: sel_row_SomeD)

lemma read_inbounds: "supplies_row rows_ok (\<lambda>bs. \<forall>b \<in> set bs. well_set_row b) (NodeStore_ListInbounds i)"
  unfolding NodeStore_ListInbounds_def by (rule supplies_query) (auto simp: rows_ok_def)

section \<open>The rows that are written\<close>

lemma set_upd_row_subset: "x \<in> set (upd_row key i g rows) \<Longrightarrow> \<exists>r \<in> set rows. x = r \<or> x = g r"
  by (auto simp: upd_row_def)

lemma write_node: "(\<And>n. domain_or_none (n_domain n) \<Longrightarrow> domain_or_none (n_domain (g n))) \<Longrightarrow>
    keeps rows_ok (db_exec (set_node i g))"
  by (rule keeps_exec) (auto simp: rows_ok_def set_node_def dest!: set_upd_row_subset)

lemma write_node_name: "keeps rows_ok (db_exec (set_node_name i v))"
  by (rule keeps_exec) (auto simp: rows_ok_def set_node_name_def set_node_def split: if_splits dest!: set_upd_row_subset)

lemma write_node_update:
  assumes "\<And>x. un_domain req = Some x \<Longrightarrow> domain_or_none x"
  shows "keeps rows_ok (NodeStore_Update i req)"
proof -
  have domain: "keeps rows_ok (when_given (un_domain req) (\<lambda>v. db_exec (set_node i (\<lambda>n. n\<lparr>n_domain := v\<rparr>))))"
    by (cases "un_domain req") (auto simp: when_given_def intro!: kept write_node assms)
  show ?thesis
    unfolding NodeStore_Update_def count_nodes_def
    by (intro domain kept keeps_tx db_only_rules write_node_name write_node) simp_all
qed

lemma write_new_node: "domain_or_none (cn_domain req) \<Longrightarrow> keeps rows_ok (NodeStore_Create req)"
  unfolding NodeStore_Create_def
  by (intro kept keeps_exec) (auto simp: rows_ok_def insert_node_def Let_def set_ins_row split: if_splits)

lemma write_no_node: "keeps rows_ok (NodeStore_Delete k)" "keeps rows_ok (NodeStore_ReorderNodes items)"
  unfolding NodeStore_Delete_def NodeStore_ReorderNodes_def reorder_node_def
  by ((intro kept keeps_tx db_only_rules keeps_exec;
      force simp: rows_ok_def set_del_rows dest!: set_upd_row_subset)+)

lemma write_inbounds:
  assumes "\<And>b. well_set_row b \<Longrightarrow> well_set_row (g b)"
  shows "keeps rows_ok (exec_inbounds p g)"
  unfolding exec_inbounds_def by (rule keeps_exec) (use assms in \<open>auto simp: rows_ok_def\<close>)

lemma write_order: "keeps rows_ok (NodeStore_ReorderInbounds k items)"
  unfolding NodeStore_ReorderInbounds_def reorder_inbound_def
  by (intro write_inbounds kept keeps_tx db_only_rules db_only_exec_inbounds) (simp add: well_set_row_def)

lemma write_deletion: "keeps rows_ok (NodeStore_DeleteInbound i)"
  unfolding NodeStore_DeleteInbound_def
  by (intro kept keeps_exec) (auto simp: rows_ok_def set_del_rows)

lemma write_settings: "well_set (ci_protocol req) (ci_settings req) \<Longrightarrow> keeps rows_ok (NodeStore_UpdateInbound i req)"
  unfolding NodeStore_UpdateInbound_def
  by (intro write_inbounds kept) (simp add: well_set_row_def well_set_cases)

lemma write_inbound: "well_set (ci_protocol req) (ci_settings req) \<Longrightarrow> keeps rows_ok (NodeStore_CreateInbound k req)"
  unfolding NodeStore_CreateInbound_def
  by (intro kept keeps_exec)
    (auto simp: rows_ok_def well_set_row_def well_set_cases insert_next_inbound_def insert_inbound_def
      set_ins_row split: if_splits)

lemma write_back: "well_set_row b \<Longrightarrow> keeps rows_ok (NodeStore_RestoreInbound b)"
  unfolding NodeStore_RestoreInbound_def
  by (intro kept keeps_exec) (auto simp: rows_ok_def insert_inbound_def set_ins_row split: if_splits)

lemmas write_rows = write_no_node write_order write_deletion

section \<open>The handlers of nodes and inbounds\<close>

lemma rows_createInbound: "keeps rows_ok (NodeHandler_createInbound (Some SyncNodes) r)"
  unfolding NodeHandler_createInbound_def
  by (intro keeps_option_of write_inbound kept write_rows) (auto simp: well_set_def)

lemma rows_deleteInbound: "keeps rows_ok (NodeHandler_deleteInbound (Some SyncNodes) r)"
  unfolding NodeHandler_deleteInbound_def
  by (intro keeps_let keeps_if keeps_attempt_of [OF read_inbound] kept write_rows write_back)

lemma rows_create: "keeps rows_ok (NodeHandler_create r)"
  unfolding NodeHandler_create_def
  by (intro keeps_option keeps_if_of keeps_attempt write_new_node kept) (auto simp: domain_or_none_def)

lemma rows_update: "keeps rows_ok (NodeHandler_update r)"
  unfolding NodeHandler_update_def store_node_update_def
  by (intro keeps_let keeps_option_of keeps_if_of keeps_attempt_of [OF read_node] keeps_attempt
      write_node_update kept) (auto simp: domain_or_none_def)

lemma rows_NodeHandler: "keeps rows_ok (NodeHandler_ServeHTTP (Some SyncNodes) r)"
  "keeps rows_ok (NodeHandler_Reorder r)" "keeps rows_ok (NodeHandler_ReorderInbounds (Some SyncNodes) r)"
  unfolding NodeHandler_ServeHTTP_def NodeHandler_list_def NodeHandler_get_def NodeHandler_delete_def
    NodeHandler_Reorder_def NodeHandler_ReorderInbounds_def
  by (intro rows_create rows_update rows_createInbound rows_deleteInbound kept write_rows)+

section \<open>Auto-setup\<close>

lemma yields_bind_of: "yields P m \<Longrightarrow> (\<And>a. P a \<Longrightarrow> yields Q (k a)) \<Longrightarrow> yields Q (State_Monad.bind m k)"
  unfolding yields_def wp_bind by (blast intro: wp_mono)

lemma yields_sum_of: "(\<And>y. s = Inl y \<Longrightarrow> yields P (f y)) \<Longrightarrow> (\<And>z. s = Inr z \<Longrightarrow> yields P (g z)) \<Longrightarrow>
    yields P (case s of Inl y \<Rightarrow> f y | Inr z \<Rightarrow> g z)"
  by (cases s) simp_all

lemma str_set_field [simp]: "str_field (set_field m k (JStr v)) j = (if j = k then v else str_field m j)"
proof -
  have "map_of (rev (filter (\<lambda>e. fst e \<noteq> k) m)) j = map_of (rev m) j" if "j \<noteq> k"
    using that by (induction m rule: rev_induct) auto
  then show ?thesis by (simp add: str_field_def field_def set_field_def)
qed

lemma yields_hysteriaSettings: "yields (\<lambda>s. str_field s ''domain'' = domain \<and>
    str_field s ''cert_path'' = tls_path domain ''.crt'' \<and> str_field s ''key_path'' = tls_path domain ''.key'')
   (hysteriaSettings old requested domain)"
  unfolding hysteriaSettings_def by (intro yields_rule) simp_all

lemma yields_reality_keys: "yields (\<lambda>r. \<forall>a b. r = Inr (a, b) \<longrightarrow> a \<noteq> '''' \<and> b \<noteq> '''') (reality_keys node old)"
  unfolding reality_keys_def by (intro yields_rule) (auto split: prod.splits if_splits)

lemma candidates_valid: "\<forall>host \<in> set realitySNIs. validDomainName host"
proof -
  have "list_all validDomainName realitySNIs" by code_simp
  then show ?thesis by (simp add: list_all_iff)
qed

lemma yields_choice: "yields (\<lambda>r. \<forall>sni. r = Inr sni \<longrightarrow> sni = stored \<and> stored \<noteq> '''' \<or> validDomainName sni)
    (chooseRealitySNI addr stored requested seed)"
  unfolding yields_def
proof (rule allI, rule wp_mono [OF wp_chooseRealitySNI])
  fix w :: world and r w'
  show "w_db w' = w_db w \<and> w_now w' = w_now w \<and> w_env w' = w_env w \<and> (\<forall>i. in_sync w i \<longrightarrow> in_sync w' i) \<and>
      (\<forall>sni. r = Inr sni \<longrightarrow> good_choice (w_env w) stored requested sni) \<Longrightarrow>
    \<forall>sni. r = Inr sni \<longrightarrow> sni = stored \<and> stored \<noteq> '''' \<or> validDomainName sni"
    using candidates_valid by (auto simp: good_choice_def shown_def measured_def split: if_splits)
qed

text \<open>A plan that stores an inbound has the settings of its protocol.\<close>

definition sound_plan :: "string \<Rightarrow> int list \<times> setup_plan \<Rightarrow> bool" where
  "sound_plan proto a \<longleftrightarrow> (\<forall>port s d. snd a = Store port s d \<longrightarrow> missing_settings proto s = None)"

lemma sound_plan_simps [simp]: "sound_plan proto (l, setup_error p port msg)" "sound_plan proto (l, setup_skipped p port msg)"
  "sound_plan proto (l, Store port s d) \<longleftrightarrow> missing_settings proto s = None"
  by (simp_all add: sound_plan_def setup_error_def setup_skipped_def)

lemma tls_path_nonempty [simp]: "tls_path domain suffix \<noteq> ''''"
  by (simp add: tls_path_def)

lemma sound_hysteria2: "domain_or_none domain \<Longrightarrow>
    yields (sound_plan ''hysteria2'') (plan_hysteria2 node req domain existing reserved)"
  unfolding plan_hysteria2_def Let_def
  by (intro yields_if yields_bind_of [OF yields_hysteriaSettings] yields_rule)
    (simp_all add: domain_or_none_def missing_settings_def)

lemma sound_httpupgrade: "domain_or_none domain \<Longrightarrow>
    yields (sound_plan ''vless-httpupgrade'') (plan_httpupgrade node req domain existing reserved)"
  unfolding plan_httpupgrade_def Let_def
  by (intro yields_rule) (simp_all add: domain_or_none_def missing_settings_def str_field_def field_def)

lemma sound_reality:
  assumes "\<And>b. existing = Some b \<Longrightarrow> ib_protocol b = ''vless-reality'' \<and> well_set_row b"
  shows "yields (sound_plan ''vless-reality'') (plan_reality node req domain existing reserved)"
proof -
  have old: "str_field (old_settings existing) ''sni'' = '''' \<or> validDomainName (str_field (old_settings existing) ''sni'')"
  proof (cases existing)
    case (Some b)
    then have "missing_settings ''vless-reality'' (settings_map (ib_settings b)) = None"
      using assms [OF Some] well_set_cases(1) by (metis well_set_row_def)
    then show ?thesis by (auto simp: Some old_settings_def missing_settings_def split: if_splits)
  qed (simp add: old_settings_def str_field_def field_def)
  have settings: "missing_settings ''vless-reality'' (reality_settings sni (a, b) shortID server) = None"
    if "validDomainName sni" "a \<noteq> ''''" "b \<noteq> ''''" for sni a b shortID server
    using that by (simp add: missing_settings_def reality_settings_def str_field_def field_def)
  show ?thesis
    unfolding plan_reality_def Let_def
    by (intro yields_sum_of yields_bind_of [OF yields_reality_keys] yields_bind_of [OF yields_choice] yields_rule)
      (use old in \<open>auto simp: settings\<close>)
qed

text \<open>What a rollback would restore is complete.\<close>

definition restorable :: "setup_run \<Rightarrow> bool" where
  "restorable st \<longleftrightarrow> (\<forall>b \<in> set (sx_updated st). well_set_row b)"

lemma restorable_simps [simp]: "restorable (add_result r st) = restorable st"
  "restorable (st\<lparr>sx_udp := l\<rparr>) = restorable st" "restorable (st\<lparr>sx_tcp := l\<rparr>) = restorable st"
  "restorable (st\<lparr>sx_created := is\<rparr>) = restorable st"
  "restorable (st\<lparr>sx_updated := sx_updated st @ [b]\<rparr>) \<longleftrightarrow> restorable st \<and> well_set_row b"
  by (auto simp: restorable_def add_result_def)

lemma supplies_written: "keeps I m \<Longrightarrow> (\<And>r. P r) \<Longrightarrow> supplies I P m"
  by (simp add: keeps_def supplies_def)

lemma rows_store:
  assumes "restorable st" "missing_settings proto s = None" "\<And>b. existing = Some b \<Longrightarrow> well_set_row b"
  shows "supplies rows_ok restorable (store_setup node proto existing port s d st)"
proof (cases existing)
  case None
  show ?thesis
    unfolding store_setup_def Let_def None option.case
    by (rule supplies_attempt [where P = "\<lambda>_. True", OF supplies_written])
      (auto intro!: write_inbound supplies_return simp: assms(1,2))
next
  case (Some b)
  show ?thesis
    unfolding store_setup_def Let_def Some option.case
    by (rule supplies_attempt [where P = "\<lambda>_. True", OF supplies_written])
      (auto intro!: write_settings supplies_return simp: assms(1,2) assms(3) [OF Some])
qed

lemma rows_finish:
  assumes "restorable st" "sound_plan proto (l, plan)" "\<And>b. existing = Some b \<Longrightarrow> well_set_row b"
  shows "supplies rows_ok restorable (finish_setup node proto existing plan st)"
  using assms by (cases plan) (auto simp: finish_setup_def sound_plan_def intro!: supplies_return rows_store)

lemma existing_inboundD: "existing_inbound inbounds proto = Some b \<Longrightarrow> b \<in> set inbounds \<and> ib_protocol b = proto"
  by (auto simp: existing_inbound_def find_Some_iff) (metis nth_mem set_rev length_rev)

lemma rows_planned:
  assumes "quiet m" "yields (sound_plan proto) m" "\<And>l. restorable (f l)" "\<And>b. existing = Some b \<Longrightarrow> well_set_row b"
  shows "supplies rows_ok restorable (State_Monad.bind m (\<lambda>(l, plan). finish_setup node proto existing plan (f l)))"
  by (rule supplies_bind [OF supplies_quiet [OF assms(1,2)]]) (auto intro: rows_finish assms(3,4))

lemma supplies_if: "(b \<Longrightarrow> supplies I P m) \<Longrightarrow> (\<not> b \<Longrightarrow> supplies I P n) \<Longrightarrow> supplies I P (if b then m else n)"
  by simp

lemma rows_setup_protocol:
  assumes st: "restorable st" and ibs: "\<forall>b \<in> set inbounds. well_set_row b" and dom: "domain_or_none domain"
  shows "supplies rows_ok restorable (setup_protocol node req domain inbounds proto st)"
proof -
  have ex: "ib_protocol b = p \<and> well_set_row b" if "existing_inbound inbounds p = Some b" for p b
    using existing_inboundD [OF that] ibs by blast
  have stop: "supplies rows_ok restorable
      (finish_setup node proto (existing_inbound inbounds proto) (setup_error proto 0 msg) st)" for msg
    by (rule rows_finish [where l = "[]"]) (use st ex in auto)
  show ?thesis
    unfolding setup_protocol_def Let_def
  proof (intro supplies_if stop)
    assume [simp]: "proto = ''hysteria2''"
    show "supplies rows_ok restorable (State_Monad.bind (plan_hysteria2 node req domain (existing_inbound inbounds proto) (sx_udp st))
        (\<lambda>(udp, plan). finish_setup node proto (existing_inbound inbounds proto) plan (st\<lparr>sx_udp := udp\<rparr>)))"
      by (rule rows_planned) (use st ex dom in \<open>simp_all add: quiet_plans sound_hysteria2\<close>)
  next
    assume [simp]: "proto = ''vless-reality''"
    show "supplies rows_ok restorable (State_Monad.bind (plan_reality node req domain (existing_inbound inbounds proto) (sx_tcp st))
        (\<lambda>(tcp, plan). finish_setup node proto (existing_inbound inbounds proto) plan (st\<lparr>sx_tcp := tcp\<rparr>)))"
      by (rule rows_planned) (use st ex in \<open>simp_all add: quiet_plans sound_reality\<close>)
  next
    assume [simp]: "proto = ''vless-httpupgrade''"
    show "supplies rows_ok restorable (State_Monad.bind (plan_httpupgrade node req domain (existing_inbound inbounds proto) (sx_tcp st))
        (\<lambda>(tcp, plan). finish_setup node proto (existing_inbound inbounds proto) plan (st\<lparr>sx_tcp := tcp\<rparr>)))"
      by (rule rows_planned) (use st ex dom in \<open>simp_all add: quiet_plans sound_httpupgrade\<close>)
  qed
qed

lemma rows_setup_protocols: "restorable st \<Longrightarrow> \<forall>b \<in> set inbounds. well_set_row b \<Longrightarrow> domain_or_none domain \<Longrightarrow>
    supplies rows_ok restorable (setup_protocols node req domain inbounds protos st)"
  by (induction protos arbitrary: st)
    (auto intro: supplies_return supplies_bind [OF rows_setup_protocol])

lemma write_domain: "domain_or_none x \<Longrightarrow> keeps rows_ok (NodeStore_Update k (domain_update x))"
  by (rule write_node_update) (simp add: domain_update_def)

lemma rows_rollback:
  assumes "restorable st" "domain_or_none (n_domain node)"
  shows "keeps rows_ok (rollbackDatabase node domain st)"
proof -
  have "keeps rows_ok (map_each undo_updated bs)" if "\<forall>b \<in> set bs. well_set_row b" for bs
    using that unfolding undo_updated_def
    by (induction bs) (auto simp: with_settings_def well_set_row_def intro!: kept write_settings)
  then have undo: "keeps rows_ok (map_each undo_updated (sx_updated st))"
    using assms(1) by (simp add: restorable_def)
  show ?thesis
    unfolding rollbackDatabase_def undo_created_def undo_domain_def
    by (intro undo kept write_rows write_domain assms)
qed

lemma rows_complete:
  assumes "restorable st" "domain_or_none (n_domain node)" "domain_or_none domain"
  shows "keeps rows_ok (complete_setup node domain assessment st)"
  unfolding complete_setup_def push_setup_def
  by (intro kept rows_rollback write_domain assms)

lemma rows_run_setup:
  assumes "domain_or_none (n_domain node)" "domain_or_none domain"
  shows "keeps rows_ok (run_setup node req domain protocols assessment)"
  unfolding run_setup_def
  by (intro keeps_bind keeps_attempt_of [OF read_inbounds] keeps_attempt keeps_if
      keeps_bind_of [OF rows_setup_protocols] rows_complete assms kept)
    (simp_all add: restorable_def assms)

lemma rows_HandleAutoSetup: "keeps rows_ok (HandleAutoSetup r)"
proof -
  have start: "keeps rows_ok (run_setup node req (if aq_domain req = '''' then n_domain node else aq_domain req) protocols a)"
    if "domain_or_none (n_domain node)"
      "\<not> ((if aq_domain req = '''' then n_domain node else aq_domain req) \<noteq> '''' \<and>
        \<not> validDomainName (if aq_domain req = '''' then n_domain node else aq_domain req))"
    for node req protocols a
    by (rule rows_run_setup) (use that in \<open>auto simp: domain_or_none_def split: if_splits\<close>)
  show ?thesis
    unfolding HandleAutoSetup_def Let_def
    by (intro keeps_if_of keeps_attempt_of [OF read_node] keeps_option keeps_bind keeps_prod start kept)
qed

section \<open>The other operations on a node\<close>

lemma retargeted_well_set:
  assumes "well_set ''vless-reality'' m" "stored_settings m = Some s" "validDomainName sni"
  shows "well_set ''vless-reality'' (retargeted s sni)"
proof -
  have "settings_map m = s" using assms(1,2) by (cases m rule: stored_settings.cases) (auto simp: well_set_def)
  then have "missing_settings ''vless-reality'' s = None" using well_set_cases(1) [OF assms(1)] by simp
  then show ?thesis
    using assms(3) by (simp add: retargeted_def missing_settings_def split: if_splits)
qed

lemma rows_switch_target:
  assumes b: "well_set_row b" "ib_protocol b = ''vless-reality''" and sni: "validDomainName sni"
  shows "keeps rows_ok (switch_target node b sni)"
proof -
  have new: "keeps rows_ok (store_target node b previous (retargeted s sni) sni)"
    if s: "stored_settings (ib_settings b) = Some s" for s previous
  proof -
    have "well_set (ib_protocol b) (retargeted s sni)" "well_set (ib_protocol b) (ib_settings b)"
      using b retargeted_well_set [OF _ s sni] by (simp_all add: well_set_row_def)
    then show ?thesis
      unfolding store_target_def by (intro write_settings kept) (simp_all add: with_settings_def)
  qed
  show ?thesis
    unfolding switch_target_def Let_def by (intro keeps_option_of keeps_if new kept)
qed

lemma rows_HandleRealityTarget: "keeps rows_ok (HandleRealityTarget r)"
proof -
  have switch: "keeps rows_ok (switch_target node b sni)"
    if "\<forall>b \<in> set bs. well_set_row b" "reality_inbound bs = Some b" "\<not> \<not> validDomainName sni" for bs b node sni
    using that by (intro rows_switch_target) (auto simp: reality_inbound_def find_Some_iff)
  show ?thesis
    unfolding HandleRealityTarget_def loadNode_def
    by (intro keeps_if_of keeps_attempt_of [OF read_inbounds] keeps_attempt keeps_option_of keeps_bind keeps_prod
        switch kept)
qed

lemma rows_setupSSH: "keeps rows_ok (NodeOpsHandler_setupSSH key r)"
  unfolding NodeOpsHandler_setupSSH_def by (intro kept write_node) simp

lemma rows_node_ops: "keeps rows_ok (NodeOpsHandler_ServeHTTP key r)"
  unfolding NodeOpsHandler_ServeHTTP_def
  by (intro kept rows_setupSSH keeps_install keeps_reports rows_HandleRealityTarget)

section \<open>The panel\<close>

lemmas rows_reprovision = keeps_HandleReprovision [OF rows_HandleAutoSetup]

lemma rows_routes:
  assumes "(pat, h) \<in> set (routes p)"
  shows "keeps rows_ok (h r)"
  using assms
  by (auto simp: routes_def public_routes_def session_routes_def admin_routes_def user_routes_def
      node_routes_def Let_def
      intro!: kept rows.on_user_handlers rows.on_access_handlers rows.on_logins rows.on_report rows_NodeHandler
        rows_node_ops rows_HandleAutoSetup rows_reprovision)

lemma reachable_rows: "reachable p w \<Longrightarrow> rows_ok (w_db w)"
  by (erule reachable_keeps [where I = rows_ok])
    (assumption | rule rows.on_samples rows.on_polling | erule rows_routes | simp add: rows_ok_def empty_db_def)+

text \<open>What a renewal of certificates finds in such rows.\<close>

lemma rows_cert_targets:
  assumes "rows_ok d" "set bs \<subseteq> set (d_inbounds d)" "t \<in> set (certTargetsFor bs)"
  shows "validDomainName (ct_domain t) \<and> ct_cert_path t \<noteq> '''' \<and> ct_key_path t \<noteq> ''''"
proof -
  obtain b where b: "b \<in> set bs" "ib_protocol b \<in> {''hysteria2'', ''vless-httpupgrade''}"
    and t: "ct_domain t = str_field (settings_map (ib_settings b)) ''domain''"
      "ct_cert_path t = str_field (settings_map (ib_settings b)) ''cert_path''"
      "ct_key_path t = str_field (settings_map (ib_settings b)) ''key_path''"
    using assms(3) by (auto simp: certTargetsFor_def tlsInboundProtocols_def Let_def)
  have "missing_settings (ib_protocol b) (settings_map (ib_settings b)) = None"
    using assms(1,2) b(1) by (intro well_set_cases(1)) (auto simp: rows_ok_def well_set_row_def)
  then show ?thesis using b(2) by (auto simp: t missing_settings_def split: if_splits)
qed

end
