(* ===== verification/Document.thy ===== *)
theory Document
  imports Enforcement
begin

text \<open>
  Who a generated configuration lets in: the accounts of an inbound object, whatever its
  protocol, and the law that every inbound of the document carries the accounts of exactly
  the users it was generated for, on the port of its row.
\<close>

section \<open>Reading a document\<close>

fun entry :: "string \<Rightarrow> json \<Rightarrow> json option" where
  "entry k (JObj m) = field m k"
| "entry k _ = None"

fun elements :: "json option \<Rightarrow> json list" where
  "elements (Some (JArr xs)) = xs"
| "elements _ = []"

fun text_of :: "json option \<Rightarrow> string option" where
  "text_of (Some (JStr s)) = Some s"
| "text_of _ = None"

text \<open>The name and the credential of an account: a UUID, or a password for Hysteria 2.\<close>

definition account_of :: "json \<Rightarrow> string option \<times> string option" where
  "account_of j = (text_of (entry ''name'' j),
     (case entry ''uuid'' j of None \<Rightarrow> text_of (entry ''password'' j) | uuid \<Rightarrow> text_of uuid))"

definition accounts_of :: "json \<Rightarrow> (string option \<times> string option) list" where
  "accounts_of j = map account_of (elements (entry ''users'' j))"

definition doc_inbounds :: "json \<Rightarrow> json list" where
  "doc_inbounds doc = elements (entry ''inbounds'' doc)"

text \<open>The inbounds the generator writes: enabled, of a protocol it knows.\<close>

definition written :: "inbound list \<Rightarrow> inbound list" where
  "written ibs = filter (\<lambda>b. ib_enabled b \<and>
     ib_protocol b \<in> {''hysteria2'', ''vless-reality'', ''vless-httpupgrade''}) ibs"

section \<open>Every inbound carries the accounts\<close>

definition serves :: "user list \<Rightarrow> json \<Rightarrow> int \<Rightarrow> bool" where
  "serves users j port \<longleftrightarrow> accounts_of j = map (\<lambda>u. (Some (u_name u), Some (u_uuid u))) users
     \<and> entry ''listen_port'' j = Some (jint port)"

lemma build_inbound_serves: "list_all2 (serves users) (build_inbound users ib tag)
    (if ib_protocol ib \<in> {''hysteria2'', ''vless-reality'', ''vless-httpupgrade''} then [ib_port ib] else [])"
  by (auto simp: build_inbound_def buildHysteria2Inbound_def buildRealityInbound_def
      buildHTTPUpgradeInbound_def serves_def accounts_of_def account_of_def field_def Let_def)

lemma build_inbounds_serves:
  "list_all2 (serves users) (build_inbounds users used ibs) (map ib_port (written ibs))"
proof (induction users used ibs rule: build_inbounds.induct)
  case (2 users used ib ibs)
  show ?case
  proof (cases "ib_enabled ib")
    case True
    obtain tag used' where tag: "uniqueTag (ib_tag ib) (ib_protocol ib) (ib_port ib) used = (tag, used')" by fastforce
    have "list_all2 (serves users) (build_inbounds users used' ibs) (map ib_port (written ibs))"
      using 2(2) True tag by simp
    from list_all2_appendI [OF build_inbound_serves this, of ib tag] show ?thesis
      using True tag by (auto simp: written_def)
  next
    case False
    then show ?thesis using 2(1) by (simp add: written_def)
  qed
qed (simp add: written_def)

lemma doc_inbounds: "doc_inbounds (GenerateConfig users ibs) = buildInbounds users ibs"
  by (simp add: doc_inbounds_def GenerateConfig_def Let_def field_def jarr_def)

lemma GenerateConfig_serves:
  "list_all2 (serves users) (doc_inbounds (GenerateConfig users ibs)) (map ib_port (written ibs))"
  by (simp add: doc_inbounds buildInbounds_def build_inbounds_serves)

end
