(* ===== verification/Visitors.thy ===== *)
theory Visitors
  imports Reachable
begin

text \<open>
  What a visitor without rights can bring about: a registration adds a disabled user and
  leaves every node's document alone, a login is granted to the configured administrator and
  to enabled users with their password, and a share token opens only the nodes that are
  enabled and assigned to its user.
\<close>

section \<open>Registration\<close>

definition add_user :: "user \<Rightarrow> db \<Rightarrow> db" where
  "add_user u d = d\<lparr>d_users := ins_row u_id u (d_users d), d_user_seq := u_id u\<rparr>"

lemma add_user_last:
  assumes "users_ok d" "u_id u = d_user_seq d + 1"
  shows "d_users (add_user u d) = d_users d @ [u]"
  using assms ins_row_last [of "d_users d" u_id u] by (force simp: users_ok_def add_user_def)

lemma insert_user_Inr: "insert_user u d = Inr (i, d') \<longleftrightarrow> i = d_user_seq d + 1 \<and> d' = add_user (u\<lparr>u_id := i\<rparr>) d
    \<and> u_name u \<notin> u_name ` set (d_users d) \<and> u_uuid u \<notin> u_uuid ` set (d_users d)
    \<and> u_sub_token u \<notin> u_sub_token ` set (d_users d)"
proof -
  have ex: "list_ex (\<lambda>x. f x = f u) xs \<longleftrightarrow> f u \<in> f ` set xs" for f :: "user \<Rightarrow> string" and xs
    by (auto simp: list_ex_iff image_iff) metis
  show ?thesis unfolding insert_user_def ex by (auto simp: add_user_def Let_def)
qed

definition registered :: "string \<Rightarrow> string \<Rightarrow> db \<Rightarrow> db \<Rightarrow> bool" where
  "registered name hash d d' \<longleftrightarrow> (\<exists>u. d' = add_user u d \<and> u_id u = d_user_seq d + 1 \<and> u_name u = name
     \<and> u_password u = hash \<and> \<not> u_enabled u \<and> name \<notin> u_name ` set (d_users d))"

lemma registered_insert: "insert_user ((new_user_row name uid token now)\<lparr>u_password := hash, u_enabled := False\<rparr>) d
    = Inr (i, d') \<Longrightarrow> registered name hash d d'"
  unfolding insert_user_Inr registered_def
  by (intro exI [where x = "(new_user_row name uid token now)\<lparr>u_password := hash, u_enabled := False, u_id := i\<rparr>"])
    (simp add: new_user_row_def)

lemma wp_CreateWithPassword: "wp (UserStore_CreateWithPassword name hash) (\<lambda>r w'.
    becomes w (w_db w) w' \<and> (\<exists>e. r = Inl e) \<or> registered name hash (w_db w) (w_db w') \<and> becomes w (w_db w') w') w"
  unfolding UserStore_CreateWithPassword_def wp_bind wp_get_now_text wp_and_then
proof (rule wp_NewString, rule wp_generateToken, rule wp_db_exec, goal_cases)
  case (3 uid w1 token w2 w3 i d)
  then have reg: "registered name hash (w_db w) d" and w3: "becomes w d w3"
    using registered_insert by (auto simp: becomes_def)
  show ?case
    unfolding UserStore_Get_def
    by (simp, rule wp_db_query) (use reg w3 in \<open>auto simp: becomes_def\<close>)
qed (simp_all add: becomes_def)

text \<open>A disabled user is in no document.\<close>

lemma gen_doc_registered:
  assumes "users_ok d" "registered name hash d d'"
  shows "gen_doc now i d' = gen_doc now i d" "d_nodes d' = d_nodes d"
proof -
  obtain u where u: "d' = add_user u d" "u_id u = d_user_seq d + 1" "\<not> u_enabled u"
    using assms(2) by (auto simp: registered_def)
  have "served now i d' = served now i d"
    using add_user_last [OF assms(1) u(2)] u by (simp add: served_def may_use_def) (simp add: add_user_def)
  moreover have "inbounds_of i d' = inbounds_of i d" "d_nodes d' = d_nodes d"
    by (simp_all add: u(1) add_user_def inbounds_of_def)
  ultimately show "gen_doc now i d' = gen_doc now i d" "d_nodes d' = d_nodes d"
    by (simp_all add: gen_doc_def)
qed

lemma wp_register: "users_ok (w_db w) \<Longrightarrow> wp (HandleRegister lib r) (\<lambda>rp w'.
    (\<forall>i. in_sync w i \<longrightarrow> in_sync w' i) \<and>
    (w_db w' = w_db w \<and> rp_status rp \<noteq> 201 \<or> (\<exists>req hash. as_credentials (r_body r) = Some req \<and>
       6 \<le> length (lr_password req) \<and> bcrypt_hash lib (lr_password req) (w_tick w) = Some hash \<and>
       registered (lr_username req) hash (w_db w) (w_db w')))) w"
proof -
  assume ok: "users_ok (w_db w)"
  have sync: "in_sync w' i" if "in_sync w i" "becomes (w\<lparr>w_tick := t\<rparr>) (w_db w') w'"
    "registered name hash (w_db w) (w_db w')" for w' i t name hash
    by (rule in_sync_cong [OF that(1)])
      (use that gen_doc_registered [OF ok that(3)] in \<open>auto simp: becomes_def\<close>)
  have same: "in_sync w' i" if "in_sync w i" "becomes (w\<lparr>w_tick := t\<rparr>) (w_db w) w'" for w' i t
    by (rule in_sync_cong [OF that(1)]) (use that in \<open>auto simp: becomes_def\<close>)
  have tick: "in_sync w i \<Longrightarrow> in_sync (w\<lparr>w_tick := t\<rparr>) i" for i t by (simp add: in_sync_def)
  show ?thesis
    unfolding HandleRegister_def GenerateFromPassword_def
    by (auto simp: wp_step next_tick_def intro!: wp_mono [OF wp_CreateWithPassword])
      ((erule tick | erule same, assumption | erule sync, assumption, assumption | simp add: becomes_db)+)
qed

section \<open>Login\<close>

text \<open>Who a login is granted to, with the role and user the token carries.\<close>

definition credentials_for :: "crypto \<Rightarrow> auth \<Rightarrow> credentials \<Rightarrow> db \<Rightarrow> string \<Rightarrow> int \<Rightarrow> bool" where
  "credentials_for lib h req d role k \<longleftrightarrow>
     role = ''admin'' \<and> k = 0 \<and> au_admin_pass h \<noteq> '''' \<and> lr_username req = au_admin_user h
       \<and> lr_password req = au_admin_pass h
     \<or> role = ''user'' \<and> (\<exists>u \<in> set (d_users d). u_id u = k \<and> u_name u = lr_username req
         \<and> u_enabled u \<and> bcrypt_compare lib (u_password u) (lr_password req))"

lemma found_user: "row_or_none (List.find p us) = Inr u \<Longrightarrow> u \<in> set us \<and> p u"
  by (cases "List.find p us") (auto simp: find_Some_iff)

lemma wp_login: "wp (HandleLogin lib h r) (\<lambda>rp w'. w_db w' = w_db w \<and> (rp_status rp = 200 \<longrightarrow>
    (\<exists>req token role k. as_credentials (r_body r) = Some req \<and> credentials_for lib h req (w_db w) role k \<and>
       rp_payload rp = PLogin token role (lr_username req) k \<and>
       token = jwt_sign lib (au_secret h) \<lparr>cl_user_id = of_int k, cl_role = role,
         cl_username = lr_username req, cl_exp = add_days 7 (w_now w)\<rparr>))) w"
  unfolding HandleLogin_def generateJWT_def UserStore_GetByUsername_def
  by (auto simp: wp_step becomes_def credentials_for_def intro!: wp_db_query dest!: found_user)

section \<open>A user's nodes\<close>

lemma wp_map_each_result:
  assumes "I w" "\<And>x t. x \<in> set xs \<Longrightarrow> I t \<Longrightarrow> wp (f x) (\<lambda>y u. I u \<and> P x y) t"
  shows "wp (map_each f xs) (\<lambda>ys u. I u \<and> list_all2 P xs ys) w"
  using assms
proof (induction xs arbitrary: w)
  case Nil
  then show ?case by (simp add: wp_step)
next
  case (Cons x xs)
  have "wp (f x) (\<lambda>y u. I u \<and> P x y) w" using Cons.prems by simp
  then show ?case
    unfolding map_each.simps wp_bind
  proof (rule wp_mono)
    fix y t assume t: "I t \<and> P x y"
    have "wp (map_each f xs) (\<lambda>ys u. I u \<and> list_all2 P xs ys) t" using Cons t by simp
    then show "wp (map_each f xs) (\<lambda>ys. wp (State_Monad.return (y # ys)) (\<lambda>ys u. I u \<and> list_all2 P (x # xs) ys)) t"
      by (rule wp_mono) (use t in \<open>auto simp: wp_step\<close>)
  qed
qed

lemma list_all2_concat: "list_all2 (\<lambda>x ys. \<forall>y \<in> set ys. P y) xs yss \<Longrightarrow> \<forall>y \<in> set (concat yss). P y"
  by (induction rule: list_all2_induct) auto

text \<open>The nodes whose inbounds a share link lists.\<close>

definition open_node :: "db \<Rightarrow> int \<Rightarrow> node \<times> inbound list \<Rightarrow> bool" where
  "open_node d k x \<longleftrightarrow> fst x \<in> set (d_nodes d) \<and> n_enabled (fst x) \<and> (k, n_id (fst x)) \<in> set (d_access d)
     \<and> snd x = inbounds_of (n_id (fst x)) d"

lemma ids_of_user: "wp (AccessStore_ListNodeIDs k) (\<lambda>r w'. w_db w' = w_db w \<and>
    (\<forall>l. r = Inr l \<longrightarrow> set l = {i. (k, i) \<in> set (d_access (w_db w))})) w"
  unfolding AccessStore_ListNodeIDs_def
  by (rule wp_db_query) (auto simp: becomes_def set_nodes_of_user)

lemma wp_subscription_nodes:
  assumes "set nodes \<subseteq> set (d_nodes (w_db w))"
  shows "wp (subscription_nodes user nodes) (\<lambda>found w'. w_db w' = w_db w \<and>
    (\<forall>x \<in> set found. open_node (w_db w) (u_id user) x)) w"
proof -
  define d where "d = w_db w"
  have step: "wp (accessible_node ids n) (\<lambda>ys u. w_db u = d \<and> (\<forall>x \<in> set ys. open_node d (u_id user) x)) t"
    if "n \<in> set nodes" "w_db t = d" "set ids \<subseteq> {i. (u_id user, i) \<in> set (d_access d)}" for n t ids
    unfolding accessible_node_def NodeStore_ListInbounds_def
    using that assms
    by (auto simp: wp_step becomes_def open_node_def inbounds_of_def d_def intro!: wp_db_query)
  have all: "wp (map_each (accessible_node ids) nodes) (\<lambda>found w'. w_db w' = d \<and>
      (\<forall>x \<in> set (concat found). open_node d (u_id user) x)) t"
    if "w_db t = d" "set ids \<subseteq> {i. (u_id user, i) \<in> set (d_access d)}" for t ids
  proof (rule wp_mono [OF wp_map_each_result [where I = "\<lambda>t. w_db t = d" and
        P = "\<lambda>n ys. \<forall>x \<in> set ys. open_node d (u_id user) x"]], goal_cases)
    case (2 n t)
    then show ?case using step that(2) by blast
  next
    case (3 found u)
    then show ?case using list_all2_concat [of "open_node d (u_id user)" nodes found] by simp
  qed (use that in simp)
  show ?thesis
    unfolding subscription_nodes_def wp_bind wp_attempt
    by (rule wp_mono [OF ids_of_user])
      (auto simp: wp_step d_def [symmetric] intro!: wp_mono [OF all])
qed

section \<open>Share links\<close>

lemma wp_CheckTrafficReset: "wp (UserStore_CheckTrafficReset u) (\<lambda>v w'. w_now w' = w_now w \<and>
    d_nodes (w_db w') = d_nodes (w_db w) \<and> d_access (w_db w') = d_access (w_db w) \<and>
    d_inbounds (w_db w') = d_inbounds (w_db w) \<and> u_id v = u_id u \<and> u_enabled v = u_enabled u \<and>
    u_expire v = u_expire u) w"
  unfolding UserStore_CheckTrafficReset_def set_user_def Let_def
  by (auto simp: wp_step becomes_def intro!: wp_db_exec)

lemma open_node_cong:
  assumes "d_nodes d = d_nodes d'" "d_access d = d_access d'" "d_inbounds d = d_inbounds d'"
  shows "open_node d k x = open_node d' k x"
  using assms by (simp add: open_node_def inbounds_of_def)

text \<open>The user a share link with this token stands for, and what makes it work.\<close>

definition link_holder :: "datetime \<Rightarrow> db \<Rightarrow> string \<Rightarrow> int \<Rightarrow> bool" where
  "link_holder now d token k \<longleftrightarrow> (\<exists>u \<in> set (d_users d). u_id u = k \<and> u_sub_token u = token \<and> u_enabled u
     \<and> (u_expire u = '''' \<or> FormatDateTime now \<le> u_expire u))"

definition text_for :: "db \<Rightarrow> user \<Rightarrow> response \<Rightarrow> bool" where
  "text_for d user rp \<longleftrightarrow> (\<exists>ns hs body. (\<forall>x \<in> set ns. open_node d (u_id user) x) \<and> rp_payload rp = PText hs body \<and>
     (body = GenerateClashConfig user ns \<or> body = base64_string (GenerateSubscription user ns)))"

lemma wp_link_text:
  assumes "set nodes \<subseteq> set (d_nodes (w_db w))"
  shows "wp (do { found \<leftarrow> subscription_nodes user nodes; subscription_text r user found })
    (\<lambda>rp w'. text_for (w_db w) user rp) w"
  unfolding wp_bind
  by (rule wp_mono [OF wp_subscription_nodes [OF assms]])
    (auto simp: subscription_text_def wp_step text_for_def)

lemma wp_link_active: "wp (do { now \<leftarrow> get_now;
     (if \<not> IsActive now user then NotFound
      else attempt NodeStore_List (\<lambda>e. writeError 500 (err_text e)) (\<lambda>nodes. do {
        found \<leftarrow> subscription_nodes user nodes;
        subscription_text r user found })) })
   (\<lambda>rp w'. rp_status rp = 200 \<longrightarrow> IsActive (w_now w) user \<and> text_for (w_db w) user rp) w"
proof -
  have "wp (do { found \<leftarrow> subscription_nodes user nodes; subscription_text r user found })
      (\<lambda>rp w'. rp_status rp = 200 \<longrightarrow> text_for (w_db w) user rp) w1"
    if "becomes w (w_db w) w1" "nodes = sort_key n_sort_order (d_nodes (w_db w))" for nodes w1
    by (rule wp_mono [OF wp_link_text]) (use that in \<open>auto simp: becomes_def\<close>)
  then show ?thesis
    unfolding wp_bind wp_get_now wp_if wp_attempt NodeStore_List_def
    by (intro conjI impI, simp add: wp_step) (rule wp_db_query; simp add: wp_step)
qed

lemma wp_link_user:
  assumes "u \<in> set (d_users (w_db w))" "u_sub_token u = token"
  shows "wp (do { user \<leftarrow> UserStore_CheckTrafficReset (scan_user u); now \<leftarrow> get_now;
     (if \<not> IsActive now user then NotFound
      else attempt NodeStore_List (\<lambda>e. writeError 500 (err_text e)) (\<lambda>nodes. do {
        found \<leftarrow> subscription_nodes user nodes;
        subscription_text r user found })) })
   (\<lambda>rp w'. rp_status rp = 200 \<longrightarrow>
      (\<exists>user. link_holder (w_now w) (w_db w) token (u_id user) \<and> text_for (w_db w) user rp)) w"
  unfolding wp_bind [of "UserStore_CheckTrafficReset (scan_user u)"]
proof (rule wp_mono [OF wp_CheckTrafficReset], goal_cases)
  case (1 user w2)
  have holder: "link_holder (w_now w) (w_db w) token (u_id user)" if "IsActive (w_now w) user"
    using that assms 1 by (force simp: link_holder_def IsActive_def scan_user_def split: if_splits)
  have opens: "text_for (w_db w2) user rp = text_for (w_db w) user rp" for rp
    using 1 open_node_cong [of "w_db w2" "w_db w"] by (simp add: text_for_def)
  have "w_now w2 = w_now w" using 1 by simp
  then show ?case
    by (intro wp_mono [OF wp_link_active] impI exI [of _ user]) (use holder opens in simp)
qed

lemma wp_Subscription: "wp (Subscription_ServeHTTP r) (\<lambda>rp w'. rp_status rp = 200 \<longrightarrow>
    (\<exists>user. link_holder (w_now w) (w_db w) (TrimPrefix (r_path r) ''/sub/'') (u_id user) \<and>
       text_for (w_db w) user rp)) w"
proof -
  let ?token = "TrimPrefix (r_path r) ''/sub/''"
  have none: "wp NotFound (\<lambda>rp w'. rp_status rp = 200 \<longrightarrow> P rp) v" for P v by (simp add: wp_step)
  show ?thesis
    unfolding Subscription_ServeHTTP_def Let_def UserStore_GetBySubToken_def wp_if wp_attempt
  proof (intro conjI impI none, rule wp_db_query, goal_cases)
    case (2 w1)
    have "wp (do { user \<leftarrow> UserStore_CheckTrafficReset u0; now \<leftarrow> get_now;
         (if \<not> IsActive now user then NotFound
          else attempt NodeStore_List (\<lambda>e. writeError 500 (err_text e)) (\<lambda>nodes. do {
            found \<leftarrow> subscription_nodes user nodes;
            subscription_text r user found })) })
       (\<lambda>rp w'. rp_status rp = 200 \<longrightarrow>
          (\<exists>user. link_holder (w_now w) (w_db w) ?token (u_id user) \<and> text_for (w_db w) user rp)) w1"
      if "row_or_none (map_option scan_user (List.find (\<lambda>u. u_sub_token u = ?token) (d_users (w_db w)))) = Inr u0" (is "?found u0") for u0
    proof -
      obtain u where "u \<in> set (d_users (w_db w))" "u_sub_token u = ?token" "u0 = scan_user u"
        using \<open>?found u0\<close> found_user [of "\<lambda>u. u_sub_token u = ?token" "d_users (w_db w)"]
        by (cases "List.find (\<lambda>u. u_sub_token u = ?token) (d_users (w_db w))") auto
      with wp_link_user [of u w1 ?token r] 2(2) show ?thesis by (simp add: becomes_def)
    qed
    then show ?case by (simp add: wp_NotFound)
  qed (simp add: wp_NotFound)
qed

end
