(* ===== verification/RealitySync.thy ===== *)
theory RealitySync
  imports SetupSync
begin

text \<open>
  What switching the Reality target of a node (\<open>handler/reality.go\<close>) guarantees: the new
  target was measured from the node itself, only the settings of its Reality inbound change,
  and the answers say what became of it.
\<close>

definition retarget_db :: "int \<Rightarrow> raw_message \<Rightarrow> db \<Rightarrow> db" where
  "retarget_db i doc d = d\<lparr>d_inbounds := map (\<lambda>b. if ib_id b = i then b\<lparr>ib_settings := doc\<rparr> else b) (d_inbounds d)\<rparr>"

definition fleet_start :: "world \<Rightarrow> bool" where
  "fleet_start w \<longleftrightarrow> panel_ok (w_db w) \<and> (\<forall>i. in_sync w i)"

text \<open>
  After a reverted switch the other nodes are up to date; the node itself may already run
  the new target, because it is not pushed again.
\<close>

definition switch_promise :: "int \<Rightarrow> request \<Rightarrow> world \<Rightarrow> response \<Rightarrow> world \<Rightarrow> bool" where
  "switch_promise k r w rp w' \<longleftrightarrow>
     (rp_status rp = 200 \<longrightarrow> (\<forall>i. in_sync w' i) \<and> (\<exists>sni target s. as_reality_target (r_body r) = Some sni \<and>
        shown (w_env w) [sni] sni \<and> reality_inbound (inbounds_of k (w_db w)) = Some target \<and>
        stored_settings (ib_settings target) = Some s \<and>
        w_db w' = (if str_field s ''sni'' = sni then w_db w
                   else retarget_db (ib_id target) (retargeted s sni) (w_db w)))) \<and>
     (rolled_back ''push failed, stored target reverted: '' rp \<longrightarrow>
        (\<forall>i. i \<noteq> k \<longrightarrow> in_sync w' i) \<and> w_db w' = w_db w) \<and>
     (rp_status rp \<in> {400, 404, 422} \<longrightarrow> (\<forall>i. in_sync w' i) \<and> w_db w' = w_db w)"

lemma switch_promise_error [simp]: "st = 500 \<or> st = 0 \<Longrightarrow> switch_promise k r w \<lparr>rp_status = st, rp_payload = p\<rparr> w'"
  by (auto simp: switch_promise_def rolled_back_def)

lemma switch_promise_502: "switch_promise k r w \<lparr>rp_status = 502, rp_payload = PError (''ssh connect failed: '' @ e)\<rparr> w'"
  "switch_promise k r w \<lparr>rp_status = 502, rp_payload = PError ''probe failed: ''\<rparr> w'"
  by (simp_all add: switch_promise_def rolled_back_def)

lemma set_inbound_retarget:
  assumes "b \<in> set (d_inbounds d)" "distinct (map ib_id (d_inbounds d))" "doc \<noteq> RawEmpty"
  shows "set_inbound (ib_id b) (with_settings b doc) d = retarget_db (ib_id b) doc d"
proof -
  have "overwrite (with_settings b doc) b = b\<lparr>ib_settings := doc\<rparr>"
    using assms(3) by (simp add: overwrite_def with_settings_def settings_or_empty_id)
  moreover have "c = b" if "c \<in> set (d_inbounds d)" "ib_id c = ib_id b" for c
    using that assms(1,2) by (auto simp: distinct_map dest: inj_onD)
  ultimately have "overwrite (with_settings b doc) c = c\<lparr>ib_settings := doc\<rparr>"
    if "c \<in> set (d_inbounds d)" "ib_id c = ib_id b" for c using that by metis
  then show ?thesis by (auto simp: set_inbound_def retarget_db_def intro!: arg_cong [of _ _ "\<lambda>r. d\<lparr>d_inbounds := r\<rparr>"])
qed

lemma retarget_back:
  assumes "b \<in> set (d_inbounds d)" "distinct (map ib_id (d_inbounds d))" "ib_settings b \<noteq> RawEmpty"
  shows "set_inbound (ib_id b) (with_settings b (ib_settings b)) (retarget_db (ib_id b) doc d) = d"
proof -
  have "c = b" if "c \<in> set (d_inbounds d)" "ib_id c = ib_id b" for c
    using that assms(1,2) by (auto simp: distinct_map dest: inj_onD)
  moreover have "overwrite (with_settings b (ib_settings b)) (b\<lparr>ib_settings := doc\<rparr>) = b"
    using assms(3) by (simp add: overwrite_def with_settings_def settings_or_empty_id)
  ultimately have "overwrite (with_settings b (ib_settings b)) (c\<lparr>ib_settings := doc\<rparr>) = c"
    if "c \<in> set (d_inbounds d)" "ib_id c = ib_id b" for c using that by metis
  then have "map (\<lambda>c. if ib_id c = ib_id b then overwrite (with_settings b (ib_settings b)) c else c)
      (map (\<lambda>c. if ib_id c = ib_id b then c\<lparr>ib_settings := doc\<rparr> else c) (d_inbounds d)) = d_inbounds d"
    by (auto intro!: map_idI)
  then show ?thesis by (simp add: set_inbound_def retarget_db_def)
qed

lemma other_retarget: "b \<in> set (inbounds_of k d) \<Longrightarrow> distinct (map ib_id (d_inbounds d)) \<Longrightarrow>
    other_inbounds k d (retarget_db (ib_id b) doc d)"
proof -
  assume b: "b \<in> set (inbounds_of k d)" and d: "distinct (map ib_id (d_inbounds d))"
  have "filter (\<lambda>c. ib_node c = i) (map (\<lambda>c. if ib_id c = ib_id b then c\<lparr>ib_settings := doc\<rparr> else c) cs)
      = filter (\<lambda>c. ib_node c = i) cs" if "i \<noteq> k" "set cs \<subseteq> set (d_inbounds d)" for i cs
    using that(2)
  proof (induction cs)
    case (Cons c cs)
    have "c = b" if "ib_id c = ib_id b"
      using that Cons.prems b d by (auto simp: in_inbounds_of distinct_map dest: inj_onD)
    then show ?case using Cons b \<open>i \<noteq> k\<close> by (auto simp: in_inbounds_of)
  qed simp
  then show ?thesis by (auto simp: other_inbounds_def retarget_db_def intro!: inbounds_of_cong)
qed

lemma wp_store_target:
  assumes s: "fleet_start w0" and node: "n_id node = k"
    and w: "w_db w = w_db w0" "calm w0 w" and target: "reality_inbound (inbounds_of k (w_db w0)) = Some target"
    and req: "as_reality_target (r_body r) = Some sni" "shown (w_env w0) [sni] sni"
    and st: "stored_settings (ib_settings target) = Some s" "str_field s ''sni'' \<noteq> sni"
  shows "wp (store_target node target previous (retargeted s sni) sni) (switch_promise k r w0) w"
proof -
  have start: "paths_ok (w_db w0)" "fleet_ok (w_db w0)" "in_sync w0 i" "settings_stored (w_db w0)"
    "distinct (map ib_id (d_inbounds (w_db w0)))" for i
    using s by (auto simp: fleet_start_def panel_ok_def db_ok_def inbounds_ok_def table_ok_def)
  have in0: "target \<in> set (inbounds_of k (w_db w0))" using target by (auto simp: reality_inbound_def find_Some_iff)
  then have in_db: "target \<in> set (d_inbounds (w_db w0))" by (simp add: in_inbounds_of)
  then have settings: "ib_settings target \<noteq> RawEmpty" using start(4) by (simp add: settings_stored_def)
  let ?doc = "retargeted s sni"
  let ?d = "retarget_db (ib_id target) ?doc (w_db w0)"
  have new: "set_inbound (ib_id target) (with_settings target ?doc) (w_db w0) = ?d"
    by (rule set_inbound_retarget [OF in_db start(5)]) (simp add: retargeted_def)
  have other: "other_inbounds k (w_db w0) ?d" by (rule other_retarget [OF in0 start(5)])
  have fleet: "fleet_ok ?d" by (rule other_inbounds_fleet [OF other start(2)])
  show ?thesis
    unfolding store_target_def
  proof (rule wp_attemptI [OF update_inbound_post], goal_cases)
    case (2 a w1)
    then have w1: "becomes w ?d w1" using new w(1) by simp
    have old: "in_sync w i" for i using in_sync_calm [OF start(3) w(2,1) start(1)] .
    have away: "in_sync w1 i" if "i \<noteq> k" for i
      by (rule in_sync_same_for [OF old]) (use w1 w(1) other_inbounds_same_for [OF other that] in \<open>simp_all add: becomes_def\<close>)
    have push: "SyncNodes [n_id node] = syncNodes (Some SyncNodes) [k]" by (simp add: syncNodes_def node)
    show ?case
      unfolding push wp_bind
    proof (rule cfg.wp_syncNodes)
      fix rs w2 assume y: "synced [k] w1 rs w2"
      then have w2: "w_db w2 = ?d" "w_now w2 = w_now w1" "w_env w2 = w_env w1"
        using cfg.synced_world [OF y] w1 by (simp_all add: becomes_def)
      show "wp (case syncFailure rs of
          None \<Rightarrow> (case rs of [] \<Rightarrow> panicked
            | result # _ \<Rightarrow> writeJSON 200 (PRealityTarget (n_name node) previous sni ''updated'' (Some result)))
        | Some err \<Rightarrow>
            attempt (NodeStore_UpdateInbound (ib_id target) (with_settings target (ib_settings target)))
              (\<lambda>e. writeError 500 (''push failed and the stored target could not be restored: '' @ err_text e))
              (\<lambda>_. writeError 502 (''push failed, stored target reverted: '' @ err)))
        (switch_promise k r w0) w2"
      proof (cases "syncFailure rs")
        case None
        have "in_sync w2 i" for i
        proof (cases "0 < i")
          case True
          then show ?thesis using cfg.synced_all [OF y None] away fleet w1 by (auto simp: becomes_def)
        next
          case False
          then show ?thesis using in_sync_nonpos [of w2 i] fleet w2 by simp
        qed
        then have "switch_promise k r w0 \<lparr>rp_status = 200, rp_payload = p\<rparr> w2" for p
          using req target st w2 by (simp add: switch_promise_def rolled_back_def)
        then show ?thesis by (simp add: None wp_step panicked_def split: list.split)
      next
        case (Some err)
        show ?thesis
          unfolding Some option.case
        proof (rule wp_attemptI [OF update_inbound_post], goal_cases)
          case (2 a w3)
          then have w3: "becomes w2 (w_db w0) w3"
            using retarget_back [OF in_db start(5) settings, of ?doc] w2 by simp
          have "in_sync w3 i" if "i \<noteq> k" for i
          proof -
            have "in_sync w2 i"
              using y away [OF that] fleet w1 that by (simp add: synced_def becomes_def)
            then show ?thesis
              by (rule in_sync_same_for)
                (use w2 w3 other_inbounds_same_for [OF other_inbounds_sym [OF other] that] in \<open>simp_all add: becomes_def\<close>)
          qed
          then show ?case using w3 by (simp add: wp_step switch_promise_def rolled_back_def becomes_def)
        qed (simp add: wp_step)
      qed
    qed
  qed (simp add: wp_step)
qed

lemma switch_promise_refused:
  assumes "w_db w' = w_db w" "calm w w'" "\<And>i. in_sync w i" "paths_ok (w_db w)" "st = 400 \<or> st = 404 \<or> st = 422"
  shows "switch_promise k r w \<lparr>rp_status = st, rp_payload = p\<rparr> w'"
  using assms in_sync_calm [OF assms(3,2,1,4)] by (auto simp: switch_promise_def rolled_back_def)

lemma wp_switch_target:
  assumes s: "fleet_start w0" and node: "n_id node = k"
    and w: "w_db w = w_db w0" "calm w0 w" and target: "reality_inbound (inbounds_of k (w_db w0)) = Some target"
    and req: "as_reality_target (r_body r) = Some sni" "shown (w_env w0) [sni] sni"
  shows "wp (switch_target node target sni) (switch_promise k r w0) w"
proof (cases "stored_settings (ib_settings target)")
  case (Some st)
  show ?thesis
  proof (cases "str_field st ''sni'' = sni")
    case True
    have "in_sync w i" for i using s w in_sync_calm [of w0 i w] by (simp add: fleet_start_def panel_ok_def)
    then have "switch_promise k r w0 \<lparr>rp_status = 200, rp_payload = p\<rparr> w" for p
      using req target Some True w by (simp add: switch_promise_def rolled_back_def)
    then show ?thesis by (simp add: switch_target_def Some True wp_step)
  next
    case False
    then show ?thesis
      using wp_store_target [OF s node w target req Some False] by (simp add: switch_target_def Some wp_step)
  qed
qed (simp add: switch_target_def wp_step)

lemma wp_HandleRealityTarget:
  assumes s: "fleet_start w"
  shows "wp (HandleRealityTarget r) (switch_promise (parseNodeIDFromConfigPath (r_path r)) r w) w"
proof -
  let ?k = "parseNodeIDFromConfigPath (r_path r)"
  have start: "in_sync w i" "paths_ok (w_db w)" for i using s by (simp_all add: fleet_start_def panel_ok_def)
  note refused = switch_promise_refused [OF _ _ start]
  show ?thesis
  proof (cases "r_method r = ''POST''")
    case False
    then show ?thesis by (simp add: HandleRealityTarget_def wp_step refused)
  next
    case True
    then have post: "\<not> r_method r \<noteq> ''POST''" by simp
    show ?thesis
      unfolding HandleRealityTarget_def loadNode_def if_not_P [OF post]
    proof (rule wp_attemptI [OF node_post], goal_cases)
      case (1 e w1)
      then show ?case by (simp add: wp_step refused becomes_def calm_def)
    next
      case (2 node w1)
      then have id: "n_id node = ?k" and w1: "w_db w1 = w_db w" "calm w w1"
        by (auto simp: becomes_def calm_def dest: sel_row_SomeD)
      have err: "wp (writeError 400 msg) (switch_promise ?k r w) w'" if "w_db w' = w_db w" "calm w w'" for msg w'
        using refused [OF that] by (simp add: wp_step)
      show ?case
      proof (cases "as_reality_target (r_body r)")
        case None
        then show ?thesis by (simp add: err w1)
      next
        case (Some sni)
        show ?thesis
          unfolding Some option.case id
        proof (rule if_cases [OF err [OF w1]], rule wp_attemptI [OF inbounds_post], goal_cases)
          case (2 bs w2)
          then have w2: "w_db w2 = w_db w" "calm w w2" and bs: "bs = inbounds_of ?k (w_db w)"
            and named: "sni \<noteq> ''''"
            using w1 by (auto simp: becomes_def calm_def validDomainName_def)
          show ?case
          proof (cases "reality_inbound bs")
            case None
            then show ?thesis by (simp add: err w2)
          next
            case target: (Some target)
            show ?thesis
              unfolding target option.case wp_bind [of next_remote]
            proof (rule wp_mono [OF quietD [OF quiet_ticks(1)]], rule wp_quiet_attempt [OF quiet_sshConnect], goal_cases)
              case (1 rs w3 e w4)
              then show ?case by (simp add: wp_step switch_promise_502 [simplified])
            next
              case (2 rs w3 a w4)
              then have w4: "w_db w4 = w_db w" "calm w w4" using w2 by (auto intro: calm_trans)
              show ?case
                unfolding wp_bind [of "sshRun _ _"]
              proof (rule wp_runI, goal_cases)
                case (1 result w5)
                have w5: "w_db w5 = w_db w" "calm w w5"
                  using wp_run [OF quietD [OF quiet_sshRun] 1] w4 by (auto intro: calm_trans)
                have "result = ssh_run (w_env w) (w_tick w4) (realityProbeScriptFor [sni])"
                  using wp_run [OF wp_sshRun [where Q = "\<lambda>r _. r = ssh_run (w_env w4) (w_tick w4) (realityProbeScriptFor [sni])"] 1]
                    w4 by (simp add: calm_def)
                then have good: "shown (w_env w) [sni] sni" if "fst (parseRealityProbe (fst result) [sni]) = sni"
                  using shownI [of "w_env w" "w_tick w4" "[sni]" "fst result" "snd result"]
                    probed_measured [OF that named] by simp
                show ?case
                  using good by (auto split: prod.splits simp: wp_step switch_promise_502 [simplified] refused w5
                      intro!: wp_switch_target [OF s id w5 target [unfolded bs] Some])
              qed
            qed
          qed
        qed (simp add: wp_step)
      qed
    qed
  qed
qed

end
