(* ===== verification/DemoSetup.thy ===== *)
theory DemoSetup imports Demo RealitySync
begin

text \<open>
  The witnesses of auto-setup: a node without inbounds on which every command prints
  \<open>OK\<close>, and a request for the protocol that needs a stored certificate.
\<close>

definition setup_body :: setup_req where
  "setup_body = \<lparr>aq_domain = '''', aq_mode = '''', aq_protocols = [''vless-httpupgrade''], aq_hysteria2_profile = '''',
    aq_reality_sni = '''', aq_port_hysteria2 = 0, aq_port_reality = 0, aq_port_httpupgrade = 0\<rparr>"

definition setup_request :: request where
  "setup_request = demo_request ''POST'' ''/api/nodes/1/auto-setup'' (no_body\<lparr>as_auto_setup := Some setup_body\<rparr>)"

definition printing :: "string \<Rightarrow> env" where
  "printing s = (demo_env (\<lambda>_. works))\<lparr>ssh_run := \<lambda>_ _. (s, True)\<rparr>"

definition certified_world :: world where
  "certified_world = bare_world\<lparr>w_env := printing ''OK''\<rparr>"

lemma certified_fields [simp]: "w_db certified_world = bare_db" "w_env certified_world = printing ''OK''"
  by (simp_all add: certified_world_def)

lemma certified_ok: "fleet_start certified_world" "reliable (printing s)" "no_faults certified_world"
proof -
  have "paths_ok bare_db" by (simp add: paths_ok_def demo_node_def aux_path_def HasPrefix_def tuneDropInPath_def)
  moreover have "in_sync certified_world i" for i
    using bare_sync [of i] by (simp add: certified_world_def in_sync_def)
  ultimately show "fleet_start certified_world"
    by (simp add: fleet_start_def panel_ok_def bare_ok settings_stored_def)
  show "reliable (printing s)" using demo_reliable by (simp add: reliable_def printing_def)
  show "no_faults certified_world" by (simp add: no_faults_def printing_def)
qed

lemma setup_request_parts: "parseNodeIDFromConfigPath (r_path setup_request) = 1" "r_method setup_request = ''POST''"
  "as_auto_setup (r_body setup_request) = Some setup_body"
  "suggestedProtocolsForRequest setup_body demo_node (lookup_host (printing s) t) = ([''vless-httpupgrade''], None, None)"
  "refuse_protocols ''a.b'' [] [''vless-httpupgrade''] = None" "refuse_ports setup_body = None"
  "validDomainName ''a.b''"
  by code_simp+

lemma certified_start: "setup_start k certified_world"
  using certified_ok(1) by (simp add: setup_start_def fleet_start_def)

definition ready :: "string \<Rightarrow> db \<Rightarrow> world \<Rightarrow> bool" where
  "ready s d w \<longleftrightarrow> w_db w = d \<and> w_env w = printing s"

lemma ready_becomes: "ready s d w \<Longrightarrow> becomes w d' w' \<Longrightarrow> ready s d' w'"
  by (simp add: ready_def becomes_def)

lemma ready_no_faults: "ready s d w \<Longrightarrow> no_faults w"
  by (simp add: ready_def no_faults_def printing_def)

lemma ready_query: "ready s d w \<Longrightarrow> (\<And>w'. ready s d w' \<Longrightarrow> Q (q d) w') \<Longrightarrow> wp (db_query q) Q w"
  by (rule wp_query_sure) (auto simp: ready_def becomes_def no_faults_def printing_def)

lemma ready_ticks: 
  "ready s d w \<Longrightarrow> (\<And>a w'. ready s d w' \<Longrightarrow> rs_key_usable a \<Longrightarrow> rs_dial a \<Longrightarrow> Q1 a w') \<Longrightarrow> wp next_remote Q1 w"
  "ready s d w \<Longrightarrow> (\<And>a w'. ready s d w' \<Longrightarrow> Q2 a w') \<Longrightarrow> wp (random_hex n) Q2 w"
  "ready s d w \<Longrightarrow> (\<And>t w'. ready s d w' \<Longrightarrow> Q3 (lookup_host (printing s) t) w') \<Longrightarrow> wp LookupHost Q3 w"
  "ready s d w \<Longrightarrow> (\<And>w'. ready s d w' \<Longrightarrow> Q4 (s, True) w') \<Longrightarrow> wp (sshRun addr command) Q4 w"
  by (simp_all add: ready_def next_remote_def random_hex_def LookupHost_def sshRun_def on_machine_def next_tick_def wp_step
      printing_def demo_env_def works_def)

lemma setup_push:
  assumes "ready ''OK'' d w" "sel_row n_id 1 (d_nodes d) = Some demo_node"
  shows "wp (push_setup demo_node ''a.b'' a st) (\<lambda>rp w'. rp_status rp = 200) w"
proof -
  have push: "pushable 1 (w_db w)" using assms by (simp add: pushable_def ready_def)
  have "wp (syncNodes (Some SyncNodes) [1]) (\<lambda>rs w'. syncFailure rs = None \<and> same_db w w') w"
    by (rule wp_syncNodes_reliable) (use assms push in \<open>simp_all add: ready_def certified_ok(2)\<close>)
  then have "wp (SyncNodes [1]) (\<lambda>rs w'. syncFailure rs = None) w"
    by (simp add: syncNodes_def) (erule wp_mono, simp)
  then show ?thesis
    unfolding push_setup_def wp_bind demo_rows
    by (rule wp_mono) (auto simp: wp_step intro!: wp_mono [OF quietD [OF quiet_tuning]])
qed

lemma ready_create:
  assumes "ready ''OK'' bare_db w"
  shows "wp (NodeStore_CreateInbound 1 req) (\<lambda>r w'. \<exists>a d. r = Inr a \<and> ready ''OK'' d w' \<and> d_nodes d = [demo_node]) w"
proof -
  have "fresh_ids (w_db w)" using assms by (simp add: ready_def fresh_ids_def)
  note sure = create_inbound_sure [OF ready_no_faults [OF assms] this]
  show ?thesis
    by (rule wp_mono [OF wp_both [OF sure create_post]])
      (use ready_becomes [OF assms] assms in \<open>fastforce simp: ready_def add_inbound_def\<close>)
qed

lemma setup_store:
  assumes "ready ''OK'' bare_db w"
  shows "wp (setup_protocols demo_node setup_body ''a.b'' [] [''vless-httpupgrade'']
     \<lparr>sx_results = [], sx_error = False, sx_created = [], sx_updated = [], sx_tcp = [], sx_udp = []\<rparr>)
     (\<lambda>st w'. \<not> sx_error st \<and> (\<exists>d. ready ''OK'' d w' \<and> d_nodes d = [demo_node])) w"
  unfolding setup_protocols.simps setup_protocol_def plan_httpupgrade_def Let_def wp_bind
proof (simp add: existing_inbound_def old_settings_def setup_body_def randomHex_def str_field_def field_def
    contains_text_def wp_step, rule ready_ticks(2) [OF assms], unfold wp_bind, rule ready_ticks(4), assumption, goal_cases)
  case (1 a w1 w2)
  show ?case
    by (simp add: HasPrefix_def finish_setup_def store_setup_def wp_step Let_def)
      (rule wp_mono [OF ready_create [OF 1(2)]], auto simp: stored_result_def)
qed

lemma setup_runs:
  assumes "ready ''OK'' bare_db w"
  shows "wp (run_setup demo_node setup_body ''a.b'' [''vless-httpupgrade''] a) (\<lambda>rp w'. rp_status rp = 200) w"
proof -
  have domain: "n_domain demo_node = ''a.b''" by (simp add: demo_node_def)
  have list: "wp (NodeStore_ListInbounds 1) (\<lambda>r w'. r = Inr [] \<and> ready ''OK'' bare_db w') w'" if "ready ''OK'' bare_db w'" for w'
    unfolding NodeStore_ListInbounds_def by (rule ready_query [OF that]) simp
  show ?thesis
    unfolding run_setup_def wp_bind [of next_remote] demo_rows
  proof (rule ready_ticks(1) [OF assms], goal_cases)
    case (1 rs w1)
    have conn: "wp (sshConnect rs demo_node) (\<lambda>r w'. r = Inr () \<and> ready ''OK'' bare_db w') w1"
      using 1 by (simp add: sshConnect_def ok_def wp_step)
    show ?case
    proof (rule wp_attemptI [OF conn], simp, elim conjE, rule wp_attemptI [OF list], assumption, simp, goal_cases)
      case (1 _ w2 inbounds w3)
      then have w3: "inbounds = []" "ready ''OK'' bare_db w3" by simp_all
      show ?case
        unfolding w3(1) wp_bind [of "setup_protocols _ _ _ _ _ _"]
        by (rule if_cases, simp add: domain, unfold wp_bind, rule wp_mono [OF setup_store [OF w3(2)]])
          (auto simp: complete_setup_def domain sel_row_def intro: setup_push)
    qed
  qed
qed

lemma setup_succeeds: "wp (HandleAutoSetup setup_request) (\<lambda>rp w'. rp_status rp = 200) certified_world"
proof -
  have start: "ready ''OK'' bare_db certified_world" by (simp add: ready_def)
  have get: "wp (NodeStore_Get 1) (\<lambda>r w'. r = Inr demo_node \<and> ready ''OK'' bare_db w') certified_world"
    unfolding NodeStore_Get_def by (rule ready_query [OF start]) (simp add: sel_row_def)
  have fields: "aq_hysteria2_profile setup_body = ''''" "aq_reality_sni setup_body = ''''" "aq_domain setup_body = ''''"
    "n_domain demo_node = ''a.b''" by (simp_all add: setup_body_def demo_node_def)
  show ?thesis
    unfolding HandleAutoSetup_def setup_request_parts
  proof (simp, rule wp_attemptI [OF get], simp, goal_cases)
    case (1 n w1)
    then have n: "n = demo_node" and w1: "ready ''OK'' bare_db w1" by simp_all
    show ?case
      by (simp add: n fields setup_request_parts(1-3,5-) Let_def wp_bind, rule ready_ticks(3) [OF w1])
        (simp add: n setup_request_parts setup_runs)
  qed
qed

section \<open>Switching the Reality target\<close>

definition reality_row :: inbound where
  "reality_row = \<lparr>ib_id = 1, ib_node = 1, ib_tag = ''r'', ib_protocol = ''vless-reality'', ib_port = 443,
     ib_settings = RawJson (JObj [(''sni'', JStr ''www.apple.com'')]), ib_enabled = True, ib_sort_order = 0\<rparr>"

definition reality_db :: db where
  "reality_db = demo_db\<lparr>d_inbounds := [reality_row]\<rparr>"

definition probe_answer :: string where
  "probe_answer = ''www.bing.com 2 200 0.025''"

definition reality_world :: world where
  "reality_world = (world_with reality_db (\<lambda>_. works))\<lparr>w_env := printing probe_answer\<rparr>"

definition switch_request :: request where
  "switch_request = demo_request ''POST'' ''/api/nodes/1/reality-target'' (no_body\<lparr>as_reality_target := Some ''www.bing.com''\<rparr>)"

lemma reality_fields [simp]: "w_db reality_world = reality_db" "w_env reality_world = printing probe_answer"
  "d_nodes reality_db = [demo_node]" "d_inbounds reality_db = [reality_row]"
  by (simp_all add: reality_world_def reality_db_def)

lemma reality_ok: "fleet_start reality_world"
proof -
  have "in_sync (world_with reality_db (\<lambda>_. works)) i" for i by (rule demo_in_sync) simp
  then have "in_sync reality_world i" for i by (simp add: reality_world_def in_sync_def)
  moreover have "db_ok reality_db" "fleet_ok reality_db"
    using demo_ok demo_fleet_ok
    by (simp_all add: reality_db_def db_ok_def users_ok_def nodes_ok_def inbounds_ok_def access_ok_def logs_ok_def
        fleet_ok_def table_ok_def reality_row_def)
  moreover have "paths_ok reality_db"
    by (simp add: paths_ok_def demo_node_def aux_path_def HasPrefix_def tuneDropInPath_def)
  ultimately show ?thesis by (simp add: fleet_start_def panel_ok_def settings_stored_def reality_row_def)
qed

lemma ready_row:
  assumes "ready s reality_db w"
  shows "wp (NodeStore_UpdateInbound 1 req) (\<lambda>r w'. (\<exists>a. r = Inr a) \<and> ready s (set_inbound 1 req reality_db) w') w"
proof -
  have one: "(\<lambda>d. Inr (count_rows (\<lambda>b. ib_id b = 1) (d_inbounds d), d\<lparr>d_inbounds := map (\<lambda>b. if ib_id b = 1 then
        b\<lparr>ib_tag := ci_tag req, ib_protocol := ci_protocol req, ib_port := ci_port req,
          ib_settings := settings_or_empty (ci_settings req)\<rparr> else b) (d_inbounds d)\<rparr>)) (w_db w)
      = Inr (1, set_inbound 1 req reality_db)"
    using assms by (simp add: ready_def count_rows_def reality_row_def set_inbound_def overwrite_def)
  have found: "sel_row ib_id 1 (d_inbounds (set_inbound 1 req reality_db)) \<noteq> None"
    by (simp add: sel_row_def set_inbound_def reality_row_def overwrite_def)
  show ?thesis
    unfolding NodeStore_UpdateInbound_def exec_inbounds_def wp_and_then NodeStore_GetInbound_def
  proof (rule wp_exec_sure, rule ready_no_faults [OF assms], rule one, simp, goal_cases)
    case (1 w1)
    show ?case
      by (rule ready_query [OF ready_becomes [OF assms 1]]) (use found in auto)
  qed
qed

lemma switch_parts: "parseNodeIDFromConfigPath (r_path switch_request) = 1" "r_method switch_request = ''POST''"
  "as_reality_target (r_body switch_request) = Some ''www.bing.com''" "validDomainName ''www.bing.com''"
  "fst (parseRealityProbe probe_answer [''www.bing.com'']) = ''www.bing.com''"
  "reality_inbound [reality_row] = Some reality_row" "ib_id reality_row = 1"
  "stored_settings (ib_settings reality_row) = Some [(''sni'', JStr ''www.apple.com'')]"
  "ib_settings reality_row \<noteq> RawJson JNull" "str_field [(''sni'', JStr ''www.apple.com'')] ''sni'' = ''www.apple.com''"
  by code_simp+

lemma switch_stores:
  assumes "ready s reality_db w"
  shows "wp (switch_target demo_node reality_row ''www.bing.com'') (\<lambda>rp w'. rp_status rp = 200) w"
proof -
  have push: "wp (SyncNodes [1]) (\<lambda>rs w'. syncFailure rs = None \<and> rs \<noteq> []) w1" if "ready s d w1" "d_nodes d = [demo_node]" for d w1
  proof -
    have p: "pushable 1 (w_db w1)" using that by (simp add: pushable_def ready_def sel_row_def)
    have "wp (syncNodes (Some SyncNodes) [1]) (\<lambda>rs w'. syncFailure rs = None \<and> same_db w1 w') w1"
      by (rule wp_syncNodes_reliable) (use that p in \<open>simp_all add: ready_def certified_ok(2)\<close>)
    then have "wp (SyncNodes [1]) (\<lambda>rs w'. syncFailure rs = None \<and> same_db w1 w') w1" by (simp add: syncNodes_def)
    then show ?thesis
      by (rule wp_mono [OF wp_both [OF _ cfg.results]]) (auto simp: uniqueSortedIDs_def)
  qed
  show ?thesis
    unfolding switch_target_def switch_parts option.case Let_def store_target_def
  proof (simp add: switch_parts, rule wp_attemptI [OF ready_row [OF assms]], simp, goal_cases)
    case (1 a w1)
    then have "ready s (set_inbound 1 (with_settings reality_row (retargeted [(''sni'', JStr ''www.apple.com'')] ''www.bing.com'')) reality_db) w1"
      by simp
    note p = push [OF this]
    show ?case
      unfolding wp_bind
      by (rule wp_mono [OF p]) (auto simp: set_inbound_def wp_step split: list.split)
  qed
qed

lemma switch_succeeds: "wp (HandleRealityTarget switch_request) (\<lambda>rp w'. rp_status rp = 200) reality_world"
proof -
  have start: "ready probe_answer reality_db reality_world" by (simp add: ready_def)
  have get: "wp (NodeStore_Get 1) (\<lambda>r w'. r = Inr demo_node \<and> ready probe_answer reality_db w') reality_world"
    unfolding NodeStore_Get_def by (rule ready_query [OF start]) (simp add: sel_row_def)
  have list: "wp (NodeStore_ListInbounds 1) (\<lambda>r w'. r = Inr [reality_row] \<and> ready probe_answer reality_db w') w'"
    if "ready probe_answer reality_db w'" for w'
    unfolding NodeStore_ListInbounds_def by (rule ready_query [OF that]) (simp add: reality_row_def)
  show ?thesis
    unfolding HandleRealityTarget_def loadNode_def switch_parts option.case
  proof (simp add: switch_parts, rule wp_attemptI [OF get], simp, elim conjE, simp, rule wp_attemptI [OF list], assumption,
      simp, elim conjE, simp add: switch_parts wp_bind, rule ready_ticks(1), assumption, goal_cases)
    case outer: (1 a w1 inbounds w2 rs w3)
    then have conn: "wp (sshConnect rs demo_node) (\<lambda>r w'. r = Inr () \<and> ready probe_answer reality_db w') w3"
      by (simp add: sshConnect_def ok_def wp_step)
    show ?case
    proof (rule wp_attemptI [OF conn], simp, unfold wp_bind, rule ready_ticks(4), simp, goal_cases)
      case (1 u w4 w5)
      then show ?case using outer by (simp add: switch_parts switch_stores)
    qed
  qed
qed

end
