(* ===== verification/ReprovisionSync.thy ===== *)
theory ReprovisionSync
  imports SetupKeeps
begin

text \<open>
  What reprovisioning the fleet (\<open>handler/reprovision.go\<close>) guarantees: the nodes are taken one
  after another, the answer says of each what became of it, and an answer of complete success
  means that every node runs what the database says.
\<close>

section \<open>What a run of auto-setup keeps\<close>

lemma stored_settings_nonempty [simp]: "settings_or_empty s \<noteq> RawEmpty"
  by (cases s) simp_all

lemma panel_ok_closed: "setup_closed k (\<lambda>d. panel_ok d \<and> k \<in> n_id ` set (d_nodes d))"
proof -
  have "setup_closed k (\<lambda>d. fleet_ok d \<and> paths_ok d \<and> settings_stored d)"
    unfolding setup_closed_def
  proof (intro allI impI, elim conjE, intro conjI allI)
    fix d x assume ok: "fleet_ok d" "paths_ok d" "settings_stored d"
    have "only_node k d (set_domain k x d)" by (rule only_node_domain [OF restored_only_node [OF restored_refl]])
    with ok show "fleet_ok (set_domain k x d)" "paths_ok (set_domain k x d)" "settings_stored (set_domain k x d)"
      by (auto intro: only_node_fleet only_node_paths) (simp add: set_domain_def settings_stored_def)
  qed (auto simp: fleet_ok_def paths_ok_def settings_stored_def set_inbound_def add_inbound_def drop_inbound_def
      overwrite_def new_inbound_def set_ins_row set_del_rows stored_settings_nonempty)
  from closed_conj [OF db_ok_closed this] show ?thesis
    by (simp add: panel_ok_def conj_ac)
qed

lemma keeps_panel_ok: "keeps panel_ok (HandleAutoSetup r)"
  by (rule keeps_HandleAutoSetup) (rule panel_ok_closed)

section \<open>Work on one machine\<close>

text \<open>Work that changes no row and no machine but one.\<close>

named_theorems local_rule \<open>operations that change one machine at most\<close>

definition elsewhere :: "string \<Rightarrow> world \<Rightarrow> world \<Rightarrow> bool" where
  "elsewhere addr w w' \<longleftrightarrow> w_db w' = w_db w \<and> w_now w' = w_now w \<and> w_env w' = w_env w \<and>
     (\<forall>a. a \<noteq> addr \<longrightarrow> w_fleet w' a = w_fleet w a)"

definition stays_on :: "string \<Rightarrow> 'a io \<Rightarrow> bool" where
  "stays_on addr m \<longleftrightarrow> (\<forall>w. wp m (\<lambda>_ w'. elsewhere addr w w') w)"

lemma stays_onD: "stays_on addr m \<Longrightarrow> wp m (\<lambda>_ w'. elsewhere addr w w') w"
  by (simp add: stays_on_def)

lemma stays_return [local_rule]: "stays_on addr (State_Monad.return a)"
  by (simp add: stays_on_def elsewhere_def wp_step)

lemma stays_bind [local_rule]:
  assumes "stays_on addr m" "\<And>a. stays_on addr (k a)"
  shows "stays_on addr (State_Monad.bind m k)"
  unfolding stays_on_def wp_bind
proof
  fix w
  show "wp m (\<lambda>a. wp (k a) (\<lambda>_ w'. elsewhere addr w w')) w"
    by (rule wp_mono [OF assms(1) [unfolded stays_on_def, rule_format]],
        rule wp_mono [OF assms(2) [unfolded stays_on_def, rule_format]]) (auto simp: elsewhere_def)
qed

lemma stays_attempt [local_rule]:
  "stays_on addr m \<Longrightarrow> (\<And>e. stays_on addr (h e)) \<Longrightarrow> (\<And>a. stays_on addr (k a)) \<Longrightarrow> stays_on addr (attempt m h k)"
  unfolding attempt_def by (rule stays_bind) (auto split: sum.splits)

lemma stays_cases [local_rule]:
  "stays_on addr m \<Longrightarrow> stays_on addr n \<Longrightarrow> stays_on addr (if b then m else n)"
  "stays_on addr (f e) \<Longrightarrow> stays_on addr (let x = e in f x)"
  "stays_on addr m \<Longrightarrow> (\<And>y. stays_on addr (g y)) \<Longrightarrow> stays_on addr (case x of None \<Rightarrow> m | Some y \<Rightarrow> g y)"
  "(\<And>a b. stays_on addr (h a b)) \<Longrightarrow> stays_on addr (case p of (a, b) \<Rightarrow> h a b)"
  by (simp_all split: option.split prod.split)

lemma stays_answers [local_rule]: "stays_on addr (writeJSON st p)" "stays_on addr (writeError st msg)"
  "stays_on addr next_remote" "stays_on addr (sshConnect rs n)" "stays_on addr (on_machine addr f)" "stays_on addr (sshRun addr c)"
  by (auto simp: stays_on_def elsewhere_def wp_step next_remote_def next_tick_def sshConnect_def fail_def ok_def
      on_machine_def sshRun_def split: prod.splits)

lemma stays_install: "stays_on (sshDialAddr node) (install_release node version arch)"
  unfolding install_release_def ensure_unit_def by (intro local_rule)

lemma in_sync_elsewhere:
  assumes "in_sync w i" "elsewhere (sshDialAddr node) w w'" "fleet_ok (w_db w)" "node \<in> set (d_nodes (w_db w))" "i \<noteq> n_id node"
  shows "in_sync w' i"
proof -
  have "sshDialAddr n \<noteq> sshDialAddr node" if "sel_row n_id i (d_nodes (w_db w)) = Some n" for n
    using sel_row_SomeD [OF that] assms(3-5) by (auto simp: fleet_ok_def distinct_map dest: inj_onD)
  with assms(1,2) show ?thesis by (simp add: in_sync_def elsewhere_def)
qed

lemma wp_install:
  assumes ok: "fleet_ok (w_db w)" and k: "parseNodeIDFromConfigPath (r_path r) = k"
  shows "wp (NodeOpsHandler_install r) (\<lambda>_ w'. w_db w' = w_db w \<and> (\<forall>i. i \<noteq> k \<longrightarrow> in_sync w i \<longrightarrow> in_sync w' i)) w"
  unfolding NodeOpsHandler_install_def k
proof (rule wp_attemptI [OF node_post], goal_cases)
  case (1 e t)
  then show ?case by (auto simp: wp_step becomes_def in_sync_def)
next
  case (2 node t)
  then have node: "node \<in> set (d_nodes (w_db w))" "n_id node = k" and t: "w_db t = w_db w" "w_fleet t = w_fleet w" "w_now t = w_now w"
    by (auto simp: becomes_def dest!: sel_row_SomeD)
  have "in_sync w i \<Longrightarrow> in_sync t i" for i by (simp add: in_sync_def t)
  then have "in_sync w' i" if "elsewhere (sshDialAddr node) t w'" "i \<noteq> k" "in_sync w i" for w' i
    using in_sync_elsewhere [OF _ that(1)] ok node that t by simp
  then show ?case
    by (intro wp_mono [OF stays_onD [where addr = "sshDialAddr node"]]) (unfold resolve_version_def, intro local_rule stays_install, simp add: elsewhere_def t)
qed

section \<open>One node\<close>

text \<open>The node of a successful result has an inbound of every protocol its auto-setup reports.\<close>

definition result_provided :: "reprovision_result \<Rightarrow> db \<Rightarrow> bool" where
  "result_provided res d \<longleftrightarrow> (case res of (i, _, _, _, response, _, _) \<Rightarrow>
     (\<exists>rs pushes name a t. response = Some (PSetup rs pushes name a t) \<and> (\<forall>s \<in> set rs. provided i (si_protocol s) d)))"

lemma parse_node_path: "- (2 ^ 63) \<le> i \<Longrightarrow> i < 2 ^ 63 \<Longrightarrow>
    parseNodeIDFromConfigPath (''/api/nodes/'' @ Itoa i @ CHR ''/'' # rest) = i"
  using parseID_path(1) [of i "''/api/nodes/''"]
  by (simp add: parseNodeIDFromConfigPath_def SplitByte_append_sep slash_not_in_Itoa del: append.append_Cons TrimPrefix_def)

text \<open>Ids are row ids, which are 64-bit integers.\<close>

definition node_ids_fit :: "db \<Rightarrow> bool" where
  "node_ids_fit d \<longleftrightarrow> (\<forall>n \<in> set (d_nodes d). n_id n < 2 ^ 63)"

lemma inner_request_id: "0 < i \<Longrightarrow> i < 2 ^ 63 \<Longrightarrow>
    parseNodeIDFromConfigPath (r_path (inner_request i (CHR ''/'' # operation) b)) = i"
  unfolding inner_request_def request.simps by (rule parse_node_path) simp_all

definition node_outcome :: "int \<Rightarrow> world \<Rightarrow> reprovision_result \<Rightarrow> world \<Rightarrow> bool" where
  "node_outcome k w res w' \<longleftrightarrow> fst res = k \<and> panel_ok (w_db w') \<and>
     ((\<forall>i. i \<noteq> k \<longrightarrow> in_sync w i) \<and> succeeded res \<longrightarrow>
        (\<forall>i. in_sync w' i) \<and> only_node k (w_db w) (w_db w') \<and> result_provided res (w_db w'))"

lemma wp_setup_node:
  assumes ok: "panel_ok (w_db w)" and k: "n_id node = k" "0 < k" "k < 2 ^ 63"
  shows "wp (setup_node node options install) (node_outcome k w) w"
proof -
  let ?r = "setup_request_for node options"
  have id: "parseNodeIDFromConfigPath (r_path ?r) = k"
    using inner_request_id [OF k(2,3)] by (simp add: setup_request_for_def k(1))
  have "wp (HandleAutoSetup ?r) (\<lambda>rp w'. panel_ok (w_db w') \<and> ((\<forall>i. i \<noteq> k \<longrightarrow> in_sync w i) \<longrightarrow> setup_promise k w rp w')) w"
    by (rule wp_mono [OF wp_conj [OF keepsD [where I = panel_ok, OF keeps_panel_ok ok]
          wp_runI [where Q = "\<lambda>rp w'. setup_start k w \<longrightarrow> setup_promise k w rp w'"]]])
      (use wp_run [OF wp_HandleAutoSetup [of ?r w, unfolded id]] ok in \<open>auto simp: setup_start_def\<close>)
  then show ?thesis
    unfolding setup_node_def wp_bind wp_return
    by (rule wp_mono)
      (auto simp: node_outcome_def setup_promise_def succeeded_def accepted_def result_provided_def json_payload_def k(1))
qed

lemma wp_reprovisionNode:
  assumes ok: "panel_ok (w_db w)" and k: "n_id node = k" "0 < k" "k < 2 ^ 63"
  shows "wp (reprovisionNode options node) (node_outcome k w) w"
proof (cases "rv_upgrade options")
  case False
  then show ?thesis using wp_setup_node [OF ok k] by (simp add: reprovisionNode_def)
next
  case True
  let ?r = "install_request (n_id node) (rv_version options)"
  have id: "parseNodeIDFromConfigPath (r_path ?r) = k"
    using inner_request_id [OF k(2,3)] by (simp add: install_request_def k(1))
  have fleet: "fleet_ok (w_db w)" using ok by (simp add: panel_ok_def)
  show ?thesis
    unfolding reprovisionNode_def if_P [OF True] wp_bind
  proof (rule wp_mono [OF wp_install [OF fleet id]])
    fix rp w' assume w': "w_db w' = w_db w \<and> (\<forall>i. i \<noteq> k \<longrightarrow> in_sync w i \<longrightarrow> in_sync w' i)"
    then have ok': "panel_ok (w_db w')" using ok by simp
    show "wp (if \<not> accepted rp
        then State_Monad.return (n_id node, n_name node, ''failed'', rp_status rp, None, Some (rp_payload rp),
               ''upgrade failed; setup was not attempted'')
        else setup_node node options (Some (rp_payload rp))) (node_outcome k w) w'"
    proof (rule if_cases)
      show "wp (State_Monad.return (n_id node, n_name node, ''failed'', rp_status rp, None, Some (rp_payload rp),
               ''upgrade failed; setup was not attempted'')) (node_outcome k w) w'"
        using ok' by (simp add: wp_step node_outcome_def succeeded_def k(1))
      show "wp (setup_node node options (Some (rp_payload rp))) (node_outcome k w) w'"
        by (rule wp_mono [OF wp_setup_node [OF ok' k]]) (use w' in \<open>auto simp: node_outcome_def\<close>)
    qed
  qed
qed

section \<open>The fleet\<close>

lemma only_node_provided: "only_node k d d' \<Longrightarrow> j \<noteq> k \<Longrightarrow> provided j p d \<Longrightarrow> provided j p d'"
proof -
  assume o: "only_node k d d'" and j: "j \<noteq> k" and p: "provided j p d"
  then obtain b where "b \<in> set (inbounds_of j d)" "ib_protocol b = p" by (auto simp: provided_def in_inbounds_of)
  then have "b \<in> set (inbounds_of j d')" using o j by (simp add: only_node_def)
  then show ?thesis using \<open>ib_protocol b = p\<close> by (auto simp: provided_def in_inbounds_of)
qed

lemma only_node_result: "only_node k d d' \<Longrightarrow> fst res \<noteq> k \<Longrightarrow> result_provided res d \<Longrightarrow> result_provided res d'"
  using only_node_provided by (fastforce simp: result_provided_def split: prod.splits)

definition fleet_outcome :: "int list \<Rightarrow> world \<Rightarrow> reprovision_result list \<Rightarrow> world \<Rightarrow> bool" where
  "fleet_outcome ks w rs w' \<longleftrightarrow> map fst rs = ks \<and> panel_ok (w_db w') \<and>
     ((\<forall>i. in_sync w i) \<and> list_all succeeded rs \<longrightarrow> (\<forall>i. in_sync w' i) \<and>
        (\<forall>res \<in> set rs. result_provided res (w_db w')) \<and>
        (\<forall>res. fst res \<notin> set ks \<longrightarrow> result_provided res (w_db w) \<longrightarrow> result_provided res (w_db w')))"

lemma wp_reprovision_all:
  assumes "panel_ok (w_db w)" "distinct (map n_id nodes)" "\<And>n. n \<in> set nodes \<Longrightarrow> 0 < n_id n \<and> n_id n < 2 ^ 63"
  shows "wp (map_each (reprovisionNode options) nodes) (fleet_outcome (map n_id nodes) w) w"
  using assms
proof (induction nodes arbitrary: w)
  case Nil
  then show ?case by (simp add: wp_step fleet_outcome_def)
next
  case (Cons n ns)
  show ?case
    unfolding map_each.simps wp_bind
  proof (rule wp_mono [OF wp_reprovisionNode [OF Cons.prems(1) refl]])
    fix res w1 assume o: "node_outcome (n_id n) w res w1"
    show "wp (map_each (reprovisionNode options) ns) (\<lambda>rs. wp (State_Monad.return (res # rs))
        (fleet_outcome (map n_id (n # ns)) w)) w1"
    proof (rule wp_mono [OF Cons.IH])
      fix rs w2 assume f: "fleet_outcome (map n_id ns) w1 rs w2"
      have "fst res \<notin> set (map n_id ns)" using o Cons.prems(2) by (simp add: node_outcome_def)
      then have later: "result_provided res (w_db w1) \<Longrightarrow> (\<forall>i. in_sync w1 i) \<Longrightarrow> list_all succeeded rs \<Longrightarrow>
          result_provided res (w_db w2)" using f unfolding fleet_outcome_def by blast
      have earlier: "result_provided x (w_db w1)"
        if "only_node (n_id n) (w_db w) (w_db w1)" "fst x \<notin> set (map n_id (n # ns))" "result_provided x (w_db w)" for x
        using only_node_result that by auto
      show "wp (State_Monad.return (res # rs)) (fleet_outcome (map n_id (n # ns)) w) w2"
        using o f later earlier by (simp add: wp_step node_outcome_def fleet_outcome_def del: split_paired_All)
    qed (use o Cons.prems in \<open>auto simp: node_outcome_def\<close>)
  qed (use Cons.prems in auto)
qed

text \<open>
  The answer of a run names every target once, in the order of the fleet, and counts
  truthfully; complete success means a consistent fleet. Any other answer changed nothing.
\<close>

definition reprovision_promise :: "request \<Rightarrow> world \<Rightarrow> response \<Rightarrow> world \<Rightarrow> bool" where
  "reprovision_promise r w rp w' \<longleftrightarrow> (case rp_payload rp of
     PReprovision rs good bad \<Rightarrow> rp_status rp = reprovision_status rs \<and>
       good = int (length (filter succeeded rs)) \<and> good + bad = int (length rs) \<and>
       (\<exists>req. (if r_has_body r then as_reprovision (r_body r) else Some no_options) = Some req \<and>
          map fst rs = map n_id (selectReprovisionTargets (sort_key n_sort_order (filter n_enabled (d_nodes (w_db w))))
            (rv_node_ids req))) \<and>
       ((\<forall>i. in_sync w i) \<and> rp_status rp = 200 \<longrightarrow>
          (\<forall>i. in_sync w' i) \<and> (\<forall>res \<in> set rs. result_provided res (w_db w')))
   | _ \<Rightarrow> w_db w' = w_db w \<and> (\<forall>i. in_sync w i \<longrightarrow> in_sync w' i))"

lemma reprovision_promise_error: "w_db w' = w_db w \<Longrightarrow> w_fleet w' = w_fleet w \<Longrightarrow> w_now w' = w_now w \<Longrightarrow>
    reprovision_promise r w \<lparr>rp_status = st, rp_payload = PError msg\<rparr> w'"
  by (simp add: reprovision_promise_def in_sync_def)

lemma all_succeeded: "reprovision_status rs = 200 \<Longrightarrow> list_all succeeded rs"
proof (rule ccontr)
  assume st: "reprovision_status rs = 200" and "\<not> list_all succeeded rs"
  then obtain res where "res \<in> set rs" "\<not> succeeded res" by (auto simp: list_all_iff)
  then have "length (filter succeeded rs) < length rs" by (rule length_filter_less)
  with st show False by (simp add: reprovision_status_def Let_def split: if_splits)
qed

lemma distinct_targets: "distinct (map n_id nodes) \<Longrightarrow> distinct (map n_id (selectReprovisionTargets nodes ids))"
  by (auto simp: selectReprovisionTargets_def Let_def distinct_map inj_on_def)

lemma enabled_post: "wp NodeStore_ListEnabled (\<lambda>r w'. becomes w (w_db w) w' \<and>
    (\<forall>a. r = Inr a \<longrightarrow> a = sort_key n_sort_order (filter n_enabled (d_nodes (w_db w))))) w"
  unfolding NodeStore_ListEnabled_def by (rule wp_db_query) auto

lemma wp_HandleReprovision:
  assumes ok: "panel_ok (w_db w)" "node_ids_fit (w_db w)"
  shows "wp (HandleReprovision r) (reprovision_promise r w) w"
proof -
  let ?nodes = "sort_key n_sort_order (filter n_enabled (d_nodes (w_db w)))"
  have nodes: "distinct (map n_id ?nodes)" "\<And>n. n \<in> set ?nodes \<Longrightarrow> 0 < n_id n \<and> n_id n < 2 ^ 63"
    using ok by (auto simp: panel_ok_def fleet_ok_def node_ids_fit_def distinct_map inj_on_def)
  have err: "wp (writeError st msg) (reprovision_promise r w) w" for st msg
    by (simp add: wp_step reprovision_promise_error)
  show ?thesis
    unfolding HandleReprovision_def
  proof (rule if_cases, goal_cases)
    case 1
    show ?case by (simp add: wp_step reprovision_promise_def)
  next
    case 2
    show ?case
    proof (cases "if r_has_body r then as_reprovision (r_body r) else Some no_options")
      case None
      then show ?thesis by (simp only: option.case err)
    next
      case (Some req0)
      define req where "req = req0\<lparr>rv_version := pinned_version (rv_version req0)\<rparr>"
      show ?thesis
        unfolding Some option.case Let_def req_def [symmetric]
      proof (intro if_cases err, rule wp_attemptI [OF enabled_post], goal_cases)
        case (1 e w1)
        then show ?case by (simp add: wp_step reprovision_promise_error becomes_def)
      next
        case (2 nodes w1)
        let ?ts = "selectReprovisionTargets nodes (rv_node_ids req)"
        from 2 have n: "nodes = ?nodes" and w1: "w_db w1 = w_db w" "w_fleet w1 = w_fleet w" "w_now w1 = w_now w"
          by (simp_all add: becomes_def)
        have same: "in_sync w1 i = in_sync w i" for i by (simp add: in_sync_def w1)
        have ids: "rv_node_ids req = rv_node_ids req0" by (simp add: req_def)
        have targets: "distinct (map n_id ?ts)" "\<And>t. t \<in> set ?ts \<Longrightarrow> 0 < n_id t \<and> n_id t < 2 ^ 63"
          using nodes distinct_targets by (auto simp: n in_selectReprovisionTargets)
        show ?case
        proof (intro if_cases, goal_cases)
          case 1
          show ?case by (simp add: wp_step reprovision_promise_error w1)
        next
          case 2
          show ?case by (simp add: wp_step reprovision_promise_def w1 same)
        next
          case 3
          have ok1: "panel_ok (w_db w1)" using ok w1 by simp
          show ?case
            unfolding wp_bind
            by (rule wp_mono [OF wp_reprovision_all [OF ok1 targets]])
              (auto simp: wp_step reprovision_promise_def fleet_outcome_def same n Some ids dest: all_succeeded)
        qed
      qed
    qed
  qed
qed

end
