(* ===== verification/NodeClaims.thy ===== *)
theory NodeClaims
  imports DemoSetup ReprovisionSync
begin

text \<open>
  Properties of the operations that work on a node: auto-setup, the switch of the Reality
  target, and the remote work that changes no configuration.
\<close>

section \<open>Auto-setup\<close>



section \<open>The Reality target\<close>



section \<open>Remote work\<close>



section \<open>The fleet\<close>




end
