(* ===== verification/Accounting.thy ===== *)
theory Accounting
  imports TrafficPoller SetupStore
begin

text \<open>
  What a polling cycle does to the database when statements and nodes answer: every user's
  counters grow by what the nodes counted under the user's name, and every non-zero count of
  a known user leaves one sample.
\<close>

section \<open>The accounting of one answer\<close>

definition sample_of :: "int \<Rightarrow> string \<Rightarrow> int \<Rightarrow> user_traffic \<Rightarrow> sample" where
  "sample_of nodeID now userID t = \<lparr>t_user = userID, t_node = nodeID, t_up = sint (ut_up t), t_down = sint (ut_down t), t_at = now\<rparr>"

definition moved :: "user_traffic \<Rightarrow> bool" where
  "moved t \<longleftrightarrow> \<not> (ut_up t = 0 \<and> ut_down t = 0)"

definition credit :: "string \<Rightarrow> user_traffic \<Rightarrow> user \<Rightarrow> user" where
  "credit now t u = (if moved t then add_user_traffic (sint (ut_up t)) (sint (ut_down t)) now u else u)"

definition account :: "int \<Rightarrow> (string \<rightharpoonup> int) \<Rightarrow> string \<Rightarrow> string \<times> user_traffic \<Rightarrow> db \<Rightarrow> db" where
  "account nodeID names now entry d = (case entry of (name, t) \<Rightarrow>
     case names name of
       None \<Rightarrow> d
     | Some userID \<Rightarrow> if \<not> moved t then d
         else d\<lparr>d_users := upd_row u_id userID (credit now t) (d_users d), d_logs := d_logs d @ [sample_of nodeID now userID t]\<rparr>)"

definition samples :: "int \<Rightarrow> (string \<rightharpoonup> int) \<Rightarrow> string \<Rightarrow> (string \<times> user_traffic) list \<Rightarrow> sample list" where
  "samples nodeID names now stats = List.map_filter (\<lambda>(name, t). case names name of
     None \<Rightarrow> None | Some userID \<Rightarrow> if moved t then Some (sample_of nodeID now userID t) else None) stats"

lemma becomes_twice: "no_faults w \<Longrightarrow> becomes w d w' \<Longrightarrow> no_faults w'"
  by (simp add: no_faults_def becomes_def)

lemma wp_account_user: "no_faults w \<Longrightarrow>
    wp (account_user i names e) (\<lambda>_ w'. becomes w (account i names (FormatDateTime (w_now w)) e (w_db w)) w') w"
proof (cases e)
  case (Pair name t)
  assume nf: "no_faults w"
  show ?thesis
  proof (cases "moved t \<and> names name \<noteq> None")
    case False
    then show ?thesis by (auto simp: Pair account_user_def account_def moved_def wp_step split: option.splits)
  next
    case True
    then obtain u where u: "names name = Some u" "\<not> (ut_up t = 0 \<and> ut_down t = 0)" "moved t" by (auto simp: moved_def)
    show ?thesis
      unfolding Pair account_user_def prod.case u(1) option.case
      apply (simp only: u(2) if_False UserStore_AddTraffic_def TrafficStore_Record_def wp_step)
      apply (rule wp_exec_sure [OF nf], simp add: set_user_def)
      apply (simp only: wp_step)
      apply (rule wp_exec_sure, erule becomes_twice [OF nf], simp)
      apply (auto simp: wp_step becomes_def account_def u credit_def [abs_def] sample_of_def)
      done
  qed
qed

lemma wp_account_users: "no_faults w \<Longrightarrow>
    wp (map_each (account_user i names) stats) (\<lambda>_ w'. becomes w (fold (account i names (FormatDateTime (w_now w))) stats (w_db w)) w') w"
proof (induction stats arbitrary: w)
  case (Cons e stats)
  show ?case
    unfolding map_each.simps wp_bind
  proof (rule wp_mono [OF wp_account_user [OF Cons.prems]], goal_cases)
    case (1 r w1)
    have "FormatDateTime (w_now w1) = FormatDateTime (w_now w)" "w_db w1 = account i names (FormatDateTime (w_now w)) e (w_db w)"
      using 1 by (simp_all add: becomes_def)
    with 1 show ?case
      unfolding wp_bind
      by (intro wp_mono [OF Cons.IH [OF becomes_twice [OF Cons.prems 1]]]) (simp add: wp_return becomes_def)
  qed
qed (simp add: wp_step)

text \<open>Names are unique, so an entry meets the user it names and no other.\<close>

definition names_users :: "(string \<rightharpoonup> int) \<Rightarrow> user list \<Rightarrow> bool" where
  "names_users names us \<longleftrightarrow> distinct (map u_id us) \<and> (\<forall>name i. names name = Some i \<longleftrightarrow> (\<exists>u \<in> set us. u_name u = name \<and> u_id u = i))"

lemma name_to_user_names:
  assumes "distinct (map u_name us)" "distinct (map u_id us)"
  shows "names_users (name_to_user us) us"
proof -
  have "distinct (map fst (rev (map (\<lambda>u. (u_name u, u_id u)) us)))"
    using assms(1) by (simp add: rev_map [symmetric] o_def)
  then show ?thesis using assms(2) by (auto simp: names_users_def name_to_user_def map_of_eq_Some_iff)
qed

lemma credit_keeps [simp]: "u_name (credit now t u) = u_name u" "u_id (credit now t u) = u_id u"
  by (simp_all add: credit_def add_user_traffic_def)

lemma names_users_map: "(\<And>u. u_name (f u) = u_name u) \<Longrightarrow> (\<And>u. u_id (f u) = u_id u) \<Longrightarrow>
    names_users names us \<Longrightarrow> names_users names (map f us)"
  by (simp add: names_users_def o_def)

lemma account_users:
  assumes "names_users names (d_users d)"
  shows "d_users (account i names now (name, t) d) = map (\<lambda>u. if u_name u = name then credit now t u else u) (d_users d)"
proof (cases "names name")
  case None
  then have "\<forall>u \<in> set (d_users d). u_name u \<noteq> name" using assms unfolding names_users_def by (metis option.distinct(1))
  then show ?thesis by (simp add: account_def None map_idI)
next
  case (Some k)
  have "u_id u = k \<longleftrightarrow> u_name u = name" if "u \<in> set (d_users d)" for u
    using assms Some that unfolding names_users_def by (metis inj_on_contraD distinct_map option.inject)
  then show ?thesis
    by (auto simp: account_def Some upd_row_def credit_def intro!: map_cong map_idI [symmetric])
qed

lemma accounted_users:
  assumes "names_users names (d_users d)" "distinct (map fst stats)"
  shows "d_users (fold (account i names now) stats d) = map (\<lambda>u. credit now (traffic_of stats (u_name u)) u) (d_users d)"
  using assms
proof (induction stats arbitrary: d)
  case Nil
  show ?case by (simp add: credit_def traffic_of_def moved_def)
next
  case (Cons e stats)
  obtain name t where e: "e = (name, t)" by (cases e)
  let ?d = "account i names now e d"
  have users: "d_users ?d = map (\<lambda>u. if u_name u = name then credit now t u else u) (d_users d)"
    unfolding e by (rule account_users [OF Cons.prems(1)])
  have "names_users names (d_users ?d)"
    unfolding users by (rule names_users_map [OF _ _ Cons.prems(1)]) auto
  then have "d_users (fold (account i names now) stats ?d) = map (\<lambda>u. credit now (traffic_of stats (u_name u)) u) (d_users ?d)"
    using Cons by simp
  moreover have "map_of stats name = None"
    using Cons.prems(2) by (auto simp: e map_of_eq_None_iff)
  then have "(\<lambda>u. credit now (traffic_of stats (u_name u)) u) (if u_name u = name then credit now t u else u)
      = credit now (traffic_of (e # stats) (u_name u)) u" for u
    by (simp add: e traffic_of_def) (simp add: credit_def moved_def)
  ultimately show ?case by (simp only: users map_map o_def fold.simps)
qed

lemma accounted_rest:
  "d_logs (fold (account i names now) stats d) = d_logs d @ samples i names now stats"
  "\<exists>us ls. fold (account i names now) stats d = d\<lparr>d_users := us, d_logs := ls\<rparr>"
proof -
  show "d_logs (fold (account i names now) stats d) = d_logs d @ samples i names now stats"
    by (induction stats arbitrary: d) (auto simp: samples_def account_def List.map_filter_def split: option.splits)
  show "\<exists>us ls. fold (account i names now) stats d = d\<lparr>d_users := us, d_logs := ls\<rparr>"
  proof (induction stats arbitrary: d)
    case Nil
    show ?case by (intro exI [of _ "d_users d"] exI [of _ "d_logs d"]) simp
  next
    case (Cons e stats)
    obtain us ls where "fold (account i names now) stats (account i names now e d) = (account i names now e d)\<lparr>d_users := us, d_logs := ls\<rparr>"
      using Cons by blast
    then have "fold (account i names now) (e # stats) d = d\<lparr>d_users := us, d_logs := ls\<rparr>"
      by (simp add: account_def split: option.splits prod.splits)
    then show ?case by blast
  qed
qed

section \<open>A cycle\<close>

text \<open>A node that answers in time with the given messages, and machines that can be dialled.\<close>

definition answers :: "protowire \<Rightarrow> poll_env \<Rightarrow> stats_entry list \<Rightarrow> bool" where
  "answers pw env es \<longleftrightarrow> pe_timeout env = None \<and> list_all (entry_ok pw) es \<and>
     (\<forall>c. pe_invoke env c statsListenAddr statsServiceQueryStats (Marshal pw \<lparr>qr_pattern = statsUserPrefix, qr_reset = True\<rparr>)
        = Inr (concat (map (encode_entry pw) es)))"

definition dials :: "world \<Rightarrow> bool" where
  "dials w \<longleftrightarrow> (\<forall>t. rs_key_usable (remote (w_env w) t) \<and> rs_dial (remote (w_env w) t))"

definition polled_nodes :: "db \<Rightarrow> node list" where
  "polled_nodes d = filter (\<lambda>n. n_proxy_type n = ''singbox'') (sort_key n_sort_order (filter n_enabled (d_nodes d)))"

lemma pool_get_dialled: "\<exists>c q. pool_get alive (Inr True) n p = (Inr c, q)"
  by (auto simp: pool_get_def pool_redial_def split: option.splits prod.splits)

lemma wp_pollNode:
  assumes "wire_format pw" "no_faults w" "dials w" "answers pw env es"
  shows "wp (pollNode pw env names n po) (\<lambda>r w'. fst r = Polled \<and> po_health (snd r) = po_health po \<and>
    becomes w (fold (account (n_id n) names (FormatDateTime (w_now w))) (user_stats (stats_of es)) (w_db w)) w') w"
proof -
  have get: "wp (poller_get env n po) (\<lambda>r w'. (\<exists>c q. r = (Inr c, po\<lparr>po_pool := q\<rparr>)) \<and> becomes w (w_db w) w') w"
    using assms(3) pool_get_dialled [of "pe_alive env" n "po_pool po"]
    by (auto simp: poller_get_def next_remote_def sshConnect_def ok_def wp_step dials_def becomes_def next_tick_def)
  have query: "queryUserStats pw (pe_invoke env c) True = Some (Inr (user_stats (stats_of es)))" for c
    using assms(4) wire_format.unmarshal_entries [OF assms(1), of es "[]"]
    by (simp add: queryUserStats_def answers_def Unmarshal_def)
  show ?thesis
    unfolding pollNode_def wp_bind
  proof (rule wp_mono [OF get], elim conjE exE, goal_cases)
    case (1 r w1 c q)
    have "no_faults w1" by (rule becomes_twice [OF assms(2) 1(1)])
    then show ?case
      unfolding 1(2) by (simp add: query wp_bind)
        (rule wp_mono [OF wp_account_users], simp, use 1(1) in \<open>simp add: wp_return becomes_def\<close>)
  qed
qed

lemma wp_guarded:
  assumes "wire_format pw" "no_faults w" "dials w" "answers pw env es"
  shows "wp (pollNodeGuarded pw env names n po) (\<lambda>po' w'. po_health po' = (po_health po)(n_id n := Some True) \<and>
    becomes w (fold (account (n_id n) names (FormatDateTime (w_now w))) (user_stats (stats_of es)) (w_db w)) w') w"
proof -
  have "pe_timeout env = None" using assms(4) by (simp add: answers_def)
  then show ?thesis
    unfolding pollNodeGuarded_def
    by (simp add: wp_bind)
      (rule wp_mono [OF wp_pollNode [OF assms]],
       auto simp: wp_return recordHealth_def outcome_error_def Let_def split: prod.splits)
qed

definition accounted_db :: "(int \<Rightarrow> stats_entry list) \<Rightarrow> (string \<rightharpoonup> int) \<Rightarrow> string \<Rightarrow> node \<Rightarrow> db \<Rightarrow> db" where
  "accounted_db sent names now n d = fold (account (n_id n) names now) (user_stats (stats_of (sent (n_id n)))) d"

lemma wp_poll_nodes:
  assumes "wire_format pw" "no_faults w" "dials w" "\<forall>n \<in> set ns. answers pw (env (n_id n)) (sent (n_id n))"
  shows "wp (poll_nodes pw env names ns po) (\<lambda>po' w'.
      (\<forall>i. po_health po' i = (if i \<in> n_id ` set ns then Some True else po_health po i)) \<and>
      becomes w (fold (accounted_db sent names (FormatDateTime (w_now w))) ns (w_db w)) w') w"
  using assms
proof (induction ns arbitrary: po w)
  case (Cons n ns)
  have first: "wp (pollNodeGuarded pw (env (n_id n)) names n po) (\<lambda>po' w'. po_health po' = (po_health po)(n_id n := Some True) \<and>
      becomes w (accounted_db sent names (FormatDateTime (w_now w)) n (w_db w)) w') w"
    unfolding accounted_db_def by (rule wp_guarded) (use Cons.prems in auto)
  show ?case
    unfolding poll_nodes.simps wp_bind
  proof (rule wp_mono [OF first], elim conjE, goal_cases)
    case (1 po1 w1)
    have w1: "no_faults w1" "dials w1" "w_now w1 = w_now w"
      "w_db w1 = accounted_db sent names (FormatDateTime (w_now w)) n (w_db w)"
      using 1(2) Cons.prems by (simp_all add: no_faults_def dials_def becomes_def)
    show ?case
      by (rule wp_mono [OF Cons.IH [OF Cons.prems(1) w1(1,2)]])
        (use Cons.prems(4) 1 in \<open>auto simp: w1(3,4) becomes_def\<close>)
  qed
qed (simp add: wp_step)

definition credits :: "(int \<Rightarrow> stats_entry list) \<Rightarrow> string \<Rightarrow> node \<Rightarrow> user \<Rightarrow> user" where
  "credits sent now n u = credit now
     \<lparr>ut_up = counter_sum (stats_of (sent (n_id n))) (u_name u) ''uplink'',
      ut_down = counter_sum (stats_of (sent (n_id n))) (u_name u) ''downlink''\<rparr> u"

lemma accounted_db_users:
  assumes "names_users names (d_users d)"
  shows "d_users (accounted_db sent names now n d) = map (credits sent now n) (d_users d)"
  unfolding accounted_db_def accounted_users [OF assms distinct_user_stats] user_stats_sums credits_def ..

lemma accounted_all:
  assumes "names_users names (d_users d)"
  shows "d_users (fold (accounted_db sent names now) ns d) = map (fold (credits sent now) ns) (d_users d) \<and>
    d_logs (fold (accounted_db sent names now) ns d) = d_logs d @
       concat (map (\<lambda>n. samples (n_id n) names now (user_stats (stats_of (sent (n_id n))))) ns)"
  using assms
proof (induction ns arbitrary: d)
  case (Cons n ns)
  let ?d = "accounted_db sent names now n d"
  have users: "d_users ?d = map (credits sent now n) (d_users d)" by (rule accounted_db_users [OF Cons.prems])
  have "names_users names (d_users ?d)"
    unfolding users by (rule names_users_map [OF _ _ Cons.prems]) (simp_all add: credits_def)
  from Cons.IH [OF this] show ?case
    by (simp add: users) (simp add: accounted_db_def accounted_rest(1))
qed simp

lemma accounted_frame: "\<exists>us ls. fold (accounted_db sent names now) ns d = d\<lparr>d_users := us, d_logs := ls\<rparr>"
proof (induction ns arbitrary: d)
  case Nil
  show ?case by (intro exI [of _ "d_users d"] exI [of _ "d_logs d"]) simp
next
  case (Cons n ns)
  obtain us ls where "accounted_db sent names now n d = d\<lparr>d_users := us, d_logs := ls\<rparr>"
    unfolding accounted_db_def using accounted_rest(2) by blast
  with Cons [of "accounted_db sent names now n d"] show ?case by auto
qed

lemma name_to_user_scan: "name_to_user (map scan_user us) = name_to_user us"
  by (simp add: name_to_user_def scan_user_def o_def)

lemma wp_pollAll:
  assumes "wire_format pw" "no_faults w" "dials w" "\<forall>n \<in> set (polled_nodes (w_db w)). answers pw (env (n_id n)) (sent (n_id n))"
  shows "wp (pollAll pw env po) (\<lambda>po' w'. (\<forall>n \<in> set (polled_nodes (w_db w)). po_health po' (n_id n) = Some True) \<and>
      w_db w' = fold (accounted_db sent (name_to_user (d_users (w_db w))) (FormatDateTime (w_now w))) (polled_nodes (w_db w)) (w_db w)) w"
proof -
  have nodes: "wp NodeStore_ListEnabled (\<lambda>r w'. r = Inr (sort_key n_sort_order (filter n_enabled (d_nodes (w_db w)))) \<and> becomes w (w_db w) w') w"
    unfolding NodeStore_ListEnabled_def by (rule wp_query_sure [OF assms(2)]) simp
  have users: "wp UserStore_List (\<lambda>r w'. r = Inr (map scan_user (d_users (w_db w1))) \<and> becomes w1 (w_db w1) w') w1" if "no_faults w1" for w1
    unfolding UserStore_List_def by (rule wp_query_sure [OF that]) simp
  show ?thesis
    unfolding pollAll_def
  proof (rule wp_attemptI [OF nodes], simp, elim conjE, goal_cases)
    case (1 ns w1)
    then have ns: "filter (\<lambda>n. n_proxy_type n = ''singbox'') ns = polled_nodes (w_db w)" by (simp add: polled_nodes_def)
    show ?case
      unfolding ns
    proof (rule wp_attemptI [OF users [OF becomes_twice [OF assms(2) 1(2)]]], simp, elim conjE, goal_cases)
      case (1 us w2)
      then have w2: "w_db w2 = w_db w" "w_now w2 = w_now w" "w_env w2 = w_env w"
        and names: "name_to_user us = name_to_user (d_users (w_db w))"
        using \<open>becomes w (w_db w) w1\<close> by (simp_all add: becomes_def name_to_user_scan)
      show ?case
        unfolding names
        by (rule wp_mono [OF wp_poll_nodes [where sent = sent, OF assms(1)]])
          (use assms(2-4) in \<open>auto simp: w2 no_faults_def dials_def becomes_def\<close>)
    qed
  qed
qed

end
