(* ===== verification/Protowire.thy ===== *)
theory Protowire
  imports StatsCodec
begin

text \<open>
  The wire format of protocol buffers on 64-bit varints, tags and length-prefixed bytes: an
  instance of the parameter of the codec that satisfies its laws. Groups are not read.
\<close>

section \<open>Base 128\<close>

fun uvarint :: "nat \<Rightarrow> string" where
  "uvarint n = (if n < 128 then [char_of n] else char_of (n mod 128 + 128) # uvarint (n div 128))"

declare uvarint.simps [simp del]

fun get_uvarint :: "string \<Rightarrow> (nat \<times> nat) option" where
  "get_uvarint [] = None"
| "get_uvarint (c # cs) =
    (if of_char c < (128 :: nat) then Some (of_char c, 1)
     else map_option (\<lambda>(v, n). (of_char c - 128 + 128 * v, n + 1)) (get_uvarint cs))"

lemma uvarint_back: "get_uvarint (uvarint n @ rest) = Some (n, length (uvarint n))"
proof (induction n rule: uvarint.induct)
  case (1 n)
  have "n mod 128 + 128 < 256" by simp
  then have c: "of_char (char_of (n mod 128 + 128) :: char) = n mod 128 + 128" by simp
  show ?case
    by (subst (1 2) uvarint.simps) (use 1 c in simp)
qed

lemma get_uvarint_length: "get_uvarint s = Some (v, n) \<Longrightarrow> 0 < n \<and> n \<le> length s"
  by (induction s arbitrary: v n) (auto split: if_splits)

section \<open>The functions\<close>

definition consume_uvarint :: "string \<Rightarrow> 64 word \<times> int" where
  "consume_uvarint s = (case get_uvarint s of
     None \<Rightarrow> (0, -1)
   | Some (v, n) \<Rightarrow> if v < 2 ^ 64 then (word_of_nat v, int n) else (0, -3))"

definition consume_prefixed :: "string \<Rightarrow> string \<times> int" where
  "consume_prefixed s = (case get_uvarint s of
     None \<Rightarrow> ([], -1)
   | Some (v, n) \<Rightarrow> if v \<le> length s - n then (take v (drop n s), int (n + v)) else ([], -1))"

definition consume_tag :: "string \<Rightarrow> int \<times> int \<times> int" where
  "consume_tag s = (case get_uvarint s of
     None \<Rightarrow> (0, 0, -1)
   | Some (v, n) \<Rightarrow> if 0 < v div 8 \<and> v div 8 < 2 ^ 29 then (int (v div 8), int (v mod 8), int n) else (0, 0, -2))"

definition consume_value :: "int \<Rightarrow> int \<Rightarrow> string \<Rightarrow> int" where
  "consume_value num wt s =
    (if wt = 0 then snd (consume_uvarint s)
     else if wt = 1 then (if 8 \<le> length s then 8 else -1)
     else if wt = 2 then snd (consume_prefixed s)
     else if wt = 5 then (if 4 \<le> length s then 4 else -1)
     else -4)"

definition prefixed :: "string \<Rightarrow> string" where
  "prefixed s = uvarint (length s) @ s"

definition base128 :: protowire where
  "base128 = \<lparr>pw_bytes_type = 2, pw_varint_type = 0,
     pw_append_tag = (\<lambda>b num wt. b @ uvarint (8 * nat num + nat wt)),
     pw_append_string = (\<lambda>b s. b @ prefixed s), pw_append_varint = (\<lambda>b v. b @ uvarint (unat v)),
     pw_consume_tag = consume_tag, pw_consume_field = consume_value,
     pw_consume_bytes = consume_prefixed, pw_consume_string = consume_prefixed,
     pw_consume_varint = consume_uvarint, pw_parse_error = (\<lambda>n. ''cannot parse'')\<rparr>"

lemma prefixed_back: "consume_prefixed (prefixed s @ rest) = (s, int (length (prefixed s)))"
  by (simp add: consume_prefixed_def prefixed_def uvarint_back)

lemma consume_uvarint_length: "snd (consume_uvarint s) \<le> int (length s)"
  by (auto simp: consume_uvarint_def split: option.splits dest: get_uvarint_length)

lemma consume_prefixed_length: "snd (consume_prefixed s) \<le> int (length s)"
  by (auto simp: consume_prefixed_def split: option.splits dest: get_uvarint_length)

lemma tag_value:
  assumes "field_key num wt"
  shows "int ((8 * nat num + nat wt) div 8) = num" "int ((8 * nat num + nat wt) mod 8) = wt"
    "0 < (8 * nat num + nat wt) div 8" "(8 * nat num + nat wt) div 8 < 2 ^ 29"
  using assms by (auto simp: field_key_def)

interpretation base128: wire_format base128
proof (unfold_locales, goal_cases)
  case (6 num wt rest)
  then show ?case using tag_value [of num wt] by (simp add: base128_def consume_tag_def uvarint_back)
next
  case (9 v rest)
  have "unat v < 2 ^ 64" using unsigned_less [of v] by simp
  then show ?case by (simp add: base128_def consume_uvarint_def uvarint_back)
next
  case (10 data num wt n)
  then show ?case
    by (auto simp: base128_def consume_tag_def split: option.splits if_splits dest: get_uvarint_length)
next
  case (14 num wt data)
  then show ?case
    using consume_uvarint_length [of data] consume_prefixed_length [of data]
    by (simp add: base128_def consume_value_def)
qed (simp_all add: base128_def field_key_def prefixed_back consume_uvarint_length consume_prefixed_length)

end
