(* ===== verification/HostKeys.thy ===== *)
theory HostKeys
  imports GoStrings
begin

text \<open>
  \<open>handler/hostkey.go\<close>: the file of pinned host keys. The package \<open>knownhosts\<close> and
  \<open>ssh.ParseKnownHosts\<close> are a parameter; the file is its contents, or \<open>None\<close> before it
  exists. The lock is held over each operation, so operations do not interleave.
\<close>

section \<open>The library and the file system\<close>

type_synonym public_key = string

datatype verdict = Match | KeyError "public_key list" | OtherError string

text \<open>\<open>New\<close> of a file's contents gives an error or the callback; \<open>None\<close> for a line that does not parse.\<close>

record knownhosts =
  kh_New :: "string \<Rightarrow> string + (string \<Rightarrow> string \<Rightarrow> public_key \<Rightarrow> verdict)"
  kh_Line :: "string list \<Rightarrow> public_key \<Rightarrow> string"
  kh_Normalize :: "string \<Rightarrow> string"
  kh_ParseKnownHosts :: "string \<Rightarrow> string list option"

text \<open>
  The errors of one operation's calls, \<open>None\<close> for none; a write that fails has written some
  bytes.
\<close>

record fs_env =
  fe_stat :: "string option"
  fe_mkdir :: "string option"
  fe_create :: "string option"
  fe_open :: "string option"
  fe_write :: "(nat \<times> string) option"
  fe_read :: "string option"

section \<open>The store\<close>

datatype host_key_error =
    FileError string
  | ReadError string
  | ErrHostKeyMismatch string string
  | VerifyError string
  | OpenError string
  | PinError string

definition mismatch_text :: "string \<Rightarrow> string \<Rightarrow> string" where
  "mismatch_text host path = ''host key for '' @ host @ '' does not match the pinned key in '' @ path
     @ ''. If this node was rebuilt, remove its line (ssh-keygen -f '' @ path @ '' -R '' @ host
     @ '') and reconnect; otherwise the connection is being intercepted''"

text \<open>\<open>Error\<close>; the wrapped errors of the system follow their prefix.\<close>

fun error_text :: "host_key_error \<Rightarrow> string" where
  "error_text (FileError e) = e"
| "error_text (ReadError e) = ''read known_hosts: '' @ e"
| "error_text (ErrHostKeyMismatch host path) = mismatch_text host path"
| "error_text (VerifyError e) = e"
| "error_text (OpenError e) = ''open known_hosts: '' @ e"
| "error_text (PinError e) = ''pin host key: '' @ e"

definition isUnknownHost :: "verdict \<Rightarrow> bool" where
  "isUnknownHost v \<longleftrightarrow> v = KeyError []"

definition ensureFile :: "fs_env \<Rightarrow> string option \<Rightarrow> string option \<times> string option" where
  "ensureFile fs file = (case fe_stat fs of
     Some e \<Rightarrow> (Some e, file)
   | None \<Rightarrow> (case file of
       Some content \<Rightarrow> (None, file)
     | None \<Rightarrow> (case fe_mkdir fs of
         Some e \<Rightarrow> (Some e, file)
       | None \<Rightarrow> (case fe_create fs of Some e \<Rightarrow> (Some e, file) | None \<Rightarrow> (None, Some [])))))"

definition write_bytes :: "fs_env \<Rightarrow> string \<Rightarrow> string \<Rightarrow> string option \<times> string" where
  "write_bytes fs before bytes = (case fe_write fs of
     None \<Rightarrow> (None, before @ bytes)
   | Some (n, e) \<Rightarrow> (Some e, before @ take n bytes))"

definition pin :: "knownhosts \<Rightarrow> fs_env \<Rightarrow> string \<Rightarrow> public_key \<Rightarrow> string \<Rightarrow> host_key_error option \<times> string" where
  "pin kh fs hostname key content = (case fe_open fs of
     Some e \<Rightarrow> (Some (OpenError e), content)
   | None \<Rightarrow>
       let line = kh_Line kh [kh_Normalize kh hostname] key in
       case write_bytes fs content (line @ [CHR 0x0A]) of
         (Some e, content) \<Rightarrow> (Some (PinError e), content)
       | (None, content) \<Rightarrow> (None, content))"

definition host_key_callback :: "knownhosts \<Rightarrow> string \<Rightarrow> fs_env \<Rightarrow> string \<Rightarrow> string \<Rightarrow> public_key \<Rightarrow> string option
    \<Rightarrow> host_key_error option \<times> string option" where
  "host_key_callback kh path fs hostname remote key file = (case ensureFile fs file of
     (Some e, file) \<Rightarrow> (Some (FileError e), file)
   | (None, file) \<Rightarrow>
       let content = (case file of None \<Rightarrow> [] | Some c \<Rightarrow> c) in
       case kh_New kh content of
         Inl e \<Rightarrow> (Some (ReadError e), file)
       | Inr verify \<Rightarrow>
           let err = verify hostname remote key in
           if err = Match then (None, file)
           else if isUnknownHost err then (case pin kh fs hostname key content of (e, content) \<Rightarrow> (e, Some content))
           else (case err of
               KeyError want \<Rightarrow> (Some (ErrHostKeyMismatch hostname path), file)
             | OtherError e \<Rightarrow> (Some (VerifyError e), file)
             | Match \<Rightarrow> (None, file)))"

section \<open>Forgetting\<close>

fun lines_from :: "string \<Rightarrow> string \<Rightarrow> string list" where
  "lines_from cur [] = (if cur = [] then [] else [cur])"
| "lines_from cur (b # data) = (if b = CHR 0x0A then cur # lines_from [] data else lines_from (cur @ [b]) data)"

definition knownHostsLines :: "string \<Rightarrow> string list" where
  "knownHostsLines data = lines_from [] data"

definition hostMatchesLine :: "knownhosts \<Rightarrow> string \<Rightarrow> string \<Rightarrow> bool" where
  "hostMatchesLine kh line want \<longleftrightarrow>
    (if line = '''' \<or> hd line = CHR ''#'' \<or> hd line = CHR 0x7C then False
     else case kh_ParseKnownHosts kh line of None \<Rightarrow> False | Some hosts \<Rightarrow> list_ex (\<lambda>h. h = want) hosts)"

definition forget :: "knownhosts \<Rightarrow> fs_env \<Rightarrow> string \<Rightarrow> string option \<Rightarrow> string option \<times> string option" where
  "forget kh fs hostname file = (case file of
     None \<Rightarrow> (None, None)
   | Some data \<Rightarrow> (case fe_read fs of
       Some e \<Rightarrow> (Some e, file)
     | None \<Rightarrow>
         let want = kh_Normalize kh hostname;
             kept = concat (map (\<lambda>line. line @ [CHR 0x0A]) (filter (\<lambda>line. \<not> hostMatchesLine kh line want) (knownHostsLines data)))
         in case fe_open fs of
              Some e \<Rightarrow> (Some e, file)
            | None \<Rightarrow> (case write_bytes fs [] kept of (e, content) \<Rightarrow> (e, Some content))))"

section \<open>The handler's side\<close>

text \<open>\<open>filepath.Join\<close> also cleans the directory.\<close>

definition newHostKeyStore :: "string \<Rightarrow> string" where
  "newHostKeyStore dataDir = dataDir @ ''/known_hosts''"

definition hostKeyCallback :: "knownhosts \<Rightarrow> string \<Rightarrow> fs_env \<Rightarrow> string \<Rightarrow> string \<Rightarrow> public_key \<Rightarrow> string option
    \<Rightarrow> host_key_error option \<times> string option" where
  "hostKeyCallback kh dataDir fs hostname remote key file =
    (if dataDir = '''' then (None, file)
     else host_key_callback kh (newHostKeyStore dataDir) fs hostname remote key file)"

definition ForgetHostKey :: "knownhosts \<Rightarrow> string \<Rightarrow> fs_env \<Rightarrow> string \<Rightarrow> string option \<Rightarrow> string option \<times> string option" where
  "ForgetHostKey kh dataDir fs addr file = (if dataDir = '''' then (None, file) else forget kh fs addr file)"

section \<open>Trust on first use\<close>

text \<open>The file of some pins, and what a host key is worth beside them.\<close>

definition render :: "knownhosts \<Rightarrow> (string \<times> public_key) list \<Rightarrow> string" where
  "render kh pins = concat (map (\<lambda>(h, k). kh_Line kh [h] k @ [CHR 0x0A]) pins)"

definition pin_verdict :: "(string \<times> public_key) list \<Rightarrow> string \<Rightarrow> public_key \<Rightarrow> verdict" where
  "pin_verdict pins h k = (case map_of pins h of
     None \<Rightarrow> KeyError [] | Some k' \<Rightarrow> if k = k' then Match else KeyError [k'])"

definition represents :: "knownhosts \<Rightarrow> string set \<Rightarrow> public_key set \<Rightarrow> string option \<Rightarrow> (string \<times> public_key) list \<Rightarrow> bool" where
  "represents kh H K file pins \<longleftrightarrow> distinct (map fst pins) \<and> fst ` set pins \<subseteq> H \<and> snd ` set pins \<subseteq> K \<and>
     (file = Some (render kh pins) \<or> file = None \<and> pins = [])"

lemma lines_append: "CHR 0x0A \<notin> set line \<Longrightarrow> lines_from cur (line @ CHR 0x0A # data) = (cur @ line) # lines_from [] data"
  by (induction line arbitrary: cur) auto

lemma lines_render: "(\<And>h k. (h, k) \<in> set pins \<Longrightarrow> CHR 0x0A \<notin> set (kh_Line kh [h] k)) \<Longrightarrow>
    knownHostsLines (render kh pins) = map (\<lambda>(h, k). kh_Line kh [h] k) pins"
proof (induction pins)
  case (Cons e pins)
  then show ?case by (cases e) (simp add: knownHostsLines_def render_def lines_append)
qed (simp add: knownHostsLines_def render_def)

text \<open>What happens to the file: connections, whose write fails as a whole if it does, and forgetting.\<close>

datatype event = Connect fs_env string string public_key | Forget fs_env string

fun event_ok :: "knownhosts \<Rightarrow> string set \<Rightarrow> public_key set \<Rightarrow> event \<Rightarrow> bool" where
  "event_ok kh H K (Connect fs h r k) = (kh_Normalize kh h \<in> H \<and> k \<in> K \<and> (fe_write fs = None \<or> (\<exists>e. fe_write fs = Some (0, e))))"
| "event_ok kh H K (Forget fs h) = (fe_write fs = None)"

fun store_step :: "knownhosts \<Rightarrow> string \<Rightarrow> event \<Rightarrow> string option \<Rightarrow> string option" where
  "store_step kh path (Connect fs h r k) file = snd (host_key_callback kh path fs h r k file)"
| "store_step kh path (Forget fs h) file = snd (forget kh fs h file)"

text \<open>
  What is relied on, for hosts in \<open>H\<close> and keys in \<open>K\<close>: the lines written can be read back, a
  host is known by the key of its line and by no other, and unknown without a line.
\<close>

locale known_hosts =
  fixes kh :: knownhosts and H :: "string set" and K :: "public_key set"
  assumes reads: "distinct (map fst pins) \<Longrightarrow> fst ` set pins \<subseteq> H \<Longrightarrow> snd ` set pins \<subseteq> K \<Longrightarrow>
      \<exists>v. kh_New kh (render kh pins) = Inr v \<and>
        (\<forall>hostname remote k. kh_Normalize kh hostname \<in> H \<longrightarrow> v hostname remote k = pin_verdict pins (kh_Normalize kh hostname) k)"
    and line: "h \<in> H \<Longrightarrow> k \<in> K \<Longrightarrow> kh_Line kh [h] k \<noteq> '''' \<and> hd (kh_Line kh [h] k) \<notin> {CHR ''#'', CHR 0x7C}
      \<and> CHR 0x0A \<notin> set (kh_Line kh [h] k)"
    and parses: "h \<in> H \<Longrightarrow> k \<in> K \<Longrightarrow> kh_ParseKnownHosts kh (kh_Line kh [h] k) = Some [h]"
begin

lemma matches_line: "h \<in> H \<Longrightarrow> k \<in> K \<Longrightarrow> hostMatchesLine kh (kh_Line kh [h] k) want \<longleftrightarrow> h = want"
  using line [of h k] by (auto simp: hostMatchesLine_def parses)

text \<open>A connection: the new pins, and the verdict over the old ones.\<close>

lemma callback_refines:
  assumes "represents kh H K file pins" "kh_Normalize kh hostname \<in> H" "key \<in> K" "fe_write fs = None \<or> (\<exists>e. fe_write fs = Some (0, e))"
    and "host_key_callback kh path fs hostname remote key file = (r, file')"
  obtains "r \<noteq> None" "represents kh H K file' pins"
  | "r = None" "map_of pins (kh_Normalize kh hostname) = Some key" "represents kh H K file' pins"
  | "r = None" "map_of pins (kh_Normalize kh hostname) = None" "represents kh H K file' (pins @ [(kh_Normalize kh hostname, key)])"
proof -
  let ?n = "kh_Normalize kh hostname"
  have pins: "distinct (map fst pins)" "fst ` set pins \<subseteq> H" "snd ` set pins \<subseteq> K"
    and stored: "file = Some (render kh pins) \<or> file = None \<and> pins = []"
    using assms(1) by (simp_all add: represents_def)
  obtain v where v: "kh_New kh (render kh pins) = Inr v" "\<And>remote k. v hostname remote k = pin_verdict pins ?n k"
    using reads [OF pins] assms(2) by blast
  have empty: "render kh [] = []" by (simp add: render_def)
  have opened: "(\<exists>e. ensureFile fs file = (Some e, file)) \<or> ensureFile fs file = (None, Some (render kh pins))"
    using stored by (auto simp: ensureFile_def empty split: option.splits)
  have new: "represents kh H K (Some (render kh pins @ kh_Line kh [?n] key @ [CHR 0x0A])) (pins @ [(?n, key)])" if "map_of pins ?n = None"
    using pins assms(2,3) that by (auto simp: represents_def render_def map_of_eq_None_iff)
  have same: "represents kh H K (Some (render kh pins)) pins" using pins by (simp add: represents_def)
  have pinned: "pin kh fs hostname key (render kh pins) = (e, c) \<Longrightarrow>
      e \<noteq> None \<and> c = render kh pins \<or> e = None \<and> c = render kh pins @ kh_Line kh [?n] key @ [CHR 0x0A]" for e c
    using assms(4) by (auto simp: pin_def write_bytes_def Let_def split: option.splits)
  from opened show thesis
  proof
    assume "\<exists>e. ensureFile fs file = (Some e, file)"
    then show thesis using that(1) assms(1,5) by (auto simp: host_key_callback_def)
  next
    assume e: "ensureFile fs file = (None, Some (render kh pins))"
    show thesis
    proof (cases "map_of pins ?n")
      case None
      then have "v hostname remote key = KeyError []" by (simp add: v pin_verdict_def)
      then have "r = fst (pin kh fs hostname key (render kh pins)) \<and> file' = Some (snd (pin kh fs hostname key (render kh pins)))"
        using assms(5) by (simp add: host_key_callback_def e v(1) isUnknownHost_def Let_def split: prod.splits)
      then show thesis
        using pinned [OF prod.collapse [symmetric]] that(1,3) None new [OF None] same by metis
    next
      case (Some k)
      show thesis
      proof (cases "k = key")
        case True
        then have "v hostname remote key = Match" using Some by (simp add: v pin_verdict_def)
        then show thesis using that(2) Some True same assms(5) by (simp add: host_key_callback_def e v(1) Let_def)
      next
        case False
        then have "v hostname remote key = KeyError [k]" using Some by (simp add: v pin_verdict_def)
        then show thesis using that(1) same assms(5) by (auto simp: host_key_callback_def e v(1) isUnknownHost_def Let_def)
      qed
    qed
  qed
qed

lemma forget_refines:
  assumes "represents kh H K file pins" "fe_write fs = None" "forget kh fs hostname file = (r, file')"
  obtains "r \<noteq> None" "represents kh H K file' pins"
  | "r = None" "represents kh H K file' (filter (\<lambda>(h, k). h \<noteq> kh_Normalize kh hostname) pins)"
proof -
  have pins: "distinct (map fst pins)" "fst ` set pins \<subseteq> H" "snd ` set pins \<subseteq> K"
    and stored: "file = Some (render kh pins) \<or> file = None \<and> pins = []"
    using assms(1) by (simp_all add: represents_def)
  let ?n = "kh_Normalize kh hostname"
  have "filter (\<lambda>line. \<not> hostMatchesLine kh line ?n) (map (\<lambda>(h, k). kh_Line kh [h] k) pins)
      = map (\<lambda>(h, k). kh_Line kh [h] k) (filter (\<lambda>(h, k). h \<noteq> ?n) pins)"
    using pins(2,3) by (induction pins) (auto simp: matches_line)
  moreover have all_lines: "knownHostsLines (render kh pins) = map (\<lambda>(h, k). kh_Line kh [h] k) pins"
  proof (rule lines_render)
    fix h k assume "(h, k) \<in> set pins"
    then have "h \<in> H" "k \<in> K" using pins(2,3) by force+
    then show "CHR 0x0A \<notin> set (kh_Line kh [h] k)" using line by simp
  qed
  ultimately have kept: "concat (map (\<lambda>line. line @ [CHR 0x0A]) (filter (\<lambda>line. \<not> hostMatchesLine kh line ?n) (knownHostsLines (render kh pins))))
      = render kh (filter (\<lambda>(h, k). h \<noteq> ?n) pins)"
    unfolding all_lines by (simp add: render_def o_def case_prod_unfold)
  have rest: "represents kh H K (Some (render kh (filter (\<lambda>(h, k). h \<noteq> ?n) pins))) (filter (\<lambda>(h, k). h \<noteq> ?n) pins)"
    using pins by (auto simp: represents_def distinct_map_filter)
  show thesis
    using stored
  proof
    assume "file = Some (render kh pins)"
    moreover from this have "forget kh fs hostname file = (if fe_read fs \<noteq> None then (fe_read fs, file)
        else if fe_open fs \<noteq> None then (fe_open fs, file)
        else (None, Some (render kh (filter (\<lambda>(h, k). h \<noteq> ?n) pins))))"
      using assms(2) by (auto simp: forget_def kept write_bytes_def Let_def split: option.splits)
    ultimately have "r \<noteq> None \<and> file' = file \<or> r = None \<and> file' = Some (render kh (filter (\<lambda>(h, k). h \<noteq> ?n) pins))"
      using assms(3) by (auto split: if_splits)
    then show thesis using that rest assms(1) by blast
  next
    assume "file = None \<and> pins = []"
    with that(2) assms show thesis by (auto simp: forget_def represents_def)
  qed
qed

text \<open>Once accepted, a key stays the only one until its host is forgotten.\<close>

lemma represents_step:
  assumes "represents kh H K file pins" "event_ok kh H K e" "map_of pins n = Some k"
    and "\<And>fs h. e = Forget fs h \<Longrightarrow> kh_Normalize kh h \<noteq> n"
  shows "\<exists>pins'. represents kh H K (store_step kh path e file) pins' \<and> map_of pins' n = Some k"
proof (cases e)
  case (Connect fs h r key)
  obtain res file' where res: "host_key_callback kh path fs h r key file = (res, file')" by (cases "host_key_callback kh path fs h r key file")
  have c: "kh_Normalize kh h \<in> H" "key \<in> K" "fe_write fs = None \<or> (\<exists>e. fe_write fs = Some (0, e))"
    using assms(2) by (simp_all add: Connect)
  have new: "store_step kh path e file = file'" by (simp add: Connect res)
  show ?thesis
    unfolding new
  proof (rule callback_refines [OF assms(1) c res], goal_cases)
    case 3
    have "map_of (pins @ [(kh_Normalize kh h, key)]) n = Some k" using assms(3) 3(2) by (auto simp: map_add_def)
    with 3(3) show ?case by blast
  qed (use assms(3) in blast)+
next
  case (Forget fs h)
  obtain res file' where res: "forget kh fs h file = (res, file')" by (cases "forget kh fs h file")
  have "map_of (filter (\<lambda>(x, y). x \<noteq> kh_Normalize kh h) pins) n = Some k" if "kh_Normalize kh h \<noteq> n"
    using assms(3) that by (induction pins) auto
  then have kept: "map_of (filter (\<lambda>(x, y). x \<noteq> kh_Normalize kh h) pins) n = Some k" using assms(4) Forget by blast
  have wr: "fe_write fs = None" using assms(2) by (simp add: Forget)
  have new: "store_step kh path e file = file'" by (simp add: Forget res)
  show ?thesis
    unfolding new by (rule forget_refines [OF assms(1) wr res]) (use assms(3) kept in blast)+
qed

lemma represents_run:
  assumes "represents kh H K f pins" "list_all (event_ok kh H K) es" "map_of pins n = Some k"
    and "\<forall>fs h. Forget fs h \<in> set es \<longrightarrow> kh_Normalize kh h \<noteq> n"
  shows "\<exists>pins'. represents kh H K (fold (store_step kh path) es f) pins' \<and> map_of pins' n = Some k"
  using assms
proof (induction es arbitrary: f pins)
  case (Cons e es)
  have ok: "event_ok kh H K e" and other: "\<And>fs h. e = Forget fs h \<Longrightarrow> kh_Normalize kh h \<noteq> n"
    using Cons.prems(2,4) by auto
  obtain pins' where "represents kh H K (store_step kh path e f) pins'" "map_of pins' n = Some k"
    using represents_step [OF Cons.prems(1) ok Cons.prems(3), of path] other by blast
  moreover have "list_all (event_ok kh H K) es" "\<forall>fs h. Forget fs h \<in> set es \<longrightarrow> kh_Normalize kh h \<noteq> n"
    using Cons.prems(2,4) by auto
  ultimately show ?case using Cons.IH by simp
qed auto

lemma accepted_pinned:
  assumes "represents kh H K file pins" "event_ok kh H K (Connect fs h r k)" "host_key_callback kh path fs h r k file = (None, file')"
  shows "\<exists>pins'. represents kh H K file' pins' \<and> map_of pins' (kh_Normalize kh h) = Some k \<and>
    (\<forall>k'. map_of pins (kh_Normalize kh h) = Some k' \<longrightarrow> k' = k)"
proof -
  have c: "kh_Normalize kh h \<in> H" "k \<in> K" "fe_write fs = None \<or> (\<exists>e. fe_write fs = Some (0, e))"
    using assms(2) by simp_all
  show ?thesis
  proof (rule callback_refines [OF assms(1) c assms(3)], goal_cases)
    case 3
    have "map_of (pins @ [(kh_Normalize kh h, k)]) (kh_Normalize kh h) = Some k" using 3(2) by (simp add: map_add_def)
    with 3(2,3) show ?case by (intro exI [of _ "pins @ [(kh_Normalize kh h, k)]"]) simp
  qed auto
qed

lemma key_stays:
  assumes "represents kh H K file pins"
    and "event_ok kh H K (Connect fs h r k)" "host_key_callback kh path fs h r k file = (None, file1)"
    and "list_all (event_ok kh H K) es" "\<forall>fs g. Forget fs g \<in> set es \<longrightarrow> kh_Normalize kh g \<noteq> kh_Normalize kh h"
    and "kh_Normalize kh h' = kh_Normalize kh h" "event_ok kh H K (Connect fs' h' r' k')"
    and "host_key_callback kh path fs' h' r' k' (fold (store_step kh path) es file1) = (None, file2)"
  shows "k' = k"
proof -
  obtain pins1 where "represents kh H K file1 pins1" "map_of pins1 (kh_Normalize kh h) = Some k"
    using accepted_pinned [OF assms(1-3)] by blast
  then obtain pins2 where "represents kh H K (fold (store_step kh path) es file1) pins2" "map_of pins2 (kh_Normalize kh h') = Some k"
    using represents_run [OF _ assms(4) _ assms(5)] assms(6) by metis
  then show ?thesis using accepted_pinned [OF _ assms(7,8)] by blast
qed

end

end
