(* ===== verification/KnownHosts.thy ===== *)
theory KnownHosts
  imports HostKeys
begin

text \<open>
  The lines of OpenSSH's known_hosts, hosts between commas, a space and the key, as an
  instance of the parameter of the store that satisfies its laws.
\<close>

section \<open>Lines\<close>

definition split_space :: "string \<Rightarrow> (string \<times> string) option" where
  "split_space s = (case dropWhile (\<lambda>c. c \<noteq> CHR '' '') s of
     [] \<Rightarrow> None | _ # key \<Rightarrow> Some (takeWhile (\<lambda>c. c \<noteq> CHR '' '') s, key))"

definition parse_line :: "string \<Rightarrow> (string list \<times> public_key) option" where
  "parse_line line = map_option (\<lambda>(hosts, key). (SplitByte (CHR '','') hosts, key)) (split_space line)"

definition host_line :: "string list \<Rightarrow> public_key \<Rightarrow> string" where
  "host_line hosts key = Join hosts '','' @ '' '' @ key"

definition known_entries :: "(string list \<times> public_key) list \<Rightarrow> (string \<times> public_key) list" where
  "known_entries lines = concat (map (\<lambda>(hosts, key). map (\<lambda>h. (h, key)) hosts) lines)"

text \<open>The default port is left out.\<close>

definition normalize :: "string \<Rightarrow> string" where
  "normalize h = (if HasSuffix h '':22'' then take (length h - 3) h else h)"

definition verify_entries :: "(string \<times> public_key) list \<Rightarrow> string \<Rightarrow> public_key \<Rightarrow> verdict" where
  "verify_entries entries hostname key =
    (let known = map snd (filter (\<lambda>e. fst e = normalize hostname) entries) in
     if known \<noteq> [] \<and> key \<in> set known then Match else KeyError known)"

definition openssh :: knownhosts where
  "openssh = \<lparr>kh_New = (\<lambda>content. let ls = map parse_line (knownHostsLines content) in
       if None \<in> set ls then Inl ''malformed line''
       else Inr (\<lambda>hostname remote key. verify_entries (known_entries (map the ls)) hostname key)),
     kh_Line = host_line, kh_Normalize = normalize,
     kh_ParseKnownHosts = (\<lambda>line. map_option fst (parse_line line))\<rparr>"

lemma openssh_simps: "kh_Line openssh = host_line" "kh_Normalize openssh = normalize"
  "kh_ParseKnownHosts openssh line = map_option fst (parse_line line)"
  "kh_New openssh content = (let ls = map parse_line (knownHostsLines content) in
     if None \<in> set ls then Inl ''malformed line''
     else Inr (\<lambda>hostname remote key. verify_entries (known_entries (map the ls)) hostname key))"
  by (simp_all add: openssh_def)

definition plain_hosts :: "string set" where
  "plain_hosts = {h. h \<noteq> '''' \<and> set h \<inter> {CHR '' '', CHR '','', CHR 0x0A} = {} \<and> hd h \<notin> {CHR ''#'', CHR 0x7C}}"

definition one_line_keys :: "public_key set" where
  "one_line_keys = {k. CHR 0x0A \<notin> set k}"

lemma parse_host_line:
  assumes "h \<in> plain_hosts"
  shows "parse_line (host_line [h] k) = Some ([h], k)"
proof -
  have clean: "\<forall>c \<in> set h. c \<noteq> CHR '' ''" "CHR '','' \<notin> set h" using assms by (auto simp: plain_hosts_def)
  have "SplitByte (CHR '','') h = [h]" using clean(2) by (induction h) auto
  moreover have "split_space (h @ '' '' @ k) = Some (h, k)"
    using clean(1) by (simp add: split_space_def dropWhile_append3 takeWhile_append2 takeWhile_tail)
  ultimately show ?thesis by (simp add: parse_line_def host_line_def)
qed

lemma one_entry_each: "distinct (map fst pins) \<Longrightarrow>
    map snd (filter (\<lambda>e. fst e = n) pins) = (case map_of pins n of None \<Rightarrow> [] | Some k \<Rightarrow> [k])"
proof (induction pins)
  case (Cons e pins)
  have "filter (\<lambda>e'. fst e' = fst e) pins = []"
    using Cons.prems by (auto intro!: filter_False) (metis fst_conv image_eqI)
  with Cons show ?case by (auto split: option.splits)
qed simp

interpretation openssh: known_hosts openssh plain_hosts one_line_keys
proof (unfold_locales, goal_cases)
  case (1 pins)
  have "CHR 0x0A \<notin> set (kh_Line openssh [h] k)" if "(h, k) \<in> set pins" for h k
    using 1(2,3) that by (force simp: openssh_simps host_line_def plain_hosts_def one_line_keys_def)
  then have "knownHostsLines (render openssh pins) = map (\<lambda>(h, k). kh_Line openssh [h] k) pins" by (rule lines_render)
  moreover have "map parse_line (map (\<lambda>(h, k). kh_Line openssh [h] k) pins) = map (\<lambda>(h, k). Some ([h], k)) pins"
    using 1(2) by (induction pins) (auto simp: openssh_simps parse_host_line)
  moreover have "known_entries (map the (map (\<lambda>(h, k). Some ([h], k)) pins)) = pins"
    by (induction pins) (auto simp: known_entries_def)
  ultimately have new: "kh_New openssh (render openssh pins) = Inr (\<lambda>hostname remote key. verify_entries pins hostname key)"
    by (auto simp only: openssh_simps(4) Let_def) (auto simp: Let_def)
  show ?case
    unfolding new using one_entry_each [OF 1(1)]
    by (auto simp: verify_entries_def pin_verdict_def openssh_simps split: option.splits)
next
  case (2 h k)
  then show ?case by (cases h) (auto simp: openssh_simps host_line_def plain_hosts_def one_line_keys_def)
next
  case (3 h k)
  then show ?case by (simp add: openssh_simps parse_host_line)
qed

end
