(* ===== verification/TransportClaims.thy ===== *)
theory TransportClaims
  imports Demo Accounting Protowire KnownHosts
begin

text \<open>
  The properties of what the panel reads from its nodes: the codec of the statistics service
  and whose counter is whose, the accounting of a polling cycle, the pool of connections and
  the pinned host keys. The libraries are parameters; the instances are \<open>base128\<close> and \<open>openssh\<close>.
\<close>

section \<open>Counters\<close>

definition demo_counters :: "stats_entry list" where
  "demo_counters = [EStat [FName (stat_name ''ann'' ''uplink''), FOther 3 0 [CHR 0x05], FValue 300],
     EOther 2 0 [CHR 0x01], EStat [FValue 1000, FName (stat_name ''ann'' ''downlink'')],
     EStat [FName (stat_name ''bob'' ''uplink''), FValue 5]]"

lemma demo_counters_ok: "list_all (entry_ok base128) demo_counters"
proof -
  have skip: "skippable base128 k 0 [c]" if "0 < k" "k < 2 ^ 29" "of_char c < (128 :: nat)" for k c
    using that by (simp add: skippable_def field_key_def base128_def consume_value_def consume_uvarint_def)
  have short: "fits s" if "length s < 1000" for s using that by (simp add: fits_def)
  have num: "uvarint n = (if n < 128 then [char_of n] else [char_of (n mod 128 + 128), char_of (n div 128)])" if "n < 2 ^ 14" for n
    using that by (subst uvarint.simps, subst uvarint.simps) auto
  show ?thesis
    by (simp add: demo_counters_def skip) 
      (simp add: short encode_stat_def encode_other_def stat_name_def base128_def prefixed_def num)
qed

text \<open>
  C35. What a node sends is what the panel reads: for every sequence of counters and of
  fields and entries of other kinds, in any order and number, decoding gives the counters
  in order, each with its last name and its last value.
\<close>

theorem stats_roundtrip:
  assumes "wire_format pw" "list_all (entry_ok pw) es"
  shows "Unmarshal pw (concat (map (encode_entry pw) es)) = Some (Inr (stats_of es))"
  using wire_format.unmarshal_entries [OF assms, of "[]"] by (simp add: Unmarshal_def)

theorem stats_roundtrip_witness:
  "Unmarshal base128 (concat (map (encode_entry base128) demo_counters)) = Some (Inr
     [\<lparr>st_name = ''user>>>ann>>>traffic>>>uplink'', st_value = 300\<rparr>,
      \<lparr>st_name = ''user>>>ann>>>traffic>>>downlink'', st_value = 1000\<rparr>,
      \<lparr>st_name = ''user>>>bob>>>traffic>>>uplink'', st_value = 5\<rparr>])"
  using stats_roundtrip [OF base128.wire_format_axioms demo_counters_ok]
  by (simp add: demo_counters_def stats_of_def stat_of_def stat_name_def List.map_filter_def)

text \<open>
  C36. Decoding ends, with an error or with counters, whatever bytes arrive, and so does a
  query whatever the transport brings: no input makes it loop or slice behind its end.
\<close>

theorem stats_terminate:
  assumes "wire_format pw"
  shows "(\<exists>r. Unmarshal pw data = Some r) \<and> (\<exists>r. queryUserStats pw invoke reset = Some r)"
proof -
  have "\<exists>r. Unmarshal pw data = Some r" for data
    unfolding Unmarshal_def by (rule wire_format.unmarshal_returns [OF assms])
  then show ?thesis by (auto simp: queryUserStats_def split: sum.splits) (metis bind.bind_lunit)
qed

theorem stats_terminate_witness:
  "\<exists>r. Unmarshal base128 [CHR 0x0A, CHR 0x7F, CHR 0xFF] = Some r"
  using stats_terminate [OF base128.wire_format_axioms] by simp

text \<open>
  C37. A counter is attributed to the user it was named after, except for a name that
  contains the separator or ends in a part of it: such a counter is dropped, never
  attributed to another user.
\<close>

theorem stat_name_attributed:
  assumes "kind \<in> {''uplink'', ''downlink''}"
  shows "parseUserStatName (stat_name user kind) = (if splits_name user then None else Some (user, kind))"
proof -
  have "\<not> Contains kind ''>>>''" using assms by (auto simp: HasPrefix_def)
  then show ?thesis using lost counted by simp
qed

theorem stat_name_attributed_witness:
  "parseUserStatName ''user>>>a>b>>>traffic>>>uplink'' = Some (''a>b'', ''uplink'') \<and>
   parseUserStatName ''user>>>bob>>>>traffic>>>uplink'' = None"
proof -
  have "\<not> splits_name ''a>b''" "splits_name ''bob>''" by code_simp+
  then show ?thesis
    using stat_name_attributed [of "''uplink''" "''a>b''"] stat_name_attributed [of "''uplink''" "''bob>''"]
    by (simp add: stat_name_def)
qed

text \<open>
  C38. A polling cycle over nodes that answer adds to every user exactly what the enabled
  sing-box nodes counted under the user's name, as signed 64-bit numbers, and appends one
  sample for every node and known user with a non-zero count; nothing else in the database
  changes, and every polled node is healthy.
\<close>

theorem poll_cycle_accounts:
  assumes "db_ok (w_db w)" "wire_format pw" "no_faults w" "dials w"
    and "\<forall>n \<in> set (polled_nodes (w_db w)). answers pw (env (n_id n)) (sent (n_id n))"
    and "run_state (pollAll pw env po) w = (po', w')"
  shows "d_users (w_db w') = map (fold (credits sent (FormatDateTime (w_now w))) (polled_nodes (w_db w))) (d_users (w_db w)) \<and>
    d_logs (w_db w') = d_logs (w_db w) @ concat (map (\<lambda>n. samples (n_id n) (name_to_user (d_users (w_db w)))
      (FormatDateTime (w_now w)) (user_stats (stats_of (sent (n_id n))))) (polled_nodes (w_db w))) \<and>
    (\<exists>us ls. w_db w' = (w_db w)\<lparr>d_users := us, d_logs := ls\<rparr>) \<and>
    (\<forall>n \<in> set (polled_nodes (w_db w)). po_health po' (n_id n) = Some True)"
proof -
  have "names_users (name_to_user (d_users (w_db w))) (d_users (w_db w))"
    by (rule name_to_user_names) (use assms(1) in \<open>simp_all add: db_ok_def users_ok_def table_ok_def\<close>)
  from accounted_all [OF this] accounted_frame wp_run [OF wp_pollAll [OF assms(2-5)] assms(6)]
  show ?thesis by simp
qed

definition demo_poll :: poll_env where
  "demo_poll = \<lparr>pe_alive = (\<lambda>_. True), pe_invoke = (\<lambda>_ _ _ _. Inr (concat (map (encode_entry base128) demo_counters))),
     pe_timeout = None\<rparr>"

theorem poll_cycle_accounts_witness:
  "d_users (w_db (snd (run_state (pollAll base128 (\<lambda>_. demo_poll) poller_Start) good_world))) =
     [demo_user\<lparr>u_up := 310, u_down := 1020, u_used := 1330, u_updated := FormatDateTime demo_now\<rparr>]"
proof -
  have nodes: "polled_nodes demo_db = [demo_node]"
    by (simp add: polled_nodes_def demo_db_def) (simp add: demo_node_def)
  have start: "db_ok (w_db good_world)" "no_faults good_world" "dials good_world" "w_now good_world = demo_now" "w_db good_world = demo_db"
    using demo_ok by (simp_all add: good_world_def world_with_def no_faults_def dials_def demo_env_def works_def)
  have answer: "answers base128 demo_poll demo_counters"
    using demo_counters_ok by (simp add: answers_def demo_poll_def)
  obtain po' w' where run: "run_state (pollAll base128 (\<lambda>_. demo_poll) poller_Start) good_world = (po', w')" by (cases "run_state (pollAll base128 (\<lambda>_. demo_poll) poller_Start) good_world")
  have stats: "counter_sum (stats_of demo_counters) ''ann'' ''uplink'' = 300" "counter_sum (stats_of demo_counters) ''ann'' ''downlink'' = 1000"
    by code_simp+
  have "d_users (w_db w') = map (fold (credits (\<lambda>_. demo_counters) (FormatDateTime demo_now)) [demo_node]) [demo_user]"
    using poll_cycle_accounts [OF start(1) base128.wire_format_axioms start(2,3) _ run, of "\<lambda>_. demo_counters"] answer
    by (simp add: start(4,5) nodes)
  moreover have "u_name demo_user = ''ann''" by (simp add: demo_user_def)
  ultimately show ?thesis
    by (simp add: run credits_def stats credit_def moved_def add_user_traffic_def wrap64_def demo_user_def)
qed

section \<open>Connections\<close>

text \<open>
  C39. However calls for connections, drops and closings of the pool interleave: a pooled
  connection is open, was dialled for the target its entry names and belongs to one entry
  only; a call returns a connection to the target of its node; and no dialled connection is
  lost, it is pooled, about to be pooled or closed, as long as a node's target is not edited
  while it is in use.
\<close>

theorem pool_connections:
  assumes "pool_reachable called s"
  shows "(\<forall>i c target. pl_entry (sy_pool s) i = Some (c, target) \<longrightarrow> cl_target c = target \<and> cl_id c \<notin> set (pl_closed (sy_pool s))) \<and>
    (\<forall>i j c d t u. pl_entry (sy_pool s) i = Some (c, t) \<and> pl_entry (sy_pool s) j = Some (d, u) \<and> cl_id c = cl_id d \<longrightarrow> i = j) \<and>
    (\<forall>k n c. sy_threads s k = Some (Returned n (Inr c)) \<longrightarrow> cl_target c = sshTarget n) \<and>
    (unedited called \<longrightarrow> (\<forall>x < pl_next (sy_pool s). x \<in> set (pl_closed (sy_pool s)) \<or>
       (\<exists>i c t. pl_entry (sy_pool s) i = Some (c, t) \<and> cl_id c = x) \<or>
       (\<exists>k n c. sy_threads s k = Some (Storing n c) \<and> cl_id c = x)))"
proof (intro conjI)
  have inv: "pool_inv s" by (rule pool_reachable_inv [OF assms])
  then have ok: "pool_ok (sy_pool s)" and books: "books (held s) (pl_closed (sy_pool s)) (pl_next (sy_pool s))"
    by (simp_all add: pool_inv_def)
  have entry: "held s (Inl i) = Some c" if "pl_entry (sy_pool s) i = Some (c, t)" for i c t
    using that by (simp add: held_def)
  show "\<forall>i c target. pl_entry (sy_pool s) i = Some (c, target) \<longrightarrow> cl_target c = target \<and> cl_id c \<notin> set (pl_closed (sy_pool s))"
    using ok books entry unfolding pool_ok_def books_def by blast
  show "\<forall>i j c d t u. pl_entry (sy_pool s) i = Some (c, t) \<and> pl_entry (sy_pool s) j = Some (d, u) \<and> cl_id c = cl_id d \<longrightarrow> i = j"
    using books entry unfolding books_def by (metis sum.inject(1))
  show "\<forall>k n c. sy_threads s k = Some (Returned n (Inr c)) \<longrightarrow> cl_target c = sshTarget n"
    using inv unfolding pool_inv_def by (metis thread_ok.simps(3))
  show "unedited called \<longrightarrow> (\<forall>x < pl_next (sy_pool s). x \<in> set (pl_closed (sy_pool s)) \<or>
       (\<exists>i c t. pl_entry (sy_pool s) i = Some (c, t) \<and> cl_id c = x) \<or>
       (\<exists>k n c. sy_threads s k = Some (Storing n c) \<and> cl_id c = x))"
  proof (intro impI allI)
    fix x assume "unedited called" "x < pl_next (sy_pool s)"
    then have "x \<in> set (pl_closed (sy_pool s)) \<or> (\<exists>a c. held s a = Some c \<and> cl_id c = x)"
      using pool_reachable_accounted [OF assms] by (simp add: accounted_def balanced_def)
    moreover have "(\<exists>t. pl_entry (sy_pool s) i = Some (c, t))" if "held s (Inl i) = Some c" for i c
      using that by (auto simp: held_def)
    moreover have "\<exists>n. sy_threads s k = Some (Storing n c)" if "held s (Inr k) = Some c" for k c
      using that by (auto simp: held_def split: option.splits thread.splits)
    ultimately show "x \<in> set (pl_closed (sy_pool s)) \<or> (\<exists>i c t. pl_entry (sy_pool s) i = Some (c, t) \<and> cl_id c = x) \<or>
       (\<exists>k n c. sy_threads s k = Some (Storing n c) \<and> cl_id c = x)"
      by (metis sum.exhaust)
  qed
qed

theorem pool_connections_witness:
  "\<exists>s c. pool_reachable (\<lambda>n. n = demo_node) s \<and> sy_threads s 0 = Some (Returned demo_node (Inr c)) \<and> cl_target c = ''root@h1:22''"
proof -
  obtain c q where got: "pool_get (\<lambda>_. True) (Inr True) demo_node (sy_pool pool_start) = (Inr c, q)"
    using pool_get_dialled by blast
  let ?s = "goto 0 (Returned demo_node (Inr c)) q pool_start"
  have "(pool_step (\<lambda>n. n = demo_node))\<^sup>*\<^sup>* pool_start ?s"
    by (rule pool_get_run [OF _ _ got]) (simp_all add: pool_start_def)
  then have reach: "pool_reachable (\<lambda>n. n = demo_node) ?s"
    by (induction rule: rtranclp_induct) (auto intro: pool_reachable.intros)
  have "cl_target c = sshTarget demo_node" using pool_connections [OF reach] thread_goto by blast
  moreover have "sshTarget demo_node = ''root@h1:22''" by code_simp
  ultimately show ?thesis using reach by (intro exI [of _ ?s] exI [of _ c]) simp
qed

section \<open>Host keys\<close>


definition good_fs :: fs_env where
  "good_fs = \<lparr>fe_stat = None, fe_mkdir = None, fe_create = None, fe_open = None, fe_write = None, fe_read = None\<rparr>"




text \<open>
  Forgetting a host rewrites the file in place: when the write fails, every other host is
  unpinned too, and whoever answers next under its name is trusted.
\<close>

lemma torn_forget_unpins:
  assumes "known_hosts kh H K" "kh_Normalize kh h \<in> H" "k \<in> K"
  shows "forget kh (good_fs\<lparr>fe_write := Some (0, e)\<rparr>) g (Some data) = (Some e, Some '''')"
    "fst (host_key_callback kh path good_fs h r k (Some '''')) = None"
proof -
  show "forget kh (good_fs\<lparr>fe_write := Some (0, e)\<rparr>) g (Some data) = (Some e, Some '''')"
    by (simp add: forget_def good_fs_def write_bytes_def Let_def)
  obtain v where "kh_New kh '''' = Inr v" "v h r k = KeyError []"
    using known_hosts.reads [OF assms(1), of "[]"] assms(2) by (auto simp: render_def pin_verdict_def)
  then show "fst (host_key_callback kh path good_fs h r k (Some '''')) = None"
    by (simp add: host_key_callback_def ensureFile_def good_fs_def isUnknownHost_def pin_def write_bytes_def Let_def)
qed

end
