(* ===== verification/Schema.thy ===== *)
theory Schema
  imports Database
begin

text \<open>
  \<open>db/db.go\<close>: opening the database file and bringing an older one up to date. A file is its
  tables, each with the columns it was created with or was given later and its rows, and its
  indexes; names are compared as they are written, in lower case. An operation gets the
  failures of the file system as an argument.
\<close>

section \<open>The file\<close>

datatype cell = CInt int | CText string | CNull

datatype default_value = NoDefault | Default cell | DefaultNow

record column =
  co_name :: string
  co_integer :: bool
  co_not_null :: bool
  co_unique :: bool
  co_primary :: bool
  co_default :: default_value

text \<open>A foreign key: the column, the table it refers to, and whether a deletion cascades.\<close>

type_synonym foreign_key = "string \<times> string \<times> bool"

record table_def =
  tb_name :: string
  tb_columns :: "column list"
  tb_unique :: "string list list"
  tb_foreign :: "foreign_key list"

type_synonym row = "string \<rightharpoonup> cell"

record db_file =
  df_tables :: "(table_def \<times> row list) list"
  df_indexes :: "(string \<times> string \<times> string list) list"

datatype ddl = CreateTable table_def | CreateIndex string string "string list" | AddColumn string column

section \<open>Statements\<close>

definition column_names :: "table_def \<Rightarrow> string list" where
  "column_names t = map co_name (tb_columns t)"

definition table_named :: "string \<Rightarrow> db_file \<Rightarrow> (table_def \<times> row list) option" where
  "table_named name f = List.find (\<lambda>t. tb_name (fst t) = name) (df_tables f)"

text \<open>What SQLite fills an added column with; it refuses one it cannot fill.\<close>

definition filler :: "column \<Rightarrow> cell option" where
  "filler c =
    (if co_primary c \<or> co_unique c then None
     else case co_default c of
       DefaultNow \<Rightarrow> None
     | NoDefault \<Rightarrow> if co_not_null c then None else Some CNull
     | Default v \<Rightarrow> if co_not_null c \<and> v = CNull then None else Some v)"

definition add_column :: "column \<Rightarrow> cell \<Rightarrow> table_def \<times> row list \<Rightarrow> table_def \<times> row list" where
  "add_column c v t = ((fst t)\<lparr>tb_columns := tb_columns (fst t) @ [c]\<rparr>, map (\<lambda>r. r(co_name c \<mapsto> v)) (snd t))"

definition exec_ddl :: "ddl \<Rightarrow> db_file \<Rightarrow> string + db_file" where
  "exec_ddl s f = (case s of
     CreateTable t \<Rightarrow>
       (case table_named (tb_name t) f of
          Some _ \<Rightarrow> Inr f
        | None \<Rightarrow> Inr (f\<lparr>df_tables := df_tables f @ [(t, [])]\<rparr>))
   | CreateIndex name table columns \<Rightarrow>
       (if name \<in> fst ` set (df_indexes f) then Inr f
        else case table_named table f of
          None \<Rightarrow> Inl (''no such table: '' @ table)
        | Some t \<Rightarrow>
            if \<not> set columns \<subseteq> set (column_names (fst t)) then Inl (''no such column in '' @ table)
            else Inr (f\<lparr>df_indexes := df_indexes f @ [(name, table, columns)]\<rparr>))
   | AddColumn table c \<Rightarrow>
       (case table_named table f of
          None \<Rightarrow> Inl (''no such table: '' @ table)
        | Some t \<Rightarrow>
            if co_name c \<in> set (column_names (fst t)) then Inl (''duplicate column name: '' @ co_name c)
            else case filler c of
              None \<Rightarrow> Inl (''cannot add column: '' @ co_name c)
            | Some v \<Rightarrow> Inr (f\<lparr>df_tables := map (\<lambda>t. if tb_name (fst t) = table then add_column c v t else t)
                (df_tables f)\<rparr>)))"

text \<open>A statement may also fail for the file system, decided by its number.\<close>

definition try_ddl :: "(nat \<Rightarrow> bool) \<Rightarrow> nat \<Rightarrow> ddl \<Rightarrow> db_file \<Rightarrow> string + db_file" where
  "try_ddl fault i s f = (if fault i then Inl ''disk I/O error'' else exec_ddl s f)"

text \<open>One \<open>Exec\<close> of several statements stops at the first error; what came before stays.\<close>

fun exec_script :: "(nat \<Rightarrow> bool) \<Rightarrow> nat \<Rightarrow> ddl list \<Rightarrow> db_file \<Rightarrow> string option \<times> db_file" where
  "exec_script fault i [] f = (None, f)"
| "exec_script fault i (s # ss) f = (case try_ddl fault i s f of
     Inl e \<Rightarrow> (Some e, f)
   | Inr g \<Rightarrow> exec_script fault (Suc i) ss g)"

text \<open>Statements whose errors are dropped.\<close>

fun exec_each :: "(nat \<Rightarrow> bool) \<Rightarrow> nat \<Rightarrow> ddl list \<Rightarrow> db_file \<Rightarrow> db_file" where
  "exec_each fault i [] f = f"
| "exec_each fault i (s # ss) f = exec_each fault (Suc i) ss (case try_ddl fault i s f of Inl e \<Rightarrow> f | Inr g \<Rightarrow> g)"

section \<open>The schema\<close>

definition key_column :: "string \<Rightarrow> column" where
  "key_column name = \<lparr>co_name = name, co_integer = True, co_not_null = False, co_unique = False, co_primary = True,
     co_default = NoDefault\<rparr>"

definition integer_column :: "string \<Rightarrow> default_value \<Rightarrow> column" where
  "integer_column name d = \<lparr>co_name = name, co_integer = True, co_not_null = True, co_unique = False, co_primary = False,
     co_default = d\<rparr>"

definition text_column :: "string \<Rightarrow> default_value \<Rightarrow> column" where
  "text_column name d = \<lparr>co_name = name, co_integer = False, co_not_null = True, co_unique = False, co_primary = False,
     co_default = d\<rparr>"

definition time_column :: "string \<Rightarrow> default_value \<Rightarrow> column" where
  "time_column name d = (text_column name d)\<lparr>co_not_null := False\<rparr>"

definition users_table :: table_def where
  "users_table = \<lparr>tb_name = ''users'', tb_columns =
     [key_column ''id'', (text_column ''name'' NoDefault)\<lparr>co_unique := True\<rparr>, (text_column ''uuid'' NoDefault)\<lparr>co_unique := True\<rparr>,
      (text_column ''sub_token'' NoDefault)\<lparr>co_unique := True\<rparr>, integer_column ''enabled'' (Default (CInt 1)),
      integer_column ''traffic_limit_bytes'' (Default (CInt 0)), integer_column ''traffic_used_bytes'' (Default (CInt 0)),
      time_column ''expire_at'' (Default (CText '''')), time_column ''created_at'' DefaultNow, time_column ''updated_at'' DefaultNow],
     tb_unique = [], tb_foreign = []\<rparr>"

definition nodes_table :: table_def where
  "nodes_table = \<lparr>tb_name = ''nodes'', tb_columns =
     [key_column ''id'', (text_column ''name'' NoDefault)\<lparr>co_unique := True\<rparr>, text_column ''host'' NoDefault,
      integer_column ''port'' (Default (CInt 22)), text_column ''domain'' (Default (CText '''')),
      text_column ''ssh_user'' (Default (CText ''root'')), text_column ''proxy_type'' (Default (CText ''singbox'')),
      text_column ''config_path'' (Default (CText ''/etc/sing-box/config.json'')),
      text_column ''singbox_bin'' (Default (CText ''/usr/local/bin/sing-box'')),
      text_column ''agent_token'' (Default (CText '''')), integer_column ''enabled'' (Default (CInt 1)),
      time_column ''created_at'' DefaultNow],
     tb_unique = [], tb_foreign = []\<rparr>"

definition inbounds_table :: table_def where
  "inbounds_table = \<lparr>tb_name = ''node_inbounds'', tb_columns =
     [key_column ''id'', integer_column ''node_id'' NoDefault, text_column ''tag'' (Default (CText '''')),
      text_column ''protocol'' NoDefault, integer_column ''port'' NoDefault, text_column ''settings'' (Default (CText ''{}'')),
      integer_column ''enabled'' (Default (CInt 1))],
     tb_unique = [], tb_foreign = [(''node_id'', ''nodes'', True)]\<rparr>"

definition logs_table :: table_def where
  "logs_table = \<lparr>tb_name = ''traffic_logs'', tb_columns =
     [key_column ''id'', integer_column ''user_id'' NoDefault, integer_column ''node_id'' NoDefault, integer_column ''bytes_up'' (Default (CInt 0)),
      integer_column ''bytes_down'' (Default (CInt 0)), time_column ''recorded_at'' DefaultNow],
     tb_unique = [], tb_foreign = [(''user_id'', ''users'', False), (''node_id'', ''nodes'', False)]\<rparr>"

definition access_table :: table_def where
  "access_table = \<lparr>tb_name = ''user_access'', tb_columns =
     [key_column ''id'', integer_column ''user_id'' NoDefault, integer_column ''node_id'' NoDefault],
     tb_unique = [[''user_id'', ''node_id'']],
     tb_foreign = [(''user_id'', ''users'', True), (''node_id'', ''nodes'', True)]\<rparr>"

definition schema :: "ddl list" where
  "schema = [CreateTable users_table, CreateTable nodes_table, CreateTable inbounds_table, CreateTable logs_table,
     CreateIndex ''idx_traffic_user'' ''traffic_logs'' [''user_id'', ''recorded_at''],
     CreateIndex ''idx_traffic_node'' ''traffic_logs'' [''node_id'', ''recorded_at''],
     CreateIndex ''idx_traffic_recorded'' ''traffic_logs'' [''recorded_at''], CreateTable access_table]"

definition additions :: "ddl list" where
  "additions = [AddColumn ''nodes'' (text_column ''domain'' (Default (CText ''''))),
     AddColumn ''users'' (text_column ''password'' (Default (CText ''''))),
     AddColumn ''nodes'' (text_column ''ssh_password'' (Default (CText ''''))),
     AddColumn ''users'' (integer_column ''traffic_reset_day'' (Default (CInt 0))),
     AddColumn ''users'' (text_column ''traffic_last_reset'' (Default (CText ''''))),
     AddColumn ''nodes'' (integer_column ''sort_order'' (Default (CInt 0))),
     AddColumn ''node_inbounds'' (integer_column ''sort_order'' (Default (CInt 0))),
     AddColumn ''users'' (integer_column ''traffic_up_bytes'' (Default (CInt 0))),
     AddColumn ''users'' (integer_column ''traffic_down_bytes'' (Default (CInt 0))),
     AddColumn ''users'' (text_column ''note'' (Default (CText '''')))]"

definition migrate :: "(nat \<Rightarrow> bool) \<Rightarrow> db_file \<Rightarrow> string option \<times> db_file" where
  "migrate fault f = (case exec_script fault 0 schema f of
     (Some e, f) \<Rightarrow> (Some e, f)
   | (None, f) \<Rightarrow> (None, exec_each fault (length schema) additions f))"

text \<open>What the operating system answers: \<open>MkdirAll\<close>, \<open>sql.Open\<close>, then the statements.\<close>

record open_env =
  oe_mkdir :: "string option"
  oe_open :: "string option"
  oe_fault :: "nat \<Rightarrow> bool"

definition db_Open :: "open_env \<Rightarrow> db_file \<Rightarrow> (string + unit) \<times> db_file" where
  "db_Open env f = (case oe_mkdir env of
     Some e \<Rightarrow> (Inl e, f)
   | None \<Rightarrow> (case oe_open env of
       Some e \<Rightarrow> (Inl e, f)
     | None \<Rightarrow> (case migrate (oe_fault env) f of
         (Some e, f) \<Rightarrow> (Inl e, f)
       | (None, f) \<Rightarrow> (Inr (), f))))"

section \<open>No data is lost\<close>

text \<open>A table that has grown: more columns at the end, and every row as it was on the old ones.\<close>

definition grown :: "table_def \<times> row list \<Rightarrow> table_def \<times> row list \<Rightarrow> bool" where
  "grown t t' \<longleftrightarrow> tb_name (fst t') = tb_name (fst t) \<and> (\<exists>cs. tb_columns (fst t') = tb_columns (fst t) @ cs) \<and>
     list_all2 (\<subseteq>\<^sub>m) (snd t) (snd t')"

definition extends :: "db_file \<Rightarrow> db_file \<Rightarrow> bool" where
  "extends f g \<longleftrightarrow> (\<exists>gs new. df_tables g = gs @ new \<and> list_all2 grown (df_tables f) gs)"

text \<open>A row has cells of its table's columns only, and no two tables share a name.\<close>

definition file_ok :: "db_file \<Rightarrow> bool" where
  "file_ok f \<longleftrightarrow> (\<forall>t \<in> set (df_tables f). \<forall>r \<in> set (snd t). dom r \<subseteq> set (column_names (fst t))) \<and>
     distinct (map (\<lambda>t. tb_name (fst t)) (df_tables f))"

lemma grown_refl [simp]: "grown t t"
  by (simp add: grown_def list_all2_same)

lemma grown_trans: "grown t u \<Longrightarrow> grown u v \<Longrightarrow> grown t v"
  unfolding grown_def by (auto intro: list_all2_trans [of "(\<subseteq>\<^sub>m)" "(\<subseteq>\<^sub>m)" "(\<subseteq>\<^sub>m)", OF map_le_trans])

lemma extends_same: "df_tables g = df_tables f \<Longrightarrow> extends f g"
  unfolding extends_def by (rule exI [of _ "df_tables f"]) (simp add: list_all2_same)

lemma extends_refl [simp]: "extends f f"
  by (rule extends_same) simp

lemma extends_trans:
  assumes "extends f g" "extends g h"
  shows "extends f h"
proof -
  obtain gs new where g: "df_tables g = gs @ new" "list_all2 grown (df_tables f) gs"
    using assms(1) by (auto simp: extends_def)
  obtain hs new' where h: "df_tables h = hs @ new'" "list_all2 grown (gs @ new) hs"
    using assms(2) g(1) by (auto simp: extends_def)
  obtain hs1 hs2 where hs: "hs = hs1 @ hs2" "list_all2 grown gs hs1"
    using h(2) by (auto simp: list_all2_append1)
  have "list_all2 grown (df_tables f) hs1" by (rule list_all2_trans [OF grown_trans g(2) hs(2)])
  then show ?thesis using h(1) hs(1) by (auto simp: extends_def)
qed

lemma table_named_SomeD: "table_named n f = Some t \<Longrightarrow> t \<in> set (df_tables f) \<and> tb_name (fst t) = n"
  by (auto simp: table_named_def find_Some_iff)

lemma table_named_None: "table_named n f = None \<longleftrightarrow> n \<notin> (\<lambda>t. tb_name (fst t)) ` set (df_tables f)"
  by (auto simp: table_named_def find_None_iff image_iff)

lemma table_named_unique: "file_ok f \<Longrightarrow> t \<in> set (df_tables f) \<Longrightarrow> tb_name (fst t) = n \<Longrightarrow> table_named n f = Some t"
proof (cases "table_named n f")
  case None
  assume "t \<in> set (df_tables f)" "tb_name (fst t) = n"
  with None show ?thesis unfolding table_named_None by blast
next
  case (Some u)
  assume "file_ok f" "t \<in> set (df_tables f)" "tb_name (fst t) = n"
  with table_named_SomeD [OF Some] have "u = t"
    by (auto simp: file_ok_def distinct_map dest: inj_onD)
  then show ?thesis using Some by simp
qed

lemma add_column_grown:
  assumes "\<forall>r \<in> set (snd t). dom r \<subseteq> set (column_names (fst t))" "co_name c \<notin> set (column_names (fst t))"
  shows "grown t (add_column c v t)"
proof -
  have "r \<subseteq>\<^sub>m r(co_name c \<mapsto> v)" if "r \<in> set (snd t)" for r
    using assms that by (auto simp: map_le_def)
  then have "list_all2 (\<subseteq>\<^sub>m) (snd t) (map (\<lambda>r. r(co_name c \<mapsto> v)) (snd t))"
    by (simp add: list_all2_map2 list_all2_same)
  then show ?thesis by (simp add: grown_def add_column_def)
qed

lemma exec_ddl_keeps:
  assumes ok: "file_ok f" and run: "exec_ddl s f = Inr g"
  shows "extends f g \<and> file_ok g"
proof (cases s)
  case (CreateTable t)
  show ?thesis
  proof (cases "table_named (tb_name t) f")
    case None
    then have "tb_name t \<notin> (\<lambda>t. tb_name (fst t)) ` set (df_tables f)" and g: "df_tables g = df_tables f @ [(t, [])]"
      using run CreateTable by (simp_all add: None exec_ddl_def flip: table_named_None) auto
    then have "file_ok g" using ok by (simp add: file_ok_def)
    moreover have "list_all2 grown (df_tables f) (df_tables f)" by (simp add: list_all2_same)
    ultimately show ?thesis using g by (auto simp: extends_def)
  next
    case (Some u)
    then show ?thesis using ok run CreateTable by (simp add: exec_ddl_def)
  qed
next
  case (CreateIndex name table columns)
  then have "df_tables g = df_tables f" using run by (auto simp: exec_ddl_def split: if_splits option.splits)
  then show ?thesis using ok by (simp add: file_ok_def extends_same)
next
  case (AddColumn table c)
  then obtain t v where found: "table_named table f = Some t" and fresh: "co_name c \<notin> set (column_names (fst t))"
    and g: "g = f\<lparr>df_tables := map (\<lambda>t. if tb_name (fst t) = table then add_column c v t else t) (df_tables f)\<rparr>"
    using run by (auto simp: exec_ddl_def split: if_splits option.splits)
  have only: "u = t" if "u \<in> set (df_tables f)" "tb_name (fst u) = table" for u
    using table_named_unique [OF ok that] found by simp
  have "grown u (if tb_name (fst u) = table then add_column c v u else u)" if u: "u \<in> set (df_tables f)" for u
  proof (cases "tb_name (fst u) = table")
    case True
    have "\<forall>r \<in> set (snd u). dom r \<subseteq> set (column_names (fst u))" using ok u by (simp add: file_ok_def)
    then show ?thesis using True fresh only [OF u True] by (simp add: add_column_grown)
  qed simp
  then have "list_all2 grown (df_tables f) (df_tables g)" by (simp add: g list_all2_map2 list_all2_same)
  then have "extends f g" by (auto simp: extends_def)
  moreover have "map (\<lambda>u. tb_name (fst u)) (df_tables g) = map (\<lambda>u. tb_name (fst u)) (df_tables f)"
    by (simp add: g add_column_def)
  moreover have "dom r \<subseteq> set (column_names (fst u))" if u: "u \<in> set (df_tables g)" "r \<in> set (snd u)" for u r
  proof -
    have old: "dom r \<subseteq> set (column_names (fst u))" if "u \<in> set (df_tables f)" "r \<in> set (snd u)" for u r
      using ok that by (simp add: file_ok_def)
    have "u \<in> (\<lambda>t. if tb_name (fst t) = table then add_column c v t else t) ` set (df_tables f)"
      using u(1) by (simp add: g)
    then obtain u0 where "u0 \<in> set (df_tables f)" "u = (if tb_name (fst u0) = table then add_column c v u0 else u0)"
      by (rule imageE)
    then show ?thesis
      using u(2) old [of u0] by (fastforce simp: add_column_def column_names_def split: if_splits)
  qed
  ultimately show ?thesis using ok by (simp add: file_ok_def)
qed

text \<open>What every statement keeps that runs through, a script keeps wherever it stops.\<close>

lemma exec_script_inv:
  assumes "P f" "\<And>s f g. s \<in> set ss \<Longrightarrow> P f \<Longrightarrow> exec_ddl s f = Inr g \<Longrightarrow> P g"
  shows "P (snd (exec_script fault i ss f))"
  using assms
proof (induction ss arbitrary: f i)
  case (Cons s ss)
  show ?case
  proof (cases "try_ddl fault i s f")
    case (Inr g)
    then have "exec_ddl s f = Inr g" by (simp add: try_ddl_def split: if_splits)
    then have "P g" using Cons.prems by auto
    then have "P (snd (exec_script fault (Suc i) ss g))" by (rule Cons.IH) (use Cons.prems(2) in auto)
    then show ?thesis using Inr by simp
  qed (simp add: Cons.prems)
qed simp

lemma exec_each_inv:
  assumes "P f" "\<And>s f g. s \<in> set ss \<Longrightarrow> P f \<Longrightarrow> exec_ddl s f = Inr g \<Longrightarrow> P g"
  shows "P (exec_each fault i ss f)"
  using assms
proof (induction ss arbitrary: f i)
  case (Cons s ss)
  have "P (case try_ddl fault i s f of Inl e \<Rightarrow> f | Inr g \<Rightarrow> g)"
    using Cons.prems by (auto simp: try_ddl_def split: sum.splits if_splits)
  then show ?case unfolding exec_each.simps by (rule Cons.IH) (use Cons.prems(2) in auto)
qed simp

lemma exec_script_keeps: "file_ok f \<Longrightarrow> extends f (snd (exec_script fault i ss f)) \<and> file_ok (snd (exec_script fault i ss f))"
  by (rule exec_script_inv) (auto dest: exec_ddl_keeps intro: extends_trans)

lemma exec_each_keeps: "file_ok f \<Longrightarrow> extends f (exec_each fault i ss f) \<and> file_ok (exec_each fault i ss f)"
  by (rule exec_each_inv) (auto dest: exec_ddl_keeps intro: extends_trans)

text \<open>Whatever fails on the way, the tables that were there keep their columns and their rows.\<close>

lemma migrate_keeps:
  assumes "file_ok f"
  shows "extends f (snd (migrate fault f)) \<and> file_ok (snd (migrate fault f))"
proof -
  obtain e g where run: "exec_script fault 0 schema f = (e, g)" by fastforce
  then have g: "extends f g" "file_ok g" using exec_script_keeps [OF assms, of fault 0 schema] by simp_all
  show ?thesis
    using exec_each_keeps [OF g(2), of fault "length schema" additions] g
    by (cases e) (auto simp: migrate_def run intro: extends_trans)
qed

section \<open>An older file is completed\<close>

text \<open>Every table of the name has the column; some table of the name is there.\<close>

definition has_column :: "string \<Rightarrow> string \<Rightarrow> db_file \<Rightarrow> bool" where
  "has_column n c f \<longleftrightarrow> (\<forall>t \<in> set (df_tables f). tb_name (fst t) = n \<longrightarrow> c \<in> set (column_names (fst t)))"

definition has_table :: "string \<Rightarrow> db_file \<Rightarrow> bool" where
  "has_table n f \<longleftrightarrow> n \<in> (\<lambda>t. tb_name (fst t)) ` set (df_tables f)"

lemma has_table_named: "has_table n f \<longleftrightarrow> (\<exists>t. table_named n f = Some t)"
  using table_named_None [of n f] by (cases "table_named n f") (simp_all add: has_table_def)

text \<open>The columns a table is created with and does not only get later.\<close>

definition added_columns :: "(string \<times> string) list" where
  "added_columns = map (\<lambda>s. case s of AddColumn n c \<Rightarrow> (n, co_name c) | _ \<Rightarrow> ('''', '''')) additions"

definition base_columns :: "(string \<times> string) list" where
  "base_columns = filter (\<lambda>p. p \<notin> set added_columns)
     (concat (map (\<lambda>t. map (Pair (tb_name t)) (column_names t))
       [users_table, nodes_table, inbounds_table, logs_table, access_table]))"

text \<open>A file of any earlier version: the tables it has were created with at least the base columns.\<close>

definition older :: "db_file \<Rightarrow> bool" where
  "older f \<longleftrightarrow> file_ok f \<and> (\<forall>(n, c) \<in> set base_columns. has_column n c f)"

text \<open>The columns the statements of \<open>model/\<close> read and write.\<close>

definition used_columns :: "(string \<times> string list) list" where
  "used_columns =
    [(''users'', [''id'', ''name'', ''uuid'', ''sub_token'', ''password'', ''enabled'', ''traffic_limit_bytes'',
        ''traffic_used_bytes'', ''traffic_up_bytes'', ''traffic_down_bytes'', ''traffic_reset_day'',
        ''traffic_last_reset'', ''note'', ''expire_at'', ''created_at'', ''updated_at'']),
     (''nodes'', [''id'', ''name'', ''host'', ''port'', ''domain'', ''ssh_user'', ''ssh_password'', ''proxy_type'',
        ''config_path'', ''singbox_bin'', ''agent_token'', ''enabled'', ''sort_order'', ''created_at'']),
     (''node_inbounds'', [''id'', ''node_id'', ''tag'', ''protocol'', ''port'', ''settings'', ''enabled'', ''sort_order'']),
     (''user_access'', [''user_id'', ''node_id'']),
     (''traffic_logs'', [''node_id'', ''user_id'', ''bytes_up'', ''bytes_down'', ''recorded_at''])]"

definition usable :: "db_file \<Rightarrow> bool" where
  "usable f \<longleftrightarrow> (\<forall>(n, cs) \<in> set used_columns. has_table n f \<and> (\<forall>c \<in> set cs. has_column n c f))"

lemma extends_table: "extends f g \<Longrightarrow> has_table n f \<Longrightarrow> has_table n g"
  unfolding has_table_def extends_def
  by (force simp: list_all2_conv_all_nth grown_def in_set_conv_nth image_iff)

text \<open>A statement takes no column away, and creates a table with the columns it names.\<close>

fun creates_with :: "string \<Rightarrow> string \<Rightarrow> ddl \<Rightarrow> bool" where
  "creates_with n c (CreateTable t) \<longleftrightarrow> (tb_name t = n \<longrightarrow> c \<in> set (column_names t))"
| "creates_with n c _ \<longleftrightarrow> True"

lemma exec_ddl_tables:
  assumes "exec_ddl s f = Inr g" "u \<in> set (df_tables g)"
  shows "(\<exists>t \<in> set (df_tables f). tb_name (fst u) = tb_name (fst t) \<and>
      set (column_names (fst t)) \<subseteq> set (column_names (fst u))) \<or> s = CreateTable (fst u)"
proof (cases s)
  case (AddColumn n c)
  then have "\<exists>v. df_tables g = map (\<lambda>t. if tb_name (fst t) = n then add_column c v t else t) (df_tables f)"
    using assms(1) by (auto simp: exec_ddl_def simp del: map_eq_conv split: if_splits option.splits)
  then obtain v where "df_tables g = map (\<lambda>t. if tb_name (fst t) = n then add_column c v t else t) (df_tables f)" ..
  then have "u \<in> (\<lambda>t. if tb_name (fst t) = n then add_column c v t else t) ` set (df_tables f)"
    using assms(2) by simp
  then obtain t where "t \<in> set (df_tables f)" "u = (if tb_name (fst t) = n then add_column c v t else t)"
    by (rule imageE)
  then show ?thesis by (intro disjI1 bexI [of _ t]) (auto simp: add_column_def column_names_def)
next
  case (CreateTable t)
  then have "u \<in> set (df_tables f) \<or> u = (t, [])" using assms by (auto simp: exec_ddl_def split: option.splits)
  then show ?thesis using CreateTable by auto
next
  case (CreateIndex name n cs)
  then have "u \<in> set (df_tables f)" using assms by (auto simp: exec_ddl_def split: if_splits option.splits)
  then show ?thesis by auto
qed

lemma exec_ddl_column: "exec_ddl s f = Inr g \<Longrightarrow> has_column n c f \<Longrightarrow> creates_with n c s \<Longrightarrow> has_column n c g"
  unfolding has_column_def [of n c g] by (auto dest!: exec_ddl_tables simp: has_column_def)

lemma exec_script_column: "has_column n c f \<Longrightarrow> \<forall>s \<in> set ss. creates_with n c s \<Longrightarrow>
    has_column n c (snd (exec_script fault i ss f))"
  by (rule exec_script_inv) (auto intro: exec_ddl_column)

lemma exec_each_column: "has_column n c f \<Longrightarrow> \<forall>s \<in> set ss. creates_with n c s \<Longrightarrow>
    has_column n c (exec_each fault i ss f)"
  by (rule exec_each_inv) (auto intro: exec_ddl_column)

text \<open>A script of tables and indexes runs through when each index finds its table and columns.\<close>

fun runs_through :: "string set \<Rightarrow> (string \<times> string) list \<Rightarrow> ddl list \<Rightarrow> bool" where
  "runs_through T cols [] \<longleftrightarrow> True"
| "runs_through T cols (CreateTable t # ss) \<longleftrightarrow>
     (\<forall>(n, c) \<in> set cols. n = tb_name t \<longrightarrow> c \<in> set (column_names t)) \<and> runs_through (insert (tb_name t) T) cols ss"
| "runs_through T cols (CreateIndex name n cs # ss) \<longleftrightarrow> n \<in> T \<and> Pair n ` set cs \<subseteq> set cols \<and> runs_through T cols ss"
| "runs_through T cols (AddColumn n c # ss) \<longleftrightarrow> False"

definition script_ready :: "string set \<Rightarrow> (string \<times> string) list \<Rightarrow> db_file \<Rightarrow> bool" where
  "script_ready T cols f \<longleftrightarrow> file_ok f \<and> (\<forall>n \<in> T. has_table n f) \<and> (\<forall>(n, c) \<in> set cols. has_column n c f)"

lemma script_runs_through: "runs_through T cols ss \<Longrightarrow> script_ready T cols f \<Longrightarrow>
    \<exists>g. exec_script (\<lambda>_. False) i ss f = (None, g) \<and> (\<forall>t. CreateTable t \<in> set ss \<longrightarrow> has_table (tb_name t) g)"
proof (induction T cols ss arbitrary: f i rule: runs_through.induct)
  case (2 T cols t ss)
  have "\<exists>g. exec_ddl (CreateTable t) f = Inr g" by (simp add: exec_ddl_def split: option.split)
  then obtain g where run: "exec_ddl (CreateTable t) f = Inr g" ..
  note keeps = exec_ddl_keeps [OF _ run]
  have new: "has_table (tb_name t) g"
    using run has_table_named [of "tb_name t" f]
    by (cases "table_named (tb_name t) f") (auto simp: exec_ddl_def has_table_def simp del: split_paired_Ex)
  have "has_column n c g" if "(n, c) \<in> set cols" for n c
    using exec_ddl_column [OF run, of n c] 2(2,3) that by (fastforce simp: script_ready_def)
  then have "script_ready (insert (tb_name t) T) cols g"
    using 2(3) keeps new by (auto simp: script_ready_def intro: extends_table)
  from 2(1) [OF _ this, of "Suc i"] 2(2) obtain h where
    h: "exec_script (\<lambda>_. False) (Suc i) ss g = (None, h)" "\<forall>t. CreateTable t \<in> set ss \<longrightarrow> has_table (tb_name t) h" by auto
  have "file_ok g" using 2(3) keeps by (simp add: script_ready_def)
  then have "has_table (tb_name t) h"
    using exec_script_keeps [of g "\<lambda>_. False" "Suc i" ss] h(1) new by (auto intro: extends_table)
  then show ?case using h run by (auto simp: try_ddl_def)
next
  case (3 T cols name n cs ss)
  then have "has_table n f" and cols: "\<forall>c \<in> set cs. has_column n c f" by (auto simp: script_ready_def)
  then obtain t where found: "table_named n f = Some t" by (auto simp: has_table_named)
  then have "set cs \<subseteq> set (column_names (fst t))" using cols table_named_SomeD [OF found] by (auto simp: has_column_def)
  then have "\<exists>g. exec_ddl (CreateIndex name n cs) f = Inr g" by (simp add: exec_ddl_def found)
  then obtain g where run: "exec_ddl (CreateIndex name n cs) f = Inr g" ..
  have "has_column n c g" if "(n, c) \<in> set cols" for n c
    using exec_ddl_column [OF run, of n c] 3(3) that by (fastforce simp: script_ready_def)
  then have "script_ready T cols g"
    using 3(3) exec_ddl_keeps [OF _ run] by (auto simp: script_ready_def intro: extends_table)
  then show ?case using 3 run by (auto simp: try_ddl_def)
qed auto

lemma exec_added:
  assumes "file_ok f" "has_table n f" "filler c \<noteq> None"
  shows "has_column n (co_name c) (case exec_ddl (AddColumn n c) f of Inl e \<Rightarrow> f | Inr g \<Rightarrow> g)"
proof -
  obtain t v where found: "table_named n f = Some t" and v: "filler c = Some v" using assms(2,3) by (auto simp: has_table_named)
  show ?thesis
  proof (cases "co_name c \<in> set (column_names (fst t))")
    case True
    then show ?thesis
      using table_named_unique [OF assms(1)] found by (auto simp: exec_ddl_def has_column_def)
  next
    case False
    then show ?thesis by (auto simp: exec_ddl_def found v has_column_def add_column_def column_names_def)
  qed
qed

lemma exec_each_added: "file_ok f \<Longrightarrow> has_table n f \<Longrightarrow> filler c \<noteq> None \<Longrightarrow> AddColumn n c \<in> set ss \<Longrightarrow>
    \<forall>s \<in> set ss. creates_with n (co_name c) s \<Longrightarrow> has_column n (co_name c) (exec_each (\<lambda>_. False) i ss f)"
proof (induction ss arbitrary: f i)
  case (Cons s ss)
  let ?g = "case exec_ddl s f of Inl e \<Rightarrow> f | Inr g \<Rightarrow> g"
  have g: "file_ok ?g" "has_table n ?g"
    using Cons.prems exec_ddl_keeps [of f s] by (auto split: sum.splits intro: extends_table)
  show ?case
  proof (cases "s = AddColumn n c")
    case True
    have "has_column n (co_name c) ?g" unfolding True by (rule exec_added [OF Cons.prems(1-3)])
    then show ?thesis using Cons.prems(5) by (simp add: try_ddl_def exec_each_column)
  next
    case False
    then show ?thesis using Cons.IH [OF g] Cons.prems by (simp add: try_ddl_def)
  qed
qed simp

text \<open>When nothing fails, a file of any earlier version has every column that is used afterwards.\<close>

fun creates :: "string \<Rightarrow> ddl \<Rightarrow> bool" where
  "creates n (CreateTable t) \<longleftrightarrow> tb_name t = n"
| "creates n _ \<longleftrightarrow> False"

fun adds :: "string \<Rightarrow> string \<Rightarrow> ddl \<Rightarrow> bool" where
  "adds n c (AddColumn m d) \<longleftrightarrow> m = n \<and> co_name d = c \<and> filler d \<noteq> None"
| "adds n c _ \<longleftrightarrow> False"

lemma creates_iff: "creates n s \<longleftrightarrow> (\<exists>t. s = CreateTable t \<and> tb_name t = n)"
  and adds_iff: "adds n c s \<longleftrightarrow> (\<exists>d. s = AddColumn n d \<and> co_name d = c \<and> filler d \<noteq> None)"
  by (cases s; auto)+

lemma used_in_schema: "list_all (\<lambda>(n, cs). list_ex (creates n) schema \<and>
    list_all (\<lambda>c. (n, c) \<in> set base_columns \<or> list_ex (adds n c) additions) cs) used_columns"
  by code_simp

lemma schema_runs_through: "runs_through {} base_columns schema"
  by code_simp

lemma schema_creates: "list_all (\<lambda>(n, c). list_all (creates_with n c) (schema @ additions)) base_columns"
  by code_simp

lemma migrate_completes:
  assumes "older f"
  shows "\<exists>g. migrate (\<lambda>_. False) f = (None, g) \<and> usable g"
proof -
  have "script_ready {} base_columns f" using assms by (auto simp: script_ready_def older_def)
  then obtain g where run: "exec_script (\<lambda>_. False) 0 schema f = (None, g)"
    and tables: "\<And>t. CreateTable t \<in> set schema \<Longrightarrow> has_table (tb_name t) g"
    using script_runs_through [OF schema_runs_through] by blast
  let ?h = "exec_each (\<lambda>_. False) (length schema) additions g"
  have ok: "file_ok g" using exec_script_keeps [of f "\<lambda>_. False" 0 schema] assms run by (simp add: older_def)
  have free: "\<forall>s \<in> set additions. creates_with n c s" for n c
    by (simp add: additions_def)
  have "has_table n ?h \<and> (\<forall>c \<in> set cs. has_column n c ?h)" if used: "(n, cs) \<in> set used_columns" for n cs
  proof (intro conjI ballI)
    have "list_ex (creates n) schema" using used_in_schema used by (auto simp: list_all_iff)
    then have g: "has_table n g" using tables by (auto simp: list_ex_iff creates_iff)
    then show "has_table n ?h" using exec_each_keeps [OF ok] by (blast intro: extends_table)
    fix c assume c: "c \<in> set cs"
    have "(n, c) \<in> set base_columns \<or> list_ex (adds n c) additions"
      using used_in_schema used c by (auto simp: list_all_iff)
    then show "has_column n c ?h"
    proof
      assume base: "(n, c) \<in> set base_columns"
      then have "has_column n c f" "\<forall>s \<in> set schema. creates_with n c s"
        using assms schema_creates by (auto simp: older_def list_all_iff)
      then have "has_column n c g" using exec_script_column [of n c f schema "\<lambda>_. False" 0] run by simp
      then show ?thesis by (rule exec_each_column [OF _ free])
    next
      assume "list_ex (adds n c) additions"
      then obtain d where "AddColumn n d \<in> set additions" "co_name d = c" "filler d \<noteq> None"
        by (auto simp: list_ex_iff adds_iff)
      then show ?thesis using exec_each_added [OF ok g] free by blast
    qed
  qed
  then show ?thesis by (auto simp: migrate_def run usable_def)
qed

section \<open>Opening again\<close>

text \<open>A statement that has nothing left to do.\<close>

fun settled :: "ddl \<Rightarrow> db_file \<Rightarrow> bool" where
  "settled (CreateTable t) f \<longleftrightarrow> has_table (tb_name t) f"
| "settled (CreateIndex name n cs) f \<longleftrightarrow> name \<in> fst ` set (df_indexes f)"
| "settled (AddColumn n c) f \<longleftrightarrow> has_column n (co_name c) f"

lemma settled_exec: "settled s f \<Longrightarrow> exec_ddl s f = Inr g \<Longrightarrow> g = f"
  by (cases s) (auto simp: exec_ddl_def has_table_named has_column_def split: if_splits option.splits dest!: table_named_SomeD)

lemma settled_script: "\<forall>s \<in> set ss. settled s f \<Longrightarrow> snd (exec_script fault i ss f) = f"
  using exec_script_inv [where P = "\<lambda>g. g = f" and ss = ss] settled_exec by blast

lemma settled_each: "\<forall>s \<in> set ss. settled s f \<Longrightarrow> exec_each fault i ss f = f"
  using exec_each_inv [where P = "\<lambda>g. g = f" and ss = ss] settled_exec by blast

text \<open>Once it is complete, opening the file changes nothing, whatever fails then.\<close>

lemma settled_migrate:
  assumes "\<forall>s \<in> set (schema @ additions). settled s f"
  shows "snd (migrate fault f) = f"
proof -
  obtain e g where run: "exec_script fault 0 schema f = (e, g)" by fastforce
  then have "g = f" using settled_script [of schema f fault 0] assms by simp
  then show ?thesis using settled_each [of additions f] assms by (cases e) (simp_all add: migrate_def run)
qed

lemma exec_index: "exec_ddl s f = Inr g \<Longrightarrow> name \<in> fst ` set (df_indexes f) \<Longrightarrow> name \<in> fst ` set (df_indexes g)"
  by (cases s) (auto simp: exec_ddl_def image_iff split: if_splits option.splits)

lemma script_indexes: "exec_script (\<lambda>_. False) i ss f = (None, g) \<Longrightarrow> CreateIndex name n cs \<in> set ss \<Longrightarrow>
    name \<in> fst ` set (df_indexes g)"
proof (induction ss arbitrary: f i)
  case (Cons s ss)
  then obtain h where run: "exec_ddl s f = Inr h" and rest: "exec_script (\<lambda>_. False) (Suc i) ss h = (None, g)"
    by (auto simp: try_ddl_def split: sum.splits)
  show ?case
  proof (cases "s = CreateIndex name n cs")
    case True
    then have "name \<in> fst ` set (df_indexes h)" using run by (auto simp: exec_ddl_def split: if_splits option.splits)
    then have "name \<in> fst ` set (df_indexes (snd (exec_script (\<lambda>_. False) (Suc i) ss h)))"
      by (rule exec_script_inv) (rule exec_index)
    then show ?thesis using rest by simp
  qed (use Cons rest in auto)
qed simp

lemma schema_kinds: "list_all (\<lambda>s. case s of AddColumn n c \<Rightarrow> False | _ \<Rightarrow> True) schema"
  by code_simp

lemma additions_kinds: "list_all (\<lambda>s. case s of AddColumn n c \<Rightarrow> filler c \<noteq> None \<and> list_ex (creates n) schema
    | _ \<Rightarrow> False) additions"
  by code_simp

lemma migrate_idempotent:
  assumes "older f"
  shows "snd (migrate fault (snd (migrate (\<lambda>_. False) f))) = snd (migrate (\<lambda>_. False) f)"
proof (rule settled_migrate, rule ballI)
  have "script_ready {} base_columns f" using assms by (auto simp: script_ready_def older_def)
  then obtain g where run: "exec_script (\<lambda>_. False) 0 schema f = (None, g)"
    and tables: "\<And>t. CreateTable t \<in> set schema \<Longrightarrow> has_table (tb_name t) g"
    using script_runs_through [OF schema_runs_through] by blast
  let ?h = "exec_each (\<lambda>_. False) (length schema) additions g"
  have h: "snd (migrate (\<lambda>_. False) f) = ?h" by (simp add: migrate_def run)
  have ok: "file_ok g" using exec_script_keeps [of f "\<lambda>_. False" 0 schema] assms run by (simp add: older_def)
  fix s assume "s \<in> set (schema @ additions)"
  then consider "s \<in> set schema" | "s \<in> set additions" by auto
  then show "settled s (snd (migrate (\<lambda>_. False) f))"
    unfolding h
  proof cases
    case 1
    show "settled s ?h"
    proof (cases s)
      case (CreateTable t)
      then show ?thesis using tables [of t] 1 exec_each_keeps [OF ok] by (auto intro: extends_table)
    next
      case (CreateIndex name n cs)
      then have "name \<in> fst ` set (df_indexes g)" using script_indexes [OF run] 1 by blast
      then have "name \<in> fst ` set (df_indexes ?h)" by (rule exec_each_inv) (rule exec_index)
      then show ?thesis using CreateIndex by simp
    qed (use 1 schema_kinds in \<open>auto simp: list_all_iff\<close>)
  next
    case 2
    then have "case s of AddColumn n c \<Rightarrow> filler c \<noteq> None \<and> list_ex (creates n) schema | _ \<Rightarrow> False"
      using additions_kinds by (simp only: list_all_iff)
    then obtain n c where s: "s = AddColumn n c" "filler c \<noteq> None" and "has_table n g"
      using tables by (cases s) (auto simp: list_ex_iff creates_iff)
    then show "settled s ?h"
      using exec_each_added [OF ok, of n c additions] 2 by (simp add: additions_def)
  qed
qed

text \<open>
  A statement of the second kind that fails is not noticed: the file is opened without the
  column, and the statements that use it fail from then on.
\<close>

definition lacks_column :: "string \<Rightarrow> string \<Rightarrow> db_file \<Rightarrow> bool" where
  "lacks_column n c f \<longleftrightarrow> (\<forall>t \<in> set (df_tables f). tb_name (fst t) = n \<longrightarrow> c \<notin> set (column_names (fst t)))"

lemma lacks_no_column:
  assumes "has_table n f" "lacks_column n c f"
  shows "\<not> has_column n c f"
proof -
  from assms(1) obtain t where "t \<in> set (df_tables f)" "tb_name (fst t) = n" unfolding has_table_def by (blast elim: imageE)
  then show ?thesis using assms(2) unfolding has_column_def lacks_column_def by blast
qed

lemma password_used: "\<exists>cs. (''users'', cs) \<in> set used_columns \<and> ''password'' \<in> set cs"
  by (simp add: used_columns_def)

fun names_column :: "string \<Rightarrow> string \<Rightarrow> ddl \<Rightarrow> bool" where
  "names_column n c (CreateTable t) \<longleftrightarrow> tb_name t = n \<and> c \<in> set (column_names t)"
| "names_column n c (CreateIndex name m cs) \<longleftrightarrow> False"
| "names_column n c (AddColumn m d) \<longleftrightarrow> m = n \<and> co_name d = c"

lemma exec_ddl_lacks:
  assumes "exec_ddl s f = Inr g" "lacks_column n c f" "\<not> names_column n c s"
  shows "lacks_column n c g"
proof (cases s)
  case (AddColumn m d)
  then obtain v where g: "set (df_tables g) = (\<lambda>t. if tb_name (fst t) = m then add_column d v t else t) ` set (df_tables f)"
    using assms(1) by (auto simp: exec_ddl_def split: if_splits option.splits)
  have "c \<notin> set (column_names (fst (if tb_name (fst t) = m then add_column d v t else t)))"
    if "t \<in> set (df_tables f)" "tb_name (fst t) = n" for t
    using assms(2,3) AddColumn that by (auto simp: lacks_column_def add_column_def column_names_def)
  moreover have "tb_name (fst (if tb_name (fst t) = m then add_column d v t else t)) = tb_name (fst t)" for t
    by (simp add: add_column_def)
  ultimately show ?thesis unfolding lacks_column_def g by (metis (no_types, lifting) imageE)
qed (use assms in \<open>auto simp: exec_ddl_def lacks_column_def split: if_splits option.splits\<close>)

lemma exec_each_lacks: "lacks_column n c f \<Longrightarrow> \<forall>(k, s) \<in> set (enumerate i ss). names_column n c s \<longrightarrow> fault k \<Longrightarrow>
    lacks_column n c (exec_each fault i ss f)"
proof (induction ss arbitrary: f i)
  case (Cons s ss)
  have "lacks_column n c (case try_ddl fault i s f of Inl e \<Rightarrow> f | Inr g \<Rightarrow> g)"
    using Cons.prems exec_ddl_lacks [of s f _ n c] by (auto simp: try_ddl_def split: sum.splits if_splits)
  then show ?case unfolding exec_each.simps by (rule Cons.IH) (use Cons.prems(2) in simp)
qed simp

lemma exec_script_cong: "\<forall>k < length ss. fault (i + k) = fault' (i + k) \<Longrightarrow>
    exec_script fault i ss f = exec_script fault' i ss f"
proof (induction ss arbitrary: f i)
  case (Cons s ss)
  have "exec_script fault (Suc i) ss g = exec_script fault' (Suc i) ss g" for g
    by (rule Cons.IH) (use Cons.prems [rule_format, of "Suc k" for k] in simp)
  then show ?case using Cons.prems [rule_format, of 0] by (simp add: try_ddl_def split: sum.split)
qed simp

lemma failed_addition_unnoticed:
  assumes "older f" "lacks_column ''users'' ''password'' f"
  shows "fst (migrate (\<lambda>i. i = 9) f) = None \<and> \<not> usable (snd (migrate (\<lambda>i. i = 9) f))"
proof -
  have "script_ready {} base_columns f" using assms(1) by (auto simp: script_ready_def older_def)
  then obtain g where "exec_script (\<lambda>_. False) 0 schema f = (None, g)"
    and tables: "\<And>t. CreateTable t \<in> set schema \<Longrightarrow> has_table (tb_name t) g"
    using script_runs_through [OF schema_runs_through] by blast
  moreover have "exec_script (\<lambda>i. i = 9) 0 schema f = exec_script (\<lambda>_. False) 0 schema f"
    by (rule exec_script_cong) (simp add: schema_def)
  ultimately have run: "exec_script (\<lambda>i. i = 9) 0 schema f = (None, g)" by simp
  let ?h = "exec_each (\<lambda>i. i = 9) (length schema) additions g"
  have "list_all (\<lambda>s. \<not> names_column ''users'' ''password'' s) schema" by code_simp
  then have "lacks_column ''users'' ''password'' (snd (exec_script (\<lambda>i. i = 9) 0 schema f))"
    using exec_script_inv [of "lacks_column ''users'' ''password''" f schema] exec_ddl_lacks assms(2)
    by (simp add: list_all_iff)
  moreover have "\<forall>(k, s) \<in> set (enumerate (length schema) additions). names_column ''users'' ''password'' s \<longrightarrow> k = 9"
    by (simp add: additions_def schema_def text_column_def integer_column_def)
  ultimately have "lacks_column ''users'' ''password'' ?h" using run by (intro exec_each_lacks) simp_all
  moreover have "file_ok g" using exec_script_keeps [of f "\<lambda>i. i = 9" 0 schema] assms run by (simp add: older_def)
  then have "has_table ''users'' ?h"
    using exec_each_keeps [of g] tables [of users_table]
    by (auto simp: schema_def users_table_def intro: extends_table)
  ultimately have "\<not> has_column ''users'' ''password'' ?h"
    by (intro lacks_no_column)
  then have "\<not> usable ?h"
    using password_used by (auto simp: usable_def)
  then show ?thesis by (simp add: migrate_def run)
qed

lemma db_Open_keeps: "file_ok f \<Longrightarrow> extends f (snd (db_Open env f)) \<and> file_ok (snd (db_Open env f))"
  using migrate_keeps [of f "oe_fault env"] by (auto simp: db_Open_def split: option.splits prod.splits)

lemma db_Open_completes: "older f \<Longrightarrow> oe_mkdir env = None \<Longrightarrow> oe_open env = None \<Longrightarrow> oe_fault env = (\<lambda>_. False) \<Longrightarrow>
    fst (db_Open env f) = Inr () \<and> usable (snd (db_Open env f))"
  using migrate_completes [of f] by (auto simp: db_Open_def)

end
