(* ===== verification/PushLocks.thy ===== *)
theory PushLocks
  imports ConfigHandler
begin

text \<open>
  The locks of \<open>handler/config.go\<close>: \<open>pushLock\<close> gives every node a mutex of its own, and
  \<open>syncNode\<close> holds it over the generation and the push. Pushes that run at the same time are a
  step relation here. What the other theories assume is proved: two pushes to one node
  never overlap. Pushes to different nodes do not wait for each other.
\<close>

section \<open>The table of locks\<close>

text \<open>A mutex is its number; the nil map of a fresh handler is the empty one.\<close>

record lock_table =
  lk_of :: "int \<Rightarrow> nat option"
  lk_made :: nat

definition new_locks :: lock_table where
  "new_locks = \<lparr>lk_of = (\<lambda>_. None), lk_made = 0\<rparr>"

definition pushLock :: "int \<Rightarrow> lock_table \<Rightarrow> nat \<times> lock_table" where
  "pushLock nodeID t = (case lk_of t nodeID of
     Some lock \<Rightarrow> (lock, t)
   | None \<Rightarrow> (lk_made t, \<lparr>lk_of = (lk_of t)(nodeID := Some (lk_made t)), lk_made = Suc (lk_made t)\<rparr>))"

section \<open>Pushes at the same time\<close>

datatype pusher = Waiting int nat | Pushing int nat | Finished int

record pushes =
  pu_locks :: lock_table
  pu_held :: "nat set"
  pu_threads :: "nat \<Rightarrow> pusher option"

definition push_goto :: "nat \<Rightarrow> pusher \<Rightarrow> pushes \<Rightarrow> pushes" where
  "push_goto k th s = s\<lparr>pu_threads := (pu_threads s)(k := Some th)\<rparr>"

text \<open>A thread asks for the node's lock under \<open>pushLocksMu\<close>, takes it when it is free, and releases it.\<close>

inductive push_step :: "pushes \<Rightarrow> pushes \<Rightarrow> bool" where
  ask: "pu_threads s k = None \<Longrightarrow> pushLock i (pu_locks s) = (l, t) \<Longrightarrow>
     push_step s (push_goto k (Waiting i l) (s\<lparr>pu_locks := t\<rparr>))"
| take: "pu_threads s k = Some (Waiting i l) \<Longrightarrow> l \<notin> pu_held s \<Longrightarrow>
     push_step s (push_goto k (Pushing i l) (s\<lparr>pu_held := insert l (pu_held s)\<rparr>))"
| release: "pu_threads s k = Some (Pushing i l) \<Longrightarrow>
     push_step s (push_goto k (Finished i) (s\<lparr>pu_held := pu_held s - {l}\<rparr>))"

inductive_cases push_stepE: "push_step s s'"

definition push_start :: pushes where
  "push_start = \<lparr>pu_locks = new_locks, pu_held = {}, pu_threads = (\<lambda>_. None)\<rparr>"

inductive push_reachable :: "pushes \<Rightarrow> bool" where
  start: "push_reachable push_start"
| step: "push_reachable s \<Longrightarrow> push_step s s' \<Longrightarrow> push_reachable s'"

section \<open>The invariant\<close>

text \<open>
  Two nodes have two locks, a thread has the lock of its node, and a lock is held exactly by
  the one thread that pushes under it.
\<close>

definition locks_ok :: "lock_table \<Rightarrow> bool" where
  "locks_ok t \<longleftrightarrow> (\<forall>i l. lk_of t i = Some l \<longrightarrow> l < lk_made t) \<and>
     (\<forall>i j l. lk_of t i = Some l \<longrightarrow> lk_of t j = Some l \<longrightarrow> i = j)"

definition own_locks :: "pushes \<Rightarrow> bool" where
  "own_locks s \<longleftrightarrow> (\<forall>k i l. pu_threads s k = Some (Waiting i l) \<or> pu_threads s k = Some (Pushing i l) \<longrightarrow>
     lk_of (pu_locks s) i = Some l)"

definition held_by :: "pushes \<Rightarrow> nat \<Rightarrow> nat set" where
  "held_by s l = {k. \<exists>i. pu_threads s k = Some (Pushing i l)}"

definition pushes_ok :: "pushes \<Rightarrow> bool" where
  "pushes_ok s \<longleftrightarrow> locks_ok (pu_locks s) \<and> own_locks s \<and>
     (\<forall>l. if l \<in> pu_held s then \<exists>k. held_by s l = {k} else held_by s l = {})"

lemma pushLock_ok:
  assumes "locks_ok t" "pushLock i t = (l, t')"
  shows "locks_ok t' \<and> lk_of t' i = Some l \<and> (\<forall>j m. lk_of t j = Some m \<longrightarrow> lk_of t' j = Some m)"
proof (cases "lk_of t i")
  case None
  then have t': "l = lk_made t" "t' = \<lparr>lk_of = (lk_of t)(i := Some (lk_made t)), lk_made = Suc (lk_made t)\<rparr>"
    using assms(2) by (auto simp: pushLock_def)
  have old: "m < lk_made t" if "lk_of t j = Some m" for j m using assms(1) that by (simp add: locks_ok_def)
  then have "lk_of t j \<noteq> Some (lk_made t)" for j by blast
  moreover have "j = j'" if "lk_of t j = Some m" "lk_of t j' = Some m" for j j' m
    using assms(1) that unfolding locks_ok_def by blast
  ultimately show ?thesis using None old by (auto simp: t' locks_ok_def less_Suc_eq)
qed (use assms in \<open>simp add: pushLock_def\<close>)

lemma held_by_goto: "held_by (push_goto k th s) l =
    (if \<exists>i. th = Pushing i l then insert k (held_by s l) else held_by s l - {k})"
  by (auto simp: held_by_def push_goto_def)

lemma held_by_fields [simp]: "held_by (s\<lparr>pu_locks := t\<rparr>) l = held_by s l" "held_by (s\<lparr>pu_held := h\<rparr>) l = held_by s l"
  by (simp_all add: held_by_def)

lemma goto_fields [simp]: "pu_locks (push_goto k th s) = pu_locks s" "pu_held (push_goto k th s) = pu_held s"
  "pu_threads (push_goto k th s) = (pu_threads s)(k := Some th)"
  by (simp_all add: push_goto_def)

lemma push_step_ok:
  assumes "push_step s s'" "pushes_ok s"
  shows "pushes_ok s'"
  using assms(1)
proof (rule push_stepE)
  fix k i l t assume new: "pu_threads s k = None" "pushLock i (pu_locks s) = (l, t)"
    and s': "s' = push_goto k (Waiting i l) (s\<lparr>pu_locks := t\<rparr>)"
  have t: "locks_ok t" "lk_of t i = Some l" "\<And>j m. lk_of (pu_locks s) j = Some m \<Longrightarrow> lk_of t j = Some m"
    using pushLock_ok [OF _ new(2)] assms(2) by (simp_all add: pushes_ok_def)
  have "k \<notin> held_by s m" for m using new(1) by (simp add: held_by_def)
  moreover have "own_locks s'" using assms(2) t by (auto simp: s' own_locks_def pushes_ok_def)
  ultimately show ?thesis using assms(2) t(1) by (simp add: pushes_ok_def s' held_by_goto)
next
  fix k i l assume thread: "pu_threads s k = Some (Waiting i l)" "l \<notin> pu_held s"
    and s': "s' = push_goto k (Pushing i l) (s\<lparr>pu_held := insert l (pu_held s)\<rparr>)"
  have "k \<notin> held_by s m" for m using thread(1) by (simp add: held_by_def)
  moreover have "own_locks s'" using assms(2) thread(1) by (auto simp: s' own_locks_def pushes_ok_def)
  moreover have "held_by s l = {}" using assms(2) thread(2) by (simp add: pushes_ok_def)
  ultimately show ?thesis using assms(2) by (simp add: pushes_ok_def s' held_by_goto)
next
  fix k i l assume thread: "pu_threads s k = Some (Pushing i l)"
    and s': "s' = push_goto k (Finished i) (s\<lparr>pu_held := pu_held s - {l}\<rparr>)"
  have own: "own_locks s'" using assms(2) by (auto simp: s' own_locks_def pushes_ok_def)
  have k: "k \<in> held_by s m \<longleftrightarrow> m = l" for m using thread by (auto simp: held_by_def)
  have l: "held_by s l = {k}" using assms(2) k [of l] unfolding pushes_ok_def by (metis empty_iff singletonD)
  show ?thesis
    using assms(2) own k l by (auto simp: pushes_ok_def s' held_by_goto)
qed

lemma push_reachable_ok: "push_reachable s \<Longrightarrow> pushes_ok s"
proof (induction rule: push_reachable.induct)
  case start
  show ?case by (simp add: pushes_ok_def push_start_def new_locks_def locks_ok_def own_locks_def held_by_def)
qed (rule push_step_ok)

text \<open>Two pushes to one node never overlap.\<close>

lemma push_exclusive:
  assumes "push_reachable s" "pu_threads s k = Some (Pushing i l)" "pu_threads s j = Some (Pushing i l')"
  shows "k = j"
proof -
  have ok: "pushes_ok s" by (rule push_reachable_ok [OF assms(1)])
  have "lk_of (pu_locks s) i = Some l" "lk_of (pu_locks s) i = Some l'"
    using ok assms(2,3) unfolding pushes_ok_def own_locks_def by blast+
  then have "{k, j} \<subseteq> held_by s l" using assms(2,3) by (simp add: held_by_def)
  moreover obtain h where "held_by s l \<subseteq> {h}" using ok unfolding pushes_ok_def by (metis empty_subsetI order_refl)
  ultimately show ?thesis by auto
qed

text \<open>A push waits for pushes to its own node only.\<close>

lemma push_not_blocked:
  assumes "push_reachable s" "pu_threads s k = Some (Waiting i l)"
    and "\<And>j m. pu_threads s j \<noteq> Some (Pushing i m)"
  shows "push_step s (push_goto k (Pushing i l) (s\<lparr>pu_held := insert l (pu_held s)\<rparr>))"
proof (rule push_step.take [OF assms(2)])
  have ok: "pushes_ok s" by (rule push_reachable_ok [OF assms(1)])
  show "l \<notin> pu_held s"
  proof
    assume "l \<in> pu_held s"
    then obtain j where "j \<in> held_by s l" using ok unfolding pushes_ok_def by (metis singletonI)
    then obtain i' where j: "pu_threads s j = Some (Pushing i' l)" by (auto simp: held_by_def)
    have "lk_of (pu_locks s) i' = Some l" "lk_of (pu_locks s) i = Some l"
      using ok assms(2) j unfolding pushes_ok_def own_locks_def by blast+
    then have "i' = i" using ok unfolding pushes_ok_def locks_ok_def by blast
    then show False using assms(3) j by blast
  qed
qed

end
