(* ===== verification/Spec2Isabelle.thy ===== *)
theory Spec2Isabelle
  imports Demo StoredRows Document Visitors NodeClaims TransportClaims Schema PushLocks
begin

text \<open>
  \<^bold>\<open>singbox-panel\<close> is a panel that administers a fleet of sing-box proxy servers: an
  administrator keeps users, nodes, inbounds and the assignment of users to nodes in an SQLite
  database; the panel generates each node's configuration from it, pushes it over SSH, reads
  the traffic back, and hands every user a subscription. This library models the Go code
  under \<open>src/\<close> and proves that what the database says about who may use what is what the
  nodes run, whichever statement, push or command fails on the way.

  \<^bold>\<open>State and effects.\<close> One record \<open>world\<close> (theory \<open>Database\<close>) holds the database, the
  machines behind the nodes' addresses, the clock, a tick that counts statements and remote
  commands, and the environment \<open>env\<close> that decides by tick which statement fails, what a
  command prints and what random bytes are drawn. An operation of the code is a function in
  the library's state monad over \<open>world\<close>; a result of type \<open>db_error + 'a\<close> is the pair of a
  value and an \<open>error\<close>; \<open>attempt\<close> is \<open>if err != nil\<close> with its early return. Everything is
  executable once the parameters are given.

  \<^bold>\<open>Theories and the code they model.\<close>

  \<^item> Shared: \<open>Prelude\<close> (the predicate \<open>wp\<close>, its rules, keyed tables), \<open>GoStrings\<close> (the used
    part of \<open>strings\<close> and \<open>strconv\<close>), \<open>Shell\<close> (quoting, \<open>handler/install.go\<close>), \<open>IdSets\<close> (the four
    normalisations of identifier lists in \<open>handler/\<close> and \<open>model/\<close>), \<open>Clock\<close> and \<open>CertTime\<close>
    (the used part of \<open>time\<close>), \<open>Http\<close> (requests, responses, paths).
  \<^item> Data: \<open>Schema\<close> (\<open>db/db.go\<close>: opening a file and bringing its tables up to date),
    \<open>Database\<close> (the same tables as the stores see them), \<open>UserStore\<close>, \<open>NodeStore\<close>, \<open>AccessStore\<close>,
    \<open>TrafficStore\<close> (\<open>model/\<close>, one theory a file, statement by statement with their
    transactions), \<open>Effects\<close> (a rule per statement), \<open>Integrity\<close> (the invariant \<open>db_ok\<close>).
  \<^item> Configuration: \<open>Generator\<close> (\<open>singbox/generator.go\<close>, \<open>singbox/hysteria.go\<close>),
    \<open>Subscription\<close> (\<open>singbox/clash.go\<close>, the share links, \<open>handler/subscription.go\<close>),
    \<open>Enforcement\<close> (the specification: \<open>served\<close>, \<open>gen_doc\<close>, \<open>in_sync\<close>), \<open>Document\<close> (whose
    accounts a generated document carries).
  \<^item> Pushing: \<open>Sync\<close> (\<open>handler/sync.go\<close>, the locale \<open>node_synchronizer\<close>) and
    \<open>ConfigHandler\<close> (\<open>handler/config.go\<close>: generation, the deploy script step by step on the
    files and the service of a machine, the traffic report; it interprets the locale on
    \<open>SyncNodes\<close>); \<open>PushLocks\<close> (its mutexes, one a node).
  \<^item> Administration: \<open>UserHandler\<close> (\<open>handler/user.go\<close>), \<open>AccessHandler\<close> and \<open>AuthHandler\<close>
    (\<open>handler/auth.go\<close>), \<open>NodeHandler\<close> (\<open>handler/node.go\<close>), \<open>Stats\<close> (\<open>handler/stats.go\<close>),
    \<open>Validate\<close> (\<open>handler/validate.go\<close>), \<open>Panel\<close> (\<open>handler/batch.go\<close> and the routes of
    \<open>main.go\<close>), \<open>Process\<close> (\<open>config/config.go\<close>, \<open>buildinfo/buildinfo.go\<close>, probes and assets).
    \<open>Rollback\<close> holds the pattern of change, push, undo, push again, proved once inside the
    locale; \<open>UserSync\<close>, \<open>AccessSync\<close> and \<open>NodeSync\<close> apply it to each handler.
  \<^item> Work on a node: \<open>SetupProfile\<close>, \<open>SetupData\<close>, \<open>Ports\<close>, \<open>RealityProbe\<close>, \<open>Reality\<close>,
    \<open>AutoSetup\<close> (\<open>handler/setup.go\<close>, \<open>handler/setup_profile.go\<close>, \<open>handler/reality.go\<close>),
    \<open>Certs\<close> and \<open>CertHandler\<close> (\<open>handler/cert.go\<close>, the upload of \<open>handler/validate.go\<close>),
    \<open>KernelTune\<close> (\<open>handler/nodetune.go\<close>), \<open>NodeOps\<close> (\<open>handler/nodeops.go\<close>,
    \<open>handler/install.go\<close>), \<open>Reprovision\<close> (\<open>handler/reprovision.go\<close>).
  \<^item> Traffic: \<open>StatsCodec\<close> and \<open>UserStats\<close> (\<open>handler/v2raystats.go\<close>), \<open>SSHPool\<close>
    (\<open>handler/sshpool.go\<close>), \<open>TrafficPoller\<close> (\<open>handler/traffic.go\<close>), \<open>HostKeys\<close>
    (\<open>handler/hostkey.go\<close>). \<open>Protowire\<close> and \<open>KnownHosts\<close> are concrete instances of the two
    libraries these files call; they interpret the locales \<open>wire_format\<close> and \<open>known_hosts\<close>.

  \<^bold>\<open>What the lemmas show.\<close>

  \<^item> \<open>Integrity\<close>, \<open>Preservation\<close>, \<open>SetupKeeps\<close>, \<open>Reachable\<close>: every statement, handler, route and
    background task keeps \<open>db_ok\<close> (collection \<open>kept\<close>), so it holds in every world that is
    \<open>reachable\<close> from an empty database by requests, polling cycles, pruning, passing time and
    changes of the environment. \<open>StoredRows\<close> shows in the same way that every row of a node or
    an inbound has the domain and the settings its readers rely on; what does not touch these
    two tables is dealt with once, in the locale \<open>table_property\<close>. \<open>Schema\<close> shows that
    opening a file loses no row whichever statement fails, that a file of an earlier version
    gets every column the stores use, and that opening it again changes nothing.
  \<^item> \<open>Enforcement\<close>, \<open>Rollback\<close>, \<open>UserSync\<close>, \<open>AccessSync\<close>, \<open>NodeSync\<close>: a change answered with
    success is in the database and on every node; one answered as rolled back is in neither.
    \<open>SetupStore\<close>, \<open>SetupSync\<close>, \<open>RealitySync\<close> and \<open>ReprovisionSync\<close> show the same of auto-setup,
    of a switched Reality target and of a run over the fleet; \<open>Quiet\<close> that the other remote
    work changes no configuration at all.
  \<^item> \<open>Liveness\<close>, \<open>Success\<close>: in an environment without failures pushes reach their nodes and
    valid requests are answered with success.
  \<^item> \<open>Guards\<close>, \<open>Visitors\<close>: who gets through the middleware and what a visitor can cause.
  \<^item> \<open>Usage\<close>: the statistics neither lose nor double traffic, stay in the retained window and
    do not notice pruning. \<open>Accounting\<close>: a polling cycle books what the nodes counted.
  \<^item> \<open>Demo\<close>, \<open>DemoSetup\<close>: the concrete panels the witnesses run on.
  \<^item> The properties C1 to C30 are here, C31 to C34 in \<open>NodeClaims\<close>, C35 to C40 in
    \<open>TransportClaims\<close>.

  \<^bold>\<open>Loops.\<close> Every loop of the code runs over a slice, a string or a fixed number of attempts
  and is structural recursion here, without fuel, with one exception: the two parsers of the
  statistics codec call a library for every step, so they are \<open>partial_function (option)\<close>,
  \<open>None\<close> when they run forever or panic, and C36 proves that they return.

  \<^bold>\<open>Parameters.\<close> The JWT, bcrypt, X.509, protowire, gRPC and knownhosts packages, the time
  zone database, the embedded assets and the random source are arguments or part of \<open>env\<close>.
  What commands print and whether they succeed is the environment's (\<open>ssh_run\<close>), except for
  the deploy script, whose text is executed on a \<open>machine\<close>. Concrete JSON, the cleaning of
  paths and the redirects of the mux belong to the standard library. Error texts that come from
  a remote machine are empty. \<open>%q\<close> and \<open>strings.TrimSpace\<close> are those of texts of ASCII bytes;
  \<open>ParseFloat\<close> is exact on decimals; a fraction of a second in a certificate's date is
  dropped. SQLite's \<open>GROUP BY\<close> answers in the order of its keys. Foreign keys are not enforced,
  as in the code, whose connection does not ask for it.

  \<^bold>\<open>Concurrency.\<close> Handlers run one after another, and the clock stands still inside one.
  Where the code interleaves on purpose, in the connection pool and in pushes that run at the
  same time, the threads are \<open>inductive\<close> step relations (\<open>pool_step\<close>, \<open>push_step\<close>) and the
  properties hold of every interleaving: no connection has two holders, and two pushes to one
  node never overlap, which is what running them one after another rests on. The
  nodes of a polling cycle are polled in the order of the list; which of them are abandoned
  at the deadline is the environment's choice.

  \<^bold>\<open>Not modelled.\<close> The pragmas of the connection (\<open>db/db.go\<close>): journalling and the wait for a
  busy file are SQLite's. Listening, logging, signals and the timers of \<open>main.go\<close>. The timeout
  of a dial and the SSH transport itself (\<open>handler/config.go\<close>): sessions are the
  environment's. The web client under \<open>web/\<close>, scripts and tests are not Go code of the panel.
\<close>

section \<open>Users\<close>

text \<open>
  C1. An administrator's edit of a user is atomic over the database and the fleet: answered
  with 200, the database is exactly the edited one and every node runs what the new database
  says; answered as rolled back, every node runs what the old database says and the users and
  assignments are as before, the note excepted.
\<close>

theorem update_user_enforced:
  assumes "db_ok (w_db w)" "fleet_ok (w_db w)" "\<And>i. in_sync w i"
    and "run_state (UserHandler_update (Some SyncNodes) r) w = (rp, w')"
  shows "(rp_status rp = 200 \<longrightarrow> (\<forall>i. in_sync w' i) \<and>
      (\<exists>req ids. as_update_user (r_body r) = Some (req, ids) \<and>
        w_db w' = edit_db (parseID (r_path r) ''/api/users/'') req ids (w_now w) (w_db w)))
    \<and> (rolled_back ''user edit was rolled back: '' rp \<longrightarrow> (\<forall>i. in_sync w' i) \<and>
      (\<exists>req ids. as_update_user (r_body r) = Some (req, ids) \<and>
        restored_but_note (parseID (r_path r) ''/api/users/'') (uu_note req) (w_db w) (w_db w')))"
  using wp_run [OF cfg.wp_update [OF assms(1-3)] assms(4)] by (simp add: update_promise_def)

theorem update_user_enforced_witness:
  "\<forall>i. in_sync (snd (run_state (UserHandler_update (Some SyncNodes) put_user) good_world)) i"
proof -
  have body: "as_update_user (r_body put_user) = Some (limit_req, None)"
    by (simp add: put_user_def demo_request_def)
  have path: "parseID (r_path put_user) ''/api/users/'' = 1"
    by (simp add: put_user_def demo_request_def) code_simp
  have valid: "valid_edit 1 limit_req None demo_db"
    by (simp add: valid_edit_def demo_db_def demo_user_def name_free_def limit_req_def)
  have box: "all_singbox demo_db" by (simp add: all_singbox_def demo_db_def demo_node_def)
  have "wp (UserHandler_update (Some SyncNodes) put_user) (\<lambda>rp w'. rp_status rp = 200) good_world"
    by (rule wp_update_reliable [OF _ _ _ body path _]) (simp_all add: demo_reliable demo_ok box valid)
  then have "rp_status (fst (run_state (UserHandler_update (Some SyncNodes) put_user) good_world)) = 200"
    by (simp add: wp_def split: prod.splits)
  moreover have "db_ok (w_db good_world)" "fleet_ok (w_db good_world)" "in_sync good_world i" for i
    by (simp_all add: demo_ok demo_fleet_ok good_sync)
  ultimately show ?thesis
    using update_user_enforced [of good_world put_user
        "fst (run_state (UserHandler_update (Some SyncNodes) put_user) good_world)"
        "snd (run_state (UserHandler_update (Some SyncNodes) put_user) good_world)"] by simp
qed

text \<open>
  C2. Deleting a user takes its access away before its data: answered with 200, user,
  assignments and samples are gone and every node runs a configuration without it; answered
  as rolled back, everything is as before and every node runs that.
\<close>

theorem delete_user_enforced:
  assumes "db_ok (w_db w)" "fleet_ok (w_db w)" "\<And>i. in_sync w i"
    and "run_state (UserHandler_delete (Some SyncNodes) r) w = (rp, w')"
  shows "(rp_status rp = 200 \<longrightarrow> (\<forall>i. in_sync w' i) \<and>
      w_db w' = delete_user_db (parseID (r_path r) ''/api/users/'') (w_db w))
    \<and> (rolled_back ''user deletion was rolled back: '' rp \<longrightarrow> (\<forall>i. in_sync w' i) \<and>
      restored_but_note (parseID (r_path r) ''/api/users/'') None (w_db w) (w_db w'))"
  using wp_run [OF cfg.wp_delete [OF assms(1-3)] assms(4)] by (simp add: delete_promise_def)

theorem delete_user_enforced_witness:
  "\<exists>rp w'. run_state (UserHandler_delete (Some SyncNodes) (on_user ''DELETE'' '''' no_body)) good_world = (rp, w')
     \<and> rp_status rp = 200 \<and> (\<forall>i. in_sync w' i) \<and> d_users (w_db w') = []"
proof -
  obtain rp w' where run: "run_state (UserHandler_delete (Some SyncNodes) (on_user ''DELETE'' '''' no_body)) good_world = (rp, w')"
    and st: "rp_status rp = 200"
    using run_wp [OF wp_delete_reliable [OF good, of "on_user ''DELETE'' '''' no_body" 1]] by auto
  have "(\<forall>i. in_sync w' i) \<and> w_db w' = delete_user_db 1 demo_db"
    using delete_user_enforced [OF calm run] st by simp
  then have "\<forall>i. in_sync w' i" and "d_users (w_db w') = []"
    by (blast, simp add: delete_user_db_def del_rows_def)
  then show ?thesis using run st by auto
qed

text \<open>
  C3. Resetting a user's traffic counters reaches the nodes that had cut the user off:
  answered with 200, the counters are zero and every node runs what the database then says;
  answered as rolled back, the counters are the old ones and every node runs that.
\<close>

theorem reset_traffic_enforced:
  assumes "db_ok (w_db w)" "fleet_ok (w_db w)" "\<And>i. in_sync w i"
    and "run_state (UserHandler_resetTraffic (Some SyncNodes) r) w = (rp, w')"
  shows "(rp_status rp = 200 \<longrightarrow> (\<forall>i. in_sync w' i) \<and>
      w_db w' = upd_user (parseID (r_path r) ''/api/users/'')
        (\<lambda>u. u\<lparr>u_used := 0, u_up := 0, u_down := 0, u_updated := FormatDateTime (w_now w)\<rparr>) (w_db w))
    \<and> (rolled_back ''traffic reset was rolled back: '' rp \<longrightarrow> (\<forall>i. in_sync w' i) \<and>
      restored_but_note (parseID (r_path r) ''/api/users/'') None (w_db w) (w_db w'))"
  using wp_run [OF cfg.wp_resetTraffic [OF assms(1-3)] assms(4)]
  by (simp add: reset_promise_def reset_row_def [abs_def])

theorem reset_traffic_enforced_witness:
  "\<exists>rp w'. run_state (UserHandler_resetTraffic (Some SyncNodes) (on_user ''POST'' ''reset-traffic'' no_body)) good_world
       = (rp, w') \<and> rp_status rp = 200 \<and> (\<forall>i. in_sync w' i) \<and> map u_used (d_users (w_db w')) = [0]"
proof -
  obtain rp w' where run: "run_state (UserHandler_resetTraffic (Some SyncNodes)
      (on_user ''POST'' ''reset-traffic'' no_body)) good_world = (rp, w')" and st: "rp_status rp = 200"
    using run_wp [OF wp_reset_reliable [OF good, of "on_user ''POST'' ''reset-traffic'' no_body" 1]] by auto
  have "(\<forall>i. in_sync w' i) \<and> w_db w' = upd_user 1
      (\<lambda>u. u\<lparr>u_used := 0, u_up := 0, u_down := 0, u_updated := FormatDateTime demo_now\<rparr>) demo_db"
    using reset_traffic_enforced [OF calm run] st by simp
  then have "\<forall>i. in_sync w' i" and "map u_used (d_users (w_db w')) = [0]"
    by (blast, simp add: upd_user_def upd_row_def)
  then show ?thesis using run st by auto
qed

section \<open>Assignments of users to nodes\<close>

text \<open>
  C4. Granting a user a node, or all of them: answered with 200, exactly these assignments
  are added and every node runs what the database then says; answered as rolled back, the
  assignments are the old ones and every node runs that.
\<close>

theorem grant_access_enforced:
  assumes "db_ok (w_db w)" "fleet_ok (w_db w)" "\<And>i. in_sync w i"
    and "as_access (r_body r) = Some q" "extractUserID (r_path r) = k"
    and "run_state (AccessHandler_grantAccess (Some SyncNodes) r) w = (rp, w')"
  shows "(rp_status rp = 200 \<longrightarrow> (\<forall>i. in_sync w' i) \<and> (\<exists>acc. w_db w' = (w_db w)\<lparr>d_access := acc\<rparr> \<and>
      set acc = set (d_access (w_db w)) \<union>
        Pair k ` (if ar_all q then n_id ` set (d_nodes (w_db w)) else {ar_node q})))
    \<and> (rolled_back ''access change was rolled back: '' rp \<longrightarrow> (\<forall>i. in_sync w' i) \<and>
      (\<exists>acc. w_db w' = (w_db w)\<lparr>d_access := acc\<rparr> \<and> set acc = set (d_access (w_db w))))"
  using wp_run [OF cfg.wp_grantAccess [OF assms(1-3)] assms(6)] assms(4,5)
  by (cases "ar_all q") (simp_all add: access_promise_def granted_def granted_all_def)

theorem grant_access_enforced_witness:
  "\<exists>rp w'. run_state (AccessHandler_grantAccess (Some SyncNodes)
       (on_user ''POST'' ''access'' (no_body\<lparr>as_access := Some \<lparr>ar_node = 1, ar_all = False\<rparr>\<rparr>))) bare_world = (rp, w')
     \<and> rp_status rp = 200 \<and> (\<forall>i. in_sync w' i) \<and> set (d_access (w_db w')) = {(1, 1)}"
proof -
  let ?r = "on_user ''POST'' ''access'' (no_body\<lparr>as_access := Some \<lparr>ar_node = 1, ar_all = False\<rparr>\<rparr>)"
  have "wp (AccessHandler_grantAccess (Some SyncNodes) ?r) (\<lambda>rp w'. rp_status rp = 200) bare_world"
    by (rule wp_grant_reliable [where k = 1 and q = "\<lparr>ar_node = 1, ar_all = False\<rparr>"])
      (simp_all add: demo_reliable bare_ok all_singbox_def)
  from run_wp [OF this] obtain rp w' where run: "run_state (AccessHandler_grantAccess (Some SyncNodes) ?r) bare_world = (rp, w')"
    and st: "rp_status rp = 200" by auto
  have "(\<forall>i. in_sync w' i) \<and> (\<exists>acc. w_db w' = bare_db\<lparr>d_access := acc\<rparr> \<and> set acc = {(1, 1)})"
    using grant_access_enforced [where q = "\<lparr>ar_node = 1, ar_all = False\<rparr>" and k = 1,
        OF _ _ bare_sync _ _ run] bare_ok st by simp
  then show ?thesis using run st by auto
qed

text \<open>
  C5. Revoking a node from a user, or all of them: answered with 200, exactly these
  assignments are gone and every node runs a configuration without the user; answered as
  rolled back, the assignments are the old ones and every node runs that.
\<close>

theorem revoke_access_enforced:
  assumes "db_ok (w_db w)" "fleet_ok (w_db w)" "\<And>i. in_sync w i"
    and "as_access (r_body r) = Some q" "extractUserID (r_path r) = k"
    and "run_state (AccessHandler_revokeAccess (Some SyncNodes) r) w = (rp, w')"
  shows "(rp_status rp = 200 \<longrightarrow> (\<forall>i. in_sync w' i) \<and> (\<exists>acc. w_db w' = (w_db w)\<lparr>d_access := acc\<rparr> \<and>
      set acc = {a \<in> set (d_access (w_db w)). fst a \<noteq> k \<or> \<not> ar_all q \<and> snd a \<noteq> ar_node q}))
    \<and> (rolled_back ''access change was rolled back: '' rp \<longrightarrow> (\<forall>i. in_sync w' i) \<and>
      (\<exists>acc. w_db w' = (w_db w)\<lparr>d_access := acc\<rparr> \<and> set acc = set (d_access (w_db w))))"
proof -
  have one: "set l - {(k, n)} = {a \<in> set l. fst a \<noteq> k \<or> snd a \<noteq> n}" for l :: "(int \<times> int) list" and n
    by auto
  show ?thesis
    using wp_run [OF cfg.wp_revokeAccess [OF assms(1-3)] assms(6)] assms(4,5)
    by (cases "ar_all q") (simp_all add: access_promise_def revoked_def replaced_def uniqueSortedIDs_def one)
qed

theorem revoke_access_enforced_witness:
  "\<exists>rp w'. run_state (AccessHandler_revokeAccess (Some SyncNodes)
       (on_user ''DELETE'' ''access'' (no_body\<lparr>as_access := Some \<lparr>ar_node = 1, ar_all = False\<rparr>\<rparr>))) good_world = (rp, w')
     \<and> rp_status rp = 200 \<and> (\<forall>i. in_sync w' i) \<and> d_access (w_db w') = []"
proof -
  let ?r = "on_user ''DELETE'' ''access'' (no_body\<lparr>as_access := Some \<lparr>ar_node = 1, ar_all = False\<rparr>\<rparr>)"
  obtain rp w' where run: "run_state (AccessHandler_revokeAccess (Some SyncNodes) ?r) good_world = (rp, w')"
    and st: "rp_status rp = 200"
    using run_wp [OF wp_revoke_reliable [OF good, of ?r "\<lparr>ar_node = 1, ar_all = False\<rparr>" 1]] by auto
  have none: "{a :: int \<times> int. a = (1, 1) \<and> (fst a = 1 \<longrightarrow> snd a \<noteq> 1)} = {}" by auto
  have "(\<forall>i. in_sync w' i) \<and> (\<exists>acc. w_db w' = demo_db\<lparr>d_access := acc\<rparr> \<and> set acc = {})"
    using revoke_access_enforced [where q = "\<lparr>ar_node = 1, ar_all = False\<rparr>" and k = 1,
        OF calm _ _ run] st by (simp add: none)
  then show ?thesis using run st by auto
qed

text \<open>
  C6. Replacing a user's nodes: answered with 200, the user's assignments are exactly the
  positive ids of the request, the other users' are untouched, and every node runs what the
  database then says; answered as rolled back, the assignments are the old ones and every
  node runs that.
\<close>

theorem replace_access_enforced:
  assumes "db_ok (w_db w)" "fleet_ok (w_db w)" "\<And>i. in_sync w i"
    and "as_node_ids (r_body r) = Some ids" "extractUserID (r_path r) = k"
    and "run_state (AccessHandler_replaceAccess (Some SyncNodes) r) w = (rp, w')"
  shows "(rp_status rp = 200 \<longrightarrow> (\<forall>i. in_sync w' i) \<and> (\<exists>acc. w_db w' = (w_db w)\<lparr>d_access := acc\<rparr> \<and>
      set acc = {a \<in> set (d_access (w_db w)). fst a \<noteq> k} \<union> Pair k ` {i \<in> set ids. 0 < i}))
    \<and> (rolled_back ''access change was rolled back: '' rp \<longrightarrow> (\<forall>i. in_sync w' i) \<and>
      (\<exists>acc. w_db w' = (w_db w)\<lparr>d_access := acc\<rparr> \<and> set acc = set (d_access (w_db w))))"
  using wp_run [OF cfg.wp_replaceAccess [OF assms(1-3)] assms(6)] assms(4,5)
  by (simp add: access_promise_def replaced_def set_uniqueSortedIDs)

theorem replace_access_enforced_witness:
  "\<exists>rp w'. run_state (AccessHandler_replaceAccess (Some SyncNodes)
       (on_user ''PUT'' ''access'' (no_body\<lparr>as_node_ids := Some [0, 1, 1]\<rparr>))) bare_world = (rp, w')
     \<and> rp_status rp = 200 \<and> (\<forall>i. in_sync w' i) \<and> set (d_access (w_db w')) = {(1, 1)}"
proof -
  let ?r = "on_user ''PUT'' ''access'' (no_body\<lparr>as_node_ids := Some [0, 1, 1]\<rparr>)"
  have "wp (AccessHandler_replaceAccess (Some SyncNodes) ?r) (\<lambda>rp w'. rp_status rp = 200) bare_world"
    by (rule wp_replace_reliable [where k = 1 and ids = "[0, 1, 1]"])
      (auto simp: demo_reliable bare_ok all_singbox_def)
  from run_wp [OF this] obtain rp w' where run: "run_state (AccessHandler_replaceAccess (Some SyncNodes) ?r) bare_world = (rp, w')"
    and st: "rp_status rp = 200" by auto
  have "{i. (i = 0 \<or> i = 1) \<and> 0 < i} = {1 :: int}" by auto
  then have "(\<forall>i. in_sync w' i) \<and> (\<exists>acc. w_db w' = bare_db\<lparr>d_access := acc\<rparr> \<and> set acc = {(1, 1)})"
    using replace_access_enforced [where ids = "[0, 1, 1]" and k = 1, OF _ _ bare_sync _ _ run] bare_ok st by simp
  then show ?thesis using run st by auto
qed

section \<open>Inbounds and nodes\<close>

text \<open>
  C7. Creating an inbound: answered with 201, the row is in the database and every node runs
  it; answered as not created, the table is as before, only its id sequence has advanced, and
  every node runs that.
\<close>

theorem create_inbound_enforced:
  assumes "db_ok (w_db w)" "fleet_ok (w_db w)" "\<And>i. in_sync w i"
    and "run_state (NodeHandler_createInbound (Some SyncNodes) r) w = (rp, w')"
  shows "(rp_status rp = 201 \<longrightarrow> (\<forall>i. in_sync w' i) \<and> (\<exists>req. as_create_inbound (r_body r) = Some req \<and>
        w_db w' = add_inbound (new_inbound (parseID (r_path r) ''/api/nodes/'') req (w_db w)) (w_db w)))
    \<and> (rolled_back ''inbound was not created: '' rp \<longrightarrow> (\<forall>i. in_sync w' i) \<and>
        w_db w' = (w_db w)\<lparr>d_inbound_seq := d_inbound_seq (w_db w) + 1\<rparr>)"
  using wp_run [OF cfg.wp_createInbound [OF assms(1-3)] assms(4)] by (simp add: create_promise_def)

theorem create_inbound_enforced_witness:
  "\<exists>rp w'. run_state (NodeHandler_createInbound (Some SyncNodes)
       (on_node ''POST'' ''inbounds'' (no_body\<lparr>as_create_inbound := Some add_inbound_req\<rparr>))) good_world = (rp, w')
     \<and> rp_status rp = 201 \<and> (\<forall>i. in_sync w' i) \<and> map ib_port (d_inbounds (w_db w')) = [443, 8443]"
proof -
  let ?r = "on_node ''POST'' ''inbounds'' (no_body\<lparr>as_create_inbound := Some add_inbound_req\<rparr>)"
  have "wp (NodeHandler_createInbound (Some SyncNodes) ?r) (\<lambda>rp w'. rp_status rp = 201) good_world"
    by (rule wp_createInbound_reliable [where req = add_inbound_req and p = "Itoa 1" and k = 1])
      (use parseID_path(1) [of 1 "''/api/nodes/''"] in
        \<open>simp_all add: demo_reliable demo_ok add_inbound_valid on_node_parts demo_pushable del: append.append_Cons\<close>)
  from run_wp [OF this] obtain rp w' where run: "run_state (NodeHandler_createInbound (Some SyncNodes) ?r) good_world = (rp, w')"
    and st: "rp_status rp = 201" by auto
  have "(\<forall>i. in_sync w' i) \<and> w_db w' = add_inbound (new_inbound 1 add_inbound_req demo_db) demo_db"
    using create_inbound_enforced [OF calm run] st by simp
  then have "\<forall>i. in_sync w' i" and "map ib_port (d_inbounds (w_db w')) = [443, 8443]"
    by (blast, simp add: add_inbound_def new_inbound_def ins_row_def add_inbound_req_def demo_inbound_def demo_db_def)
  then show ?thesis using run st by auto
qed

text \<open>
  C8. Deleting an inbound: answered with 200, the row is gone and every node runs without it;
  answered as rolled back, the database is exactly the old one, the row at its old place, and
  every node runs that.
\<close>

theorem delete_inbound_enforced:
  assumes "db_ok (w_db w)" "fleet_ok (w_db w)" "\<And>i. in_sync w i"
    and "run_state (NodeHandler_deleteInbound (Some SyncNodes) r) w = (rp, w')"
  shows "(rp_status rp = 200 \<longrightarrow> (\<forall>i. in_sync w' i) \<and>
        w_db w' = drop_inbound (parseID (r_path r) ''/api/inbounds/'') (w_db w))
    \<and> (rolled_back ''inbound deletion was rolled back: '' rp \<longrightarrow> (\<forall>i. in_sync w' i) \<and> w_db w' = w_db w)"
  using wp_run [OF cfg.wp_deleteInbound [OF assms(1-3)] assms(4)] by (simp add: drop_promise_def)

theorem delete_inbound_enforced_witness:
  "\<exists>rp w'. run_state (NodeHandler_deleteInbound (Some SyncNodes) (on_inbound ''DELETE'' no_body)) good_world = (rp, w')
     \<and> rp_status rp = 200 \<and> (\<forall>i. in_sync w' i) \<and> d_inbounds (w_db w') = []"
proof -
  obtain rp w' where run: "run_state (NodeHandler_deleteInbound (Some SyncNodes) (on_inbound ''DELETE'' no_body)) good_world
      = (rp, w')" and st: "rp_status rp = 200"
    using run_wp [OF wp_deleteInbound_reliable [OF good, of "on_inbound ''DELETE'' no_body" 1]] by auto
  have "(\<forall>i. in_sync w' i) \<and> w_db w' = drop_inbound 1 demo_db"
    using delete_inbound_enforced [OF calm run] st by simp
  then have "\<forall>i. in_sync w' i" and "d_inbounds (w_db w') = []"
    by (blast, simp add: drop_inbound_def del_rows_def)
  then show ?thesis using run st by auto
qed

text \<open>
  C9. Reordering the inbounds of a node: answered with 200, exactly the sort orders of the
  request are set on this node's rows and every node runs the new order; answered as rolled
  back, the database is the old one and every node runs that.
\<close>

theorem reorder_inbounds_enforced:
  assumes "db_ok (w_db w)" "fleet_ok (w_db w)" "\<And>i. in_sync w i"
    and "run_state (NodeHandler_ReorderInbounds (Some SyncNodes) r) w = (rp, w')"
  shows "(rp_status rp = 200 \<longrightarrow> (\<forall>i. in_sync w' i) \<and> (\<exists>items. as_reorder (r_body r) = Some items \<and>
        w_db w' = reorder_db (parseID (r_path r) ''/api/nodes/'') items (w_db w)))
    \<and> (rolled_back ''inbound reorder was rolled back: '' rp \<longrightarrow> (\<forall>i. in_sync w' i) \<and> w_db w' = w_db w)"
  using wp_run [OF cfg.wp_ReorderInbounds [OF assms(1-3)] assms(4)] by (simp add: reorder_promise_def)

theorem reorder_inbounds_enforced_witness:
  "\<exists>rp w'. run_state (NodeHandler_ReorderInbounds (Some SyncNodes) (on_node ''PUT'' ''inbounds/reorder''
       (no_body\<lparr>as_reorder := Some [\<lparr>ri_id = 1, ri_sort_order = 7\<rparr>]\<rparr>))) good_world = (rp, w')
     \<and> rp_status rp = 200 \<and> (\<forall>i. in_sync w' i) \<and> map ib_sort_order (d_inbounds (w_db w')) = [7]"
proof -
  let ?r = "on_node ''PUT'' ''inbounds/reorder'' (no_body\<lparr>as_reorder := Some [\<lparr>ri_id = 1, ri_sort_order = 7\<rparr>]\<rparr>)"
  have "wp (NodeHandler_ReorderInbounds (Some SyncNodes) ?r) (\<lambda>rp w'. rp_status rp = 200) good_world"
    by (rule wp_ReorderInbounds_reliable [where items = "[\<lparr>ri_id = 1, ri_sort_order = 7\<rparr>]" and k = 1])
      (simp_all add: demo_reliable demo_ok demo_pushable)
  from run_wp [OF this] obtain rp w' where run: "run_state (NodeHandler_ReorderInbounds (Some SyncNodes) ?r) good_world = (rp, w')"
    and st: "rp_status rp = 200" by auto
  have "(\<forall>i. in_sync w' i) \<and> w_db w' = reorder_db 1 [\<lparr>ri_id = 1, ri_sort_order = 7\<rparr>] demo_db"
    using reorder_inbounds_enforced [OF calm run] st by simp
  then have "\<forall>i. in_sync w' i" and "map ib_sort_order (d_inbounds (w_db w')) = [7]"
    by (blast, simp add: reorder_db_def reorder_one_def)
  then show ?thesis using run st by auto
qed

text \<open>
  C10. A node is deleted only when no inbound and no assignment is left on it and its machine
  has been pushed a configuration that serves nobody; the other nodes stay in sync. Refused or
  failed, the database is untouched.
\<close>

theorem delete_node_decommissioned:
  assumes "db_ok (w_db w)" "fleet_ok (w_db w)" "\<And>i. in_sync w i"
    and "run_state (NodeHandler_delete (Some SyncNodes) r) w = (rp, w')"
    and "parseID (r_path r) ''/api/nodes/'' = k"
  shows "(rp_status rp = 200 \<longrightarrow> (\<exists>n. sel_row n_id k (d_nodes (w_db w)) = Some n \<and>
        inbounds_of k (w_db w) = [] \<and> (\<forall>u. (u, k) \<notin> set (d_access (w_db w))) \<and>
        runs (w_fleet w' (sshDialAddr n)) (n_config_path n) (GenerateConfig [] [])) \<and>
      w_db w' = delete_node_db k (w_db w) \<and> (\<forall>i. in_sync w' i))
    \<and> (rp_status rp = 409 \<or> rp_status rp = 502 \<longrightarrow> w_db w' = w_db w)"
  using wp_run [OF cfg.wp_delete_node [OF assms(1-3)] assms(4)] assms(5) by (simp add: delete_node_promise_def)

theorem delete_node_decommissioned_witness:
  "\<exists>rp w'. run_state (NodeHandler_delete (Some SyncNodes) (on_node ''DELETE'' '''' no_body)) bare_world = (rp, w')
     \<and> rp_status rp = 200 \<and> runs (w_fleet w' ''h1:22'') ''/c'' (GenerateConfig [] []) \<and> d_nodes (w_db w') = []"
proof -
  let ?r = "on_node ''DELETE'' '''' no_body"
  have node: "sshDialAddr demo_node = ''h1:22''" "n_config_path demo_node = ''/c''" by code_simp+
  have "wp (NodeHandler_delete (Some SyncNodes) ?r) (\<lambda>rp w'. rp_status rp = 200) bare_world"
    by (rule wp_delete_node_reliable [where k = 1]) (simp_all add: demo_reliable pushable_def sel_row_def inbounds_of_def)
  from run_wp [OF this] obtain rp w' where run: "run_state (NodeHandler_delete (Some SyncNodes) ?r) bare_world = (rp, w')"
    and st: "rp_status rp = 200" by auto
  have "runs (w_fleet w' ''h1:22'') ''/c'' (GenerateConfig [] []) \<and> w_db w' = delete_node_db 1 bare_db"
    using delete_node_decommissioned [where k = 1, OF _ _ bare_sync run] bare_ok st
    by (simp add: sel_row_def node)
  then show ?thesis using run st by (simp add: delete_node_db_def del_rows_def)
qed

section \<open>Who may ask\<close>

text \<open>
  C11. A path below an administrator's pattern never reaches a handler without an
  administrator's token: whatever the mux picks, the answer is 401 or 403 and neither the
  database nor a machine is touched.
\<close>

theorem admin_paths_closed:
  assumes "pat \<in> fst ` set (admin_routes p)" "mux_match (r_path r) pat"
    and "\<And>user. admitted (pn_lib p) (pn_auth p) (w_now w) r \<noteq> Some (''admin'', user)"
    and "run_state (panel_serve p r) w = (rp, w')"
  shows "w' = w \<and> (rp_status rp = 401 \<or> rp_status rp = 403)"
proof -
  have "pat \<in> set admin_patterns" using assms(1) by (simp flip: patterns(1) [of p])
  from admin_route [OF this assms(2), of p] obtain pat' k
    where "longest (r_path r) (routes p) = Some (pat', AdminOnly (pn_lib p) (pn_auth p) k)" .
  then have "run_state (AdminOnly (pn_lib p) (pn_auth p) k r) w = (rp, w')"
    using assms(4) by (simp add: panel_serve_def)
  then show ?thesis
    using assms(3) by (auto simp: run_AdminOnly split: option.splits prod.splits if_splits)
qed

theorem admin_paths_closed_witness:
  "run_state (panel_serve demo_panel (with_token ''DELETE'' ''/api/users/1'' ''ann'')) good_world
     = (\<lparr>rp_status = 403, rp_payload = PError ''admin access required''\<rparr>, good_world)"
proof -
  let ?r = "with_token ''DELETE'' ''/api/users/1'' ''ann''"
  obtain rp w' where run: "run_state (panel_serve demo_panel ?r) good_world = (rp, w')" by fastforce
  have "w' = good_world \<and> (rp_status rp = 401 \<or> rp_status rp = 403)"
    by (rule admin_paths_closed [OF _ _ _ run, where pat = "''/api/users/''"])
      (simp_all add: admin_routes_def mux_match_def HasPrefix_def HasSuffix_def with_token_def demo_request_def
        admitted_def demo_panel_def demo_lib_def TrimPrefix_def)
  moreover obtain k where "longest (r_path ?r) (routes demo_panel)
      = Some (k, AdminOnly (pn_lib demo_panel) (pn_auth demo_panel) user_routes)"
    by (simp add: routes_def public_routes_def session_routes_def admin_routes_def mux_match_def HasPrefix_def
        HasSuffix_def with_token_def demo_request_def)
  then have "rp = \<lparr>rp_status = 403, rp_payload = PError ''admin access required''\<rparr>"
    using run by (simp add: panel_serve_def run_AdminOnly admitted_def demo_panel_def demo_lib_def with_token_def
        demo_request_def HasPrefix_def TrimPrefix_def)
  ultimately show ?thesis using run by simp
qed

text \<open>
  C12. The same for the routes of a session: without a valid token the answer is 401 and
  nothing is touched.
\<close>

theorem session_paths_closed:
  assumes "pat \<in> fst ` set (session_routes p)" "mux_match (r_path r) pat"
    and "admitted (pn_lib p) (pn_auth p) (w_now w) r = None"
    and "run_state (panel_serve p r) w = (rp, w')"
  shows "w' = w \<and> rp_status rp = 401"
proof -
  have "pat \<in> set session_patterns" using assms(1) by (simp flip: patterns(2) [of p])
  from session_route [OF this assms(2), of p] obtain pat' k
    where "longest (r_path r) (routes p) = Some (pat', JWTAuth (pn_lib p) (pn_auth p) k)" .
  then have "run_state (JWTAuth (pn_lib p) (pn_auth p) k r) w = (rp, w')"
    using assms(4) by (simp add: panel_serve_def)
  then show ?thesis using assms(3) by (auto simp: run_JWTAuth)
qed

theorem session_paths_closed_witness:
  "\<exists>rp. run_state (panel_serve demo_panel (with_token ''GET'' ''/api/me/nodes'' ''none'')) good_world = (rp, good_world)
     \<and> rp_status rp = 401"
proof -
  let ?r = "with_token ''GET'' ''/api/me/nodes'' ''none''"
  obtain rp w' where run: "run_state (panel_serve demo_panel ?r) good_world = (rp, w')" by fastforce
  have "w' = good_world \<and> rp_status rp = 401"
    by (rule session_paths_closed [OF _ _ _ run, where pat = "''/api/me/nodes''"])
      (simp_all add: session_routes_def mux_match_def HasPrefix_def HasSuffix_def with_token_def demo_request_def
        admitted_def demo_panel_def demo_lib_def TrimPrefix_def)
  with run show ?thesis by auto
qed

text \<open>
  C13. A user's usage report depends on the samples of that user only: in two databases that
  agree on them and on the nodes' names, the answer to the same request is the same.
\<close>

theorem my_usage_isolated:
  assumes "0 < r_user r"
    and "filter (\<lambda>t. t_user t = r_user r) (d_logs (w_db w)) = filter (\<lambda>t. t_user t = r_user r) (d_logs (w_db v))"
    and "d_nodes (w_db w) = d_nodes (w_db v)"
    and "w_now w = w_now v" "w_env w = w_env v" "w_tick w = w_tick v"
  shows "fst (run_state (HandleMyUsage loc r) w) = fst (run_state (HandleMyUsage loc r) v)"
proof -
  have "usage_rows (q\<lparr>q_user := r_user r, q_by_user := False\<rparr>) offset (w_db w)
      = usage_rows (q\<lparr>q_user := r_user r, q_by_user := False\<rparr>) offset (w_db v)" for q offset
  proof (rule usage_rows_cong)
    let ?q = "q\<lparr>q_user := r_user r, q_by_user := False\<rparr>"
    have "filter (selected ?q offset) ts = filter (selected ?q offset) (filter (\<lambda>t. t_user t = r_user r) ts)" for ts
      using assms(1) by (auto simp: selected_def intro!: filter_cong)
    then show "filter (selected ?q offset) (d_logs (w_db w)) = filter (selected ?q offset) (d_logs (w_db v))"
      by (metis assms(2))
  qed (use assms(3) in simp_all)
  then show ?thesis
    using assms(1,4-6)
    by (simp add: HandleMyUsage_def usage_response_def TrafficStore_Usage_def db_query_def attempt_def
        get_now_def writeError_def writeJSON_def split: sum.splits)
qed

theorem my_usage_isolated_witness:
  "fst (run_state (HandleMyUsage None (put_user\<lparr>r_user := 2\<rparr>)) good_world)
     = fst (run_state (HandleMyUsage None (put_user\<lparr>r_user := 2\<rparr>)) (good_world\<lparr>w_db := demo_db\<lparr>d_logs := []\<rparr>\<rparr>))"
  by (rule my_usage_isolated) (simp_all add: put_user_def demo_request_def demo_db_def)

section \<open>Integrity of the database\<close>

text \<open>
  C14. In every state the panel can reach, the database keeps the integrity that its schema
  only declares: unique and allocated ids, unique names, UUIDs and share tokens, and no
  assignment, inbound or sample of a user or node that does not exist. Foreign keys are not
  enforced by the database, so this is the handlers' and the stores' doing.
\<close>

theorem reachable_integrity:
  assumes "reachable p w"
  shows "db_ok (w_db w)"
  by (rule reachable_ok [OF assms])

theorem reachable_integrity_witness:
  "db_ok (w_db (snd (run_state (panel_serve demo_panel (demo_request ''POST'' ''/api/register'' (no_body\<lparr>as_credentials :=
     Some \<lparr>lr_username = ''ann'', lr_password = ''secret''\<rparr>\<rparr>))) (good_world\<lparr>w_db := empty_db\<rparr>))))"
proof -
  have "reachable demo_panel (good_world\<lparr>w_db := empty_db\<rparr>)" by (rule reachable.start) simp
  then have "reachable demo_panel (snd (run_state (panel_serve demo_panel r) (good_world\<lparr>w_db := empty_db\<rparr>)))" for r
    by (rule reachable.step) (rule panel_step.serve, rule surjective_pairing)
  then show ?thesis by (rule reachable_integrity)
qed

definition new_node :: request where
  "new_node = (with_token ''POST'' ''/api/nodes'' ''root'')\<lparr>r_body := no_body\<lparr>as_create_node := Some
     \<lparr>cn_name = ''n1'', cn_host = ''192.0.2.1'', cn_port = 0, cn_domain = ''n1.example.com'', cn_ssh_user = '''',
      cn_proxy_type = '''', cn_config_path = '''', cn_singbox_bin = ''''\<rparr>\<rparr>\<rparr>"

text \<open>
  C15. In every state the panel can reach, the rows are of the form the rest of the code
  takes for granted: a node's domain is empty or a domain name, an inbound has the settings
  its protocol needs, and a certificate that would be renewed names a domain and two files;
  the domain, which is put into a script in double quotes, has no byte a shell would expand.
\<close>

theorem stored_rows_complete:
  assumes "reachable p w"
  shows "(\<forall>n \<in> set (d_nodes (w_db w)). n_domain n = '''' \<or> validDomainName (n_domain n))
    \<and> (\<forall>b \<in> set (d_inbounds (w_db w)). \<exists>s. settings_object (ib_settings b) = Some s \<and>
        missing_settings (ib_protocol b) s = None)
    \<and> (\<forall>t \<in> set (certTargetsFor (d_inbounds (w_db w))).
        validDomainName (ct_domain t) \<and> ct_cert_path t \<noteq> '''' \<and> ct_key_path t \<noteq> '''' \<and>
        (\<forall>c \<in> set (ct_domain t). letter_or_digit c \<or> c = CHR ''-'' \<or> c = CHR ''.''))"
proof -
  have "rows_ok (w_db w)" by (rule reachable_rows [OF assms])
  then show ?thesis
    using validDomainName_chars rows_cert_targets [of "w_db w" "d_inbounds (w_db w)"]
    by (simp add: rows_ok_def domain_or_none_def well_set_row_def well_set_def) blast
qed

theorem stored_rows_complete_witness:
  "\<exists>w. reachable demo_panel w \<and> map n_domain (d_nodes (w_db w)) = [''n1.example.com''] \<and>
     validDomainName ''n1.example.com''"
proof -
  let ?empty = "good_world\<lparr>w_db := empty_db\<rparr>"
  let ?after = "snd (run_state (panel_serve demo_panel new_node) ?empty)"
  have start: "reachable demo_panel ?empty" by (rule reachable.start) simp
  have reach: "reachable demo_panel ?after"
    by (rule reachable.step [OF start panel_step.serve]) (rule surjective_pairing)
  have routed: "longest (r_path new_node) (routes demo_panel)
      = Some (''/api/nodes'', AdminOnly (pn_lib demo_panel) (pn_auth demo_panel) (NodeHandler_ServeHTTP (Some SyncNodes)))"
    by (simp add: routes_def public_routes_def session_routes_def admin_routes_def mux_match_def HasPrefix_def
        HasSuffix_def new_node_def with_token_def demo_request_def)
  have valid: "validDomainName ''n1.example.com''" by code_simp
  have created: "wp (NodeHandler_create r) (\<lambda>rp w. map n_domain (d_nodes (w_db w)) = [''n1.example.com'']) ?empty"
    if "as_create_node (r_body r) = as_create_node (r_body new_node)" "validDomainName ''n1.example.com''" for r
    using that
    by (simp add: NodeHandler_create_def NodeStore_Create_def new_node_def with_token_def generateToken_def random_hex_def
        get_now_text_def db_exec_def insert_node_def Let_def good_world_def world_with_def demo_env_def next_tick_def
        NodeStore_Get_def db_query_def writeJSON_def empty_db_def ins_row_def sel_row_def wp_step)
  have "map n_domain (d_nodes (w_db (snd (run_state (NodeHandler_create r) ?empty)))) = [''n1.example.com'']"
    if "as_create_node (r_body r) = as_create_node (r_body new_node)" for r
    using wp_run [OF created [OF that valid] surjective_pairing] .
  with routed have "map n_domain (d_nodes (w_db ?after)) = [''n1.example.com'']"
    by (simp add: panel_serve_def run_AdminOnly admitted_def demo_panel_def demo_lib_def new_node_def with_token_def
        demo_request_def HasPrefix_def TrimPrefix_def NodeHandler_ServeHTTP_def)
  then show ?thesis using stored_rows_complete [OF reach] reach by (cases "d_nodes (w_db ?after)") auto
qed

section \<open>What a node runs\<close>

text \<open>
  C16. Generating a node's configuration refines the specification: a configuration that is
  returned is the document for exactly the users the access rule lets use the node at that
  moment, whatever rows the three queries select, and the database is only read.
\<close>

theorem generate_refines_rule:
  assumes "db_ok (w_db w)" and "run_state (generateConfig i) w = (r, w')"
  shows "w_db w' = w_db w \<and> (case r of Inl e \<Rightarrow> True | Inr doc \<Rightarrow>
      doc = GenerateConfig (filter (\<lambda>u. (u_id u, i) \<in> set (d_access (w_db w)) \<and> may_use (w_now w) u) (d_users (w_db w)))
        (sort_key ib_sort_order (filter (\<lambda>b. ib_node b = i) (d_inbounds (w_db w)))))"
proof -
  have "distinct (map u_id (d_users (w_db w)))" using assms(1) by (simp add: db_ok_def users_ok_def table_ok_def)
  then have "wp (generateConfig i) (\<lambda>r w'. w_db w' = w_db w \<and>
      (case r of Inl e \<Rightarrow> True | Inr doc \<Rightarrow> doc = gen_doc (w_now w) i (w_db w))) w"
    by (rule wp_generateConfig) (simp_all add: becomes_def)
  from wp_run [OF this assms(2)] show ?thesis
    by (simp add: gen_doc_def served_def inbounds_of_def split: sum.splits)
qed

theorem generate_refines_rule_witness:
  "\<exists>doc w'. run_state (generateConfig 1) good_world = (Inr doc, w')
     \<and> doc = GenerateConfig [demo_user] [demo_inbound]"
proof -
  obtain r w' where run: "run_state (generateConfig 1) good_world = (r, w')" and "\<exists>doc. r = Inr doc"
    using run_wp [OF wp_generateConfig_reliable [OF good_reliable, of 1]] by auto
  then obtain doc where doc: "r = Inr doc" by blast
  have "may_use demo_now demo_user" by code_simp
  then show ?thesis using generate_refines_rule [OF calm(1) run] run doc by simp
qed

text \<open>
  C17. The document lets in exactly the accounts it was generated for: it has one inbound per
  enabled row of a known protocol, in order, on the row's port, and each of them carries the
  name and credential of every user and of nobody else.
\<close>

theorem document_accounts:
  "list_all2 (\<lambda>j b. accounts_of j = map (\<lambda>u. (Some (u_name u), Some (u_uuid u))) users
       \<and> entry ''listen_port'' j = Some (jint (ib_port b)))
     (doc_inbounds (GenerateConfig users ibs))
     (filter (\<lambda>b. ib_enabled b \<and> ib_protocol b \<in> {''hysteria2'', ''vless-reality'', ''vless-httpupgrade''}) ibs)"
  using GenerateConfig_serves [of users ibs]
  by (simp add: list_all2_map2 serves_def written_def)

text \<open>
  C18. A synchronisation reports one result per requested node in ascending order, changes
  nothing but machines, and tells the truth: a node reported as pushed runs what the database
  says, and a node that was not asked for is not disturbed.
\<close>

theorem sync_results_truthful:
  assumes "run_state (SyncNodes ids) w = (rs, w')"
  shows "w_db w' = w_db w \<and> map sr_node_id rs = sorted_list_of_set {i \<in> set ids. 0 < i}
    \<and> (fleet_ok (w_db w) \<longrightarrow> (\<forall>r \<in> set rs. sr_status r = ''pushed'' \<longrightarrow> in_sync w' (sr_node_id r)) \<and>
        (\<forall>i. i \<notin> set ids \<longrightarrow> in_sync w i \<longrightarrow> in_sync w' i))"
proof -
  have "w_db w' = w_db w" using wp_run [OF cfg.frame assms] by (simp add: same_db_def)
  moreover have "map sr_node_id rs = sorted_list_of_set {i \<in> set ids. 0 < i}"
    using wp_run [OF cfg.results assms] by (simp add: uniqueSortedIDs_eq)
  moreover have "\<forall>r \<in> set rs. sr_status r = ''pushed'' \<longrightarrow> in_sync w' (sr_node_id r)" if "fleet_ok (w_db w)"
    by (rule wp_run [OF cfg.pushed [OF that] assms])
  moreover have "in_sync w' i" if "fleet_ok (w_db w)" "i \<notin> set ids" "in_sync w i" for i
    by (rule wp_run [OF cfg.kept [OF that(1,3,2)] assms])
  ultimately show ?thesis by blast
qed

theorem sync_results_truthful_witness:
  "map sr_node_id (fst (run_state (SyncNodes [7, 1, -2, 1]) (flaky_world 9))) = [1, 7]"
proof -
  have "{i \<in> set [7, 1, - 2, 1]. 0 < i} = {1, 7 :: int}" by auto
  then show ?thesis
    using sync_results_truthful [of "[7, 1, -2, 1]" "flaky_world 9", OF surjective_pairing]
    by (simp only:) simp
qed

text \<open>
  C19. Where the database answers and the machines' commands work, a synchronisation of
  sing-box nodes does push: every result is pushed and every requested node runs what the
  database says.
\<close>

theorem sync_pushes:
  assumes "reliable (w_env w)" "fleet_ok (w_db w)"
    and "\<And>i. i \<in> set ids \<Longrightarrow> 0 < i \<Longrightarrow> pushable i (w_db w)"
    and "run_state (SyncNodes ids) w = (rs, w')"
  shows "(\<forall>r \<in> set rs. sr_status r = ''pushed'') \<and> (\<forall>i \<in> set ids. in_sync w' i)"
proof -
  have none: "syncFailure rs = None" and db: "w_db w' = w_db w"
    using wp_run [OF wp_SyncNodes_reliable [OF assms(1,3)] assms(4)] by (simp_all add: same_db_def)
  have "in_sync w' i" if "i \<in> set ids" for i
    using cfg.run_synced [OF assms(4)] none that assms(2) in_sync_nonpos [of w' i] db
    by (cases "0 < i") (auto simp: synced_def)
  with none show ?thesis by (simp add: syncFailure_None)
qed

theorem sync_pushes_witness:
  "in_sync (snd (run_state (SyncNodes [1]) (good_world\<lparr>w_fleet := \<lambda>_.
     \<lparr>m_files = \<lambda>_. None, m_unit_path = ''/c'', m_loaded = None\<rparr>\<rparr>))) 1"
proof -
  let ?w = "good_world\<lparr>w_fleet := \<lambda>_. \<lparr>m_files = \<lambda>_. None, m_unit_path = ''/c'', m_loaded = None\<rparr>\<rparr>"
  have "(\<forall>r \<in> set (fst (run_state (SyncNodes [1]) ?w)). sr_status r = ''pushed'')
      \<and> (\<forall>i \<in> set [1]. in_sync (snd (run_state (SyncNodes [1]) ?w)) i)"
    by (rule sync_pushes [OF _ _ _ surjective_pairing])
      (use demo_pushable in \<open>auto simp: demo_reliable demo_fleet_ok\<close>)
  then show ?thesis by simp
qed

section \<open>The deploy script\<close>

text \<open>
  C20. Exit status 0 of the deploy script means that the uploaded configuration is at its
  place and, where the unit reads it there, loaded, and that no backup is left behind.
\<close>

theorem deploy_success:
  assumes "m_files m tmpPath = Some c" "path \<noteq> tmpPath" "path \<noteq> backupPath"
    and "deploy_script rs path m = (m', True)"
  shows "m_files m' path = Some c \<and> (m_unit_path m' = path \<longrightarrow> m_loaded m' = Some c)
    \<and> m_files m' backupPath = None \<and> m_files m' tmpPath = None"
  using assms(1,2,3) deploy_script_success [OF assms] assms(4)
  by (cases "m_files m path")
    (auto simp: deploy_script_def Let_def sh_then_ok cp_ok rm_f_ok deploy_restart_ok write_file_def)

theorem deploy_success_witness:
  "\<exists>m'. deploy_script works ''/c'' (write_file tmpPath (Some (RawInvalid ''x'')) (demo_fleet demo_db ''h1:22'')) = (m', True)
     \<and> m_loaded m' = Some (RawInvalid ''x'')"
proof -
  let ?m = "write_file tmpPath (Some (RawInvalid ''x'')) (demo_fleet demo_db ''h1:22'')"
  have st: "snd (deploy_script works ''/c'' ?m)"
    by (rule deploy_script_works) (simp_all add: write_file_def works_def remote_works_def)
  then obtain m' where run: "deploy_script works ''/c'' ?m = (m', True)" by (metis prod.collapse)
  have unit: "m_unit_path m' = m_unit_path ?m"
    using run by (auto simp: deploy_script_def Let_def sh_then_ok cp_ok rm_f_ok deploy_restart_ok write_file_def
        split: if_splits)
  have "m_files m' ''/c'' = Some (RawInvalid ''x'') \<and> (m_unit_path m' = ''/c'' \<longrightarrow> m_loaded m' = Some (RawInvalid ''x''))
      \<and> m_files m' backupPath = None \<and> m_files m' tmpPath = None"
    by (rule deploy_success [OF _ _ _ run]) (simp_all add: write_file_def tmpPath_def backupPath_def)
  then show ?thesis using run unit by (simp add: write_file_def demo_fleet_def)
qed

text \<open>
  C21. When the new configuration makes the service fail to start, the script ends with a
  non-zero status, the previous configuration is back (or absent, as it was), and the service
  runs it again when that restart works.
\<close>

theorem deploy_restores:
  assumes "m_files m tmpPath = Some c" "path \<noteq> tmpPath" "path \<noteq> backupPath"
    and "rs_mkdir rs" "rs_backup rs" "rs_copy rs" "rs_rm_tmp rs" "\<not> rs_restart rs" "rs_restore rs"
    and "deploy_script rs path m = (m', st)"
  shows "\<not> st \<and> m_files m' path = m_files m path
    \<and> (rs_restart_again rs \<and> m_unit_path m = path \<longrightarrow> m_loaded m' = m_files m path)"
  using deploy_script_restores [OF assms] by blast

theorem deploy_restores_witness:
  "\<exists>m'. deploy_script (works\<lparr>rs_restart := False\<rparr>) ''/c'' (write_file tmpPath (Some (RawInvalid ''x'')) (demo_fleet demo_db ''h1:22'')) = (m', False)
     \<and> m_loaded m' = Some (RawJson (gen_doc demo_now 1 demo_db))"
proof -
  let ?m = "write_file tmpPath (Some (RawInvalid ''x'')) (demo_fleet demo_db ''h1:22'')"
  obtain m' st where run: "deploy_script (works\<lparr>rs_restart := False\<rparr>) ''/c'' ?m = (m', st)" by fastforce
  have "\<not> st \<and> m_files m' ''/c'' = m_files ?m ''/c''
      \<and> (rs_restart_again (works\<lparr>rs_restart := False\<rparr>) \<and> m_unit_path ?m = ''/c'' \<longrightarrow> m_loaded m' = m_files ?m ''/c'')"
    by (rule deploy_restores [OF _ _ _ _ _ _ _ _ _ run])
      (simp_all add: write_file_def works_def tmpPath_def backupPath_def)
  then show ?thesis using run by (simp add: write_file_def works_def demo_fleet_def tmpPath_def)
qed

text \<open>
  C22. A configuration that the node's check command refuses never comes near the service:
  the push fails, and on every machine the running service and all files but the upload at
  its temporary path are as before.
\<close>

theorem refused_config_harmless:
  assumes "\<not> rs_check (remote (w_env w) (w_tick w))"
    and "run_state (pushViaSSHUnlocked n doc) w = (r, w')"
  shows "r \<noteq> Inr () \<and> w_db w' = w_db w \<and> (\<forall>a. m_loaded (w_fleet w' a) = m_loaded (w_fleet w a) \<and>
    (\<forall>p. p \<noteq> tmpPath \<longrightarrow> m_files (w_fleet w' a) p = m_files (w_fleet w a) p))"
proof -
  have "wp (pushViaSSHUnlocked n doc) (\<lambda>r w'. r \<noteq> Inr () \<and> w_db w' = w_db w \<and>
      (\<forall>a. m_loaded (w_fleet w' a) = m_loaded (w_fleet w a) \<and>
      (\<forall>p. p \<noteq> tmpPath \<longrightarrow> m_files (w_fleet w' a) p = m_files (w_fleet w a) p))) w"
    unfolding pushViaSSHUnlocked_def next_remote_def sshConnect_def fail_def ok_def
    using assms(1)
    by (auto simp: wp_step next_tick_def sshWriteFile_def write_file_def intro!: wp_on_machine split: if_splits)
  from wp_run [OF this assms(2)] show ?thesis .
qed

theorem refused_config_harmless_witness:
  "fst (run_state (pushViaSSHUnlocked demo_node JNull) (world_with demo_db (\<lambda>_. works\<lparr>rs_check := False\<rparr>))) \<noteq> Inr ()"
  using refused_config_harmless [of "world_with demo_db (\<lambda>_. works\<lparr>rs_check := False\<rparr>)", OF _ surjective_pairing]
  by (simp add: demo_env_def)

text \<open>
  C23. Where the database answers and the machines' commands work, a valid edit of a user is
  answered with 200, so the promise of the edit is not kept by refusing.
\<close>

theorem update_user_succeeds:
  assumes "reliable (w_env w)" "db_ok (w_db w)" "all_singbox (w_db w)"
    and "as_update_user (r_body r) = Some (req, ids)" "parseID (r_path r) ''/api/users/'' = k" "k \<noteq> 0"
    and "valid_edit k req ids (w_db w)" and "run_state (UserHandler_update (Some SyncNodes) r) w = (rp, w')"
  shows "rp_status rp = 200"
  using wp_run [OF wp_update_reliable [OF assms(1-7)] assms(8)] .

theorem update_user_succeeds_witness:
  "rp_status (fst (run_state (UserHandler_update (Some SyncNodes) (on_user ''PUT'' ''''
     (no_body\<lparr>as_update_user := Some (limit_req, Some [1, 0])\<rparr>))) bare_world)) = 200"
proof (rule update_user_succeeds [OF _ _ _ _ _ _ _ surjective_pairing])
  show "valid_edit 1 limit_req (Some [1, 0]) (w_db bare_world)"
    by (simp add: valid_edit_def name_free_def limit_req_def)
qed (simp_all add: demo_reliable bare_ok all_singbox_def)

section \<open>Usage\<close>

text \<open>
  C24. No traffic is lost or counted twice in a usage report: whatever the grouping, the rows
  of the answer add up to the samples of the window, for both directions.
\<close>

theorem usage_conserves_traffic:
  assumes "run_state (HandleUsage loc r) w = (\<lparr>rp_status = st, rp_payload = PUsage rows\<rparr>, w')"
  shows "\<exists>q. parseUsageQuery loc (w_now w) (r_query r) 7 = Inr q \<and>
    (let ts = filter (selected q (loc_offset (store_location loc) (w_now w))) (d_logs (w_db w))
     in sum_list (map ur_up rows) = sum_list (map t_up ts) \<and> sum_list (map ur_down rows) = sum_list (map t_down ts))"
proof -
  obtain q where q: "parseUsageQuery loc (w_now w) (r_query r) 7 = Inr q"
    and rows: "rows = usage_rows q (loc_offset (store_location loc) (w_now w)) (w_db w)"
    using assms
    by (auto simp: HandleUsage_def usage_response_def TrafficStore_Usage_def db_query_def attempt_def get_now_def
        writeError_def writeJSON_def defaultRangeDays_def split: sum.splits if_splits)
  show ?thesis
    using usage_rows_sums [of q, where d = "w_db w"] parseUsageQuery_window(4) [OF q] q rows
    by (auto simp: Let_def sum_up_def sum_down_def)
qed

theorem usage_conserves_traffic_witness:
  "\<exists>rows w'. run_state (HandleUsage None (demo_request ''GET'' ''/api/stats/usage'' no_body)) good_world
      = (\<lparr>rp_status = 200, rp_payload = PUsage rows\<rparr>, w')
     \<and> sum_list (map ur_up rows) = 10 \<and> sum_list (map ur_down rows) = 20"
proof -
  let ?r = "demo_request ''GET'' ''/api/stats/usage'' no_body"
  obtain rows w' where run: "run_state (HandleUsage None ?r) good_world = (\<lparr>rp_status = 200, rp_payload = PUsage rows\<rparr>, w')"
    by (simp add: HandleUsage_def usage_response_def TrafficStore_Usage_def db_query_def attempt_def get_now_def
        writeJSON_def demo_request_def defaultRangeDays_def demo_query)
  from usage_conserves_traffic [OF this] have "sum_list (map ur_up rows) = 10 \<and> sum_list (map ur_down rows) = 20"
    by (simp add: demo_request_def demo_query demo_selected Let_def UTC_def) (simp add: demo_db_def)
  with run show ?thesis by blast
qed

text \<open>
  C25. An accepted usage query stays inside the retained window and asks for at least one day:
  it begins no earlier than the retention and ends no later than today.
\<close>

theorem accepted_query_window:
  assumes "parseUsageQuery loc now query n = Inr q"
  shows "RetentionStart loc now \<le> q_from q \<and> q_from q \<le> q_to q \<and> q_to q \<le> Today loc now"
  using parseUsageQuery_window [OF assms] by blast

theorem accepted_query_window_witness:
  "RetentionStart None demo_now \<le> ''2025-03-04'' \<and> ''2025-03-10'' \<le> Today None demo_now"
  using accepted_query_window [OF demo_query] by (simp add: demo_query_def)



section \<open>Visitors\<close>

text \<open>
  C27. Registering gives nobody access: at most one user is added, at the end of the table,
  disabled, under a name nobody had and with the hash of a password of at least six bytes; no
  node's configuration depends on it, so every node that was in sync still is.
\<close>

theorem registration_gives_no_access:
  assumes "db_ok (w_db w)" and "run_state (HandleRegister lib r) w = (rp, w')"
  shows "(\<forall>i. in_sync w i \<longrightarrow> in_sync w' i) \<and>
    (w_db w' = w_db w \<and> rp_status rp \<noteq> 201 \<or>
     (\<exists>req hash u. as_credentials (r_body r) = Some req \<and> 6 \<le> length (lr_password req) \<and>
        bcrypt_hash lib (lr_password req) (w_tick w) = Some hash \<and>
        d_users (w_db w') = d_users (w_db w) @ [u] \<and> d_access (w_db w') = d_access (w_db w) \<and>
        u_name u = lr_username req \<and> u_password u = hash \<and> \<not> u_enabled u \<and>
        lr_username req \<notin> u_name ` set (d_users (w_db w))))"
proof -
  have ok: "users_ok (w_db w)" using assms(1) by (simp add: db_ok_def)
  have added: "\<exists>u. d_users (w_db w') = d_users (w_db w) @ [u] \<and> d_access (w_db w') = d_access (w_db w) \<and>
      u_name u = name \<and> u_password u = hash \<and> \<not> u_enabled u \<and> name \<notin> u_name ` set (d_users (w_db w))"
    if "registered name hash (w_db w) (w_db w')" (is "?reg name hash") for name hash
  proof -
    obtain u where u: "w_db w' = add_user u (w_db w)" "u_id u = d_user_seq (w_db w) + 1"
      "u_name u = name \<and> u_password u = hash \<and> \<not> u_enabled u \<and> name \<notin> u_name ` set (d_users (w_db w))"
      using \<open>?reg name hash\<close> unfolding registered_def by blast
    show ?thesis
      by (rule exI [of _ u]) (use u add_user_last [OF ok u(2)] in \<open>simp add: add_user_def\<close>)
  qed
  then show ?thesis using wp_run [OF wp_register [OF ok] assms(2)] by blast
qed

theorem registration_gives_no_access_witness:
  "\<forall>i. in_sync (snd (run_state (HandleRegister demo_lib (demo_request ''POST'' ''/api/register'' (no_body\<lparr>as_credentials :=
     Some \<lparr>lr_username = ''bob'', lr_password = ''secret''\<rparr>\<rparr>))) good_world)) i"
  using registration_gives_no_access [OF calm(1), OF surjective_pairing] good_sync by blast

text \<open>
  C28. A login that is answered with 200 is the configured administrator's, with the configured
  password that is not empty, or an enabled user's whose stored hash matches the password; the
  token is signed for that role and id and for seven days. Logging in changes nothing.
\<close>

theorem login_needs_credentials:
  assumes "run_state (HandleLogin lib h r) w = (rp, w')"
  shows "w_db w' = w_db w \<and> (rp_status rp = 200 \<longrightarrow> (\<exists>req role k. as_credentials (r_body r) = Some req \<and>
    (role = ''admin'' \<and> k = 0 \<and> au_admin_pass h \<noteq> '''' \<and> lr_username req = au_admin_user h
        \<and> lr_password req = au_admin_pass h
     \<or> role = ''user'' \<and> (\<exists>u \<in> set (d_users (w_db w)). u_id u = k \<and> u_name u = lr_username req
        \<and> u_enabled u \<and> bcrypt_compare lib (u_password u) (lr_password req))) \<and>
    rp_payload rp = PLogin (jwt_sign lib (au_secret h) \<lparr>cl_user_id = of_int k, cl_role = role,
      cl_username = lr_username req, cl_exp = add_days 7 (w_now w)\<rparr>) role (lr_username req) k))"
  using wp_run [OF wp_login assms] unfolding credentials_for_def by blast

theorem login_needs_credentials_witness:
  "rp_status (fst (run_state (HandleLogin demo_lib (pn_auth demo_panel) (demo_request ''POST'' ''/api/login''
     (no_body\<lparr>as_credentials := Some \<lparr>lr_username = ''ann'', lr_password = ''g''\<rparr>\<rparr>))) good_world)) \<noteq> 200"
  using login_needs_credentials [of demo_lib "pn_auth demo_panel" "demo_request ''POST'' ''/api/login''
     (no_body\<lparr>as_credentials := Some \<lparr>lr_username = ''ann'', lr_password = ''g''\<rparr>\<rparr>)" good_world, OF surjective_pairing]
  by (auto simp: demo_request_def demo_panel_def demo_lib_def demo_user_def)

text \<open>
  C29. A share link shows nobody else's nodes: it is answered with 200 only for the token of an
  enabled user that has not expired, and the text lists only enabled nodes assigned to that
  user, each with its own inbounds.
\<close>

theorem share_link_scope:
  assumes "run_state (Subscription_ServeHTTP r) w = (rp, w')" and "rp_status rp = 200"
  shows "\<exists>user ns hs body. link_holder (w_now w) (w_db w) (TrimPrefix (r_path r) ''/sub/'') (u_id user) \<and>
    rp_payload rp = PText hs body \<and>
    (body = GenerateClashConfig user ns \<or> body = base64_string (GenerateSubscription user ns)) \<and>
    (\<forall>(n, ibs) \<in> set ns. n \<in> set (d_nodes (w_db w)) \<and> n_enabled n \<and> (u_id user, n_id n) \<in> set (d_access (w_db w)) \<and>
       ibs = inbounds_of (n_id n) (w_db w))"
proof -
  obtain user where user: "link_holder (w_now w) (w_db w) (TrimPrefix (r_path r) ''/sub/'') (u_id user)"
    and shown: "text_for (w_db w) user rp"
    using wp_run [OF wp_Subscription assms(1)] assms(2) by blast
  from shown obtain ns hs body where "\<forall>x \<in> set ns. open_node (w_db w) (u_id user) x" "rp_payload rp = PText hs body"
    "body = GenerateClashConfig user ns \<or> body = base64_string (GenerateSubscription user ns)"
    unfolding text_for_def by blast
  with user show ?thesis
    by (intro exI [of _ user] exI [of _ ns] exI [of _ hs] exI [of _ body]) (auto simp: open_node_def)
qed

theorem share_link_scope_witness:
  "\<exists>rp w'. run_state (Subscription_ServeHTTP (demo_request ''GET'' ''/sub/tok'' no_body)) good_world = (rp, w')
     \<and> rp_status rp = 200 \<and> link_holder demo_now demo_db ''tok'' 1"
proof -
  let ?r = "demo_request ''GET'' ''/sub/tok'' no_body"
  have reset: "run_state (UserStore_CheckTrafficReset (scan_user demo_user)) v = (scan_user demo_user, v)"
    if "w_now v = demo_now" for v
  proof -
    have "\<not> (u_reset_day demo_user \<le> 0 \<or> u_reset_day demo_user > 28)"
      "u_last_reset demo_user \<ge> FormatDay (reset_date (u_reset_day demo_user) demo_now)" by code_simp+
    then show ?thesis
      using that by (simp add: UserStore_CheckTrafficReset_def get_now_def scan_user_def Let_def)
  qed
  have found: "List.find (\<lambda>u. u_sub_token u = ''tok'') [demo_user] = Some demo_user"
    and active: "IsActive demo_now (scan_user demo_user)" by code_simp+
  have "rp_status (fst (run_state (Subscription_ServeHTTP ?r) good_world)) = 200"
    using active
    by (simp add: Subscription_ServeHTTP_def demo_request_def TrimPrefix_def HasPrefix_def UserStore_GetBySubToken_def
        db_query_def attempt_def get_now_def NodeStore_List_def subscription_nodes_def AccessStore_ListNodeIDs_def
        accessible_node_def NodeStore_ListInbounds_def subscription_text_def writeJSON_def next_tick_def reset Let_def found
        del: find.simps)
  then obtain rp w' where run: "run_state (Subscription_ServeHTTP ?r) good_world = (rp, w')" and st: "rp_status rp = 200"
    by (metis prod.collapse)
  from share_link_scope [OF run st] obtain k where "link_holder demo_now demo_db ''tok'' k"
    by (auto simp: demo_request_def TrimPrefix_def HasPrefix_def)
  moreover from this have "k = 1" by (auto simp: link_holder_def)
  ultimately show ?thesis using run st by auto
qed

section \<open>The monthly reset\<close>



end
